(* ===== verification/Prelude.thy ===== *)
theory Prelude
  imports Complex_Main "HOL-Library.Sublist"
begin

text \<open>
  Shared vocabulary of the CloudMesh development: the value types of the TypeScript sources
  (milliseconds, dollars, results with thrown errors, JSON values), the pieces of the JavaScript
  standard library that the sources call (\<^verbatim>\<open>Math.floor/ceil/round\<close>, template strings,
  \<^verbatim>\<open>split\<close>, \<^verbatim>\<open>join\<close>, \<^verbatim>\<open>trim\<close>, \<^verbatim>\<open>startsWith\<close>) and the generic lemmas
  about lists and key strings the component theories share.

  JavaScript numbers that carry fractions are rationals here (no rounding error is modelled);
  millisecond timestamps and counters are integers.
\<close>

named_theorems key_simps \<open>injectivity of the store keys the services build\<close>
named_theorems laws \<open>lookup-after-update laws of the services the code calls\<close>
named_theorems js_simps \<open>facts about the modelled JavaScript library functions\<close>

type_synonym ms = int
type_synonym usd = rat

section \<open>Numbers\<close>

text \<open>\<^verbatim>\<open>Math.floor\<close>, \<^verbatim>\<open>Math.ceil\<close> and \<^verbatim>\<open>Math.round\<close> (halves round up).\<close>

definition math_floor :: "rat \<Rightarrow> int" where
  "math_floor x = \<lfloor>x\<rfloor>"

definition math_ceil :: "rat \<Rightarrow> int" where
  "math_ceil x = \<lceil>x\<rceil>"

definition math_round :: "rat \<Rightarrow> int" where
  "math_round x = \<lfloor>x + 1/2\<rfloor>"

lemma math_round_int [simp, js_simps]: "math_round (of_int n) = n"
  unfolding math_round_def by linarith

lemma math_round_numeral [simp, js_simps]: "math_round (numeral k) = numeral k" "math_round 0 = 0" "math_round 1 = 1"
  using math_round_int [of "numeral k"] math_round_int [of 0] math_round_int [of 1] by simp_all

lemma math_round_error:
  "of_int (math_round x) - x \<le> 1/2" "x - of_int (math_round x) < 1/2"
  unfolding math_round_def by linarith+

lemma math_round_abs_error: "\<bar>of_int (math_round x) / 1000000 - x / 1000000\<bar> \<le> 1 / 2000000"
  using math_round_error [of x] by (intro abs_leI) (simp_all add: field_simps)

lemma math_round_mono: "x \<le> y \<Longrightarrow> math_round x \<le> math_round y"
  unfolding math_round_def by (simp add: floor_mono)

lemma math_round_nonneg: "0 \<le> x \<Longrightarrow> 0 \<le> math_round x"
  unfolding math_round_def by linarith

section \<open>Decimal printing\<close>

text \<open>The decimal digits a template string or \<^verbatim>\<open>String(n)\<close> writes for an integer.\<close>

definition digit_char :: "nat \<Rightarrow> char" where
  "digit_char d = char_of (48 + d)"

text \<open>The one character of the messages that is not ASCII, in UTF-8.\<close>

abbreviation em_dash :: string where
  "em_dash \<equiv> [CHR 0xE2, CHR 0x80, CHR 0x94]"

fun show_nat :: "nat \<Rightarrow> string" where
  "show_nat n = (if n < 10 then [digit_char n] else show_nat (n div 10) @ [digit_char (n mod 10)])"

declare show_nat.simps [simp del]

definition show_int :: "int \<Rightarrow> string" where
  "show_int i = (if i < 0 then CHR ''-'' # show_nat (nat (- i)) else show_nat (nat i))"

definition digit_value :: "char \<Rightarrow> nat" where
  "digit_value c = of_char c - 48"

definition is_digit :: "char \<Rightarrow> bool" where
  "is_digit c \<longleftrightarrow> 48 \<le> (of_char c :: nat) \<and> (of_char c :: nat) \<le> 57"

definition read_nat :: "string \<Rightarrow> nat" where
  "read_nat = foldl (\<lambda>n c. 10 * n + digit_value c) 0"

lemma of_char_digit_char: "d < 10 \<Longrightarrow> of_char (digit_char d) = (48 + d :: nat)"
  by (simp add: digit_char_def)

lemma digit_value_digit_char [simp]: "d < 10 \<Longrightarrow> digit_value (digit_char d) = d"
  by (simp add: digit_value_def of_char_digit_char)

lemma is_digit_digit_char [simp]: "d < 10 \<Longrightarrow> is_digit (digit_char d)"
  by (simp add: is_digit_def of_char_digit_char)

lemma read_show_nat [simp, js_simps]: "read_nat (show_nat n) = n"
proof (induction n rule: show_nat.induct)
  case (1 n)
  show ?case
  proof (cases "n < 10")
    case True
    then show ?thesis by (simp add: show_nat.simps [of n] read_nat_def)
  next
    case False
    have "read_nat (show_nat n) = 10 * read_nat (show_nat (n div 10)) + n mod 10"
      using False by (subst show_nat.simps) (simp add: read_nat_def)
    with 1 False show ?thesis by simp
  qed
qed

lemma show_nat_digits: "c \<in> set (show_nat n) \<Longrightarrow> is_digit c"
proof (induction n rule: show_nat.induct)
  case (1 n)
  show ?case
  proof (cases "n < 10")
    case True
    with "1.prems" show ?thesis by (simp add: show_nat.simps [of n])
  next
    case False
    with 1 show ?thesis by (auto simp: show_nat.simps [of n])
  qed
qed

lemma show_nat_nonempty [simp]: "show_nat n \<noteq> []"
  by (subst show_nat.simps) simp

lemma inj_show_nat: "inj show_nat"
  by (rule inj_on_inverseI [of _ read_nat]) simp

lemma show_nat_eq_iff [simp, key_simps]: "show_nat m = show_nat n \<longleftrightarrow> m = n"
  using inj_show_nat by (auto dest: injD)

lemma not_digit_notin_show_nat: "\<not> is_digit c \<Longrightarrow> c \<notin> set (show_nat n)"
  using show_nat_digits by blast

lemma show_int_eq_iff [simp, key_simps]: "show_int i = show_int j \<longleftrightarrow> i = j"
proof -
  have minus: "CHR ''-'' \<notin> set (show_nat n)" for n
    by (rule not_digit_notin_show_nat) (simp add: is_digit_def)
  have "show_nat n \<noteq> CHR ''-'' # xs" for n xs
    using minus [of n] by (metis list.set_intros(1))
  then show ?thesis
    by (auto simp: show_int_def) (metis \<open>\<And>n xs. show_nat n \<noteq> CHR ''-'' # xs\<close>)+
qed

lemma colon_notin_show_nat [simp, key_simps]: "CHR '':'' \<notin> set (show_nat n)"
  by (rule not_digit_notin_show_nat) (simp add: is_digit_def)

lemma colon_notin_show_int [simp, key_simps]: "CHR '':'' \<notin> set (show_int i)"
  by (simp add: show_int_def)

section \<open>Separated strings\<close>

text \<open>\<^verbatim>\<open>s.split(d)\<close> for a one-character separator, and \<^verbatim>\<open>xs.join(d)\<close>.\<close>

fun split_on :: "'a \<Rightarrow> 'a list \<Rightarrow> 'a list list" where
  "split_on d [] = [[]]"
| "split_on d (x # xs) =
     (if x = d then [] # split_on d xs
      else (case split_on d xs of [] \<Rightarrow> [[x]] | y # ys \<Rightarrow> (x # y) # ys))"

fun join_with :: "'a list \<Rightarrow> 'a list list \<Rightarrow> 'a list" where
  "join_with d [] = []"
| "join_with d [x] = x"
| "join_with d (x # y # xs) = x @ d @ join_with d (y # xs)"

lemma split_on_nonempty [simp]: "split_on d xs \<noteq> []"
  by (cases xs) (auto split: list.splits)

lemma split_on_no_sep: "d \<notin> set xs \<Longrightarrow> split_on d xs = [xs]"
  by (induction xs) auto

lemma split_on_append_sep: "d \<notin> set xs \<Longrightarrow> split_on d (xs @ d # ys) = xs # split_on d ys"
  by (induction xs) auto

lemma join_with_split_on: "join_with [d] (split_on d xs) = xs"
proof (induction xs)
  case Nil
  then show ?case by simp
next
  case (Cons x xs)
  obtain y ys where yys: "split_on d xs = y # ys"
    using split_on_nonempty [of d xs] by (cases "split_on d xs") auto
  then show ?case using Cons by (cases ys) auto
qed

lemma split_on_join_with:
  "xss \<noteq> [] \<Longrightarrow> (\<And>xs. xs \<in> set xss \<Longrightarrow> d \<notin> set xs) \<Longrightarrow> split_on d (join_with [d] xss) = xss"
  by (induction "[d]" xss rule: join_with.induct) (auto simp: split_on_no_sep split_on_append_sep)

lemma split_on_pieces: "p \<in> set (split_on d xs) \<Longrightarrow> d \<notin> set p"
  by (induction xs arbitrary: p) (auto split: if_splits list.splits)

text \<open>Two keys \<open>a:x\<close> and \<open>b:y\<close> whose last components contain no separator.\<close>

lemma last_sep_inject [key_simps]:
  assumes "d \<notin> set x" and "d \<notin> set y"
  shows "a @ d # x = b @ d # y \<longleftrightarrow> a = b \<and> x = y"
proof
  assume eq: "a @ d # x = b @ d # y"
  have "rev x @ d # rev a = rev y @ d # rev b"
    using arg_cong [OF eq, of rev] by simp
  then have "split_on d (rev x @ d # rev a) = split_on d (rev y @ d # rev b)" by simp
  then have "rev x = rev y"
    using assms by (simp add: split_on_append_sep)
  with eq show "a = b \<and> x = y" by simp
qed simp

lemma first_sep_inject [key_simps]:
  assumes "d \<notin> set a" and "d \<notin> set b"
  shows "a @ d # x = b @ d # y \<longleftrightarrow> a = b \<and> x = y"
proof
  assume eq: "a @ d # x = b @ d # y"
  then have "split_on d (a @ d # x) = split_on d (b @ d # y)" by simp
  then have "a = b" using assms by (simp add: split_on_append_sep)
  with eq show "a = b \<and> x = y" by simp
qed simp

text \<open>\<^verbatim>\<open>trim\<close> removes the white space of a string at both ends.\<close>

definition is_space :: "char \<Rightarrow> bool" where
  "is_space c \<longleftrightarrow> (of_char c :: nat) \<in> {9, 10, 11, 12, 13, 32}"

definition trim :: "string \<Rightarrow> string" where
  "trim s = rev (dropWhile is_space (rev (dropWhile is_space s)))"

lemma trim_id: "s \<noteq> [] \<Longrightarrow> \<not> is_space (hd s) \<Longrightarrow> \<not> is_space (last s) \<Longrightarrow> trim s = s"
proof -
  assume s: "s \<noteq> []" "\<not> is_space (hd s)" "\<not> is_space (last s)"
  then have front: "dropWhile is_space s = s" by (cases s) auto
  have "rev s \<noteq> []" "\<not> is_space (hd (rev s))" using s by (auto simp: hd_rev)
  then have "dropWhile is_space (rev s) = rev s" by (cases "rev s") auto
  with front show ?thesis by (simp add: trim_def)
qed

lemma trim_Nil [simp]: "trim [] = []"
  by (simp add: trim_def)

lemma trim_space_Cons [simp]: "is_space c \<Longrightarrow> trim (c # s) = trim s"
  by (simp add: trim_def)

abbreviation starts_with :: "'a list \<Rightarrow> 'a list \<Rightarrow> bool" where
  "starts_with s p \<equiv> prefix p s"

section \<open>Thrown errors as values\<close>

type_synonym ('e, 'a) result = "'e + 'a"

definition result_bind :: "('e, 'a) result \<Rightarrow> ('a \<Rightarrow> ('e, 'b) result) \<Rightarrow> ('e, 'b) result" where
  "result_bind r f = (case r of Inl e \<Rightarrow> Inl e | Inr a \<Rightarrow> f a)"

lemma result_bind_simps [simp]:
  "result_bind (Inl e) f = Inl e" "result_bind (Inr a) f = f a"
  by (simp_all add: result_bind_def)

section \<open>JSON values\<close>

datatype json =
    JNull
  | JBool bool
  | JNum rat
  | JStr string
  | JArr "json list"
  | JObj "(string \<times> json) list"

text \<open>Reading a property of a parsed value; a missing property is \<open>None\<close>.\<close>

fun jget :: "json \<Rightarrow> string \<Rightarrow> json option" where
  "jget (JObj kvs) k = map_of kvs k"
| "jget _ k = None"

fun jstr :: "json option \<Rightarrow> string" where
  "jstr (Some (JStr s)) = s"
| "jstr _ = []"

fun jnum :: "json option \<Rightarrow> rat" where
  "jnum (Some (JNum n)) = n"
| "jnum _ = 0"

section \<open>Lists\<close>

lemma length_filter_le_mono:
  "(\<And>x. x \<in> set xs \<Longrightarrow> P x \<Longrightarrow> Q x) \<Longrightarrow> length (filter P xs) \<le> length (filter Q xs)"
  by (induction xs) (auto simp: le_SucI)

lemma sorted_wrt_last_ge: "sorted (xs @ [x]) \<Longrightarrow> y \<in> set xs \<Longrightarrow> y \<le> x"
  by (simp add: sorted_append)

end
