(* ===== verification/Redis.thy ===== *)
theory Redis
  imports Prelude
begin

text \<open>
  The Redis server is not part of the repository, so it is a parameter of the model: a record of
  the commands the sources issue (through ioredis or inside their Lua scripts), and the locale
  \<open>redis_service\<close> with the documented behaviour the sources rely on, stated as what a read
  returns after each write. Every definition of the development that talks to Redis takes the record
  as its first argument. \<open>mem_redis\<close> is a concrete server (a map from keys to values with
  deadlines) on which the locale is interpreted.

  Commands carry the server time (milliseconds) at which they run. A hash field remembers whether
  it was written as a number or as text; a string value is either text or a serialised JSON value.
\<close>

datatype hval = HNum rat | HStr string

datatype sval = SText string | SJson json

text \<open>A sorted set is the list of its members with their scores, in score order.\<close>

datatype rvalue =
    RStr sval
  | RInt int
  | RHash "string \<rightharpoonup> hval"
  | RZset "(string \<times> int) list"
  | RSet "string list"

record 's redis =
  r_read :: "string \<Rightarrow> ms \<Rightarrow> 's \<Rightarrow> rvalue option"
  r_set :: "string \<Rightarrow> sval \<Rightarrow> ms \<Rightarrow> ms \<Rightarrow> 's \<Rightarrow> 's"
  r_del :: "string \<Rightarrow> ms \<Rightarrow> 's \<Rightarrow> 's"
  r_incr :: "string \<Rightarrow> ms \<Rightarrow> 's \<Rightarrow> int \<times> 's"
  r_pexpire :: "string \<Rightarrow> ms \<Rightarrow> ms \<Rightarrow> 's \<Rightarrow> 's"
  r_hset :: "string \<Rightarrow> (string \<times> hval) list \<Rightarrow> ms \<Rightarrow> 's \<Rightarrow> 's"
  r_zadd :: "string \<Rightarrow> int \<Rightarrow> string \<Rightarrow> ms \<Rightarrow> 's \<Rightarrow> 's"
  r_zremrangebyscore :: "string \<Rightarrow> int option \<Rightarrow> int \<Rightarrow> ms \<Rightarrow> 's \<Rightarrow> 's"
  r_sadd :: "string \<Rightarrow> string \<Rightarrow> ms \<Rightarrow> 's \<Rightarrow> 's"

text \<open>The reading commands, by the type of the key.\<close>

definition r_get :: "('s, 'm) redis_scheme \<Rightarrow> string \<Rightarrow> ms \<Rightarrow> 's \<Rightarrow> sval option" where
  "r_get R k t s = (case r_read R k t s of Some (RStr v) \<Rightarrow> Some v | _ \<Rightarrow> None)"

definition r_counter :: "('s, 'm) redis_scheme \<Rightarrow> string \<Rightarrow> ms \<Rightarrow> 's \<Rightarrow> int option" where
  "r_counter R k t s = (case r_read R k t s of Some (RInt n) \<Rightarrow> Some n | _ \<Rightarrow> None)"

definition r_hget :: "('s, 'm) redis_scheme \<Rightarrow> string \<Rightarrow> string \<Rightarrow> ms \<Rightarrow> 's \<Rightarrow> hval option" where
  "r_hget R k f t s = (case r_read R k t s of Some (RHash h) \<Rightarrow> h f | _ \<Rightarrow> None)"

definition r_zrange :: "('s, 'm) redis_scheme \<Rightarrow> string \<Rightarrow> ms \<Rightarrow> 's \<Rightarrow> (string \<times> int) list" where
  "r_zrange R k t s = (case r_read R k t s of Some (RZset z) \<Rightarrow> z | _ \<Rightarrow> [])"

definition r_smembers :: "('s, 'm) redis_scheme \<Rightarrow> string \<Rightarrow> ms \<Rightarrow> 's \<Rightarrow> string list" where
  "r_smembers R k t s = (case r_read R k t s of Some (RSet ms) \<Rightarrow> ms | _ \<Rightarrow> [])"

text \<open>\<^verbatim>\<open>SET key value PX ttl NX\<close>: stores only when the key does not exist.\<close>

definition r_set_nx ::
    "('s, 'm) redis_scheme \<Rightarrow> string \<Rightarrow> sval \<Rightarrow> ms \<Rightarrow> ms \<Rightarrow> 's \<Rightarrow> bool \<times> 's" where
  "r_set_nx R k v px t s =
     (case r_read R k t s of None \<Rightarrow> (True, r_set R k v px t s) | Some _ \<Rightarrow> (False, s))"

text \<open>Sorted-set insertion: an existing member gets the new score.\<close>

fun zinsert :: "string \<times> int \<Rightarrow> (string \<times> int) list \<Rightarrow> (string \<times> int) list" where
  "zinsert e [] = [e]"
| "zinsert e (x # xs) = (if snd e < snd x then e # x # xs else x # zinsert e xs)"

definition zput :: "string \<Rightarrow> int \<Rightarrow> (string \<times> int) list \<Rightarrow> (string \<times> int) list" where
  "zput m sc z = zinsert (m, sc) (filter (\<lambda>e. fst e \<noteq> m) z)"

definition zdrop_range :: "int option \<Rightarrow> int \<Rightarrow> (string \<times> int) list \<Rightarrow> (string \<times> int) list" where
  "zdrop_range lo hi z =
     filter (\<lambda>e. \<not> ((case lo of None \<Rightarrow> True | Some l \<Rightarrow> l \<le> snd e) \<and> snd e \<le> hi)) z"

lemma set_zinsert [simp]: "set (zinsert e z) = insert e (set z)"
  by (induction z) auto

lemma length_zinsert [simp]: "length (zinsert e z) = Suc (length z)"
  by (induction z) auto

lemma zinsert_nonempty [simp]: "zinsert e z \<noteq> []"
  by (cases z) auto

lemma zput_nonempty [simp]: "zput m sc z \<noteq> []"
  by (simp add: zput_def)

lemma zput_fresh:
  "m \<notin> fst ` set z \<Longrightarrow> zput m sc z = zinsert (m, sc) z"
proof -
  assume "m \<notin> fst ` set z"
  then have "\<forall>e \<in> set z. fst e \<noteq> m" by (auto intro: rev_image_eqI)
  then show ?thesis by (simp add: zput_def)
qed

lemma distinct_zinsert: "m \<notin> fst ` set z \<Longrightarrow> distinct (map fst z) \<Longrightarrow> distinct (map fst (zinsert (m, sc) z))"
  by (induction z) auto

lemma set_zdrop_range [simp]:
  "set (zdrop_range lo hi z) =
     {e \<in> set z. \<not> ((case lo of None \<Rightarrow> True | Some l \<Rightarrow> l \<le> snd e) \<and> snd e \<le> hi)}"
  by (simp add: zdrop_range_def)

lemma distinct_zdrop_range: "distinct (map fst z) \<Longrightarrow> distinct (map fst (zdrop_range lo hi z))"
  by (simp add: zdrop_range_def distinct_map_filter)

section \<open>What the sources rely on\<close>

definition hset_value :: "(string \<times> hval) list \<Rightarrow> rvalue option \<Rightarrow> rvalue" where
  "hset_value fvs old =
     RHash ((case old of Some (RHash h) \<Rightarrow> h | _ \<Rightarrow> Map.empty) ++ map_of (rev fvs))"

text \<open>
  \<open>persist\<close>: between writes a value changes only by expiring. A write that keeps the key's
  deadline (\<^verbatim>\<open>INCR\<close>, \<^verbatim>\<open>HSET\<close>, \<^verbatim>\<open>ZADD\<close>) leaves a key that existed dead
  where it would have been dead without the write.
\<close>

locale redis_service =
  fixes R :: "('s, 'm) redis_scheme"
  assumes persist:
      "t \<le> t' \<Longrightarrow> r_read R k t' s = None \<or> r_read R k t' s = r_read R k t s"
    and read_set:
      "t \<le> t' \<Longrightarrow> r_read R k' t' (r_set R k v px t s) =
        (if k' = k then (if t' < t + px then Some (RStr v) else None) else r_read R k' t' s)"
    and read_del:
      "t \<le> t' \<Longrightarrow> r_read R k' t' (r_del R k t s) = (if k' = k then None else r_read R k' t' s)"
    and incr_result:
      "r_read R k t s = None \<or> r_read R k t s = Some (RInt n) \<Longrightarrow>
        fst (r_incr R k t s) = (case r_counter R k t s of None \<Rightarrow> 1 | Some m \<Rightarrow> m + 1)"
    and read_incr:
      "t \<le> t' \<Longrightarrow> r_read R k t s = None \<or> r_read R k t s = Some (RInt n) \<Longrightarrow>
        r_read R k' t' (snd (r_incr R k t s)) =
          (if k' = k then
             (case r_read R k t s of
                None \<Rightarrow> Some (RInt 1)
              | Some _ \<Rightarrow> map_option (\<lambda>_. RInt (n + 1)) (r_read R k t' s))
           else r_read R k' t' s)"
    and read_pexpire:
      "t \<le> t' \<Longrightarrow> r_read R k' t' (r_pexpire R k d t s) =
        (if k' = k then (if t' < t + d then r_read R k t s else None) else r_read R k' t' s)"
    and read_hset:
      "t \<le> t' \<Longrightarrow> r_read R k t s = None \<or> r_read R k t s = Some (RHash h) \<Longrightarrow>
        r_read R k' t' (r_hset R k fvs t s) =
          (if k' = k then
             (case r_read R k t s of
                None \<Rightarrow> Some (hset_value fvs None)
              | Some v \<Rightarrow> map_option (\<lambda>_. hset_value fvs (Some v)) (r_read R k t' s))
           else r_read R k' t' s)"
    and read_zadd:
      "t \<le> t' \<Longrightarrow> r_read R k t s = None \<or> r_read R k t s = Some (RZset z) \<Longrightarrow>
        r_read R k' t' (r_zadd R k sc m t s) =
          (if k' = k then
             (case r_read R k t s of
                None \<Rightarrow> Some (RZset [(m, sc)])
              | Some _ \<Rightarrow> map_option (\<lambda>_. RZset (zput m sc z)) (r_read R k t' s))
           else r_read R k' t' s)"
    and read_zremrangebyscore:
      "t \<le> t' \<Longrightarrow> r_read R k t s = None \<or> r_read R k t s = Some (RZset z) \<Longrightarrow>
        r_read R k' t' (r_zremrangebyscore R k lo hi t s) =
          (if k' = k then
             (case r_read R k t s of
                None \<Rightarrow> None
              | Some _ \<Rightarrow> (if zdrop_range lo hi z = [] then None
                            else map_option (\<lambda>_. RZset (zdrop_range lo hi z)) (r_read R k t' s)))
           else r_read R k' t' s)"
    and read_sadd:
      "t \<le> t' \<Longrightarrow> r_read R k t s = None \<or> r_read R k t s = Some (RSet ms) \<Longrightarrow>
        r_read R k' t' (r_sadd R k m t s) =
          (if k' = k then
             (case r_read R k t s of
                None \<Rightarrow> Some (RSet [m])
              | Some _ \<Rightarrow> map_option (\<lambda>_. RSet (if m \<in> set ms then ms else ms @ [m])) (r_read R k t' s))
           else r_read R k' t' s)"
begin

lemma read_later: "t \<le> t' \<Longrightarrow> r_read R k t' s = Some v \<Longrightarrow> r_read R k t s = Some v"
  using persist [of t t' k s] by auto

lemma read_stays_None: "t \<le> t' \<Longrightarrow> r_read R k t s = None \<Longrightarrow> r_read R k t' s = None"
  using persist [of t t' k s] by auto

lemma get_set:
  "t \<le> t' \<Longrightarrow> r_get R k' t' (r_set R k v px t s) =
     (if k' = k then (if t' < t + px then Some v else None) else r_get R k' t' s)"
  by (simp add: r_get_def read_set)

lemma get_del:
  "t \<le> t' \<Longrightarrow> r_get R k' t' (r_del R k t s) = (if k' = k then None else r_get R k' t' s)"
  by (simp add: r_get_def read_del)

lemma set_nx_fst: "fst (r_set_nx R k v px t s) \<longleftrightarrow> r_read R k t s = None"
  by (simp add: r_set_nx_def split: option.splits)

lemma read_set_nx:
  "t \<le> t' \<Longrightarrow> r_read R k' t' (snd (r_set_nx R k v px t s)) =
     (if k' = k \<and> r_read R k t s = None then (if t' < t + px then Some (RStr v) else None)
      else r_read R k' t' s)"
  by (simp add: r_set_nx_def read_set split: option.splits)

end

section \<open>A concrete server\<close>

type_synonym mem_state = "string \<Rightarrow> (rvalue \<times> ms option) option"

definition mem_read :: "string \<Rightarrow> ms \<Rightarrow> mem_state \<Rightarrow> rvalue option" where
  "mem_read k t s =
     (case s k of
        None \<Rightarrow> None
      | Some (v, None) \<Rightarrow> Some v
      | Some (v, Some d) \<Rightarrow> (if t < d then Some v else None))"

text \<open>A write that keeps the deadline of a live key and starts without one otherwise.\<close>

definition mem_modify :: "string \<Rightarrow> (rvalue option \<Rightarrow> rvalue option) \<Rightarrow> ms \<Rightarrow> mem_state \<Rightarrow> mem_state" where
  "mem_modify k f t s =
     (case mem_read k t s of
        None \<Rightarrow> s(k := map_option (\<lambda>v. (v, None)) (f None))
      | Some v \<Rightarrow> s(k := map_option (\<lambda>v'. (v', (case s k of Some (_, d) \<Rightarrow> d | None \<Rightarrow> None))) (f (Some v))))"

definition mem_redis :: "mem_state redis" where
  "mem_redis =
     \<lparr> r_read = mem_read,
       r_set = (\<lambda>k v px t s. s(k := Some (RStr v, Some (t + px)))),
       r_del = (\<lambda>k t s. s(k := None)),
       r_incr = (\<lambda>k t s.
          let n = (case mem_read k t s of Some (RInt m) \<Rightarrow> m + 1 | _ \<Rightarrow> 1)
          in (n, mem_modify k (\<lambda>_. Some (RInt n)) t s)),
       r_pexpire = (\<lambda>k d t s.
          case mem_read k t s of None \<Rightarrow> s(k := None) | Some v \<Rightarrow> s(k := Some (v, Some (t + d)))),
       r_hset = (\<lambda>k fvs t s. mem_modify k (\<lambda>old. Some (hset_value fvs old)) t s),
       r_zadd = (\<lambda>k sc m t s.
          mem_modify k (\<lambda>old. Some (RZset (zput m sc (case old of Some (RZset z) \<Rightarrow> z | _ \<Rightarrow> [])))) t s),
       r_zremrangebyscore = (\<lambda>k lo hi t s.
          mem_modify k (\<lambda>old. case old of
             Some (RZset z) \<Rightarrow>
               (if zdrop_range lo hi z = [] then None else Some (RZset (zdrop_range lo hi z)))
           | _ \<Rightarrow> None) t s),
       r_sadd = (\<lambda>k m t s.
          mem_modify k (\<lambda>old. Some (RSet (case old of
             Some (RSet ms) \<Rightarrow> (if m \<in> set ms then ms else ms @ [m]) | _ \<Rightarrow> [m]))) t s) \<rparr>"

definition mem_empty :: mem_state where
  "mem_empty = (\<lambda>_. None)"

lemma mem_read_modify_other: "k' \<noteq> k \<Longrightarrow> mem_read k' t' (mem_modify k f t s) = mem_read k' t' s"
  by (auto simp: mem_read_def mem_modify_def split: option.splits)

lemma mem_read_modify_same:
  "t \<le> t' \<Longrightarrow> mem_read k t' (mem_modify k f t s) =
     (case mem_read k t s of
        None \<Rightarrow> f None
      | Some v \<Rightarrow> (case f (Some v) of None \<Rightarrow> None | Some v' \<Rightarrow> map_option (\<lambda>_. v') (mem_read k t' s)))"
  by (auto simp: mem_read_def mem_modify_def split: option.splits prod.splits if_splits)

lemma mem_persist: "t \<le> t' \<Longrightarrow> mem_read k t' s = None \<or> mem_read k t' s = mem_read k t s"
  by (auto simp: mem_read_def split: option.splits prod.splits)

lemma mem_read_upd:
  "mem_read k' t' (s(k := e)) = (if k' = k then (case e of None \<Rightarrow> None | Some (v, None) \<Rightarrow> Some v
     | Some (v, Some d) \<Rightarrow> (if t' < d then Some v else None)) else mem_read k' t' s)"
  by (simp add: mem_read_def)

lemma mem_read_empty [simp]: "r_read mem_redis k t mem_empty = None"
  by (simp add: mem_redis_def mem_read_def mem_empty_def)

lemmas mem_read_modify = mem_read_modify_other mem_read_modify_same

interpretation mem: redis_service mem_redis
proof (unfold_locales, goal_cases)
  case (1 t t' k s)
  then show ?case using mem_persist by (simp add: mem_redis_def)
next
  case (2 t t' k' k v px s)
  then show ?case by (simp add: mem_redis_def mem_read_upd)
next
  case (3 t t' k' k s)
  then show ?case by (simp add: mem_redis_def mem_read_upd)
next
  case (4 k t s n)
  then show ?case by (auto simp: mem_redis_def r_counter_def Let_def)
next
  case (5 t t' k s n k')
  then show ?case by (cases "k' = k") (auto simp: mem_redis_def Let_def mem_read_modify)
next
  case (6 t t' k' k d s)
  then show ?case
    by (cases "mem_read k t s"; cases "k' = k") (simp_all add: mem_redis_def mem_read_upd)
next
  case (7 t t' k s h k' fvs)
  then show ?case by (cases "k' = k") (auto simp: mem_redis_def mem_read_modify)
next
  case (8 t t' k s z k' sc m)
  then show ?case by (cases "k' = k") (auto simp: mem_redis_def mem_read_modify zput_def)
next
  case (9 t t' k s z k' lo hi)
  then show ?case by (cases "k' = k") (auto simp: mem_redis_def mem_read_modify)
next
  case (10 t t' k s ms k' m)
  then show ?case by (cases "k' = k") (auto simp: mem_redis_def mem_read_modify)
qed

text \<open>Evaluating the concrete server.\<close>

lemma mem_sel:
  "r_read mem_redis = mem_read"
  "r_set mem_redis k v px t s = s(k := Some (RStr v, Some (t + px)))"
  "r_del mem_redis k t s = s(k := None)"
  "r_incr mem_redis k t s =
     (let n = (case mem_read k t s of Some (RInt m) \<Rightarrow> m + 1 | _ \<Rightarrow> 1)
      in (n, mem_modify k (\<lambda>_. Some (RInt n)) t s))"
  "r_pexpire mem_redis k d t s =
     (case mem_read k t s of None \<Rightarrow> s(k := None) | Some v \<Rightarrow> s(k := Some (v, Some (t + d))))"
  "r_hset mem_redis k fvs t s = mem_modify k (\<lambda>old. Some (hset_value fvs old)) t s"
  by (simp_all add: mem_redis_def)

lemmas mem_eval = mem_sel mem_read_upd mem_modify_def mem_read_def mem_empty_def hset_value_def
  r_get_def r_counter_def r_hget_def r_zrange_def r_smembers_def r_set_nx_def

end
