(* ===== verification/RateLimiter.thy ===== *)
theory RateLimiter
  imports Redis
begin

text \<open>
  The four distributed rate limiters of \<^verbatim>\<open>packages/rate-limiter\<close>. Each is its Lua script
  (one atomic step of the Redis server) and the TypeScript function around it. The locale
  \<open>credit_limiter\<close> is the contract three of them meet: a step that is admitted uses up credit,
  credit accrues at a bounded rate and nobody else's traffic touches it; its lemma bounds what any
  request sequence gets through. The application clock and the server clock are taken to agree.
\<close>

section \<open>types.ts\<close>

record RateLimitResult =
  allowed :: bool
  remaining :: int
  resetAt :: rat

section \<open>fixedWindow.ts\<close>

record FixedWindowConfig =
  fw_limit :: int
  fw_windowMs :: ms

definition fixedWindow_script ::
    "('s, 'm) redis_scheme \<Rightarrow> string \<Rightarrow> ms \<Rightarrow> int \<Rightarrow> ms \<Rightarrow> 's \<Rightarrow> (int \<times> int) \<times> 's" where
  "fixedWindow_script R key windowMs limit t s =
     (let (current, s1) = r_incr R key t s;
          s2 = (if current = 1 then r_pexpire R key windowMs t s1 else s1);
          allowedFlag = (if current \<le> limit then 1 else 0)
      in ((allowedFlag, current), s2))"

definition windowStartOf :: "ms \<Rightarrow> ms \<Rightarrow> ms" where
  "windowStartOf now windowMs = math_floor (of_int now / of_int windowMs) * windowMs"

definition fixedWindow_key :: "string \<Rightarrow> ms \<Rightarrow> string" where
  "fixedWindow_key ident windowStart = ''ratelimit:fixed:'' @ ident @ '':'' @ show_int windowStart"

definition fixedWindow ::
    "('s, 'm) redis_scheme \<Rightarrow> string \<Rightarrow> FixedWindowConfig \<Rightarrow> ms \<Rightarrow> 's \<Rightarrow> RateLimitResult \<times> 's" where
  "fixedWindow R ident cfg now s =
     (let windowStart = windowStartOf now (fw_windowMs cfg);
          key = fixedWindow_key ident windowStart;
          ((allowedFlag, current), s') =
            fixedWindow_script R key (fw_windowMs cfg) (fw_limit cfg) now s
      in (\<lparr>allowed = (allowedFlag = 1), remaining = max 0 (fw_limit cfg - current),
           resetAt = of_int (windowStart + fw_windowMs cfg)\<rparr>, s'))"

section \<open>slidingWindowLog.ts\<close>

record SlidingWindowLogConfig =
  sl_limit :: int
  sl_windowMs :: ms

definition slidingWindowLog_script ::
    "('s, 'm) redis_scheme \<Rightarrow> string \<Rightarrow> ms \<Rightarrow> ms \<Rightarrow> int \<Rightarrow> string \<Rightarrow> 's \<Rightarrow> (int \<times> int) \<times> 's" where
  "slidingWindowLog_script R key now windowMs limit member s =
     (let s1 = r_zremrangebyscore R key (Some 0) (now - windowMs) now s;
          count = int (length (r_zrange R key now s1))
      in if count < limit then
           (let s2 = r_zadd R key now member now s1;
                s3 = r_pexpire R key windowMs now s2
            in ((1, count + 1), s3))
         else ((0, count), s1))"

definition slidingWindowLog_key :: "string \<Rightarrow> string" where
  "slidingWindowLog_key ident = ''ratelimit:slidinglog:'' @ ident"

definition slidingWindowLog_member :: "ms \<Rightarrow> string \<Rightarrow> string" where
  "slidingWindowLog_member now uuid = show_int now @ ''-'' @ uuid"

definition slidingWindowLog ::
    "('s, 'm) redis_scheme \<Rightarrow> string \<Rightarrow> string \<Rightarrow> SlidingWindowLogConfig \<Rightarrow> ms \<Rightarrow> 's
      \<Rightarrow> RateLimitResult \<times> 's" where
  "slidingWindowLog R uuid ident cfg now s =
     (let ((allowedFlag, count), s') =
            slidingWindowLog_script R (slidingWindowLog_key ident) now (sl_windowMs cfg) (sl_limit cfg)
              (slidingWindowLog_member now uuid) s
      in (\<lparr>allowed = (allowedFlag = 1), remaining = max 0 (sl_limit cfg - count),
           resetAt = of_int (now + sl_windowMs cfg)\<rparr>, s'))"

section \<open>slidingWindowCounter.ts\<close>

record SlidingWindowCounterConfig =
  sc_limit :: int
  sc_windowMs :: ms

definition counter_or_zero :: "('s, 'm) redis_scheme \<Rightarrow> string \<Rightarrow> ms \<Rightarrow> 's \<Rightarrow> int" where
  "counter_or_zero R k t s = (case r_counter R k t s of None \<Rightarrow> 0 | Some n \<Rightarrow> n)"

definition slidingWindowCounter_script ::
    "('s, 'm) redis_scheme \<Rightarrow> string \<Rightarrow> string \<Rightarrow> int \<Rightarrow> ms \<Rightarrow> rat \<Rightarrow> ms \<Rightarrow> 's \<Rightarrow> (int \<times> rat) \<times> 's" where
  "slidingWindowCounter_script R currKey prevKey limit windowMs elapsedFraction t s =
     (let curr = counter_or_zero R currKey t s;
          prev = counter_or_zero R prevKey t s;
          weighted = of_int prev * (1 - elapsedFraction) + of_int curr
      in if weighted < of_int limit then
           (let (curr', s1) = r_incr R currKey t s;
                s2 = (if curr' = 1 then r_pexpire R currKey (windowMs * 2) t s1 else s1)
            in ((1, weighted + 1), s2))
         else ((0, weighted), s))"

definition slidingWindowCounter_key :: "string \<Rightarrow> ms \<Rightarrow> string" where
  "slidingWindowCounter_key ident start = ''ratelimit:slidingcounter:'' @ ident @ '':'' @ show_int start"

definition slidingWindowCounter ::
    "('s, 'm) redis_scheme \<Rightarrow> string \<Rightarrow> SlidingWindowCounterConfig \<Rightarrow> ms \<Rightarrow> 's \<Rightarrow> RateLimitResult \<times> 's" where
  "slidingWindowCounter R ident cfg now s =
     (let currWindowStart = windowStartOf now (sc_windowMs cfg);
          prevWindowStart = currWindowStart - sc_windowMs cfg;
          elapsedFraction = of_int (now - currWindowStart) / of_int (sc_windowMs cfg);
          ((allowedFlag, weighted), s') =
            slidingWindowCounter_script R (slidingWindowCounter_key ident currWindowStart)
              (slidingWindowCounter_key ident prevWindowStart)
              (sc_limit cfg) (sc_windowMs cfg) elapsedFraction now s
      in (\<lparr>allowed = (allowedFlag = 1),
           remaining = max 0 (math_floor (of_int (sc_limit cfg) - weighted)),
           resetAt = of_int (currWindowStart + sc_windowMs cfg)\<rparr>, s'))"

section \<open>tokenBucket.ts\<close>

record TokenBucketConfig =
  tb_capacity :: rat
  tb_refillPerSecond :: rat
  tb_requested :: "rat option"

fun tonumber :: "hval option \<Rightarrow> rat option" where
  "tonumber (Some (HNum x)) = Some x"
| "tonumber _ = None"

text \<open>
  A bucket is written with both fields at once, so a live bucket always has its
  \<^verbatim>\<open>last_refill\<close> (\<open>bucket_ok\<close> below); the model reads a missing one as \<open>now\<close>.
\<close>

definition tokenBucket_refill :: "rat \<Rightarrow> rat \<Rightarrow> rat \<Rightarrow> rat \<Rightarrow> rat \<Rightarrow> rat" where
  "tokenBucket_refill capacity refillPerSecond now tokens lastRefill =
     (let elapsedSeconds = max 0 ((now - lastRefill) / 1000)
      in min capacity (tokens + elapsedSeconds * refillPerSecond))"

definition tokenBucket_ttlSeconds :: "rat \<Rightarrow> rat \<Rightarrow> int" where
  "tokenBucket_ttlSeconds capacity refillPerSecond = math_ceil (capacity / refillPerSecond) + 60"

definition tokenBucket_script ::
    "('s, 'm) redis_scheme \<Rightarrow> string \<Rightarrow> rat \<Rightarrow> rat \<Rightarrow> ms \<Rightarrow> rat \<Rightarrow> 's \<Rightarrow> (int \<times> rat) \<times> 's" where
  "tokenBucket_script R key capacity refillPerSecond now requested s =
     (let bucket1 = tonumber (r_hget R key ''tokens'' now s);
          bucket2 = tonumber (r_hget R key ''last_refill'' now s);
          (tokens0, lastRefill) =
            (case bucket1 of
               None \<Rightarrow> (capacity, of_int now)
             | Some x \<Rightarrow> (x, (case bucket2 of Some l \<Rightarrow> l | None \<Rightarrow> of_int now)));
          tokens1 = tokenBucket_refill capacity refillPerSecond (of_int now) tokens0 lastRefill;
          (allowedFlag, tokens2) =
            (if tokens1 \<ge> requested then (1, tokens1 - requested) else (0, tokens1));
          s1 = r_hset R key [(''tokens'', HNum tokens2), (''last_refill'', HNum (of_int now))] now s;
          s2 = r_pexpire R key (tokenBucket_ttlSeconds capacity refillPerSecond * 1000) now s1
      in ((allowedFlag, tokens2), s2))"

definition tokenBucket_key :: "string \<Rightarrow> string" where
  "tokenBucket_key ident = ''ratelimit:tokenbucket:'' @ ident"

definition tb_cost :: "TokenBucketConfig \<Rightarrow> rat" where
  "tb_cost cfg = (case tb_requested cfg of None \<Rightarrow> 1 | Some r \<Rightarrow> r)"

definition tokenBucket ::
    "('s, 'm) redis_scheme \<Rightarrow> string \<Rightarrow> TokenBucketConfig \<Rightarrow> ms \<Rightarrow> 's \<Rightarrow> RateLimitResult \<times> 's" where
  "tokenBucket R ident cfg now s =
     (let requested = tb_cost cfg;
          ((allowedFlag, tokens), s') =
            tokenBucket_script R (tokenBucket_key ident) (tb_capacity cfg) (tb_refillPerSecond cfg)
              now requested s;
          deficit = max 0 (requested - tokens)
      in (\<lparr>allowed = (allowedFlag = 1), remaining = math_floor tokens,
           resetAt = of_int now + (deficit / tb_refillPerSecond cfg) * 1000\<rparr>, s'))"

section \<open>The contract of a limiter\<close>

text \<open>How many of the requests of \<open>q\<close> a run of the limiter admits.\<close>

fun admitted :: "('q \<Rightarrow> ms \<Rightarrow> 's \<Rightarrow> bool \<times> 's) \<Rightarrow> 'q \<Rightarrow> ('q \<times> ms) list \<Rightarrow> 's \<Rightarrow> nat" where
  "admitted step q [] s = 0"
| "admitted step q ((q', t) # rs) s =
     (let (a, s') = step q' t s in (if a \<and> q' = q then 1 else 0) + admitted step q rs s')"

definition admission :: "(ms \<Rightarrow> 's \<Rightarrow> RateLimitResult \<times> 's) \<Rightarrow> ms \<Rightarrow> 's \<Rightarrow> bool \<times> 's" where
  "admission f t s = (let (r, s') = f t s in (allowed r, s'))"

locale credit_limiter =
  fixes step :: "'q \<Rightarrow> ms \<Rightarrow> 's \<Rightarrow> bool \<times> 's"
    and q0 :: 'q
    and valid :: "ms \<Rightarrow> bool"
    and ok :: "ms \<Rightarrow> 's \<Rightarrow> bool"
    and credit :: "ms \<Rightarrow> 's \<Rightarrow> rat"
    and rate :: rat
    and cost :: rat
  assumes ok_step: "valid t \<Longrightarrow> ok t s \<Longrightarrow> ok t (snd (step q t s))"
    and ok_later: "valid t' \<Longrightarrow> t \<le> t' \<Longrightarrow> ok t s \<Longrightarrow> ok t' s"
    and admit: "valid t \<Longrightarrow> ok t s \<Longrightarrow> fst (step q0 t s) \<Longrightarrow>
      credit t (snd (step q0 t s)) \<le> credit t s - cost"
    and reject: "valid t \<Longrightarrow> ok t s \<Longrightarrow> \<not> fst (step q0 t s) \<Longrightarrow>
      credit t (snd (step q0 t s)) \<le> credit t s"
    and frame: "valid t \<Longrightarrow> ok t s \<Longrightarrow> q \<noteq> q0 \<Longrightarrow> credit t (snd (step q t s)) \<le> credit t s"
    and accrue: "valid t' \<Longrightarrow> t \<le> t' \<Longrightarrow> ok t s \<Longrightarrow>
      credit t' s \<le> credit t s + rate * of_int (t' - t)"
    and nonneg: "ok t s \<Longrightarrow> 0 \<le> credit t s"
begin

lemma admitted_le_credit:
  assumes "sorted (t0 # map snd rs)" and "\<And>t. t \<in> snd ` set rs \<Longrightarrow> valid t" and "ok t0 s"
  shows "of_nat (admitted step q0 rs s) * cost
    \<le> credit t0 s + rate * of_int (last (t0 # map snd rs) - t0)"
  using assms
proof (induction rs arbitrary: t0 s)
  case Nil
  then show ?case by (simp add: nonneg)
next
  case (Cons r rs)
  obtain q t where r: "r = (q, t)" by force
  define s' where "s' = snd (step q t s)"
  from Cons.prems r have "t0 \<le> t" and "valid t" by auto
  with Cons.prems(3) have ok: "ok t s" by (simp add: ok_later)
  then have "ok t s'" using \<open>valid t\<close> by (simp add: s'_def ok_step)
  with Cons.prems r have IH: "of_nat (admitted step q0 rs s') * cost
      \<le> credit t s' + rate * of_int (last (t # map snd rs) - t)"
    by (intro Cons.IH) auto
  have acc: "credit t s \<le> credit t0 s + rate * of_int (t - t0)"
    using accrue [OF \<open>valid t\<close> \<open>t0 \<le> t\<close> Cons.prems(3)] .
  have used: "credit t s' \<le> credit t s - (if fst (step q t s) \<and> q = q0 then cost else 0)"
  proof (cases "q = q0")
    case True
    then show ?thesis
      using admit [OF \<open>valid t\<close> ok] reject [OF \<open>valid t\<close> ok]
      by (cases "fst (step q0 t s)") (simp_all add: s'_def)
  next
    case False
    then show ?thesis using frame [OF \<open>valid t\<close> ok, of q] by (simp add: s'_def)
  qed
  have "of_nat (admitted step q0 (r # rs) s) * cost =
      (if fst (step q t s) \<and> q = q0 then cost else 0) + of_nat (admitted step q0 rs s') * cost"
    by (cases "fst (step q t s) \<and> q = q0") (auto simp: r s'_def split_beta Let_def algebra_simps)
  also have "\<dots> \<le> credit t0 s + rate * of_int (t - t0) + rate * of_int (last (t # map snd rs) - t)"
    using IH acc used by linarith
  also have "\<dots> = credit t0 s + rate * of_int (last (t0 # map snd (r # rs)) - t0)"
    by (simp add: r algebra_simps)
  finally show ?case .
qed

end

section \<open>Token bucket: the long-run rate\<close>

definition bucket_ok ::
    "('s, 'm) redis_scheme \<Rightarrow> TokenBucketConfig \<Rightarrow> string \<Rightarrow> ms \<Rightarrow> 's \<Rightarrow> bool" where
  "bucket_ok R cfg ident t s \<longleftrightarrow>
     r_read R (tokenBucket_key ident) t s = None \<or>
     (\<exists>h tok l. r_read R (tokenBucket_key ident) t s = Some (RHash h) \<and>
        h ''tokens'' = Some (HNum tok) \<and> h ''last_refill'' = Some (HNum l) \<and>
        0 \<le> tok \<and> tok \<le> tb_capacity cfg \<and> l \<le> of_int t \<and>
        (\<forall>t' \<ge> t. r_read R (tokenBucket_key ident) t' s = None \<longrightarrow>
           tb_capacity cfg \<le> tok + (of_int t' - l) / 1000 * tb_refillPerSecond cfg))"

text \<open>The tokens a request arriving at \<open>t\<close> finds in the bucket.\<close>

definition bucket_tokens ::
    "('s, 'm) redis_scheme \<Rightarrow> TokenBucketConfig \<Rightarrow> string \<Rightarrow> ms \<Rightarrow> 's \<Rightarrow> rat" where
  "bucket_tokens R cfg ident t s =
     (case r_read R (tokenBucket_key ident) t s of
        Some (RHash h) \<Rightarrow>
          (case (h ''tokens'', h ''last_refill'') of
             (Some (HNum tok), Some (HNum l)) \<Rightarrow>
               tokenBucket_refill (tb_capacity cfg) (tb_refillPerSecond cfg) (of_int t) tok l
           | _ \<Rightarrow> tb_capacity cfg)
      | _ \<Rightarrow> tb_capacity cfg)"

definition bucket_config :: "TokenBucketConfig \<Rightarrow> bool" where
  "bucket_config cfg \<longleftrightarrow> 0 < tb_capacity cfg \<and> 0 < tb_refillPerSecond cfg \<and> 0 < tb_cost cfg"

lemma tokenBucket_key_eq_iff [simp, key_simps]: "tokenBucket_key a = tokenBucket_key b \<longleftrightarrow> a = b"
  by (simp add: tokenBucket_key_def)

lemma tokenBucket_ttl_refills:
  assumes "0 < r" and "0 \<le> tok" and "of_int t + of_int (tokenBucket_ttlSeconds c r * 1000) \<le> (of_int t' :: rat)"
  shows "c \<le> tok + (of_int t' - of_int t) / 1000 * r"
proof -
  have "c / r \<le> of_int (math_ceil (c / r))" by (simp add: math_ceil_def)
  also have "\<dots> \<le> (of_int t' - of_int t) / 1000"
    using assms(3) by (simp add: tokenBucket_ttlSeconds_def field_simps)
  finally have "c / r * r \<le> (of_int t' - of_int t) / 1000 * r"
    using assms(1) by (intro mult_right_mono) auto
  with assms show ?thesis by simp
qed

lemma tokenBucket_ttl_pos:
  assumes "bucket_config cfg"
  shows "0 < tokenBucket_ttlSeconds (tb_capacity cfg) (tb_refillPerSecond cfg)"
proof -
  have "0 \<le> tb_capacity cfg / tb_refillPerSecond cfg" using assms by (simp add: bucket_config_def)
  then have "0 \<le> math_ceil (tb_capacity cfg / tb_refillPerSecond cfg)"
    unfolding math_ceil_def by linarith
  then show ?thesis by (simp add: tokenBucket_ttlSeconds_def)
qed

lemma min_min_add: "0 \<le> d \<Longrightarrow> min c (min c a + d) = min c (a + d)" for a c d :: rat
  by (simp add: min_def)

lemma bucket_tokens_cases [consumes 1, case_names absent live]:
  assumes "bucket_ok R cfg ident t s"
  obtains "r_read R (tokenBucket_key ident) t s = None" "bucket_tokens R cfg ident t s = tb_capacity cfg"
  | h tok l where "r_read R (tokenBucket_key ident) t s = Some (RHash h)"
      "h ''tokens'' = Some (HNum tok)" "h ''last_refill'' = Some (HNum l)"
      "0 \<le> tok" "tok \<le> tb_capacity cfg" "l \<le> of_int t"
      "\<And>t'. t \<le> t' \<Longrightarrow> r_read R (tokenBucket_key ident) t' s = None \<Longrightarrow>
         tb_capacity cfg \<le> tok + (of_int t' - l) / 1000 * tb_refillPerSecond cfg"
      "bucket_tokens R cfg ident t s =
         tokenBucket_refill (tb_capacity cfg) (tb_refillPerSecond cfg) (of_int t) tok l"
  using assms
  unfolding bucket_ok_def
proof (elim disjE exE conjE, goal_cases)
  case 1
  then show ?case by (simp add: bucket_tokens_def)
next
  case (2 h tok l)
  show ?case
    by (rule 2(2) [of h tok l]) (use 2 in \<open>simp_all add: bucket_tokens_def\<close>)
qed

definition tokens_after :: "TokenBucketConfig \<Rightarrow> rat \<Rightarrow> rat" where
  "tokens_after cfg T = (if tb_cost cfg \<le> T then T - tb_cost cfg else T)"

lemma bucket_tokens_bounds:
  assumes "bucket_ok R cfg ident t s" and "bucket_config cfg"
  shows "0 \<le> bucket_tokens R cfg ident t s" "bucket_tokens R cfg ident t s \<le> tb_capacity cfg"
  using assms by (cases rule: bucket_tokens_cases; auto simp: bucket_config_def tokenBucket_refill_def)+

context redis_service
begin

lemma tokenBucket_script_run:
  assumes ok: "bucket_ok R cfg ident t s" and cfg: "bucket_config cfg"
  defines "T \<equiv> bucket_tokens R cfg ident t s"
  shows "allowed (fst (tokenBucket R ident cfg t s)) \<longleftrightarrow> tb_cost cfg \<le> T"
    and "resetAt (fst (tokenBucket R ident cfg t s)) =
           of_int t + max 0 (tb_cost cfg - tokens_after cfg T) / tb_refillPerSecond cfg * 1000"
    and "remaining (fst (tokenBucket R ident cfg t s)) = math_floor (tokens_after cfg T)"
    and "\<exists>h. h ''tokens'' = Some (HNum (tokens_after cfg T)) \<and> h ''last_refill'' = Some (HNum (of_int t)) \<and>
           (\<forall>t' \<ge> t. \<forall>k. r_read R k t' (snd (tokenBucket R ident cfg t s)) =
              (if k = tokenBucket_key ident
               then (if t' < t + tokenBucket_ttlSeconds (tb_capacity cfg) (tb_refillPerSecond cfg) * 1000
                     then Some (RHash h) else None)
               else r_read R k t' s))"
proof -
  obtain h0 where h0: "r_read R (tokenBucket_key ident) t s = None \<or>
      r_read R (tokenBucket_key ident) t s = Some (RHash h0)"
    using ok by (cases rule: bucket_tokens_cases) auto
  have script: "tokenBucket_script R (tokenBucket_key ident) (tb_capacity cfg) (tb_refillPerSecond cfg)
      t (tb_cost cfg) s =
    ((if tb_cost cfg \<le> T then 1 else 0, tokens_after cfg T),
     r_pexpire R (tokenBucket_key ident)
       (tokenBucket_ttlSeconds (tb_capacity cfg) (tb_refillPerSecond cfg) * 1000) t
       (r_hset R (tokenBucket_key ident)
          [(''tokens'', HNum (tokens_after cfg T)), (''last_refill'', HNum (of_int t))] t s))"
    using ok cfg
    by (cases rule: bucket_tokens_cases)
      (simp_all add: tokenBucket_script_def T_def tokens_after_def r_hget_def tokenBucket_refill_def
        bucket_config_def Let_def split: option.splits)
  then show "allowed (fst (tokenBucket R ident cfg t s)) \<longleftrightarrow> tb_cost cfg \<le> T"
    and "resetAt (fst (tokenBucket R ident cfg t s)) =
           of_int t + max 0 (tb_cost cfg - tokens_after cfg T) / tb_refillPerSecond cfg * 1000"
    and "remaining (fst (tokenBucket R ident cfg t s)) = math_floor (tokens_after cfg T)"
    by (simp_all add: tokenBucket_def Let_def)
  let ?fvs = "[(''tokens'', HNum (tokens_after cfg T)), (''last_refill'', HNum (of_int t))]"
  define h where "h = (case r_read R (tokenBucket_key ident) t s of Some (RHash h) \<Rightarrow> h | _ \<Rightarrow> Map.empty)
     ++ map_of (rev ?fvs)"
  define s1 where "s1 = r_hset R (tokenBucket_key ident) ?fvs t s"
  have s1: "r_read R (tokenBucket_key ident) t s1 = Some (RHash h)"
    using h0 by (auto simp: s1_def h_def read_hset [OF order_refl h0] hset_value_def)
  have other: "r_read R k t' s1 = r_read R k t' s" if "t \<le> t'" "k \<noteq> tokenBucket_key ident" for k t'
    using that by (simp add: s1_def read_hset [OF _ h0])
  have "snd (tokenBucket R ident cfg t s) = r_pexpire R (tokenBucket_key ident)
      (tokenBucket_ttlSeconds (tb_capacity cfg) (tb_refillPerSecond cfg) * 1000) t s1"
    by (simp add: tokenBucket_def Let_def script s1_def)
  then have "\<forall>t' \<ge> t. \<forall>k. r_read R k t' (snd (tokenBucket R ident cfg t s)) =
              (if k = tokenBucket_key ident
               then (if t' < t + tokenBucket_ttlSeconds (tb_capacity cfg) (tb_refillPerSecond cfg) * 1000
                     then Some (RHash h) else None)
               else r_read R k t' s)"
    by (simp add: read_pexpire s1 other)
  moreover have "h ''tokens'' = Some (HNum (tokens_after cfg T))" "h ''last_refill'' = Some (HNum (of_int t))"
    by (simp_all add: h_def)
  ultimately show "\<exists>h. h ''tokens'' = Some (HNum (tokens_after cfg T)) \<and>
      h ''last_refill'' = Some (HNum (of_int t)) \<and>
      (\<forall>t' \<ge> t. \<forall>k. r_read R k t' (snd (tokenBucket R ident cfg t s)) =
              (if k = tokenBucket_key ident
               then (if t' < t + tokenBucket_ttlSeconds (tb_capacity cfg) (tb_refillPerSecond cfg) * 1000
                     then Some (RHash h) else None)
               else r_read R k t' s))" by blast
qed

lemma bucket_ok_step:
  assumes ok: "\<And>i. bucket_ok R (cfgs i) i t s" and cfg: "bucket_config (cfgs q)"
  shows "bucket_ok R (cfgs i) i t (snd (tokenBucket R q (cfgs q) t s))"
proof -
  let ?T = "bucket_tokens R (cfgs q) q t s"
  let ?ttl = "tokenBucket_ttlSeconds (tb_capacity (cfgs q)) (tb_refillPerSecond (cfgs q)) * 1000"
  obtain h where h: "h ''tokens'' = Some (HNum (tokens_after (cfgs q) ?T))"
      "h ''last_refill'' = Some (HNum (of_int t))"
    and rd: "\<And>t' k. t \<le> t' \<Longrightarrow> r_read R k t' (snd (tokenBucket R q (cfgs q) t s)) =
              (if k = tokenBucket_key q then (if t' < t + ?ttl then Some (RHash h) else None)
               else r_read R k t' s)"
    using tokenBucket_script_run(4) [OF ok cfg] by blast
  show ?thesis
  proof (cases "i = q")
    case False
    with ok [of i] show ?thesis by (simp add: bucket_ok_def rd)
  next
    case True
    have T: "0 \<le> tokens_after (cfgs q) ?T" "tokens_after (cfgs q) ?T \<le> tb_capacity (cfgs q)"
      using bucket_tokens_bounds [OF ok cfg] cfg by (auto simp: tokens_after_def bucket_config_def)
    have "tb_capacity (cfgs q) \<le>
        tokens_after (cfgs q) ?T + (of_int t' - of_int t) / 1000 * tb_refillPerSecond (cfgs q)"
      if "t + ?ttl \<le> t'" for t'
    proof (rule tokenBucket_ttl_refills)
      show "of_int t + of_int ?ttl \<le> (of_int t' :: rat)"
        using that by (metis of_int_add of_int_le_iff)
    qed (use cfg T in \<open>auto simp: bucket_config_def\<close>)
    then have "\<forall>t' \<ge> t. r_read R (tokenBucket_key q) t' (snd (tokenBucket R q (cfgs q) t s)) = None \<longrightarrow>
      tb_capacity (cfgs q) \<le>
        tokens_after (cfgs q) ?T + (of_int t' - of_int t) / 1000 * tb_refillPerSecond (cfgs q)"
      by (auto simp: rd split: if_splits)
    moreover have "t < t + ?ttl" using tokenBucket_ttl_pos [OF cfg] by simp
    ultimately show ?thesis
      unfolding bucket_ok_def using True T h by (auto simp: rd)
  qed
qed

lemma bucket_ok_later:
  assumes ok: "bucket_ok R cfg i t s" and "t \<le> t'"
  shows "bucket_ok R cfg i t' s"
  using ok
proof (cases rule: bucket_tokens_cases)
  case absent
  then show ?thesis using read_stays_None [OF \<open>t \<le> t'\<close>] by (simp add: bucket_ok_def)
next
  case (live h tok l)
  have "l \<le> of_int t'" using live(6) \<open>t \<le> t'\<close> by (meson of_int_le_iff order_trans)
  with live persist [OF \<open>t \<le> t'\<close>, of "tokenBucket_key i" s] show ?thesis
    unfolding bucket_ok_def using \<open>t \<le> t'\<close> by auto
qed

lemma bucket_tokens_step:
  assumes ok: "\<And>i. bucket_ok R (cfgs i) i t s" and cfg: "\<And>i. bucket_config (cfgs i)"
  shows "bucket_tokens R (cfgs i) i t (snd (tokenBucket R q (cfgs q) t s)) =
    (if i = q then tokens_after (cfgs q) (bucket_tokens R (cfgs q) q t s)
     else bucket_tokens R (cfgs i) i t s)"
proof -
  let ?T = "bucket_tokens R (cfgs q) q t s"
  obtain h where h: "h ''tokens'' = Some (HNum (tokens_after (cfgs q) ?T))"
      "h ''last_refill'' = Some (HNum (of_int t))"
    and rd: "\<And>k. r_read R k t (snd (tokenBucket R q (cfgs q) t s)) =
              (if k = tokenBucket_key q then
                 (if 0 < tokenBucket_ttlSeconds (tb_capacity (cfgs q)) (tb_refillPerSecond (cfgs q))
                  then Some (RHash h) else None)
               else r_read R k t s)"
    using tokenBucket_script_run(4) [OF ok cfg, of q] by force
  have "0 < tokenBucket_ttlSeconds (tb_capacity (cfgs q)) (tb_refillPerSecond (cfgs q))"
    using tokenBucket_ttl_pos [OF cfg] .
  moreover have "tokens_after (cfgs q) ?T \<le> tb_capacity (cfgs q)"
    using bucket_tokens_bounds [OF ok cfg, of q] cfg [of q]
    by (auto simp: tokens_after_def bucket_config_def)
  ultimately show ?thesis
    using h by (simp add: bucket_tokens_def rd tokenBucket_refill_def)
qed

lemma bucket_tokens_later:
  assumes ok: "bucket_ok R cfg i t s" and cfg: "bucket_config cfg" and "t \<le> t'"
  shows "bucket_tokens R cfg i t' s =
    min (tb_capacity cfg) (bucket_tokens R cfg i t s + of_int (t' - t) / 1000 * tb_refillPerSecond cfg)"
  using ok
proof (cases rule: bucket_tokens_cases)
  case absent
  then show ?thesis
    using read_stays_None [OF \<open>t \<le> t'\<close> absent(1)] cfg \<open>t \<le> t'\<close>
    by (simp add: bucket_tokens_def bucket_config_def)
next
  case (live h tok l)
  let ?C = "tb_capacity cfg" and ?r = "tb_refillPerSecond cfg"
  define A where "A = tok + (of_int t - l) / 1000 * ?r"
  define D where "D = of_int (t' - t) / 1000 * ?r"
  have "l \<le> of_int t'" using live(6) \<open>t \<le> t'\<close> by (meson of_int_le_iff order_trans)
  have AD: "tok + (of_int t' - l) / 1000 * ?r = A + D"
    by (simp add: A_def D_def field_simps)
  have "0 \<le> D" using cfg \<open>t \<le> t'\<close> by (simp add: bucket_config_def D_def)
  then have goal: "min ?C (bucket_tokens R cfg i t s + D) = min ?C (A + D)"
    using live(6,8) by (simp add: tokenBucket_refill_def A_def min_min_add)
  show ?thesis
  proof (cases "r_read R (tokenBucket_key i) t' s")
    case None
    then have "?C \<le> A + D" using live(7) \<open>t \<le> t'\<close> AD by metis
    with None goal show ?thesis by (simp add: bucket_tokens_def D_def)
  next
    case (Some v)
    then have "r_read R (tokenBucket_key i) t' s = Some (RHash h)"
      using persist [OF \<open>t \<le> t'\<close>, of "tokenBucket_key i" s] live by auto
    with live(2,3) have "bucket_tokens R cfg i t' s = min ?C (A + D)"
      using \<open>l \<le> of_int t'\<close> AD by (simp add: bucket_tokens_def tokenBucket_refill_def)
    with goal show ?thesis by (simp add: D_def)
  qed
qed

end

text \<open>All identifiers share the server; each has its own configuration.\<close>

locale token_bucket_traffic = redis_service R for R :: "('s, 'm) redis_scheme" +
  fixes cfgs :: "string \<Rightarrow> TokenBucketConfig" and q0 :: string
  assumes cfgs: "bucket_config (cfgs i)"

sublocale token_bucket_traffic \<subseteq> tb: credit_limiter
    "\<lambda>i. admission (tokenBucket R i (cfgs i))" q0 "\<lambda>_. True"
    "\<lambda>t s. \<forall>i. bucket_ok R (cfgs i) i t s" "\<lambda>t s. bucket_tokens R (cfgs q0) q0 t s"
    "tb_refillPerSecond (cfgs q0) / 1000" "tb_cost (cfgs q0)"
proof (unfold_locales, goal_cases)
  case (1 t s q)
  then show ?case by (simp add: admission_def split_beta Let_def bucket_ok_step cfgs)
next
  case (2 t' t s)
  then show ?case using bucket_ok_later by blast
next
  case (3 t s)
  then show ?case
    by (simp add: admission_def split_beta Let_def bucket_tokens_step cfgs tokenBucket_script_run(1)
        tokens_after_def)
next
  case (4 t s)
  then show ?case
    by (simp add: admission_def split_beta Let_def bucket_tokens_step cfgs tokenBucket_script_run(1)
        tokens_after_def)
next
  case (5 t s q)
  then show ?case by (simp add: admission_def split_beta Let_def bucket_tokens_step cfgs)
next
  case (6 t' t s)
  then show ?case using bucket_tokens_later [of "cfgs q0" q0 t s t', OF _ cfgs] by (simp add: min.coboundedI2)
next
  case (7 t s)
  then show ?case by (simp add: bucket_tokens_bounds(1) cfgs)
qed

context token_bucket_traffic
begin

lemma admission_bound:
  assumes "\<forall>i. bucket_ok R (cfgs i) i t0 s" and "sorted (t0 # map snd rs)"
  shows "of_nat (admitted (\<lambda>i. admission (tokenBucket R i (cfgs i))) q0 rs s) * tb_cost (cfgs q0)
    \<le> tb_capacity (cfgs q0) + tb_refillPerSecond (cfgs q0) / 1000 * of_int (last (t0 # map snd rs) - t0)"
  using tb.admitted_le_credit [of t0 rs s] bucket_tokens_bounds(2) [of R "cfgs q0" q0 t0 s] assms cfgs
  by force

text \<open>A denied caller that waits until \<^verbatim>\<open>resetAt\<close> is admitted.\<close>

lemma admitted_from_resetAt:
  assumes ok: "\<forall>i. bucket_ok R (cfgs i) i t s" and fits: "tb_cost (cfgs q0) \<le> tb_capacity (cfgs q0)"
    and later: "resetAt (fst (tokenBucket R q0 (cfgs q0) t s)) \<le> of_int t'" and "t \<le> t'"
  shows "allowed (fst (tokenBucket R q0 (cfgs q0) t' (snd (tokenBucket R q0 (cfgs q0) t s))))"
proof -
  let ?s' = "snd (tokenBucket R q0 (cfgs q0) t s)" and ?c = "cfgs q0"
  define T where "T = tokens_after ?c (bucket_tokens R ?c q0 t s)"
  have ok': "bucket_ok R ?c q0 t ?s'" using bucket_ok_step [where cfgs = cfgs and i = q0 and q = q0] ok cfgs by simp
  have "bucket_tokens R ?c q0 t ?s' = T"
    using bucket_tokens_step [where cfgs = cfgs and i = q0 and q = q0] ok cfgs by (simp add: T_def)
  then have tok: "bucket_tokens R ?c q0 t' ?s' =
      min (tb_capacity ?c) (T + of_int (t' - t) / 1000 * tb_refillPerSecond ?c)"
    using bucket_tokens_later [OF ok' cfgs \<open>t \<le> t'\<close>] by simp
  have "of_int t + max 0 (tb_cost ?c - T) / tb_refillPerSecond ?c * 1000 \<le> of_int t'"
    using later tokenBucket_script_run(2) [of ?c q0 t s] ok cfgs [of q0] by (simp add: T_def)
  then have "max 0 (tb_cost ?c - T) \<le> of_int (t' - t) / 1000 * tb_refillPerSecond ?c"
    using cfgs [of q0] by (simp add: bucket_config_def field_simps)
  then have "tb_cost ?c \<le> T + of_int (t' - t) / 1000 * tb_refillPerSecond ?c" by linarith
  then have "tb_cost ?c \<le> bucket_tokens R ?c q0 t' ?s'" using tok fits by simp
  then show ?thesis
    using tokenBucket_script_run(1) [OF bucket_ok_later [OF ok' \<open>t \<le> t'\<close>] cfgs] by simp
qed

end

definition sixty_rpm :: "string \<Rightarrow> TokenBucketConfig" where
  "sixty_rpm _ = \<lparr>tb_capacity = 60, tb_refillPerSecond = 1, tb_requested = None\<rparr>"

lemma sixty_rpm_simps [simp]:
  "tb_capacity (sixty_rpm i) = 60" "tb_refillPerSecond (sixty_rpm i) = 1" "tb_cost (sixty_rpm i) = 1"
  by (simp_all add: sixty_rpm_def tb_cost_def)

lemma bucket_config_sixty_rpm [simp]: "bucket_config (sixty_rpm i)"
  by (simp add: bucket_config_def sixty_rpm_def tb_cost_def)

lemma bucket_ok_mem_empty [simp]: "bucket_ok mem_redis cfg i t mem_empty"
  by (simp add: bucket_ok_def)

interpretation mem_tb: token_bucket_traffic mem_redis sixty_rpm q0 for q0
  by unfold_locales simp

text \<open>
  C2. Over any interleaving of requests of all identifiers (in time order), the tokens that the
  token bucket of one identifier hands out are at most its capacity plus what it refills over the
  elapsed time: the burst and the long-run rate of the documentation.
\<close>

theorem tokenBucket_admission_bound:
  assumes "redis_service R" and "\<forall>i. bucket_config (cfgs i)" and "\<forall>i. bucket_ok R (cfgs i) i t0 s"
    and "sorted (t0 # map snd rs)"
  shows "of_nat (admitted (\<lambda>i. admission (tokenBucket R i (cfgs i))) q rs s) * tb_cost (cfgs q)
    \<le> tb_capacity (cfgs q) + tb_refillPerSecond (cfgs q) / 1000 * of_int (last (t0 # map snd rs) - t0)"
  using token_bucket_traffic.admission_bound [of R cfgs t0 s rs q] assms
  by (simp add: token_bucket_traffic_def token_bucket_traffic_axioms_def)

theorem tokenBucket_admission_bound_witness:
  "of_nat (admitted (\<lambda>i. admission (tokenBucket mem_redis i (sixty_rpm i))) ''k1''
      [(''k1'', 5000), (''k2'', 6000), (''k1'', 9000)] mem_empty) * tb_cost (sixty_rpm ''k1'') \<le> 69"
  using tokenBucket_admission_bound [of mem_redis sixty_rpm 0 mem_empty
      "[(''k1'', 5000), (''k2'', 6000), (''k1'', 9000)]" "''k1''"]
  by (simp add: mem.redis_service_axioms del: admitted.simps)

text \<open>
  \<^verbatim>\<open>resetAt\<close> is honest: whatever the first call returned, a call of the same identifier
  at or after the \<^verbatim>\<open>resetAt\<close> it reported is admitted, provided its cost fits the bucket.
\<close>

theorem tokenBucket_resetAt_admits:
  assumes "redis_service R" and "\<forall>i. bucket_config (cfgs i)" and "\<forall>i. bucket_ok R (cfgs i) i t s"
    and "tb_cost (cfgs q) \<le> tb_capacity (cfgs q)"
    and "resetAt (fst (tokenBucket R q (cfgs q) t s)) \<le> of_int t'" and "t \<le> t'"
  shows "allowed (fst (tokenBucket R q (cfgs q) t' (snd (tokenBucket R q (cfgs q) t s))))"
  using token_bucket_traffic.admitted_from_resetAt [of R cfgs t s q t'] assms
  by (simp add: token_bucket_traffic_def token_bucket_traffic_axioms_def)

definition one_token :: "string \<Rightarrow> TokenBucketConfig" where
  "one_token _ = \<lparr>tb_capacity = 1, tb_refillPerSecond = 1/2, tb_requested = None\<rparr>"

theorem tokenBucket_resetAt_admits_witness:
  "allowed (fst (tokenBucket mem_redis ''k'' (one_token ''k'') 2000
     (snd (tokenBucket mem_redis ''k'' (one_token ''k'') 0 mem_empty))))"
proof (rule tokenBucket_resetAt_admits [where cfgs = one_token])
  show "resetAt (fst (tokenBucket mem_redis ''k'' (one_token ''k'') 0 mem_empty)) \<le> of_int 2000"
    by (simp add: tokenBucket_def tokenBucket_script_def tokenBucket_refill_def one_token_def tb_cost_def
        r_hget_def Let_def)
qed (simp_all add: mem.redis_service_axioms bucket_config_def one_token_def tb_cost_def)

section \<open>Sliding window log: equivalence with the exact sliding window\<close>

text \<open>A request carries its identifier, the random UUID drawn for it and its arrival time.\<close>

type_synonym log_request = "string \<times> string \<times> ms"

fun log_decisions ::
    "('s, 'm) redis_scheme \<Rightarrow> (string \<Rightarrow> SlidingWindowLogConfig) \<Rightarrow> log_request list \<Rightarrow> 's \<Rightarrow> bool list" where
  "log_decisions R cfgs [] s = []"
| "log_decisions R cfgs ((i, uuid, t) # rs) s =
     (let (r, s') = slidingWindowLog R uuid i (cfgs i) t s in allowed r # log_decisions R cfgs rs s')"

text \<open>The specification keeps every admitted arrival time and counts those of the last window.\<close>

definition recent :: "ms \<Rightarrow> ms \<Rightarrow> ms list \<Rightarrow> ms list" where
  "recent W t H = filter (\<lambda>h. t - W < h) H"

fun exact_window ::
    "(string \<Rightarrow> SlidingWindowLogConfig) \<Rightarrow> (string \<Rightarrow> ms list) \<Rightarrow> log_request list \<Rightarrow> bool list" where
  "exact_window cfgs H [] = []"
| "exact_window cfgs H ((i, uuid, t) # rs) =
     (let ok = int (length (recent (sl_windowMs (cfgs i)) t (H i))) < sl_limit (cfgs i)
      in ok # exact_window cfgs (if ok then H(i := t # H i) else H) rs)"

abbreviation log_member :: "log_request \<Rightarrow> string" where
  "log_member r \<equiv> slidingWindowLog_member (snd (snd r)) (fst (snd r))"

definition log_ok ::
    "('s, 'm) redis_scheme \<Rightarrow> SlidingWindowLogConfig \<Rightarrow> string \<Rightarrow> ms list \<Rightarrow> string set \<Rightarrow> ms \<Rightarrow> 's \<Rightarrow> bool" where
  "log_ok R cfg i H pending t s \<longleftrightarrow>
     (r_read R (slidingWindowLog_key i) t s = None \<or>
      (\<exists>z. r_read R (slidingWindowLog_key i) t s = Some (RZset z) \<and>
         (\<forall>t' \<ge> t. length (recent (sl_windowMs cfg) t' H) = length (recent (sl_windowMs cfg) t' (map snd z))) \<and>
         (\<forall>e \<in> set z. 0 \<le> snd e \<and> fst e \<notin> pending))) \<and>
     (\<forall>t' \<ge> t. r_read R (slidingWindowLog_key i) t' s = None \<longrightarrow> recent (sl_windowMs cfg) t' H = []) \<and>
     (\<forall>h \<in> set H. h \<le> t)"

lemma slidingWindowLog_key_eq_iff [simp, key_simps]:
  "slidingWindowLog_key a = slidingWindowLog_key b \<longleftrightarrow> a = b"
  by (simp add: slidingWindowLog_key_def)

lemma slidingWindowLog_member_eq_iff:
  assumes "0 \<le> t" and "0 \<le> t'"
  shows "slidingWindowLog_member t u = slidingWindowLog_member t' u' \<longleftrightarrow> t = t' \<and> u = u'"
proof -
  have dash: "CHR ''-'' \<notin> set (show_int x)" if "0 \<le> x" for x
    using that by (auto simp: show_int_def is_digit_def dest: show_nat_digits)
  show ?thesis
    using first_sep_inject [OF dash [OF assms(1)] dash [OF assms(2)], of u u']
    by (simp add: slidingWindowLog_member_def)
qed

lemma recent_simps [simp]:
  "recent W t [] = []" "recent W t (h # H) = (if t - W < h then h # recent W t H else recent W t H)"
  by (simp_all add: recent_def)

lemma length_recent_zinsert [simp]:
  "length (recent W t (map snd (zinsert e z))) = length (recent W t (snd e # map snd z))"
  by (induction z) auto

lemma recent_zdrop: "t \<le> t' \<Longrightarrow> recent W t' (map snd (zdrop_range lo (t - W) z)) = recent W t' (map snd z)"
  by (induction z) (auto simp: zdrop_range_def)

lemma length_zdrop_recent:
  "\<forall>e \<in> set z. 0 \<le> snd e \<Longrightarrow>
     length (zdrop_range (Some 0) (t - W) z) = length (recent W t (map snd z))"
  by (induction z) (auto simp: zdrop_range_def)

lemma recent_empty_later: "t \<le> t' \<Longrightarrow> recent W t H = [] \<Longrightarrow> recent W t' H = []"
  by (induction H) (auto split: if_splits)

context redis_service
begin

lemma slidingWindowLog_run:
  fixes cfg :: SlidingWindowLogConfig and u :: string
  assumes rd: "r_read R (slidingWindowLog_key q) t s = (if live then Some (RZset z) else None)"
    and z: "\<not> live \<longrightarrow> z = []"
  defines "d \<equiv> zdrop_range (Some 0) (t - sl_windowMs cfg) z"
    and "s' \<equiv> snd (slidingWindowLog R u q cfg t s)"
  shows "allowed (fst (slidingWindowLog R u q cfg t s)) \<longleftrightarrow> int (length d) < sl_limit cfg"
    and "t \<le> t' \<Longrightarrow> r_read R k t' s' =
      (if k \<noteq> slidingWindowLog_key q then r_read R k t' s
       else if int (length d) < sl_limit cfg
       then (if t' < t + sl_windowMs cfg then Some (RZset (zput (slidingWindowLog_member t u) t d)) else None)
       else if d = [] then None else map_option (\<lambda>_. RZset d) (r_read R k t' s))"
proof -
  let ?k = "slidingWindowLog_key q"
  define s1 where "s1 = r_zremrangebyscore R ?k (Some 0) (t - sl_windowMs cfg) t s"
  have d_dead: "\<not> live \<Longrightarrow> d = []" using z by (simp add: d_def zdrop_range_def)
  have dis: "r_read R ?k t s = None \<or> r_read R ?k t s = Some (RZset z)" using rd by simp
  have s1: "r_read R k t' s1 = (if k = ?k then
      (if d = [] then None else map_option (\<lambda>_. RZset d) (r_read R k t' s)) else r_read R k t' s)"
    if "t \<le> t'" for k t'
    unfolding s1_def read_zremrangebyscore [OF that dis]
    using rd d_dead by (auto simp: d_def)
  have zr: "r_zrange R ?k t s1 = d" using rd d_dead by (auto simp: r_zrange_def s1)
  then show "allowed (fst (slidingWindowLog R u q cfg t s)) \<longleftrightarrow> int (length d) < sl_limit cfg"
    by (simp add: slidingWindowLog_def slidingWindowLog_script_def Let_def s1_def [symmetric])
  have dis1: "r_read R ?k t s1 = None \<or> r_read R ?k t s1 = Some (RZset d)"
    using rd d_dead by (auto simp: s1)
  have "d = [] \<Longrightarrow> zput m t d = [(m, t)]" for m by (simp add: zput_def)
  then have s2: "r_read R k t' (r_zadd R ?k t m t s1) =
      (if k = ?k then (if t' = t then Some (RZset (zput m t d)) else r_read R k t' (r_zadd R ?k t m t s1))
       else r_read R k t' s)" if "t \<le> t'" for k t' m
    using rd d_dead by (auto simp: read_zadd [OF that dis1] read_zadd [OF order_refl dis1] s1 that)
  show "r_read R k t' s' =
      (if k \<noteq> ?k then r_read R k t' s
       else if int (length d) < sl_limit cfg
       then (if t' < t + sl_windowMs cfg then Some (RZset (zput (slidingWindowLog_member t u) t d)) else None)
       else if d = [] then None else map_option (\<lambda>_. RZset d) (r_read R k t' s))" if "t \<le> t'"
  proof (cases "int (length d) < sl_limit cfg")
    case True
    then have "s' = r_pexpire R ?k (sl_windowMs cfg) t (r_zadd R ?k t (slidingWindowLog_member t u) t s1)"
      by (simp add: s'_def slidingWindowLog_def slidingWindowLog_script_def Let_def s1_def [symmetric] zr)
    with True show ?thesis
      using that s2 [OF order_refl, of ?k] s2 [OF that, of k] by (auto simp: read_pexpire)
  next
    case False
    then have "s' = s1"
      by (simp add: s'_def slidingWindowLog_def slidingWindowLog_script_def Let_def s1_def [symmetric] zr)
    with False show ?thesis using s1 [OF that, of k] by simp
  qed
qed

lemma log_ok_cases:
  assumes "log_ok R cfg i H P t s"
  obtains z live where "r_read R (slidingWindowLog_key i) t s = (if live then Some (RZset z) else None)"
    "\<not> live \<longrightarrow> z = []" "\<forall>e \<in> set z. 0 \<le> snd e \<and> fst e \<notin> P"
    "\<forall>t' \<ge> t. length (recent (sl_windowMs cfg) t' H) = length (recent (sl_windowMs cfg) t' (map snd z))"
proof (cases "r_read R (slidingWindowLog_key i) t s")
  case None
  with assms have "recent (sl_windowMs cfg) t' H = []" if "t \<le> t'" for t'
    using that recent_empty_later by (auto simp: log_ok_def)
  with None show ?thesis by (intro that [of False "[]"]) auto
next
  case (Some v)
  with assms show ?thesis by (auto simp: log_ok_def intro!: that [of True])
qed

lemma log_ok_later: "log_ok R cfg i H P t s \<Longrightarrow> t \<le> t' \<Longrightarrow> log_ok R cfg i H P t' s"
  using persist [of t t' "slidingWindowLog_key i" s] unfolding log_ok_def by force

lemma log_step:
  fixes cfgs :: "string \<Rightarrow> SlidingWindowLogConfig" and q :: string
  assumes ok: "\<And>i. log_ok R (cfgs i) i (H i) (insert (slidingWindowLog_member t u) P) t s" and "0 \<le> t"
    and fresh: "slidingWindowLog_member t u \<notin> P"
  defines "a \<equiv> int (length (recent (sl_windowMs (cfgs q)) t (H q))) < sl_limit (cfgs q)"
  shows "allowed (fst (slidingWindowLog R u q (cfgs q) t s)) \<longleftrightarrow> a"
    and "log_ok R (cfgs i) i ((if a then H(q := t # H q) else H) i) P t
           (snd (slidingWindowLog R u q (cfgs q) t s))"
proof -
  let ?W = "sl_windowMs (cfgs q)" and ?m = "slidingWindowLog_member t u"
  obtain z live where rd: "r_read R (slidingWindowLog_key q) t s = (if live then Some (RZset z) else None)"
    and dead: "\<not> live \<longrightarrow> z = []" and z: "\<forall>e \<in> set z. 0 \<le> snd e \<and> fst e \<notin> insert ?m P"
    and len: "\<forall>t' \<ge> t. length (recent ?W t' (H q)) = length (recent ?W t' (map snd z))"
    by (rule log_ok_cases [OF ok [of q]])
  let ?d = "zdrop_range (Some 0) (t - ?W) z"
  have d: "length ?d = length (recent ?W t (H q))" using z len by (simp add: length_zdrop_recent)
  with slidingWindowLog_run(1) [OF rd dead, where cfg = "cfgs q" and u = u]
  show "allowed (fst (slidingWindowLog R u q (cfgs q) t s)) \<longleftrightarrow> a" by (simp add: a_def)
  note run = slidingWindowLog_run(2) [OF rd dead, where cfg = "cfgs q" and u = u]
  have put: "zput ?m t ?d = zinsert (?m, t) ?d" using z by (intro zput_fresh) auto
  have upto: "\<forall>h \<in> set (H j). h \<le> t" for j using ok [of j] by (simp add: log_ok_def)
  show "log_ok R (cfgs i) i ((if a then H(q := t # H q) else H) i) P t
           (snd (slidingWindowLog R u q (cfgs q) t s))"
  proof (cases "i = q")
    case False
    then have "r_read R (slidingWindowLog_key i) t' (snd (slidingWindowLog R u q (cfgs q) t s)) =
        r_read R (slidingWindowLog_key i) t' s" if "t \<le> t'" for t'
      using run [OF that] by simp
    with ok [of i] False show ?thesis by (auto simp: log_ok_def)
  next
    case True
    show ?thesis
    proof (cases a)
      case a: True
      have rd': "r_read R (slidingWindowLog_key q) t' (snd (slidingWindowLog R u q (cfgs q) t s)) =
          (if t' < t + ?W then Some (RZset (zinsert (?m, t) ?d)) else None)" if "t \<le> t'" for t'
        using run [OF that] a d by (simp add: a_def put)
      have "recent ?W t' (t # H q) = []" if "t + ?W \<le> t'" for t'
        using that upto [of q] by (auto simp: recent_def filter_empty_conv)
      moreover have "length (recent ?W t' (t # H q)) = length (recent ?W t' (map snd (zinsert (?m, t) ?d)))"
        if "t \<le> t'" for t'
        using len that by (simp add: recent_zdrop [OF that])
      ultimately show ?thesis
        unfolding log_ok_def using True a z upto [of q] \<open>0 \<le> t\<close> fresh by (auto simp: rd')
    next
      case a: False
      have rd': "r_read R (slidingWindowLog_key q) t' (snd (slidingWindowLog R u q (cfgs q) t s)) =
          (if ?d = [] then None else map_option (\<lambda>_. RZset ?d) (r_read R (slidingWindowLog_key q) t' s))"
        if "t \<le> t'" for t'
        using run [OF that] a d by (simp add: a_def)
      have none: "recent ?W t' (H q) = []" if "?d = []" "t \<le> t'" for t'
        using that d recent_empty_later [OF that(2), of ?W "H q"] by simp
      have "length (recent ?W t' (H q)) = length (recent ?W t' (map snd ?d))" if "t \<le> t'" for t'
        using len that by (simp add: recent_zdrop [OF that])
      with none show ?thesis
        unfolding log_ok_def using True a z rd dead ok [of q] upto [of q]
        by (cases "?d = []") (auto simp: rd' log_ok_def)
    qed
  qed
qed

lemma log_decisions_exact:
  assumes "\<And>i. log_ok R (cfgs i) i (H i) (log_member ` set rs) t0 s"
    and "sorted (t0 # map (snd \<circ> snd) rs)" and "0 \<le> t0" and "distinct (map (fst \<circ> snd) rs)"
  shows "log_decisions R cfgs rs s = exact_window cfgs H rs"
  using assms
proof (induction rs arbitrary: H t0 s)
  case Nil
  then show ?case by simp
next
  case (Cons r rs)
  obtain q u t where r: "r = (q, u, t)" by (cases r)
  let ?P = "log_member ` set rs"
  let ?a = "int (length (recent (sl_windowMs (cfgs q)) t (H q))) < sl_limit (cfgs q)"
  let ?s' = "snd (slidingWindowLog R u q (cfgs q) t s)"
  from Cons.prems r have t: "t0 \<le> t" "0 \<le> t" by auto
  have ok: "log_ok R (cfgs i) i (H i) (insert (slidingWindowLog_member t u) ?P) t s" for i
    using Cons.prems(1) [of i] r log_ok_later [OF _ t(1)] by simp
  have fresh: "slidingWindowLog_member t u \<notin> ?P"
  proof
    assume "slidingWindowLog_member t u \<in> ?P"
    then obtain r' where r': "r' \<in> set rs" "slidingWindowLog_member t u = log_member r'" by auto
    with Cons.prems(2) t r have "0 \<le> snd (snd r')" by force
    then have "u = fst (snd r')" using r' t by (simp add: slidingWindowLog_member_eq_iff)
    with r' r Cons.prems(4) show False by force
  qed
  have "log_decisions R cfgs rs ?s' = exact_window cfgs (if ?a then H(q := t # H q) else H) rs"
    using log_step(2) [OF ok t(2) fresh] Cons.prems t r by (intro Cons.IH [of _ t]) auto
  then show ?case
    using log_step(1) [OF ok t(2) fresh] by (simp add: r split_beta Let_def)
qed

end

text \<open>The arrival times of the requests of \<open>q\<close> that got through.\<close>

fun admitted_times :: "string \<Rightarrow> log_request list \<Rightarrow> bool list \<Rightarrow> ms list" where
  "admitted_times q ((i, u, t) # rs) (d # ds) =
     (if i = q \<and> d then t # admitted_times q rs ds else admitted_times q rs ds)"
| "admitted_times q _ _ = []"

definition in_window :: "ms \<Rightarrow> ms \<Rightarrow> ms list \<Rightarrow> nat" where
  "in_window W u H = length (filter (\<lambda>h. u - W < h \<and> h \<le> u) H)"

lemma in_window_simps [simp]:
  "in_window W u [] = 0"
  "in_window W u (h # H) = (if u - W < h \<and> h \<le> u then Suc (in_window W u H) else in_window W u H)"
  "in_window W u (H @ H') = in_window W u H + in_window W u H'"
  by (simp_all add: in_window_def)

lemma in_window_le_recent: "t \<le> u \<Longrightarrow> in_window W u H \<le> length (recent W t H)"
  unfolding in_window_def recent_def by (rule length_filter_le_mono) auto

lemma exact_window_bound:
  assumes "sorted (map (snd \<circ> snd) rs)"
    and "\<forall>u. int (in_window (sl_windowMs (cfgs q)) u (H q)) \<le> max 0 (sl_limit (cfgs q))"
  shows "int (in_window (sl_windowMs (cfgs q)) u
    (admitted_times q rs (exact_window cfgs H rs) @ H q)) \<le> max 0 (sl_limit (cfgs q))"
  using assms
proof (induction rs arbitrary: H)
  case Nil
  then show ?case by simp
next
  case (Cons r rs)
  obtain i v t where r: "r = (i, v, t)" by (cases r)
  let ?ok = "int (length (recent (sl_windowMs (cfgs i)) t (H i))) < sl_limit (cfgs i)"
  let ?H' = "if ?ok then H(i := t # H i) else H"
  have "int (in_window (sl_windowMs (cfgs q)) u' (?H' q)) \<le> max 0 (sl_limit (cfgs q))" for u'
    using Cons.prems(2) in_window_le_recent [of t u' "sl_windowMs (cfgs i)" "H i"] by auto
  with Cons have "int (in_window (sl_windowMs (cfgs q)) u
      (admitted_times q rs (exact_window cfgs ?H' rs) @ ?H' q)) \<le> max 0 (sl_limit (cfgs q))"
    by (intro Cons.IH) auto
  then show ?case by (cases ?ok) (auto simp: r Let_def split: if_splits)
qed

lemma log_ok_initial: "r_read R (slidingWindowLog_key i) t s = None \<Longrightarrow> log_ok R cfg i [] P t s"
  by (simp add: log_ok_def)

text \<open>
  C19. The sorted-set implementation is the exact sliding window: on every request sequence in time
  order, with a fresh UUID per request, it takes the same decisions as the specification that
  remembers every admitted arrival and counts those of the last \<^verbatim>\<open>windowMs\<close>.
\<close>

theorem slidingWindowLog_exact:
  assumes "redis_service R" and "\<forall>i. r_read R (slidingWindowLog_key i) 0 s = None"
    and "sorted (0 # map (snd \<circ> snd) rs)" and "distinct (map (fst \<circ> snd) rs)"
  shows "log_decisions R cfgs rs s = exact_window cfgs (\<lambda>_. []) rs"
  using redis_service.log_decisions_exact [OF assms(1), of cfgs "\<lambda>_. []" rs 0 s] assms
  by (simp add: log_ok_initial)

definition one_per_second :: "string \<Rightarrow> SlidingWindowLogConfig" where
  "one_per_second _ = \<lparr>sl_limit = 1, sl_windowMs = 1000\<rparr>"

theorem slidingWindowLog_exact_witness:
  "log_decisions mem_redis one_per_second [(''a'', ''u1'', 10), (''a'', ''u2'', 1009), (''a'', ''u3'', 1010)]
     mem_empty = [True, False, True]"
  using slidingWindowLog_exact [OF mem.redis_service_axioms, of mem_empty
      "[(''a'', ''u1'', 10), (''a'', ''u2'', 1009), (''a'', ''u3'', 1010)]" one_per_second]
  by (simp add: one_per_second_def)

text \<open>
  No boundary burst: every window of length \<^verbatim>\<open>windowMs\<close>, wherever it starts, contains at
  most \<^verbatim>\<open>limit\<close> requests of an identifier that the sliding window log admitted.
\<close>

theorem slidingWindowLog_window_bound:
  assumes "redis_service R" and "\<forall>i. r_read R (slidingWindowLog_key i) 0 s = None"
    and "sorted (0 # map (snd \<circ> snd) rs)" and "distinct (map (fst \<circ> snd) rs)"
  shows "int (in_window (sl_windowMs (cfgs q)) u (admitted_times q rs (log_decisions R cfgs rs s)))
    \<le> max 0 (sl_limit (cfgs q))"
  using redis_service.log_decisions_exact [OF assms(1), of cfgs "\<lambda>_. []" rs 0 s] assms
    exact_window_bound [of rs cfgs q "\<lambda>_. []" u]
  by (simp add: log_ok_initial)

theorem slidingWindowLog_window_bound_witness:
  "int (in_window 1000 1500 (admitted_times ''a'' [(''a'', ''u1'', 600), (''a'', ''u2'', 1400)]
     (log_decisions mem_redis one_per_second [(''a'', ''u1'', 600), (''a'', ''u2'', 1400)] mem_empty))) \<le> 1"
  using slidingWindowLog_window_bound [OF mem.redis_service_axioms, of mem_empty
      "[(''a'', ''u1'', 600), (''a'', ''u2'', 1400)]" one_per_second "''a''" 1500]
  by (simp add: one_per_second_def)

section \<open>Window counters: the bound inside one window\<close>

text \<open>Both counter limiters increment a key per window that is given a lifetime when it is created.\<close>

definition bump :: "('s, 'm) redis_scheme \<Rightarrow> string \<Rightarrow> ms \<Rightarrow> ms \<Rightarrow> 's \<Rightarrow> int \<times> 's" where
  "bump R k ttl t s =
     (let (c, s1) = r_incr R k t s in (c, if c = 1 then r_pexpire R k ttl t s1 else s1))"

definition counters_ok ::
    "('s, 'm) redis_scheme \<Rightarrow> (string \<Rightarrow> ms \<Rightarrow> string) \<Rightarrow> string \<Rightarrow> ms \<Rightarrow> ms \<Rightarrow> ms \<Rightarrow> 's \<Rightarrow> bool" where
  "counters_ok R key q w W t s \<longleftrightarrow>
     (\<forall>i v. r_read R (key i v) t s = None \<or> (\<exists>n \<ge> 1. r_read R (key i v) t s = Some (RInt n))) \<and>
     (\<forall>t'. t \<le> t' \<and> t' < w + W \<longrightarrow> r_read R (key q w) t' s = r_read R (key q w) t s)"

definition window_credit :: "('s, 'm) redis_scheme \<Rightarrow> string \<Rightarrow> int \<Rightarrow> ms \<Rightarrow> 's \<Rightarrow> rat" where
  "window_credit R k limit t s = of_int (max 0 (limit - counter_or_zero R k t s))"

lemma counters_okD:
  assumes "counters_ok R key q w W t s"
  shows "r_read R (key i v) t s = None \<or> (\<exists>n \<ge> 1. r_read R (key i v) t s = Some (RInt n))"
    and "t \<le> t' \<Longrightarrow> t' < w + W \<Longrightarrow> r_read R (key q w) t' s = r_read R (key q w) t s"
    and "0 \<le> counter_or_zero R (key i v) t s"
proof -
  show rd: "r_read R (key i v) t s = None \<or> (\<exists>n \<ge> 1. r_read R (key i v) t s = Some (RInt n))"
    using assms unfolding counters_ok_def by blast
  show "t \<le> t' \<Longrightarrow> t' < w + W \<Longrightarrow> r_read R (key q w) t' s = r_read R (key q w) t s"
    using assms unfolding counters_ok_def by blast
  show "0 \<le> counter_or_zero R (key i v) t s"
    using rd by (auto simp: counter_or_zero_def r_counter_def)
qed

lemma windowStartOf_div: "windowStartOf t W = t div W * W"
  by (simp add: windowStartOf_def math_floor_def floor_divide_of_int_eq)

lemma windowStartOf_bounds:
  assumes "0 < W"
  shows "windowStartOf t W \<le> t" "t < windowStartOf t W + W"
  unfolding windowStartOf_div
  using assms div_mult_mod_eq [of t W] pos_mod_bound [of W t] pos_mod_sign [of W t] by linarith+

lemma fixedWindow_key_eq_iff [simp, key_simps]:
  "fixedWindow_key i v = fixedWindow_key j w \<longleftrightarrow> i = j \<and> v = w"
  using last_sep_inject [of "CHR '':''" "show_int v" "show_int w" i j]
  by (simp add: fixedWindow_key_def)

lemma slidingWindowCounter_key_eq_iff [simp, key_simps]:
  "slidingWindowCounter_key i v = slidingWindowCounter_key j w \<longleftrightarrow> i = j \<and> v = w"
  using last_sep_inject [of "CHR '':''" "show_int v" "show_int w" i j]
  by (simp add: slidingWindowCounter_key_def)

context redis_service
begin

lemma bump_run:
  assumes rd: "r_read R k t s = None \<or> (\<exists>n \<ge> 1. r_read R k t s = Some (RInt n))"
  shows "fst (bump R k ttl t s) = counter_or_zero R k t s + 1"
    and "t \<le> t' \<Longrightarrow> r_read R k' t' (snd (bump R k ttl t s)) =
      (if k' \<noteq> k then r_read R k' t' s
       else if r_read R k t s = None then (if t' < t + ttl then Some (RInt 1) else None)
       else map_option (\<lambda>_. RInt (counter_or_zero R k t s + 1)) (r_read R k t' s))"
proof -
  obtain n where n: "r_read R k t s = None \<or> r_read R k t s = Some (RInt n)" "1 \<le> n"
    using rd by (metis order_refl)
  let ?c = "fst (r_incr R k t s)"
  have c: "?c = counter_or_zero R k t s + 1"
    using incr_result [OF n(1)] by (simp add: counter_or_zero_def split: option.splits)
  then show "fst (bump R k ttl t s) = counter_or_zero R k t s + 1"
    by (simp add: bump_def split_beta)
  have one: "?c = 1 \<longleftrightarrow> r_read R k t s = None"
    using n c by (auto simp: counter_or_zero_def r_counter_def split: option.splits)
  note incr = read_incr [OF _ n(1)]
  show "r_read R k' t' (snd (bump R k ttl t s)) =
      (if k' \<noteq> k then r_read R k' t' s
       else if r_read R k t s = None then (if t' < t + ttl then Some (RInt 1) else None)
       else map_option (\<lambda>_. RInt (counter_or_zero R k t s + 1)) (r_read R k t' s))" if "t \<le> t'"
  proof (cases "r_read R k t s")
    case None
    with one that show ?thesis
      by (auto simp: bump_def split_beta Let_def read_pexpire incr [OF that] incr [OF order_refl])
  next
    case (Some v)
    with n have "v = RInt n" by simp
    with Some one that show ?thesis
      by (auto simp: bump_def split_beta Let_def incr [OF that] counter_or_zero_def r_counter_def)
  qed
qed

lemma counters_ok_bump:
  assumes ok: "counters_ok R key q w W t s" and inj: "\<And>i v j w. key i v = key j w \<longleftrightarrow> i = j \<and> v = w"
    and w: "w \<le> t" "t < w + W" and ttl: "i = q \<and> v = w \<Longrightarrow> W \<le> ttl" and "0 < ttl"
  shows "counters_ok R key q w W t (snd (bump R (key i v) ttl t s))"
proof -
  have rd: "r_read R (key j u) t s = None \<or> (\<exists>n \<ge> 1. r_read R (key j u) t s = Some (RInt n))" for j u
    using counters_okD(1) [OF ok] .
  have keep: "r_read R (key q w) t' s = r_read R (key q w) t s" if "t \<le> t'" "t' < w + W" for t'
    using counters_okD(2) [OF ok that] .
  note run = bump_run(2) [OF rd [of i v], where ttl = ttl]
  have pos: "0 \<le> counter_or_zero R (key i v) t s"
    using counters_okD(3) [OF ok] .
  show ?thesis
    unfolding counters_ok_def
  proof (intro conjI allI impI)
    fix j u
    show "r_read R (key j u) t (snd (bump R (key i v) ttl t s)) = None \<or>
      (\<exists>n \<ge> 1. r_read R (key j u) t (snd (bump R (key i v) ttl t s)) = Some (RInt n))"
      using rd [of j u] pos by (cases "key j u = key i v") (auto simp: run)
  next
    fix t'
    assume t': "t \<le> t' \<and> t' < w + W"
    then show "r_read R (key q w) t' (snd (bump R (key i v) ttl t s)) =
        r_read R (key q w) t (snd (bump R (key i v) ttl t s))"
      using keep [of t'] w ttl \<open>0 < ttl\<close> by (auto simp: run inj)
  qed
qed

lemma counters_ok_later:
  assumes ok: "counters_ok R key q w W t s" and "t \<le> t'" "t' < w + W"
  shows "counters_ok R key q w W t' s"
  unfolding counters_ok_def
proof (intro conjI allI impI)
  fix i v
  show "r_read R (key i v) t' s = None \<or> (\<exists>n \<ge> 1. r_read R (key i v) t' s = Some (RInt n))"
    using counters_okD(1) [OF ok, of i v] persist [OF \<open>t \<le> t'\<close>, of "key i v" s] by metis
next
  fix u
  assume "t' \<le> u \<and> u < w + W"
  then show "r_read R (key q w) u s = r_read R (key q w) t' s"
    using counters_okD(2) [OF ok, of u] counters_okD(2) [OF ok, of t'] assms by simp
qed

end

text \<open>
  Inside one window \<open>w\<close> of \<open>q0\<close>, both limiters are credit limiters whose credit is what is left of
  the limit and does not accrue.
\<close>

locale window_traffic = redis_service R for R :: "('s, 'm) redis_scheme" +
  fixes lim :: "string \<Rightarrow> int" and W :: "string \<Rightarrow> ms" and q0 :: string and w :: ms
  assumes W_pos: "0 < W i"
begin

abbreviation fw :: "string \<Rightarrow> FixedWindowConfig" where
  "fw i \<equiv> \<lparr>fw_limit = lim i, fw_windowMs = W i\<rparr>"

abbreviation sc :: "string \<Rightarrow> SlidingWindowCounterConfig" where
  "sc i \<equiv> \<lparr>sc_limit = lim i, sc_windowMs = W i\<rparr>"

lemma fixedWindow_bump:
  "admission (fixedWindow R i (fw i)) t s =
     (let (c, s') = bump R (fixedWindow_key i (windowStartOf t (W i))) (W i) t s in (c \<le> lim i, s'))"
  by (simp add: admission_def fixedWindow_def fixedWindow_script_def bump_def split_beta Let_def)

lemma slidingWindowCounter_bump:
  assumes "counters_ok R slidingWindowCounter_key q v V t s"
  shows "fst (admission (slidingWindowCounter R i (sc i)) t s) \<Longrightarrow>
      counter_or_zero R (slidingWindowCounter_key i (windowStartOf t (W i))) t s < lim i"
    and "snd (admission (slidingWindowCounter R i (sc i)) t s) =
      (if fst (admission (slidingWindowCounter R i (sc i)) t s)
       then snd (bump R (slidingWindowCounter_key i (windowStartOf t (W i))) (W i * 2) t s) else s)"
proof -
  let ?ws = "windowStartOf t (W i)"
  let ?prev = "counter_or_zero R (slidingWindowCounter_key i (?ws - W i)) t s"
  let ?curr = "counter_or_zero R (slidingWindowCounter_key i ?ws) t s"
  let ?f = "of_int (t - ?ws) / of_int (W i) :: rat"
  let ?weighted = "of_int ?prev * (1 - ?f) + of_int ?curr"
  have "0 \<le> ?prev" using counters_okD(3) [OF assms] .
  moreover have "?f \<le> 1"
    using windowStartOf_bounds [OF W_pos [of i], of t] W_pos [of i] by (simp add: divide_le_eq)
  ultimately have ge: "of_int ?curr \<le> ?weighted" by (simp del: of_int_diff)
  have fst: "fst (admission (slidingWindowCounter R i (sc i)) t s) \<longleftrightarrow> ?weighted < of_int (lim i)"
    by (auto simp: admission_def slidingWindowCounter_def slidingWindowCounter_script_def split_beta Let_def)
  show "?curr < lim i" if "fst (admission (slidingWindowCounter R i (sc i)) t s)"
  proof -
    have "of_int ?curr < (of_int (lim i) :: rat)"
      using ge that unfolding fst by (rule order_le_less_trans)
    then show ?thesis by simp
  qed
  show "snd (admission (slidingWindowCounter R i (sc i)) t s) =
      (if fst (admission (slidingWindowCounter R i (sc i)) t s)
       then snd (bump R (slidingWindowCounter_key i ?ws) (W i * 2) t s) else s)"
    unfolding fst
    by (auto simp: admission_def slidingWindowCounter_def slidingWindowCounter_script_def bump_def
        split_beta Let_def)
qed

abbreviation in_w :: "ms \<Rightarrow> bool" where
  "in_w t \<equiv> windowStartOf t (W q0) = w"

lemma in_w_bounds: "in_w t \<Longrightarrow> w \<le> t \<and> t < w + W q0"
  using windowStartOf_bounds [OF W_pos [of q0], of t] by auto

lemma window_credit_step:
  assumes ok: "counters_ok R key q0 w (W q0) t s"
    and inj: "\<And>i v j w. key i v = key j w \<longleftrightarrow> i = j \<and> v = w" and ttl: "0 < ttl"
  shows "window_credit R (key q0 w) L t (snd (bump R (key i v) ttl t s)) =
    (if i = q0 \<and> v = w then of_int (max 0 (L - counter_or_zero R (key q0 w) t s - 1))
     else window_credit R (key q0 w) L t s)"
  using bump_run(2) [OF counters_okD(1) [OF ok, of i v], where ttl = ttl and t' = t and k' = "key q0 w"]
    counters_okD(1) [OF ok, of i v] ttl
  by (auto simp: window_credit_def counter_or_zero_def r_counter_def inj algebra_simps)

end

sublocale window_traffic \<subseteq> fixed: credit_limiter
    "\<lambda>i. admission (fixedWindow R i (fw i))" q0 in_w "counters_ok R fixedWindow_key q0 w (W q0)"
    "window_credit R (fixedWindow_key q0 w) (lim q0)" 0 1
proof (unfold_locales, goal_cases)
  case (1 t s q)
  then show ?case
    using in_w_bounds [of t] W_pos [of q]
    by (simp add: fixedWindow_bump split_beta Let_def counters_ok_bump)
next
  case (2 t' t s)
  then show ?case using counters_ok_later in_w_bounds by blast
next
  case (3 t s)
  then show ?case
    using window_credit_step [OF 3(2), of "W q0"] bump_run(1) [OF counters_okD(1) [OF 3(2)]] W_pos [of q0]
    by (simp add: fixedWindow_bump split_beta Let_def window_credit_def max_def)
next
  case (4 t s)
  then show ?case
    using window_credit_step [OF 4(2), of "W q0"] W_pos [of q0]
    by (simp add: fixedWindow_bump split_beta Let_def window_credit_def max_def)
next
  case (5 t s q)
  then show ?case
    using window_credit_step [OF 5(2), of "W q"] W_pos [of q]
    by (simp add: fixedWindow_bump split_beta Let_def)
next
  case (6 t' t s)
  then show ?case
    using counters_okD(2) [OF 6(3) 6(2)] in_w_bounds [of t']
    by (simp add: window_credit_def counter_or_zero_def r_counter_def)
next
  case (7 t s)
  then show ?case by (simp add: window_credit_def)
qed

sublocale window_traffic \<subseteq> counter: credit_limiter
    "\<lambda>i. admission (slidingWindowCounter R i (sc i))" q0 in_w
    "counters_ok R slidingWindowCounter_key q0 w (W q0)"
    "window_credit R (slidingWindowCounter_key q0 w) (lim q0)" 0 1
proof (unfold_locales, goal_cases)
  case (1 t s q)
  then show ?case
    using in_w_bounds [of t] W_pos [of q]
    by (simp add: slidingWindowCounter_bump(2) [OF 1(2)] counters_ok_bump)
next
  case (2 t' t s)
  then show ?case using counters_ok_later in_w_bounds by blast
next
  case (3 t s)
  then show ?case
    using window_credit_step [OF 3(2), of "W q0 * 2"] slidingWindowCounter_bump [OF 3(2), of q0] W_pos [of q0]
    by (simp add: window_credit_def max_def)
next
  case (4 t s)
  then show ?case by (simp add: slidingWindowCounter_bump(2) [OF 4(2)])
next
  case (5 t s q)
  then show ?case
    using window_credit_step [OF 5(2), of "W q * 2"] W_pos [of q]
    by (simp add: slidingWindowCounter_bump(2) [OF 5(2)])
next
  case (6 t' t s)
  then show ?case
    using counters_okD(2) [OF 6(3) 6(2)] in_w_bounds [of t']
    by (simp add: window_credit_def counter_or_zero_def r_counter_def)
next
  case (7 t s)
  then show ?case by (simp add: window_credit_def)
qed

context window_traffic
begin

lemma counters_ok_initial:
  assumes "\<forall>i v. r_read R (key i v) t s = None"
  shows "counters_ok R key q v V t s"
  using assms read_stays_None [of t] by (simp add: counters_ok_def)

lemma admitted_le_limit:
  assumes "0 \<le> lim q0" and "sorted (t0 # map snd rs)" and "\<forall>t \<in> snd ` set rs. in_w t"
  shows "\<forall>i v. r_read R (fixedWindow_key i v) t0 s = None \<Longrightarrow>
      int (admitted (\<lambda>i. admission (fixedWindow R i (fw i))) q0 rs s) \<le> lim q0"
    and "\<forall>i v. r_read R (slidingWindowCounter_key i v) t0 s = None \<Longrightarrow>
      int (admitted (\<lambda>i. admission (slidingWindowCounter R i (sc i))) q0 rs s) \<le> lim q0"
proof -
  have absent: "window_credit R k (lim q0) t0 s = of_int (lim q0)" if "r_read R k t0 s = None" for k
    using that \<open>0 \<le> lim q0\<close> by (simp add: window_credit_def counter_or_zero_def r_counter_def)
  have le: "int n \<le> L" if "of_nat n \<le> (of_int L :: rat)" for n L
    using that by (metis of_int_le_iff of_int_of_nat_eq)
  show "int (admitted (\<lambda>i. admission (fixedWindow R i (fw i))) q0 rs s) \<le> lim q0"
    if "\<forall>i v. r_read R (fixedWindow_key i v) t0 s = None"
    using fixed.admitted_le_credit [OF assms(2) _ counters_ok_initial [OF that]] assms(3) that
    by (intro le) (simp add: absent)
  show "int (admitted (\<lambda>i. admission (slidingWindowCounter R i (sc i))) q0 rs s) \<le> lim q0"
    if "\<forall>i v. r_read R (slidingWindowCounter_key i v) t0 s = None"
    using counter.admitted_le_credit [OF assms(2) _ counters_ok_initial [OF that]] assms(3) that
    by (intro le) (simp add: absent)
qed

end

interpretation mem_window: window_traffic mem_redis "\<lambda>_. 100" "\<lambda>_. 60000" q0 w for q0 w
  by unfold_locales simp

text \<open>
  Inside one window, however the requests of all identifiers interleave, both counter limiters
  (\<^verbatim>\<open>fixedWindow\<close> and \<^verbatim>\<open>slidingWindowCounter\<close>) admit at most \<^verbatim>\<open>limit\<close> requests of an
  identifier.
\<close>

theorem window_counters_bound:
  assumes "redis_service R" and "\<forall>i. 0 < W i" and "0 \<le> limit q"
    and "sorted (t0 # map snd rs)" and "\<forall>t \<in> snd ` set rs. windowStartOf t (W q) = w"
    and "\<forall>i v. r_read R (fixedWindow_key i v) t0 s = None"
    and "\<forall>i v. r_read R (slidingWindowCounter_key i v) t0 s = None"
  shows "int (admitted (\<lambda>i. admission (fixedWindow R i \<lparr>fw_limit = limit i, fw_windowMs = W i\<rparr>)) q rs s)
      \<le> limit q
    \<and> int (admitted (\<lambda>i. admission (slidingWindowCounter R i \<lparr>sc_limit = limit i, sc_windowMs = W i\<rparr>)) q rs s)
      \<le> limit q"
proof -
  have "window_traffic R W" using assms by (simp add: window_traffic_def window_traffic_axioms_def)
  from window_traffic.admitted_le_limit [OF this, where lim = limit and ?q0.0 = q, OF assms(3-5)] assms(6,7)
  show ?thesis by blast
qed

theorem window_counters_bound_witness:
  "int (admitted (\<lambda>i. admission (fixedWindow mem_redis i \<lparr>fw_limit = 1, fw_windowMs = 1000\<rparr>)) ''a''
      [(''a'', 3100), (''b'', 3200), (''a'', 3999)] mem_empty) \<le> 1
   \<and> int (admitted (\<lambda>i. admission (slidingWindowCounter mem_redis i \<lparr>sc_limit = 1, sc_windowMs = 1000\<rparr>)) ''a''
      [(''a'', 3100), (''b'', 3200), (''a'', 3999)] mem_empty) \<le> 1"
  by (rule window_counters_bound [OF mem.redis_service_axioms, where W = "\<lambda>_. 1000" and limit = "\<lambda>_. 1"
        and q = "''a''" and ?t0.0 = 0 and w = 3000])
    (simp_all add: windowStartOf_div)

end
