(* ===== verification/CircuitBreaker.thy ===== *)
theory CircuitBreaker
  imports Redis
begin

text \<open>
  The circuit breaker and the retry loop of \<^verbatim>\<open>packages/circuit-breaker\<close>. The two Lua scripts are
  functions on the Redis parameter; the wrapped call \<open>fn\<close> is a function from its start time and the
  store to its outcome, finishing time and the store it leaves (other callers may act meanwhile). As
  in the source, the outcome is reported with the time the call started at; only the key's new
  lifetime counts from the time the report runs.
\<close>

section \<open>types.ts\<close>

text \<open>The states are the strings \<^verbatim>\<open>closed\<close>, \<^verbatim>\<open>open\<close> and \<^verbatim>\<open>half_open\<close> of the source.\<close>

type_synonym CircuitState = string

record CircuitBreakerConfig =
  failureThreshold :: int
  failureWindowMs :: ms
  openDurationMs :: ms

datatype 'e cb_error = CircuitOpenError string | Thrown 'e

section \<open>circuitBreaker.ts\<close>

definition TTL_SECONDS :: int where
  "TTL_SECONDS = 3600"

definition cb_key :: "string \<Rightarrow> string" where
  "cb_key name = ''circuit:'' @ name"

fun lua_num :: "hval option \<Rightarrow> rat option" where
  "lua_num (Some (HNum x)) = Some x"
| "lua_num _ = None"

fun lua_str_or :: "string \<Rightarrow> hval option \<Rightarrow> string" where
  "lua_str_or d (Some (HStr v)) = v"
| "lua_str_or d _ = d"

definition lua_num_or_0 :: "hval option \<Rightarrow> rat" where
  "lua_num_or_0 v = (case lua_num v of None \<Rightarrow> 0 | Some x \<Rightarrow> x)"

definition attempt_script ::
    "('s, 'm) redis_scheme \<Rightarrow> string \<Rightarrow> ms \<Rightarrow> ms \<Rightarrow> ms \<Rightarrow> 's \<Rightarrow> (int \<times> CircuitState) \<times> 's" where
  "attempt_script R key now windowMs openMs s =
     (let state = lua_str_or ''closed'' (r_hget R key ''state'' now s);
          windowStart = r_hget R key ''windowStart'' now s;
          openedAt = lua_num_or_0 (r_hget R key ''openedAt'' now s);
          probeTaken = r_hget R key ''probeTaken'' now s
      in if state = ''closed'' then
           (if windowStart = None then
              ((1, ''closed''), r_hset R key [(''windowStart'', HNum (of_int now))] now s)
            else if of_int now - lua_num_or_0 windowStart > of_int windowMs then
              ((1, ''closed''),
               r_hset R key [(''failures'', HNum 0), (''windowStart'', HNum (of_int now))] now s)
            else ((1, ''closed''), s))
         else if state = ''open'' then
           (if of_int now - openedAt \<ge> of_int openMs then
              ((1, ''half_open''),
               r_pexpire R key (TTL_SECONDS * 1000) now
                 (r_hset R key [(''state'', HStr ''half_open''), (''probeTaken'', HStr ''1'')] now s))
            else ((0, ''open''), s))
         else if probeTaken = Some (HStr ''1'') then ((0, ''half_open''), s)
         else ((1, ''half_open''), r_hset R key [(''probeTaken'', HStr ''1'')] now s))"

definition report_script ::
    "('s, 'm) redis_scheme \<Rightarrow> string \<Rightarrow> ms \<Rightarrow> bool \<Rightarrow> int \<Rightarrow> ms \<Rightarrow> 's \<Rightarrow> CircuitState \<times> 's" where
  "report_script R key now success threshold t s =
     (let state = lua_str_or ''closed'' (r_hget R key ''state'' t s);
          failures = lua_num_or_0 (r_hget R key ''failures'' t s);
          expire = r_pexpire R key (TTL_SECONDS * 1000) t
      in if success then
           (if state = ''half_open'' then
              (''closed'',
               expire (r_hset R key [(''state'', HStr ''closed''), (''failures'', HNum 0),
                 (''windowStart'', HNum (of_int now)), (''probeTaken'', HStr ''0'')] t s))
            else (state, s))
         else if state = ''half_open'' then
           (''open'',
            expire (r_hset R key [(''state'', HStr ''open''), (''openedAt'', HNum (of_int now)),
              (''probeTaken'', HStr ''0'')] t s))
         else if failures + 1 \<ge> of_int threshold then
           (''open'',
            expire (r_hset R key [(''state'', HStr ''open''), (''openedAt'', HNum (of_int now)),
              (''failures'', HNum (failures + 1))] t s))
         else
           (''closed'', expire (r_hset R key [(''failures'', HNum (failures + 1))] t s)))"

definition getCircuitState :: "('s, 'm) redis_scheme \<Rightarrow> string \<Rightarrow> ms \<Rightarrow> 's \<Rightarrow> CircuitState" where
  "getCircuitState R name t s = lua_str_or ''closed'' (r_hget R (cb_key name) ''state'' t s)"

definition resetCircuit :: "('s, 'm) redis_scheme \<Rightarrow> string \<Rightarrow> ms \<Rightarrow> 's \<Rightarrow> 's" where
  "resetCircuit R name t s = r_del R (cb_key name) t s"

definition forceOpenCircuit :: "('s, 'm) redis_scheme \<Rightarrow> string \<Rightarrow> ms \<Rightarrow> 's \<Rightarrow> 's" where
  "forceOpenCircuit R name now s =
     r_pexpire R (cb_key name) (TTL_SECONDS * 1000) now
       (r_hset R (cb_key name) [(''state'', HStr ''open''), (''openedAt'', HNum (of_int now)),
          (''probeTaken'', HStr ''0'')] now s)"

type_synonym ('e, 'a, 's) call = "ms \<Rightarrow> 's \<Rightarrow> ('e, 'a) result \<times> ms \<times> 's"

definition withCircuitBreaker ::
    "('s, 'm) redis_scheme \<Rightarrow> string \<Rightarrow> CircuitBreakerConfig \<Rightarrow> ('e, 'a, 's) call
      \<Rightarrow> ('e cb_error, 'a, 's) call" where
  "withCircuitBreaker R name config fn now s =
     (let ((allowed, _), s1) =
            attempt_script R (cb_key name) now (failureWindowMs config) (openDurationMs config) s
      in if allowed \<noteq> 1 then (Inl (CircuitOpenError name), now, s1)
         else
           (case fn now s1 of
              (Inr result, t', s2) \<Rightarrow>
                (Inr result, t',
                 snd (report_script R (cb_key name) now True (failureThreshold config) t' s2))
            | (Inl err, t', s2) \<Rightarrow>
                (Inl (Thrown err), t',
                 snd (report_script R (cb_key name) now False (failureThreshold config) t' s2))))"

section \<open>retry.ts\<close>

record RetryConfig =
  maxAttempts :: int
  baseDelayMs :: rat

text \<open>\<open>random\<close> is the value \<^verbatim>\<open>Math.random()\<close> returns, a number in \<open>[0, 1)\<close>.\<close>

definition computeBackoffDelay :: "nat \<Rightarrow> RetryConfig \<Rightarrow> rat \<Rightarrow> rat" where
  "computeBackoffDelay attempt config random =
     (let exponential = baseDelayMs config * 2 ^ (attempt - 1);
          jitter = random * (exponential / 2)
      in exponential + jitter)"

text \<open>
  The loop runs from attempt 1 while \<^verbatim>\<open>attempt <= maxAttempts\<close>; an empty loop throws
  \<^verbatim>\<open>lastError\<close>, which is then \<^verbatim>\<open>undefined\<close> (\<open>None\<close>). \<open>random attempt\<close> is the number drawn
  for the delay after that attempt; a timer takes whole milliseconds.
\<close>

function withRetry_loop ::
    "RetryConfig \<Rightarrow> ('e \<Rightarrow> bool) \<Rightarrow> (nat \<Rightarrow> rat) \<Rightarrow> (nat \<Rightarrow> ('e, 'a, 's) call) \<Rightarrow> nat \<Rightarrow> 'e option
      \<Rightarrow> ('e option, 'a, 's) call" where
  "withRetry_loop config shouldRetry random fn attempt lastError t s =
     (if int attempt \<le> maxAttempts config then
        (case fn attempt t s of
           (Inr a, t', s') \<Rightarrow> (Inr a, t', s')
         | (Inl err, t', s') \<Rightarrow>
             if int attempt \<ge> maxAttempts config \<or> \<not> shouldRetry err then (Inl (Some err), t', s')
             else withRetry_loop config shouldRetry random fn (attempt + 1) (Some err)
                    (t' + math_floor (computeBackoffDelay attempt config (random attempt))) s')
      else (Inl lastError, t, s))"
  by pat_completeness auto

termination
  by (relation "measure (\<lambda>(config, _, _, _, attempt, _). nat (maxAttempts config - int attempt))") auto

declare withRetry_loop.simps [simp del]

definition withRetry ::
    "RetryConfig \<Rightarrow> ('e \<Rightarrow> bool) \<Rightarrow> (nat \<Rightarrow> rat) \<Rightarrow> (nat \<Rightarrow> ('e, 'a, 's) call) \<Rightarrow> ('e option, 'a, 's) call" where
  "withRetry config shouldRetry random fn = withRetry_loop config shouldRetry random fn 1 None"

section \<open>The breaker as a state machine\<close>

text \<open>The hash \<open>h\<close> is what the key holds from \<open>t\<close> to \<open>T\<close> if nobody writes it.\<close>

definition holds ::
    "('s, 'm) redis_scheme \<Rightarrow> string \<Rightarrow> (string \<rightharpoonup> hval) \<Rightarrow> ms \<Rightarrow> ms \<Rightarrow> 's \<Rightarrow> bool" where
  "holds R k h t T s \<longleftrightarrow> t \<le> T \<and> (\<forall>t'. t \<le> t' \<and> t' \<le> T \<longrightarrow> r_read R k t' s = Some (RHash h))"

definition failure_writes :: "int \<Rightarrow> int \<Rightarrow> ms \<Rightarrow> (string \<times> hval) list" where
  "failure_writes thr j now =
     (if thr \<le> j + 1
      then [(''state'', HStr ''open''), (''openedAt'', HNum (of_int now)), (''failures'', HNum (of_int j + 1))]
      else [(''failures'', HNum (of_int j + 1))])"

lemma holds_hget: "holds R k h t T s \<Longrightarrow> t \<le> t' \<Longrightarrow> t' \<le> T \<Longrightarrow> r_hget R k f t' s = h f"
  by (simp add: holds_def r_hget_def)

lemma holds_later: "holds R k h t T s \<Longrightarrow> t \<le> t' \<Longrightarrow> t' \<le> T \<Longrightarrow> holds R k h t' T s"
  by (simp add: holds_def)

context redis_service
begin

lemma hset_expire_holds:
  assumes "holds R k h t T s" and "T' < t + ttl" and "t \<le> T'"
  shows "holds R k (h ++ map_of (rev fvs)) t T' (r_pexpire R k ttl t (r_hset R k fvs t s))"
proof -
  have rd: "r_read R k t s = Some (RHash h)" using assms by (simp add: holds_def)
  then have "r_read R k t (r_hset R k fvs t s) = Some (RHash (h ++ map_of (rev fvs)))"
    using read_hset [OF order_refl, of k t s h k fvs] by (simp add: hset_value_def)
  with assms show ?thesis by (simp add: holds_def read_pexpire)
qed

lemma hset_holds:
  assumes "holds R k h t T s"
  shows "holds R k (h ++ map_of (rev fvs)) t T (r_hset R k fvs t s)"
proof -
  have "r_read R k t s = Some (RHash h)" using assms by (simp add: holds_def)
  then have "r_read R k t' (r_hset R k fvs t s) =
      map_option (\<lambda>_. RHash (h ++ map_of (rev fvs))) (r_read R k t' s)" if "t \<le> t'" for t'
    using read_hset [OF that, of k s h k fvs] by (simp add: hset_value_def)
  with assms show ?thesis by (simp add: holds_def)
qed

lemma hset_fresh_holds:
  assumes "r_read R k t s = None" and "t \<le> T"
  shows "holds R k (map_of (rev fvs)) t T (r_hset R k fvs t s)"
  using assms read_hset [of t _ k s Map.empty k fvs] by (simp add: holds_def hset_value_def)

text \<open>One call while the breaker is closed and its failure window has not run out.\<close>

lemma closed_failure:
  assumes h: "holds R (cb_key name) h t T s" and T: "t' \<le> T" "T < t' + TTL_SECONDS * 1000" "t \<le> t'"
    and closed: "h ''state'' = None" "h ''windowStart'' = Some (HNum (of_int w))"
      "lua_num_or_0 (h ''failures'') = of_int j" "t \<le> w + failureWindowMs cfg"
    and fn: "\<And>s. fn t s = (Inl e, t', s)"
  obtains s' where "withCircuitBreaker R name cfg fn t s = (Inl (Thrown e), t', s')"
    "holds R (cb_key name) (h ++ map_of (rev (failure_writes (failureThreshold cfg) j t))) t' T s'"
proof -
  let ?k = "cb_key name"
  have get: "r_hget R ?k f u s = h f" if "t \<le> u" "u \<le> T" for f u using holds_hget [OF h that] .
  have "of_int t \<le> (of_int w + of_int (failureWindowMs cfg) :: rat)"
    using closed(4) by (metis of_int_add of_int_le_iff)
  then have att: "attempt_script R ?k t (failureWindowMs cfg) (openDurationMs cfg) s = ((1, ''closed''), s)"
    using closed T get [of t] by (simp add: attempt_script_def lua_num_or_0_def)
  define thr where "thr = failureThreshold cfg"
  define s' where "s' = snd (report_script R ?k t False thr t' s)"
  have le: "of_int thr \<le> (of_int j + 1 :: rat) \<longleftrightarrow> thr \<le> j + 1"
    by (metis of_int_1 of_int_add of_int_le_iff)
  have rep: "s' = r_pexpire R ?k (TTL_SECONDS * 1000) t' (r_hset R ?k (failure_writes thr j t) t' s)"
    using closed T get [of t'] by (simp add: s'_def report_script_def failure_writes_def Let_def le)
  have "holds R ?k h t' T s" using holds_later [OF h] T by simp
  from hset_expire_holds [OF this T(2,1)] rep
  have "holds R ?k (h ++ map_of (rev (failure_writes thr j t))) t' T s'" by simp
  moreover have "withCircuitBreaker R name cfg fn t s = (Inl (Thrown e), t', s')"
    by (simp add: withCircuitBreaker_def att fn s'_def thr_def)
  ultimately show ?thesis using that by (simp add: thr_def)
qed

lemma open_fails_fast:
  assumes h: "holds R (cb_key name) h t T s"
    and "h ''state'' = Some (HStr ''open'')" "h ''openedAt'' = Some (HNum (of_int z))" "t < z + openDurationMs cfg"
  shows "withCircuitBreaker R name cfg fn t s = (Inl (CircuitOpenError name), t, s)"
proof -
  have get: "r_hget R (cb_key name) f t s = h f" for f using h by (simp add: holds_def r_hget_def)
  have "\<not> of_int (openDurationMs cfg) \<le> (of_int t - of_int z :: rat)"
    using assms(4) by (metis of_int_diff of_int_le_iff not_le diff_less_eq add.commute)
  then show ?thesis
    using assms(2,3) by (simp add: withCircuitBreaker_def attempt_script_def get lua_num_or_0_def)
qed

end

text \<open>A caller that makes one call after the other, at the given times.\<close>

fun call_sequence ::
    "('s, 'm) redis_scheme \<Rightarrow> string \<Rightarrow> CircuitBreakerConfig \<Rightarrow> ('e, 'a, 's) call \<Rightarrow> ms list \<Rightarrow> 's
      \<Rightarrow> ('e cb_error, 'a) result list \<times> 's" where
  "call_sequence R name cfg fn [] s = ([], s)"
| "call_sequence R name cfg fn (t # ts) s =
     (let (r, _, s') = withCircuitBreaker R name cfg fn t s;
          (rs, s'') = call_sequence R name cfg fn ts s'
      in (r # rs, s''))"

text \<open>What the specification says of a dependency that always fails: \<open>n\<close> real failures, then fail fast.\<close>

definition tripping :: "string \<Rightarrow> 'e \<Rightarrow> nat \<Rightarrow> nat \<Rightarrow> ('e cb_error, 'a) result list" where
  "tripping name e threshold n =
     replicate (min threshold n) (Inl (Thrown e)) @ replicate (n - threshold) (Inl (CircuitOpenError name))"

lemma tripping_step:
  "0 < k \<Longrightarrow> tripping name e k (Suc m) = Inl (Thrown e) # tripping name e (k - 1) m"
  by (cases k) (simp_all add: tripping_def)

context redis_service
begin

lemma open_sequence:
  assumes "holds R (cb_key name) h t0 T s"
    and "h ''state'' = Some (HStr ''open'')" "h ''openedAt'' = Some (HNum (of_int z))"
    and "sorted (t0 # ts)" "\<forall>t \<in> set ts. t < z + openDurationMs cfg \<and> t \<le> T"
  shows "call_sequence R name cfg fn ts s = (replicate (length ts) (Inl (CircuitOpenError name)), s)"
  using assms
proof (induction ts arbitrary: t0)
  case (Cons t ts)
  then have "holds R (cb_key name) h t T s" by (auto intro: holds_later)
  with Cons show ?case by (simp add: open_fails_fast)
qed simp

lemma closed_sequence:
  assumes "holds R (cb_key name) h t0 T s" and T: "T < t0 + TTL_SECONDS * 1000"
    and "h ''state'' = None" "h ''windowStart'' = Some (HNum (of_int w))"
      "lua_num_or_0 (h ''failures'') = of_int (int j)" "j < n" "failureThreshold cfg = int n"
    and "sorted (t0 # ts)" "sorted_wrt (\<lambda>a b. a + d \<le> b) ts" "0 \<le> d" "w \<le> t0"
    and "\<forall>t \<in> set ts. t \<le> w + failureWindowMs cfg \<and> t < w + openDurationMs cfg \<and> t + d \<le> T"
    and fn: "\<And>t s. fn t s = (Inl e, t + d, s)"
  shows "fst (call_sequence R name cfg fn ts s) = tripping name e (n - j) (length ts)"
  using assms(1-12)
proof (induction ts arbitrary: h t0 s j)
  case (Cons t ts)
  let ?h' = "h ++ map_of (rev (failure_writes (failureThreshold cfg) (int j) t))"
  have h: "holds R (cb_key name) h t T s" using holds_later [OF Cons.prems(1)] Cons.prems by auto
  obtain s' where run: "withCircuitBreaker R name cfg fn t s = (Inl (Thrown e), t + d, s')"
    and h': "holds R (cb_key name) ?h' (t + d) T s'"
    using closed_failure [OF h _ _ _ Cons.prems(3,4,5), of "t + d" cfg fn e] Cons.prems fn by auto
  have sorted: "sorted ((t + d) # ts)" using Cons.prems by simp
  show ?case
  proof (cases "n = Suc j")
    case True
    then have "?h' ''state'' = Some (HStr ''open'')" "?h' ''openedAt'' = Some (HNum (of_int t))"
      using Cons.prems by (simp_all add: failure_writes_def)
    moreover have "\<forall>u \<in> set ts. u < t + openDurationMs cfg \<and> u \<le> T" using Cons.prems by auto
    ultimately have "call_sequence R name cfg fn ts s' = (replicate (length ts) (Inl (CircuitOpenError name)), s')"
      by (intro open_sequence [OF h' _ _ sorted])
    then show ?thesis using True by (simp add: run tripping_def)
  next
    case False
    with Cons.prems have "Suc j < n" by simp
    moreover from this have "?h' ''state'' = None" "?h' ''windowStart'' = Some (HNum (of_int w))"
      "lua_num_or_0 (?h' ''failures'') = of_int (int (Suc j))"
      using Cons.prems by (simp_all add: failure_writes_def lua_num_or_0_def)
    moreover have "fst (call_sequence R name cfg fn ts s') = tripping name e (n - Suc j) (length ts)"
      if "Suc j < n" "?h' ''state'' = None" "?h' ''windowStart'' = Some (HNum (of_int w))"
      "lua_num_or_0 (?h' ''failures'') = of_int (int (Suc j))"
      using that Cons.prems sorted by (intro Cons.IH [OF h']) auto
    ultimately show ?thesis by (simp add: run split_beta tripping_step)
  qed
qed (simp add: tripping_def)

end

text \<open>The decisions a series of callers gets from the gate, none of which has reported yet.\<close>

fun attempt_sequence ::
    "('s, 'm) redis_scheme \<Rightarrow> string \<Rightarrow> CircuitBreakerConfig \<Rightarrow> ms list \<Rightarrow> 's \<Rightarrow> int list" where
  "attempt_sequence R name cfg [] s = []"
| "attempt_sequence R name cfg (t # ts) s =
     (let ((flag, _), s') = attempt_script R (cb_key name) t (failureWindowMs cfg) (openDurationMs cfg) s
      in flag # attempt_sequence R name cfg ts s')"

context redis_service
begin

lemma probe_taken_sequence:
  assumes "holds R (cb_key name) h t0 T s"
    and "h ''state'' = Some (HStr ''half_open'')" "h ''probeTaken'' = Some (HStr ''1'')"
    and "sorted (t0 # ts)" "\<forall>t \<in> set ts. t \<le> T"
  shows "attempt_sequence R name cfg ts s = replicate (length ts) 0"
  using assms
proof (induction ts arbitrary: t0)
  case (Cons t ts)
  then have "holds R (cb_key name) h t T s" by (auto intro: holds_later)
  then have "r_hget R (cb_key name) f t s = h f" for f by (simp add: holds_def r_hget_def)
  with Cons \<open>holds R (cb_key name) h t T s\<close> show ?case
    by (simp add: attempt_script_def Let_def)
qed simp

lemma probe_claim:
  assumes rd: "r_read R (cb_key name) t s = Some (RHash h)"
    and op: "h ''state'' = Some (HStr ''open'')" "h ''openedAt'' = Some (HNum (of_int z))" "z + openDurationMs cfg \<le> t"
    and T: "t \<le> T" "T < t + TTL_SECONDS * 1000"
  obtains s' where
    "attempt_script R (cb_key name) t (failureWindowMs cfg) (openDurationMs cfg) s = ((1, ''half_open''), s')"
    "holds R (cb_key name) (h(''state'' \<mapsto> HStr ''half_open'', ''probeTaken'' \<mapsto> HStr ''1'')) t T s'"
proof -
  let ?k = "cb_key name" and ?fvs = "[(''state'', HStr ''half_open''), (''probeTaken'', HStr ''1'')]"
  have get: "r_hget R ?k f t s = h f" for f using rd by (simp add: r_hget_def)
  have "of_int (openDurationMs cfg) \<le> (of_int t - of_int z :: rat)"
    using op(3) by (metis add.commute le_diff_eq of_int_diff of_int_le_iff)
  then have run: "attempt_script R ?k t (failureWindowMs cfg) (openDurationMs cfg) s =
      ((1, ''half_open''), r_pexpire R ?k (TTL_SECONDS * 1000) t (r_hset R ?k ?fvs t s))"
    using op by (simp add: attempt_script_def get lua_num_or_0_def Let_def)
  have "holds R ?k h t t s" using rd by (auto simp: holds_def dest: antisym)
  from hset_expire_holds [OF this T(2,1), of ?fvs]
  have "holds R ?k (h(''state'' \<mapsto> HStr ''half_open'', ''probeTaken'' \<mapsto> HStr ''1'')) t T
      (r_pexpire R ?k (TTL_SECONDS * 1000) t (r_hset R ?k ?fvs t s))"
    by (simp add: fun_upd_twist)
  with run show ?thesis by (rule that)
qed

lemma single_probe:
  assumes "r_read R (cb_key name) t s = Some (RHash h)"
    and "h ''state'' = Some (HStr ''open'')" "h ''openedAt'' = Some (HNum (of_int z))" "z + openDurationMs cfg \<le> t"
    and "sorted (t # ts)" "\<forall>u \<in> set ts. u < t + TTL_SECONDS * 1000"
  shows "attempt_sequence R name cfg (t # ts) s = 1 # replicate (length ts) 0"
proof -
  let ?T = "t + TTL_SECONDS * 1000 - 1"
  obtain s' where run: "attempt_script R (cb_key name) t (failureWindowMs cfg) (openDurationMs cfg) s = ((1, ''half_open''), s')"
    and h: "holds R (cb_key name) (h(''state'' \<mapsto> HStr ''half_open'', ''probeTaken'' \<mapsto> HStr ''1'')) t ?T s'"
    by (rule probe_claim [OF assms(1-4), of ?T]) (auto simp: TTL_SECONDS_def)
  have "\<forall>u \<in> set ts. u \<le> ?T" using assms(6) by force
  with probe_taken_sequence [OF h _ _ assms(5)] run show ?thesis by simp
qed

lemma probe_outcome:
  assumes "r_read R (cb_key name) t s = Some (RHash h)"
    and "h ''state'' = Some (HStr ''open'')" "h ''openedAt'' = Some (HNum (of_int z))" "z + openDurationMs cfg \<le> t"
    and t': "t \<le> t'" "t' < t + TTL_SECONDS * 1000" and fn: "\<And>s. fn t s = (r, t', s)"
  shows "case r of
      Inr a \<Rightarrow> (\<exists>s'. withCircuitBreaker R name cfg fn t s = (Inr a, t', s') \<and> getCircuitState R name t' s' = ''closed'')
    | Inl e \<Rightarrow> (\<exists>s'. withCircuitBreaker R name cfg fn t s = (Inl (Thrown e), t', s') \<and>
        (\<forall>u. t' \<le> u \<and> u < t + openDurationMs cfg \<and> u < t' + TTL_SECONDS * 1000 \<longrightarrow>
          withCircuitBreaker R name cfg fn u s' = (Inl (CircuitOpenError name), u, s')))"
proof -
  let ?h = "h(''state'' \<mapsto> HStr ''half_open'', ''probeTaken'' \<mapsto> HStr ''1'')"
  obtain s1 where run: "attempt_script R (cb_key name) t (failureWindowMs cfg) (openDurationMs cfg) s = ((1, ''half_open''), s1)"
    and h1: "holds R (cb_key name) ?h t t' s1"
    by (rule probe_claim [OF assms(1-4) t'])
  have h1': "holds R (cb_key name) ?h t' t' s1" using holds_later [OF h1] t' by simp
  have get: "r_hget R (cb_key name) f t' s1 = ?h f" for f using h1' by (simp add: holds_def r_hget_def)
  show ?thesis
  proof (cases r)
    case (Inr a)
    let ?fvs = "[(''state'', HStr ''closed''), (''failures'', HNum 0), (''windowStart'', HNum (of_int t)), (''probeTaken'', HStr ''0'')]"
    have "holds R (cb_key name) (?h ++ map_of (rev ?fvs)) t' t'
        (snd (report_script R (cb_key name) t True (failureThreshold cfg) t' s1))"
      using hset_expire_holds [OF h1', of t' "TTL_SECONDS * 1000" ?fvs]
      by (simp add: report_script_def get Let_def TTL_SECONDS_def)
    from holds_hget [OF this, of t' "''state''"]
    show ?thesis using Inr run fn by (simp add: withCircuitBreaker_def getCircuitState_def)
  next
    case (Inl e)
    let ?fvs = "[(''state'', HStr ''open''), (''openedAt'', HNum (of_int t)), (''probeTaken'', HStr ''0'')]"
    let ?T = "t' + TTL_SECONDS * 1000 - 1"
    define s2 where "s2 = snd (report_script R (cb_key name) t False (failureThreshold cfg) t' s1)"
    have h2: "holds R (cb_key name) (?h ++ map_of (rev ?fvs)) t' ?T s2"
      using hset_expire_holds [OF h1', of ?T "TTL_SECONDS * 1000" ?fvs]
      by (simp add: report_script_def get Let_def TTL_SECONDS_def s2_def)
    have "withCircuitBreaker R name cfg fn u s2 = (Inl (CircuitOpenError name), u, s2)"
      if "t' \<le> u" "u < t + openDurationMs cfg" "u < t' + TTL_SECONDS * 1000" for u
      using that by (intro open_fails_fast [OF holds_later [OF h2], of u t]) auto
    then show ?thesis using Inl run fn by (simp add: withCircuitBreaker_def s2_def)
  qed
qed

lemma trips:
  assumes "r_read R (cb_key name) t0 s = None" "failureThreshold cfg = int n" "0 < n" "0 \<le> d"
    and "sorted_wrt (\<lambda>a b. a + d \<le> b) (t0 # ts)"
    and "\<forall>t \<in> set (t0 # ts). t \<le> t0 + failureWindowMs cfg \<and> t < t0 + openDurationMs cfg \<and>
           t + d < t0 + TTL_SECONDS * 1000"
    and fn: "\<And>t s. fn t s = (Inl e, t + d, s)"
  shows "fst (call_sequence R name cfg fn (t0 # ts) s) = tripping name e n (Suc (length ts))"
proof -
  let ?T = "t0 + TTL_SECONDS * 1000 - 1" and ?k = "cb_key name"
  define s1 where "s1 = r_hset R ?k [(''windowStart'', HNum (of_int t0))] t0 s"
  have h: "holds R ?k (map_of (rev [(''windowStart'', HNum (of_int t0))])) t0 ?T s1"
    unfolding s1_def using assms(1) by (intro hset_fresh_holds) (auto simp: TTL_SECONDS_def)
  have sorted: "sorted (t0 # t0 # ts)"
    using assms(4,5) by (auto intro: sorted_wrt_mono_rel [rotated])
  have times: "\<forall>t \<in> set (t0 # ts). t \<le> t0 + failureWindowMs cfg \<and> t < t0 + openDurationMs cfg \<and> t + d \<le> ?T"
    using assms(6) by force
  have "fst (call_sequence R name cfg fn (t0 # ts) s1) = tripping name e (n - 0) (length (t0 # ts))"
    by (rule closed_sequence [OF h _ _ _ _ assms(3,2) sorted assms(5,4) order_refl times fn])
      (simp_all add: lua_num_or_0_def)
  moreover have "attempt_script R ?k t0 W D s1 = ((1, ''closed''), s1)" if "0 \<le> W" for W D
    using h that by (simp add: attempt_script_def holds_def r_hget_def lua_num_or_0_def)
  moreover have "attempt_script R ?k t0 W D s = ((1, ''closed''), s1)" for W D
    using assms(1) by (simp add: attempt_script_def s1_def r_hget_def)
  ultimately show ?thesis using assms(6) by (simp add: withCircuitBreaker_def)
qed

end


definition demo_breaker :: CircuitBreakerConfig where
  "demo_breaker = \<lparr>failureThreshold = 2, failureWindowMs = 60000, openDurationMs = 30000\<rparr>"


text \<open>
  C20. Half-open lets exactly one probe through: once \<^verbatim>\<open>openDurationMs\<close> has passed, of any number
  of callers that arrive before the probe reports (within the hour the key lives) only the first is
  admitted.
\<close>

theorem half_open_single_probe:
  assumes "redis_service R" and "r_read R (cb_key name) t s = Some (RHash h)"
    and "h ''state'' = Some (HStr ''open'')" "h ''openedAt'' = Some (HNum (of_int z))" "z + openDurationMs cfg \<le> t"
    and "sorted (t # ts)" "\<forall>u \<in> set ts. u < t + TTL_SECONDS * 1000"
  shows "attempt_sequence R name cfg (t # ts) s = 1 # replicate (length ts) 0"
  using redis_service.single_probe [OF assms] .

definition opened :: mem_state where
  "opened = [''circuit:openai'' \<mapsto>
     (RHash [''state'' \<mapsto> HStr ''open'', ''openedAt'' \<mapsto> HNum (of_int 100), ''probeTaken'' \<mapsto> HStr ''0''], Some 3600100)]"

lemma read_opened: "t < 3600100 \<Longrightarrow> r_read mem_redis (cb_key ''openai'') t opened =
    Some (RHash [''state'' \<mapsto> HStr ''open'', ''openedAt'' \<mapsto> HNum (of_int 100), ''probeTaken'' \<mapsto> HStr ''0''])"
  by (simp add: mem_sel mem_read_def opened_def cb_key_def)

theorem half_open_single_probe_witness:
  "attempt_sequence mem_redis ''openai'' demo_breaker [30100, 30101, 31000] opened = [1, 0, 0]"
  using half_open_single_probe [OF mem.redis_service_axioms read_opened, of 30100 100 demo_breaker "[30101, 31000]"]
  by (simp add: demo_breaker_def TTL_SECONDS_def numeral_2_eq_2)

text \<open>
  The probe decides: if it succeeds the circuit is closed when its report is in; if it fails,
  the circuit opens again for \<^verbatim>\<open>openDurationMs\<close> from the start of the probe and every call in
  that time fails fast without touching the store.
\<close>

theorem probe_outcome_decides:
  assumes "redis_service R" and "r_read R (cb_key name) t s = Some (RHash h)"
    and "h ''state'' = Some (HStr ''open'')" "h ''openedAt'' = Some (HNum (of_int z))" "z + openDurationMs cfg \<le> t"
    and "t \<le> t'" "t' < t + TTL_SECONDS * 1000" and "\<forall>s. fn t s = (r, t', s)"
  shows "case r of
      Inr a \<Rightarrow> (\<exists>s'. withCircuitBreaker R name cfg fn t s = (Inr a, t', s') \<and> getCircuitState R name t' s' = ''closed'')
    | Inl e \<Rightarrow> (\<exists>s'. withCircuitBreaker R name cfg fn t s = (Inl (Thrown e), t', s') \<and>
        (\<forall>u. t' \<le> u \<and> u < t + openDurationMs cfg \<and> u < t' + TTL_SECONDS * 1000 \<longrightarrow>
          withCircuitBreaker R name cfg fn u s' = (Inl (CircuitOpenError name), u, s')))"
  by (rule redis_service.probe_outcome [OF assms(1-7)]) (use assms(8) in blast)

theorem probe_outcome_decides_witness:
  "\<exists>s'. withCircuitBreaker mem_redis ''openai'' demo_breaker (\<lambda>t s. (Inr ''pong'', t + 25, s)) 40000 opened
      = (Inr ''pong'' :: (string cb_error, string) result, 40025, s') \<and>
    getCircuitState mem_redis ''openai'' 40025 s' = ''closed''"
  using probe_outcome_decides [OF mem.redis_service_axioms read_opened, of 40000 100 demo_breaker 40025
      "\<lambda>t s. (Inr ''pong'', t + 25, s)" "Inr ''pong'' :: (string, string) result"]
  by (simp add: demo_breaker_def TTL_SECONDS_def)

section \<open>The retry loop\<close>

lemma computeBackoffDelay_bounds:
  assumes "0 < baseDelayMs cfg" and "0 \<le> r" and "r < 1"
  shows "baseDelayMs cfg * 2 ^ (n - 1) \<le> computeBackoffDelay n cfg r"
    and "computeBackoffDelay n cfg r < 3 / 2 * (baseDelayMs cfg * 2 ^ (n - 1))"
proof -
  define x where "x = baseDelayMs cfg * 2 ^ (n - 1)"
  have "0 < x" using assms by (simp add: x_def)
  then have "r * (x / 2) < 1 * (x / 2)" "0 \<le> r * (x / 2)" using assms by (auto intro: mult_strict_right_mono)
  then show "x \<le> computeBackoffDelay n cfg r" "computeBackoffDelay n cfg r < 3 / 2 * x"
    unfolding computeBackoffDelay_def Let_def x_def [symmetric] by linarith+
qed

text \<open>
  Whatever the random draws, each back-off delay lies in the documented band
  \<open>[base * 2^(n-1), 1.5 * base * 2^(n-1))\<close>, so that every delay is longer than the one before it.
\<close>

theorem backoff_band_and_growth:
  assumes "0 < baseDelayMs cfg" and "0 \<le> r" "r < 1" "0 \<le> r'" "r' < 1" and "1 \<le> n"
  shows "baseDelayMs cfg * 2 ^ (n - 1) \<le> computeBackoffDelay n cfg r
    \<and> computeBackoffDelay n cfg r < 3 / 2 * (baseDelayMs cfg * 2 ^ (n - 1))
    \<and> computeBackoffDelay n cfg r < computeBackoffDelay (n + 1) cfg r'"
proof -
  have "baseDelayMs cfg * 2 ^ (n + 1 - 1) = 2 * (baseDelayMs cfg * 2 ^ (n - 1))"
    using \<open>1 \<le> n\<close> by (cases n) simp_all
  moreover have "0 < baseDelayMs cfg * 2 ^ (n - 1)" using assms(1) by simp
  ultimately show ?thesis
    using computeBackoffDelay_bounds [OF assms(1-3), of n] computeBackoffDelay_bounds(1) [OF assms(1,4,5), of "n + 1"]
    by linarith
qed

theorem backoff_band_and_growth_witness:
  "computeBackoffDelay 3 \<lparr>maxAttempts = 5, baseDelayMs = 1000\<rparr> (1/4) = 4500
    \<and> (4500 :: rat) < computeBackoffDelay 4 \<lparr>maxAttempts = 5, baseDelayMs = 1000\<rparr> 0"
  using backoff_band_and_growth [of "\<lparr>maxAttempts = 5, baseDelayMs = 1000\<rparr>" "1/4" 0 3]
  by (simp add: computeBackoffDelay_def)

text \<open>The time the loop spends up to and including attempt \<open>k\<close>: the attempts and the delays between them.\<close>

fun retry_time :: "RetryConfig \<Rightarrow> (nat \<Rightarrow> rat) \<Rightarrow> (nat \<Rightarrow> ms) \<Rightarrow> nat \<Rightarrow> nat \<Rightarrow> ms" where
  "retry_time cfg random dur i 0 = dur i"
| "retry_time cfg random dur i (Suc m) =
     dur i + math_floor (computeBackoffDelay i cfg (random i)) + retry_time cfg random dur (Suc i) m"

lemma withRetry_loop_outcome:
  assumes fn: "\<And>n t s. fn n t s = (out n, t + dur n, upd n s)"
    and "int (i + m) \<le> maxAttempts cfg"
    and "\<And>n. i \<le> n \<Longrightarrow> n < i + m \<Longrightarrow> \<exists>e. out n = Inl e \<and> shouldRetry e"
    and "int (i + m) = maxAttempts cfg \<or> \<not> isl (out (i + m)) \<or> (\<exists>e. out (i + m) = Inl e \<and> \<not> shouldRetry e)"
  shows "withRetry_loop cfg shouldRetry random fn i le t s =
    (map_sum Some id (out (i + m)), t + retry_time cfg random dur i m, fold upd [i..<Suc (i + m)] s)"
  using assms(2-)
proof (induction m arbitrary: i le t s)
  case 0
  then show ?case
    by (subst withRetry_loop.simps, cases "out i") (auto simp: fn)
next
  case (Suc m)
  obtain e where e: "out i = Inl e" "shouldRetry e" using Suc.prems(2) [of i] by auto
  have "withRetry_loop cfg shouldRetry random fn i le t s =
      withRetry_loop cfg shouldRetry random fn (Suc i) (Some e)
        (t + dur i + math_floor (computeBackoffDelay i cfg (random i))) (upd i s)"
    using Suc.prems(1) e by (subst withRetry_loop.simps) (simp add: fn)
  also have "\<dots> = (map_sum Some id (out (Suc i + m)),
      t + dur i + math_floor (computeBackoffDelay i cfg (random i)) + retry_time cfg random dur (Suc i) m,
      fold upd [Suc i..<Suc (Suc i + m)] (upd i s))"
    using Suc.prems by (intro Suc.IH) auto
  also have "fold upd [Suc i..<Suc (Suc i + m)] (upd i s) = fold upd [i..<Suc (i + Suc m)] s"
    by (simp add: upt_conv_Cons [of i] del: upt_Suc)
  finally show ?case by (simp add: add.assoc)
qed

text \<open>
  \<^verbatim>\<open>withRetry\<close> makes the attempts \<open>1, \<dots>, k\<close> in order and nothing after them, where \<open>k\<close> is the
  first attempt that succeeds, fails with an error not worth retrying or is the last one allowed; it
  returns or rethrows the outcome of attempt \<open>k\<close> and takes exactly the attempts and back-off delays.
\<close>

theorem withRetry_outcome:
  assumes "\<forall>n t s. fn n t s = (out n, t + dur n, upd n s)" and "int (Suc m) \<le> maxAttempts cfg"
    and "\<forall>n. 1 \<le> n \<and> n < Suc m \<longrightarrow> (\<exists>e. out n = Inl e \<and> shouldRetry e)"
    and "int (Suc m) = maxAttempts cfg \<or> \<not> isl (out (Suc m)) \<or> (\<exists>e. out (Suc m) = Inl e \<and> \<not> shouldRetry e)"
  shows "withRetry cfg shouldRetry random fn t s =
    (map_sum Some id (out (Suc m)), t + retry_time cfg random dur 1 m, fold upd [1..<Suc (Suc m)] s)"
  using withRetry_loop_outcome [of fn out dur upd 1 m cfg shouldRetry random None t s] assms
  by (simp add: withRetry_def del: upt_Suc)

theorem withRetry_outcome_witness:
  "withRetry \<lparr>maxAttempts = 3, baseDelayMs = 100\<rparr> (\<lambda>e. e = ''timeout'') (\<lambda>_. 1/2)
     (\<lambda>n t s. (if n < 2 then Inl ''timeout'' else Inr n, t + 10, s @ [n])) 0 [] = (Inr 2, 145, [1, 2])"
  using withRetry_outcome [of "\<lambda>n t s. (if n < 2 then Inl ''timeout'' else Inr n, t + 10, s @ [n])"
      "\<lambda>n. if n < 2 then Inl ''timeout'' else Inr n" "\<lambda>_. 10" "\<lambda>n s. s @ [n]" 1
      "\<lparr>maxAttempts = 3, baseDelayMs = 100\<rparr>" "\<lambda>e. e = ''timeout''" "\<lambda>_. 1/2" 0 "[]"]
  by (simp add: computeBackoffDelay_def math_floor_def)

end
