(* ===== verification/Json.thy ===== *)
theory Json
  imports Prelude
begin

text \<open>
  \<^verbatim>\<open>JSON.parse\<close> on the strings of the model. A string is a list of 8-bit characters here, so
  Unicode escapes above \<open>00FF\<close> are outside the model and refused like a syntax error. Also the
  property lookup of JavaScript objects used as dictionaries, which sees the keys every object inherits
  from \<^verbatim>\<open>Object.prototype\<close>.
\<close>

section \<open>JSON.parse\<close>

definition json_space :: "char \<Rightarrow> bool" where
  "json_space c \<longleftrightarrow> (of_char c :: nat) \<in> {9, 10, 13, 32}"

abbreviation skip_ws :: "string \<Rightarrow> string" where
  "skip_ws \<equiv> dropWhile json_space"

definition hex_value :: "char \<Rightarrow> nat option" where
  "hex_value c =
     (let n = (of_char c :: nat) in
      if 48 \<le> n \<and> n \<le> 57 then Some (n - 48)
      else if 97 \<le> n \<and> n \<le> 102 then Some (n - 87)
      else if 65 \<le> n \<and> n \<le> 70 then Some (n - 55)
      else None)"

fun json_string_body :: "string \<Rightarrow> (string \<times> string) option" where
  "json_string_body [] = None"
| "json_string_body (c # cs) =
     (let n = (of_char c :: nat) in
      if n = 34 then Some ([], cs)
      else if n < 32 then None
      else if n = 92 then
        (case cs of
           [] \<Rightarrow> None
         | e # es \<Rightarrow>
             if e = CHR ''u'' then
               (case es of
                  a # b # x # y # rest \<Rightarrow>
                    (case (hex_value a, hex_value b, hex_value x, hex_value y) of
                       (Some 0, Some 0, Some u, Some v) \<Rightarrow>
                         map_option (\<lambda>(s, r). (char_of (16 * u + v) # s, r)) (json_string_body rest)
                     | _ \<Rightarrow> None)
                | _ \<Rightarrow> None)
             else
               (case map_of [(CHR 0x22, CHR 0x22), (CHR 0x5C, CHR 0x5C), (CHR ''/'', CHR ''/''),
                   (CHR ''b'', CHR 8), (CHR ''f'', CHR 12), (CHR ''n'', CHR 10),
                   (CHR ''r'', CHR 13), (CHR ''t'', CHR 9)] e of
                  None \<Rightarrow> None
                | Some d \<Rightarrow> map_option (\<lambda>(s, r). (d # s, r)) (json_string_body es)))
      else map_option (\<lambda>(s, r). (c # s, r)) (json_string_body cs))"

definition json_digits :: "string \<Rightarrow> string \<times> string" where
  "json_digits s = (takeWhile is_digit s, dropWhile is_digit s)"

definition json_exponent :: "string \<Rightarrow> (int \<times> string) option" where
  "json_exponent s =
     (case s of
        c # cs \<Rightarrow>
          if c = CHR ''e'' \<or> c = CHR ''E'' then
            (let (sgn, ds) = (case cs of
                 x # xs \<Rightarrow> (if x = CHR ''-'' then (- 1, xs) else if x = CHR ''+'' then (1, xs) else (1, cs))
               | [] \<Rightarrow> (1, cs));
                 (d, rest) = json_digits ds
             in if d = [] then None else Some (sgn * int (read_nat d), rest))
          else Some (0, s)
      | [] \<Rightarrow> Some (0, s))"

definition pow10 :: "int \<Rightarrow> rat" where
  "pow10 e = (if e < 0 then 1 / 10 ^ nat (- e) else 10 ^ nat e)"

definition json_number :: "string \<Rightarrow> (rat \<times> string) option" where
  "json_number s =
     (let (neg, s1) = (case s of c # cs \<Rightarrow> (if c = CHR ''-'' then (True, cs) else (False, s)) | [] \<Rightarrow> (False, s));
          (i, s2) = json_digits s1
      in if i = [] \<or> (length i > 1 \<and> hd i = CHR ''0'') then None
         else
           (let (f, s3) = (case s2 of
                  c # cs \<Rightarrow> (if c = CHR ''.'' then json_digits cs else ([], s2)) | [] \<Rightarrow> ([], s2));
                bad = (s2 \<noteq> [] \<and> hd s2 = CHR ''.'' \<and> f = [])
            in if bad then None
               else
                 (case json_exponent s3 of
                    None \<Rightarrow> None
                  | Some (e, s4) \<Rightarrow>
                      let m = of_nat (read_nat (i @ f)) * pow10 (e - int (length f))
                      in Some (if neg then - m else m, s4))))"

text \<open>A repeated key keeps its first position and takes the last value.\<close>

fun obj_put :: "string \<Rightarrow> json \<Rightarrow> (string \<times> json) list \<Rightarrow> (string \<times> json) list" where
  "obj_put k v [] = [(k, v)]"
| "obj_put k v ((k', v') # kvs) = (if k' = k then (k, v) # kvs else (k', v') # obj_put k v kvs)"

text \<open>The first argument bounds the nesting and the number of elements; the input's length is enough (\<open>json_parse_fuel\<close> below).\<close>

fun json_value :: "nat \<Rightarrow> string \<Rightarrow> (json \<times> string) option"
  and json_elements :: "nat \<Rightarrow> json list \<Rightarrow> string \<Rightarrow> (json list \<times> string) option"
  and json_members :: "nat \<Rightarrow> (string \<times> json) list \<Rightarrow> string \<Rightarrow> ((string \<times> json) list \<times> string) option" where
  "json_value 0 s = None"
| "json_value (Suc n) s =
     (case skip_ws s of
        [] \<Rightarrow> None
      | c # cs \<Rightarrow>
          if c = CHR ''{'' then
            (case skip_ws cs of
               d # ds \<Rightarrow> if d = CHR ''}'' then Some (JObj [], ds)
                         else map_option (\<lambda>(kvs, r). (JObj kvs, r)) (json_members n [] (d # ds))
             | [] \<Rightarrow> None)
          else if c = CHR ''['' then
            (case skip_ws cs of
               d # ds \<Rightarrow> if d = CHR '']'' then Some (JArr [], ds)
                         else map_option (\<lambda>(vs, r). (JArr vs, r)) (json_elements n [] (d # ds))
             | [] \<Rightarrow> None)
          else if c = CHR 0x22 then map_option (\<lambda>(x, r). (JStr x, r)) (json_string_body cs)
          else if prefix ''true'' (c # cs) then Some (JBool True, drop 4 (c # cs))
          else if prefix ''false'' (c # cs) then Some (JBool False, drop 5 (c # cs))
          else if prefix ''null'' (c # cs) then Some (JNull, drop 4 (c # cs))
          else map_option (\<lambda>(x, r). (JNum x, r)) (json_number (c # cs)))"
| "json_elements 0 acc s = None"
| "json_elements (Suc n) acc s =
     (case json_value n s of
        None \<Rightarrow> None
      | Some (v, r) \<Rightarrow>
          (case skip_ws r of
             c # cs \<Rightarrow> if c = CHR '','' then json_elements n (acc @ [v]) cs
                       else if c = CHR '']'' then Some (acc @ [v], cs) else None
           | [] \<Rightarrow> None))"
| "json_members 0 acc s = None"
| "json_members (Suc n) acc s =
     (case skip_ws s of
        q # qs \<Rightarrow>
          if q = CHR 0x22 then
            (case json_string_body qs of
               None \<Rightarrow> None
             | Some (k, r) \<Rightarrow>
                 (case skip_ws r of
                    c # cs \<Rightarrow>
                      if c = CHR '':'' then
                        (case json_value n cs of
                           None \<Rightarrow> None
                         | Some (v, r') \<Rightarrow>
                             (case skip_ws r' of
                                d # ds \<Rightarrow>
                                  if d = CHR '','' then json_members n (obj_put k v acc) ds
                                  else if d = CHR ''}'' then Some (obj_put k v acc, ds) else None
                              | [] \<Rightarrow> None))
                      else None
                  | [] \<Rightarrow> None))
          else None
      | [] \<Rightarrow> None)"

definition json_parse :: "string \<Rightarrow> json option" where
  "json_parse s =
     (case json_value (2 * length s + 2) s of
        Some (v, r) \<Rightarrow> if skip_ws r = [] then Some v else None
      | None \<Rightarrow> None)"

section \<open>The fuel of the parser is enough\<close>

lemma ifE_Some:
  assumes "(if b then x else y) = Some z" obtains "b" "x = Some z" | "\<not> b" "y = Some z"
  using assms by (cases b) simp_all

lemma length_skip_ws: "length (skip_ws s) \<le> length s"
  by (rule length_dropWhile_le)

lemma skip_ws_Cons: "skip_ws s = c # cs \<Longrightarrow> Suc (length cs) \<le> length s"
  using length_skip_ws [of s] by simp

lemma json_string_body_step:
  assumes "json_string_body (c # cs) = Some (x, r)"
  shows "r = cs \<or> (\<exists>y zs. json_string_body zs = Some (y, r) \<and> length zs \<le> length cs)"
proof -
  have ex: "\<exists>y ws. json_string_body ws = Some (y, r) \<and> length ws \<le> length cs"
    if "map_option (\<lambda>(s, r). (f s, r)) (json_string_body zs) = Some (x, r)" "length zs \<le> length cs" for f :: "string \<Rightarrow> string" and zs
    using that by auto
  show ?thesis
    using assms ex
    by (simp add: Let_def split: if_splits list.splits option.splits nat.splits)
qed

lemma json_string_body_shorter: "json_string_body s = Some (x, r) \<Longrightarrow> length r < length s"
proof (induction "length s" arbitrary: s x rule: less_induct)
  case less
  then show ?case
  proof (cases s)
    case (Cons c cs)
    from json_string_body_step [OF less.prems [unfolded Cons]] show ?thesis
    proof (elim disjE exE conjE)
      fix y zs
      assume "json_string_body zs = Some (y, r)" "length zs \<le> length cs"
      with less.hyps [of zs y] show ?thesis by (simp add: Cons)
    qed (simp add: Cons)
  qed simp
qed

lemma json_digits_shorter: "json_digits s = (d, r) \<Longrightarrow> length r + length d = length s"
  unfolding json_digits_def by (metis Pair_inject add.commute length_append takeWhile_dropWhile_id)

lemma json_exponent_shorter: "json_exponent s = Some (e, r) \<Longrightarrow> length r \<le> length s"
  unfolding json_exponent_def
  by (auto simp: Let_def split: list.splits if_splits prod.splits dest!: json_digits_shorter)

lemma json_number_shorter: "json_number s = Some (x, r) \<Longrightarrow> length r < length s"
  unfolding json_number_def
  by (auto simp: Let_def neq_Nil_conv split: list.splits if_splits prod.splits option.splits dest!: json_digits_shorter json_exponent_shorter)

lemma json_value_parts:
  assumes "json_value (Suc n) s = Some (v, r)" and "skip_ws s = c # cs"
  shows "(\<exists>d. skip_ws cs = d # r) \<or> (\<exists>d ds kvs. skip_ws cs = d # ds \<and> json_members n [] (d # ds) = Some (kvs, r))
    \<or> (\<exists>d ds vs. skip_ws cs = d # ds \<and> json_elements n [] (d # ds) = Some (vs, r))
    \<or> (\<exists>x. json_string_body cs = Some (x, r)) \<or> r = drop 4 (c # cs) \<or> r = drop 5 (c # cs)
    \<or> (\<exists>x. json_number (c # cs) = Some (x, r))"
  using assms(1)
  unfolding json_value.simps assms(2) list.case
  by (elim ifE_Some) (auto split: list.splits if_splits)

lemma json_shorter:
  "json_value n s = Some (v, r) \<Longrightarrow> length r < length s"
  "json_elements n acc s = Some (vs, r) \<Longrightarrow> length r < length s"
  "json_members n kvs s = Some (ms, r) \<Longrightarrow> length r < length s"
proof (induction n arbitrary: s v acc vs kvs ms r)
  case (Suc n)
  { case 1
    then obtain c cs where cs: "skip_ws s = c # cs" by (cases "skip_ws s") simp_all
    note len = skip_ws_Cons [OF cs]
    from json_value_parts [OF 1 cs] show ?case
      by (elim disjE exE conjE)
        (use len in \<open>auto dest!: skip_ws_Cons Suc.IH(2,3) json_string_body_shorter json_number_shorter\<close>)
  next
    case 2
    then obtain v' r' where v': "json_value n s = Some (v', r')" by (auto split: option.splits)
    obtain c cs where cs: "skip_ws r' = c # cs" using 2 v' by (cases "skip_ws r'") auto
    show ?case
      using 2 v' cs Suc.IH(1) [OF v'] skip_ws_Cons [OF cs] by (auto split: if_splits dest!: Suc.IH(2))
  next
    case 3
    then obtain q k b x v' b' y where "skip_ws s = q # x" "json_string_body x = Some (k, b)" "skip_ws b = CHR '':'' # y"
      "json_value n y = Some (v', b')"
      "(\<exists>z. skip_ws b' = CHR '','' # z \<and> json_members n (obj_put k v' kvs) z = Some (ms, r)) \<or> skip_ws b' = CHR ''}'' # r"
      by (fastforce split: option.splits list.splits if_splits)
    then show ?case
      using Suc.IH(1) [of y v' b'] json_string_body_shorter [of x k b] by (auto dest!: skip_ws_Cons Suc.IH(3))
  }
qed simp_all

lemma json_members_fuel_step:
  assumes "\<And>q qs x r d ds. skip_ws s = q # qs \<Longrightarrow> json_string_body qs = Some (x, r) \<Longrightarrow> skip_ws r = d # ds \<Longrightarrow>
      json_value n ds = json_value n' ds"
    and "\<And>q qs x r d ds w r' e es kvs'. skip_ws s = q # qs \<Longrightarrow> json_string_body qs = Some (x, r) \<Longrightarrow> skip_ws r = d # ds \<Longrightarrow>
      json_value n ds = Some (w, r') \<Longrightarrow> skip_ws r' = e # es \<Longrightarrow> json_members n kvs' es = json_members n' kvs' es"
  shows "json_members (Suc n) kvs s = json_members (Suc n') kvs s"
proof (cases "skip_ws s")
  case (Cons q qs)
  show ?thesis
  proof (cases "json_string_body qs")
    case (Some xr)
    obtain x r where xr: "xr = (x, r)" by fastforce
    show ?thesis
    proof (cases "skip_ws r")
      case c: (Cons d ds)
      show ?thesis
      proof (cases "json_value n ds")
        case None
        then show ?thesis using assms(1) [OF Cons Some [unfolded xr] c] by (simp add: Cons Some xr c)
      next
        case w: (Some w)
        have w': "json_value n' ds = Some w" using assms(1) [OF Cons Some [unfolded xr] c] w by simp
        obtain u r' where u: "w = (u, r')" by fastforce
        show ?thesis
        proof (cases "skip_ws r'")
          case e: (Cons e es)
          show ?thesis
            using assms(2) [OF Cons Some [unfolded xr] c w [unfolded u] e] w w' by (simp add: Cons Some xr c u e)
        qed (use w w' in \<open>simp add: Cons Some xr c u del: dropWhile_eq_Nil_conv\<close>)
      qed
    qed (simp add: Cons Some xr del: dropWhile_eq_Nil_conv)
  qed (simp add: Cons del: dropWhile_eq_Nil_conv)
qed (simp del: dropWhile_eq_Nil_conv)

lemma json_fuel:
  "2 * length s < n \<Longrightarrow> json_value n s = json_value (n + k) s"
  "2 * length s + 1 < n \<Longrightarrow> json_elements n acc s = json_elements (n + k) acc s"
  "2 * length s + 1 < n \<Longrightarrow> json_members n kvs s = json_members (n + k) kvs s"
proof (induction n arbitrary: s acc kvs)
  case (Suc n)
  { case 1
    show ?case
    proof (cases "skip_ws s")
      case (Cons c cs)
      have "json_members n [] (d # ds) = json_members (n + k) [] (d # ds)"
        "json_elements n [] (d # ds) = json_elements (n + k) [] (d # ds)" if "skip_ws cs = d # ds" for d ds
        using Suc.IH(2,3) [of "d # ds"] skip_ws_Cons [OF Cons] skip_ws_Cons [OF that] 1 by auto
      then show ?thesis by (cases "skip_ws cs") (simp_all only: add_Suc json_value.simps Cons list.case)
    qed (simp del: dropWhile_eq_Nil_conv)
  next
    case 2
    have v: "json_value n s = json_value (n + k) s" using Suc.IH(1) [of s] 2 by simp
    show ?case
    proof (cases "json_value n s")
      case (Some p)
      obtain v' r' where p: "p = (v', r')" by fastforce
      have "json_elements n acc' ds = json_elements (n + k) acc' ds" if "skip_ws r' = d # ds" for acc' d ds
        using Suc.IH(2) [of ds acc'] skip_ws_Cons [OF that] json_shorter(1) [of n s v' r'] Some p 2 by auto
      then show ?thesis using Some v by (cases "skip_ws r'") (simp_all add: p del: dropWhile_eq_Nil_conv)
    qed (use v in simp)
  next
    case 3
    have v: "json_value n ds = json_value (n + k) ds"
      if "skip_ws s = q # qs" "json_string_body qs = Some (x, r)" "skip_ws r = d # ds" for q qs x r d ds
      using Suc.IH(1) [of ds] skip_ws_Cons [OF that(1)] json_string_body_shorter [OF that(2)] skip_ws_Cons [OF that(3)] 3 by auto
    have m: "json_members n kvs' es = json_members (n + k) kvs' es"
      if "skip_ws s = q # qs" "json_string_body qs = Some (x, r)" "skip_ws r = d # ds" "json_value n ds = Some (w, r')"
        "skip_ws r' = e # es" for q qs x r d ds w r' e es kvs'
      using Suc.IH(3) [of es kvs'] skip_ws_Cons [OF that(1)] json_string_body_shorter [OF that(2)] skip_ws_Cons [OF that(3)]
        json_shorter(1) [OF that(4)] skip_ws_Cons [OF that(5)] 3 by auto
    show ?case
      unfolding add_Suc by (rule json_members_fuel_step) (use v m in blast)+
  }
qed simp_all

text \<open>More fuel never changes what is parsed.\<close>

lemma json_parse_fuel:
  assumes "2 * length s < n"
  shows "json_parse s = (case json_value n s of Some (v, r) \<Rightarrow> if skip_ws r = [] then Some v else None | None \<Rightarrow> None)"
proof -
  have "json_value (Suc (2 * length s)) s = json_value m s" if "2 * length s < m" for m
    using json_fuel(1) [of s "Suc (2 * length s)" "m - Suc (2 * length s)"] that by simp
  from this [of n] this [of "2 * length s + 2"] show ?thesis using assms by (simp add: json_parse_def)
qed

section \<open>Objects used as dictionaries\<close>

datatype 'a slot = Own 'a | Inherited | Missing

definition object_prototype_keys :: "string list" where
  "object_prototype_keys =
     [''constructor'', ''__defineGetter__'', ''__defineSetter__'', ''hasOwnProperty'', ''__lookupGetter__'',
      ''__lookupSetter__'', ''isPrototypeOf'', ''propertyIsEnumerable'', ''toString'', ''valueOf'',
      ''__proto__'', ''toLocaleString'']"

definition prop_lookup :: "(string \<times> 'a) list \<Rightarrow> string \<Rightarrow> 'a slot" where
  "prop_lookup kvs k =
     (case map_of kvs k of
        Some v \<Rightarrow> Own v
      | None \<Rightarrow> if k \<in> set object_prototype_keys then Inherited else Missing)"

text \<open>\<^verbatim>\<open>k in obj\<close>.\<close>

definition has_prop :: "(string \<times> 'a) list \<Rightarrow> string \<Rightarrow> bool" where
  "has_prop kvs k \<longleftrightarrow> prop_lookup kvs k \<noteq> Missing"

text \<open>Readers of parsed values: \<open>None\<close> stands for \<^verbatim>\<open>undefined\<close>.\<close>

fun as_string :: "json option \<Rightarrow> string option" where
  "as_string (Some (JStr s)) = Some s"
| "as_string _ = None"

fun as_number :: "json option \<Rightarrow> rat option" where
  "as_number (Some (JNum n)) = Some n"
| "as_number _ = None"

fun as_array :: "json option \<Rightarrow> json list option" where
  "as_array (Some (JArr xs)) = Some xs"
| "as_array _ = None"

fun is_obj :: "json option \<Rightarrow> bool" where
  "is_obj (Some (JObj kvs)) = True"
| "is_obj _ = False"

definition opt_get :: "json option \<Rightarrow> string \<Rightarrow> json option" where
  "opt_get j k = (case j of None \<Rightarrow> None | Some v \<Rightarrow> jget v k)"

end
