(* ===== verification/Sse.thy ===== *)
theory Sse
  imports Json
begin

text \<open>
  The stream framing of \<^verbatim>\<open>apps/gateway/src/lib/sse.ts\<close>. A response body is the list of the text
  chunks the reader delivers (after the streaming \<^verbatim>\<open>TextDecoder\<close>, which only joins bytes across
  chunks); the generator is the list of what it yields. The lemmas show that the result depends on
  the text alone and not on where the network cut it.
\<close>

abbreviation newline :: char where
  "newline \<equiv> CHR 10"

text \<open>The inner loop: take complete lines off the buffer; \<open>emit\<close> is what a line yields.\<close>

function drain :: "(string \<Rightarrow> 'a list) \<Rightarrow> string \<Rightarrow> 'a list \<times> string" where
  "drain emit buffer =
     (if newline \<in> set buffer then
        (let line = trim (takeWhile (\<lambda>c. c \<noteq> newline) buffer);
             rest = tl (dropWhile (\<lambda>c. c \<noteq> newline) buffer);
             (ys, b) = drain emit rest
         in (emit line @ ys, b))
      else ([], buffer))"
  by pat_completeness auto

termination
proof (relation "measure (length \<circ> snd)", simp, goal_cases)
  case (1 emit buffer line rest)
  then have "dropWhile (\<lambda>c. c \<noteq> newline) buffer \<noteq> []" by (auto simp: dropWhile_eq_Nil_conv)
  then have "length (tl (dropWhile (\<lambda>c. c \<noteq> newline) buffer)) < length (dropWhile (\<lambda>c. c \<noteq> newline) buffer)"
    by (cases "dropWhile (\<lambda>c. c \<noteq> newline) buffer") auto
  also have "\<dots> \<le> length buffer" by (rule length_dropWhile_le)
  finally show ?case using 1 by simp
qed

declare drain.simps [simp del]

fun read_chunks :: "(string \<Rightarrow> 'a list) \<Rightarrow> string \<Rightarrow> string list \<Rightarrow> 'a list" where
  "read_chunks emit buffer [] = []"
| "read_chunks emit buffer (value # values) =
     (let (ys, buffer') = drain emit (buffer @ value)
      in ys @ read_chunks emit buffer' values)"

definition sse_emit :: "string \<Rightarrow> string list" where
  "sse_emit line = (if starts_with line ''data:'' then [trim (drop 5 line)] else [])"

definition ndjson_emit :: "string \<Rightarrow> string list" where
  "ndjson_emit line = (if line \<noteq> [] then [line] else [])"

definition parseSSELines :: "string list \<Rightarrow> string list" where
  "parseSSELines body = read_chunks sse_emit [] body"

definition parseNDJSONLines :: "string list \<Rightarrow> string list" where
  "parseNDJSONLines body = read_chunks ndjson_emit [] body"

section \<open>Chunk boundaries do not matter\<close>

lemma drain_no_newline [simp]: "newline \<notin> set b \<Longrightarrow> drain emit b = ([], b)"
  by (simp add: drain.simps)

lemma drain_line [simp]:
  "newline \<notin> set l \<Longrightarrow> drain emit (l @ newline # b) = (emit (trim l) @ fst (drain emit b), snd (drain emit b))"
  by (subst drain.simps) (simp add: split_beta Let_def takeWhile_append dropWhile_append)

text \<open>What a text yields: its newline-terminated lines.\<close>

definition text_lines :: "(string \<Rightarrow> 'a list) \<Rightarrow> string \<Rightarrow> 'a list" where
  "text_lines emit s = concat (map (emit \<circ> trim) (butlast (split_on newline s)))"

lemma split_newline:
  obtains (line) l r where "newline \<notin> set l" "s = l @ newline # r" | (last) "newline \<notin> set s"
  using split_list_first [of newline s] by blast

lemma drain_text_lines: "drain emit s = (text_lines emit s, last (split_on newline s))"
proof (induction "length s" arbitrary: s rule: less_induct)
  case less
  show ?case
  proof (cases s rule: split_newline)
    case (line l r)
    have "drain emit r = (text_lines emit r, last (split_on newline r))"
      using less [of r] line by simp
    with line show ?thesis by (simp add: text_lines_def split_on_append_sep)
  next
    case last
    then show ?thesis by (simp add: text_lines_def split_on_no_sep)
  qed
qed

lemma split_on_append:
  "split_on d (x @ y) = butlast (split_on d x) @ split_on d (last (split_on d x) @ y)"
proof (induction "length x" arbitrary: x rule: less_induct)
  case less
  show ?case
  proof (cases "d \<in> set x")
    case False
    then show ?thesis by (simp add: split_on_no_sep)
  next
    case True
    then obtain l r where x: "x = l @ d # r" "d \<notin> set l" using split_list_first [of d x] by blast
    with less [of r] show ?thesis by (simp add: split_on_append_sep)
  qed
qed

lemma text_lines_append:
  "text_lines emit (x @ y) = text_lines emit x @ text_lines emit (last (split_on newline x) @ y)"
  unfolding text_lines_def split_on_append [of newline x y] by (simp add: butlast_append)

lemma read_chunks_text:
  "newline \<notin> set b \<Longrightarrow> read_chunks emit b chunks = text_lines emit (b @ concat chunks)"
proof (induction chunks arbitrary: b)
  case Nil
  then show ?case by (simp add: text_lines_def split_on_no_sep)
next
  case (Cons v vs)
  have "newline \<notin> set (last (split_on newline (b @ v)))"
    using split_on_pieces [of _ newline "b @ v"] by (metis last_in_set split_on_nonempty)
  then have "read_chunks emit b (v # vs) =
      text_lines emit (b @ v) @ text_lines emit (last (split_on newline (b @ v)) @ concat vs)"
    using Cons.IH by (simp add: drain_text_lines)
  also have "\<dots> = text_lines emit (b @ concat (v # vs))"
    using text_lines_append [of emit "b @ v" "concat vs"] by simp
  finally show ?case .
qed

text \<open>The encoder of the other end: one \<^verbatim>\<open>data:\<close> line and an empty line per payload.\<close>

definition sse_frame :: "string \<Rightarrow> string" where
  "sse_frame payload = ''data: '' @ payload @ [newline, newline]"

definition sse_payload :: "string \<Rightarrow> bool" where
  "sse_payload p \<longleftrightarrow> newline \<notin> set p \<and> p \<noteq> [] \<and> \<not> is_space (hd p) \<and> \<not> is_space (last p)"

lemma text_lines_frame:
  assumes "sse_payload p"
  shows "text_lines sse_emit (sse_frame p @ rest) = p # text_lines sse_emit rest"
proof -
  let ?l = "''data: '' @ p"
  have "newline \<notin> set ?l" using assms by (simp add: sse_payload_def)
  moreover have "sse_frame p @ rest = ?l @ newline # [] @ newline # rest" by (simp add: sse_frame_def)
  ultimately have "split_on newline (sse_frame p @ rest) = ?l # [] # split_on newline rest"
    by (simp only: split_on_append_sep split_on_append_sep [of newline "[]", simplified])
      (simp add: split_on_append_sep)
  moreover have "trim ?l = ?l" using assms by (intro trim_id) (auto simp: sse_payload_def is_space_def)
  moreover have "trim (CHR '' '' # p) = p"
    using assms by (subst trim_space_Cons) (auto simp: is_space_def sse_payload_def trim_id)
  ultimately show ?thesis
    by (simp add: text_lines_def sse_emit_def)
qed

text \<open>
  The payloads recovered from a stream do not depend on how the network cuts the text into
  chunks, and framing payloads then parsing any chunking of the framed text gives them back in order.
\<close>

theorem sse_chunking_round_trip:
  assumes "\<forall>p \<in> set ps. sse_payload p" and "concat chunks = concat (map sse_frame ps)"
  shows "parseSSELines chunks = ps \<and>
    (\<forall>chunks'. concat chunks' = concat chunks \<longrightarrow>
       parseSSELines chunks' = parseSSELines chunks \<and> parseNDJSONLines chunks' = parseNDJSONLines chunks)"
proof -
  have "text_lines sse_emit (concat (map sse_frame ps)) = ps"
    using assms(1) by (induction ps) (simp_all add: text_lines_frame text_lines_def [of _ "[]"])
  then show ?thesis
    using assms(2) by (simp add: parseSSELines_def parseNDJSONLines_def read_chunks_text)
qed

theorem sse_chunking_round_trip_witness:
  "parseSSELines [''data: {1}'', [newline], newline # ''da'', ''ta: [DONE]'' @ [newline, newline]] = [''{1}'', ''[DONE]'']"
  using sse_chunking_round_trip [of "[''{1}'', ''[DONE]'']"
      "[''data: {1}'', [newline], newline # ''da'', ''ta: [DONE]'' @ [newline, newline]]"]
  by (simp add: sse_payload_def sse_frame_def is_space_def)

end
