(* ===== verification/Errors.thy ===== *)
theory Errors
  imports Prelude
begin

text \<open>
  The error classes of \<^verbatim>\<open>apps/gateway/src/errors.ts\<close>: an \<open>AppError\<close> is the status, message,
  code and extra headers the error handler writes to the response; each subclass is the constructor
  function that fills them. \<^verbatim>\<open>String(n)\<close> and \<^verbatim>\<open>toFixed(2)\<close> are modelled on exact numbers.
\<close>

record AppError =
  statusCode :: nat
  message :: string
  err_code :: string
  headers :: "(string \<times> string) list"

definition toFixed2 :: "rat \<Rightarrow> string" where
  "toFixed2 x =
     (let c = math_round (\<bar>x\<bar> * 100)
      in (if x < 0 then ''-'' else []) @ show_int (c div 100) @ ''.'' @
         [digit_char (nat (c div 10 mod 10)), digit_char (nat (c mod 10))])"

definition UnauthorizedError :: "string \<Rightarrow> AppError" where
  "UnauthorizedError msg = \<lparr>statusCode = 401, message = msg, err_code = ''UNAUTHORIZED'', headers = []\<rparr>"

definition ValidationError :: "string \<Rightarrow> AppError" where
  "ValidationError msg = \<lparr>statusCode = 400, message = msg, err_code = ''VALIDATION_ERROR'', headers = []\<rparr>"

definition NotFoundError :: "string \<Rightarrow> AppError" where
  "NotFoundError msg = \<lparr>statusCode = 404, message = msg, err_code = ''NOT_FOUND'', headers = []\<rparr>"

text \<open>The provider name is a field of the source's class that no response shows.\<close>

definition ProviderError :: "string \<Rightarrow> string \<Rightarrow> AppError" where
  "ProviderError msg provider =
     \<lparr>statusCode = 502, message = msg, err_code = ''PROVIDER_ERROR'', headers = []\<rparr>"

definition retry_after :: "rat \<Rightarrow> string \<times> string" where
  "retry_after seconds = (''Retry-After'', show_int (max 1 (math_ceil seconds)))"

definition RateLimitError :: "rat \<Rightarrow> AppError" where
  "RateLimitError retryAfterSeconds =
     \<lparr>statusCode = 429, message = ''Rate limit exceeded'', err_code = ''RATE_LIMITED'',
      headers = [retry_after retryAfterSeconds]\<rparr>"

definition ServiceUnavailableError :: "string \<Rightarrow> rat option \<Rightarrow> string \<Rightarrow> AppError" where
  "ServiceUnavailableError msg retryAfterSeconds code =
     \<lparr>statusCode = 503, message = msg, err_code = code,
      headers = (case retryAfterSeconds of None \<Rightarrow> [] | Some x \<Rightarrow> [retry_after x])\<rparr>"

definition AllProvidersUnavailableError :: AppError where
  "AllProvidersUnavailableError =
     ServiceUnavailableError ''All configured providers are currently unavailable'' None
       ''ALL_PROVIDERS_UNAVAILABLE''"

definition BudgetExceededError :: "rat \<Rightarrow> AppError" where
  "BudgetExceededError remainingUsd =
     \<lparr>statusCode = 402, message = ''Monthly budget exceeded (remaining: $'' @ toFixed2 remainingUsd @ '')'',
      err_code = ''BUDGET_EXCEEDED'', headers = []\<rparr>"

text \<open>What a call may throw: one of these, or any other JavaScript error (by its message or kind).\<close>

datatype thrown = ThrownApp AppError | ThrownJs string

text \<open>The classes with status 503 (\<^verbatim>\<open>instanceof ServiceUnavailableError\<close>).\<close>

definition is_service_unavailable :: "AppError \<Rightarrow> bool" where
  "is_service_unavailable e \<longleftrightarrow> statusCode e = 503"

lemma retry_after_positive: "\<exists>n \<ge> 1. retry_after x = (''Retry-After'', show_int n)"
  by (auto simp: retry_after_def intro!: exI [of _ "max 1 (math_ceil x)"])

lemmas app_error_defs = UnauthorizedError_def ValidationError_def NotFoundError_def ProviderError_def
  RateLimitError_def ServiceUnavailableError_def AllProvidersUnavailableError_def BudgetExceededError_def

lemma is_service_unavailable_simps [simp]:
  "\<not> is_service_unavailable (UnauthorizedError m)" "\<not> is_service_unavailable (ValidationError m)"
  "\<not> is_service_unavailable (NotFoundError m)" "\<not> is_service_unavailable (ProviderError m p)"
  "\<not> is_service_unavailable (RateLimitError x)" "\<not> is_service_unavailable (BudgetExceededError x)"
  "is_service_unavailable (ServiceUnavailableError m r c)" "is_service_unavailable AllProvidersUnavailableError"
  by (simp_all add: is_service_unavailable_def app_error_defs)

end
