(* ===== verification/Providers.thy ===== *)
theory Providers
  imports Sse Errors Redis
begin

text \<open>
  The unified chat interface and its provider adapters, \<^verbatim>\<open>apps/gateway/src/providers\<close>:
  the request each adapter sends, how it reads the answer and what it throws. The network is the
  argument \<open>fetch\<close>; the UUIDs drawn are arguments. An answer that is not of the shape the
  source declares for it is the thrown error the property access raises (\<open>ThrownJs\<close>).
  A generator is the list of the chunks it yields and the error, if any, that ends it.
\<close>

section \<open>types.ts\<close>

datatype Role = System | User | Assistant

record UnifiedMessage =
  role :: Role
  content :: string

record UnifiedChatRequest =
  req_model :: string
  req_messages :: "UnifiedMessage list"
  req_stream :: "bool option"
  req_maxTokens :: "rat option"
  req_temperature :: "rat option"

record UnifiedUsage =
  promptTokens :: rat
  completionTokens :: rat

datatype FinishReason = Fin_stop | Fin_length | Fin_content_filter | Fin_error

record UnifiedChatResponse =
  rsp_id :: string
  rsp_provider :: string
  rsp_model :: string
  rsp_message :: UnifiedMessage
  rsp_finishReason :: FinishReason
  rsp_usage :: UnifiedUsage

record UnifiedChatChunk =
  chk_id :: string
  chk_provider :: string
  chk_model :: string
  delta :: string
  chk_done :: bool
  chk_finishReason :: "FinishReason option"
  chk_usage :: "UnifiedUsage option"

record ModelInfo =
  mi_id :: string
  mi_provider :: string


section \<open>fetch and JSON.stringify\<close>

record HttpRequest =
  url :: string
  http_method :: string
  http_headers :: "(string \<times> string) list"
  http_body :: "json option"

text \<open>A body is delivered in text chunks; \<^verbatim>\<open>res.text()\<close> joins them.\<close>

record HttpResponse =
  res_status :: nat
  res_body :: "string list option"

type_synonym fetch = "HttpRequest \<Rightarrow> (string, HttpResponse) result"

definition res_ok :: "HttpResponse \<Rightarrow> bool" where
  "res_ok res \<longleftrightarrow> 200 \<le> res_status res \<and> res_status res \<le> 299"

definition res_text :: "HttpResponse \<Rightarrow> string" where
  "res_text res = (case res_body res of None \<Rightarrow> [] | Some cs \<Rightarrow> concat cs)"

definition res_json :: "HttpResponse \<Rightarrow> (thrown, json) result" where
  "res_json res = (case json_parse (res_text res) of None \<Rightarrow> Inl (ThrownJs ''SyntaxError'') | Some j \<Rightarrow> Inr j)"

text \<open>\<^verbatim>\<open>JSON.stringify\<close> leaves out fields that are \<^verbatim>\<open>undefined\<close>.\<close>

definition jopt :: "string \<Rightarrow> json option \<Rightarrow> (string \<times> json) list" where
  "jopt k v = (case v of None \<Rightarrow> [] | Some j \<Rightarrow> [(k, j)])"

fun role_name :: "Role \<Rightarrow> string" where
  "role_name System = ''system''"
| "role_name User = ''user''"
| "role_name Assistant = ''assistant''"

definition message_json :: "UnifiedMessage \<Rightarrow> json" where
  "message_json m = JObj [(''role'', JStr (role_name (role m))), (''content'', JStr (content m))]"

definition json_content_type :: "string \<times> string" where
  "json_content_type = (''Content-Type'', ''application/json'')"

definition post_json :: "fetch \<Rightarrow> string \<Rightarrow> (string \<times> string) list \<Rightarrow> json \<Rightarrow> (thrown, HttpResponse) result" where
  "post_json fetch u hs body =
     (case fetch \<lparr>url = u, http_method = ''POST'', http_headers = hs, http_body = Some body\<rparr> of
        Inl msg \<Rightarrow> Inl (ThrownJs msg)
      | Inr res \<Rightarrow> Inr res)"

definition get_url :: "fetch \<Rightarrow> string \<Rightarrow> (string \<times> string) list \<Rightarrow> (thrown, HttpResponse) result" where
  "get_url fetch u hs =
     (case fetch \<lparr>url = u, http_method = ''GET'', http_headers = hs, http_body = None\<rparr> of
        Inl msg \<Rightarrow> Inl (ThrownJs msg)
      | Inr res \<Rightarrow> Inr res)"

definition provider_failure :: "string \<Rightarrow> string \<Rightarrow> HttpResponse \<Rightarrow> thrown" where
  "provider_failure label name res =
     ThrownApp (ProviderError (label @ '' request failed: '' @ show_nat (res_status res) @ '' '' @ res_text res) name)"

definition usage_or_0 :: "json option \<Rightarrow> string \<Rightarrow> string \<Rightarrow> UnifiedUsage" where
  "usage_or_0 u p c =
     \<lparr>promptTokens = (case as_number (opt_get u p) of None \<Rightarrow> 0 | Some n \<Rightarrow> n),
      completionTokens = (case as_number (opt_get u c) of None \<Rightarrow> 0 | Some n \<Rightarrow> n)\<rparr>"

text \<open>The loop of a streaming adapter over the payloads: go on, return, or throw.\<close>

datatype 'st step = Continue 'st "UnifiedChatChunk list" | Return "UnifiedChatChunk list" | Throw thrown

fun run_stream :: "('st \<Rightarrow> string \<Rightarrow> 'st step) \<Rightarrow> 'st \<Rightarrow> string list \<Rightarrow> UnifiedChatChunk list \<times> thrown option" where
  "run_stream step st [] = ([], None)"
| "run_stream step st (p # ps) =
     (case step st p of
        Continue st' ys \<Rightarrow> (let (zs, e) = run_stream step st' ps in (ys @ zs, e))
      | Return ys \<Rightarrow> (ys, None)
      | Throw e \<Rightarrow> ([], Some e))"

section \<open>openai.ts\<close>

definition openai_mapFinishReason :: "string option \<Rightarrow> FinishReason" where
  "openai_mapFinishReason reason =
     (if reason = Some ''stop'' then Fin_stop
      else if reason = Some ''length'' then Fin_length
      else if reason = Some ''content_filter'' then Fin_content_filter
      else Fin_stop)"

definition NON_CHAT_SUBSTRINGS :: "string list" where
  "NON_CHAT_SUBSTRINGS =
     [''embedding'', ''whisper'', ''tts'', ''dall-e'', ''moderation'', ''davinci'', ''babbage'', ''curie'', ''ada'']"

definition lower_char :: "char \<Rightarrow> char" where
  "lower_char c = (let n = (of_char c :: nat) in if 65 \<le> n \<and> n \<le> 90 then char_of (n + 32) else c)"

definition toLowerCase :: "string \<Rightarrow> string" where
  "toLowerCase s = map lower_char s"

definition looksLikeChatModel :: "string \<Rightarrow> bool" where
  "looksLikeChatModel ident =
     (let lower = toLowerCase ident in \<not> list_ex (\<lambda>s. sublist s lower) NON_CHAT_SUBSTRINGS)"

record OpenAIAdapterConfig =
  openai_apiKey :: "string option"
  openai_baseUrl :: string

text \<open>An empty key counts as missing (\<^verbatim>\<open>!this.config.apiKey\<close>).\<close>

definition api_key :: "string option \<Rightarrow> string option" where
  "api_key k = (case k of Some [] \<Rightarrow> None | _ \<Rightarrow> k)"

definition openai_headers :: "OpenAIAdapterConfig \<Rightarrow> (thrown, (string \<times> string) list) result" where
  "openai_headers config =
     (case api_key (openai_apiKey config) of
        None \<Rightarrow> Inl (ThrownApp (ProviderError ''OpenAI is not configured (missing OPENAI_API_KEY)'' ''openai''))
      | Some k \<Rightarrow> Inr [json_content_type, (''Authorization'', ''Bearer '' @ k)])"

definition openai_body :: "bool \<Rightarrow> UnifiedChatRequest \<Rightarrow> json" where
  "openai_body stream req =
     JObj ([(''model'', JStr (req_model req)), (''messages'', JArr (map message_json (req_messages req)))]
       @ jopt ''max_tokens'' (map_option JNum (req_maxTokens req))
       @ jopt ''temperature'' (map_option JNum (req_temperature req))
       @ (if stream then [(''stream'', JBool True)] else []))"

definition openai_chat ::
    "fetch \<Rightarrow> OpenAIAdapterConfig \<Rightarrow> UnifiedChatRequest \<Rightarrow> (thrown, UnifiedChatResponse) result" where
  "openai_chat fetch config req =
     result_bind (openai_headers config) (\<lambda>hs.
     result_bind (post_json fetch (openai_baseUrl config @ ''/v1/chat/completions'') hs (openai_body False req)) (\<lambda>res.
     if \<not> res_ok res then Inl (provider_failure ''OpenAI'' ''openai'' res)
     else result_bind (res_json res) (\<lambda>body.
       case as_array (jget body ''choices'') of
         None \<Rightarrow> Inl (ThrownJs ''TypeError'')
       | Some [] \<Rightarrow> Inl (ThrownApp (ProviderError ''OpenAI response had no choices'' ''openai''))
       | Some (choice # _) \<Rightarrow>
           (case as_string (opt_get (jget choice ''message'') ''content'') of
              None \<Rightarrow> Inl (ThrownJs ''TypeError'')
            | Some text \<Rightarrow>
                Inr \<lparr>rsp_id = jstr (jget body ''id''), rsp_provider = ''openai'', rsp_model = req_model req,
                     rsp_message = \<lparr>role = Assistant, content = text\<rparr>,
                     rsp_finishReason = openai_mapFinishReason (as_string (jget choice ''finish_reason'')),
                     rsp_usage = usage_or_0 (jget body ''usage'') ''prompt_tokens'' ''completion_tokens''\<rparr>))))"

definition not_nullish :: "json option \<Rightarrow> bool" where
  "not_nullish v \<longleftrightarrow> v \<noteq> None \<and> v \<noteq> Some JNull"

definition openai_step :: "string \<Rightarrow> string \<Rightarrow> unit \<Rightarrow> string \<Rightarrow> unit step" where
  "openai_step uuid model st payload =
     (if payload = ''[DONE]'' then Return []
      else
        (case json_parse payload of
           None \<Rightarrow> Throw (ThrownJs ''SyntaxError'')
         | Some chunk \<Rightarrow>
             (case as_array (jget chunk ''choices'') of
                None \<Rightarrow> Throw (ThrownJs ''TypeError'')
              | Some [] \<Rightarrow> Continue () []
              | Some (choice # _) \<Rightarrow>
                  if \<not> is_obj (jget choice ''delta'') then Throw (ThrownJs ''TypeError'')
                  else
                    (let isFinal = not_nullish (jget choice ''finish_reason'')
                     in Continue ()
                          [\<lparr>chk_id = (case as_string (jget chunk ''id'') of None \<Rightarrow> uuid | Some i \<Rightarrow> i),
                            chk_provider = ''openai'', chk_model = model,
                            delta = jstr (opt_get (jget choice ''delta'') ''content''),
                            chk_done = isFinal,
                            chk_finishReason = (if isFinal
                              then Some (openai_mapFinishReason (as_string (jget choice ''finish_reason''))) else None),
                            chk_usage = (if is_obj (jget chunk ''usage'')
                              then Some (usage_or_0 (jget chunk ''usage'') ''prompt_tokens'' ''completion_tokens'')
                              else None)\<rparr>]))))"

definition openai_chatStream ::
    "fetch \<Rightarrow> string \<Rightarrow> OpenAIAdapterConfig \<Rightarrow> UnifiedChatRequest \<Rightarrow> UnifiedChatChunk list \<times> thrown option" where
  "openai_chatStream fetch uuid config req =
     (case result_bind (openai_headers config) (\<lambda>hs.
             post_json fetch (openai_baseUrl config @ ''/v1/chat/completions'') hs (openai_body True req)) of
        Inl e \<Rightarrow> ([], Some e)
      | Inr res \<Rightarrow>
          (case res_body res of
             None \<Rightarrow> ([], Some (provider_failure ''OpenAI'' ''openai'' res))
           | Some chunks \<Rightarrow>
               if \<not> res_ok res then ([], Some (provider_failure ''OpenAI'' ''openai'' res))
               else run_stream (openai_step uuid (req_model req)) () (parseSSELines chunks)))"

section \<open>anthropic.ts\<close>

definition DEFAULT_MAX_TOKENS :: rat where
  "DEFAULT_MAX_TOKENS = 1024"

definition anthropic_mapFinishReason :: "string option \<Rightarrow> FinishReason" where
  "anthropic_mapFinishReason reason =
     (if reason = Some ''end_turn'' \<or> reason = Some ''stop_sequence'' then Fin_stop
      else if reason = Some ''max_tokens'' then Fin_length
      else Fin_stop)"

fun split_system :: "UnifiedMessage list \<Rightarrow> string list \<times> UnifiedMessage list" where
  "split_system [] = ([], [])"
| "split_system (m # ms) =
     (let (parts, rest) = split_system ms
      in if role m = System then (content m # parts, rest) else (parts, m # rest))"

definition splitSystemPrompt :: "UnifiedMessage list \<Rightarrow> string option \<times> UnifiedMessage list" where
  "splitSystemPrompt messages =
     (let (systemParts, rest) = split_system messages
      in (if systemParts \<noteq> [] then Some (join_with [newline] systemParts) else None, rest))"

record AnthropicAdapterConfig =
  anthropic_apiKey :: "string option"
  anthropic_baseUrl :: string
  anthropic_version :: string

definition anthropic_headers :: "AnthropicAdapterConfig \<Rightarrow> (thrown, (string \<times> string) list) result" where
  "anthropic_headers config =
     (case api_key (anthropic_apiKey config) of
        None \<Rightarrow> Inl (ThrownApp (ProviderError ''Anthropic is not configured (missing ANTHROPIC_API_KEY)'' ''anthropic''))
      | Some k \<Rightarrow> Inr [json_content_type, (''x-api-key'', k), (''anthropic-version'', anthropic_version config)])"

definition anthropic_body :: "bool \<Rightarrow> UnifiedChatRequest \<Rightarrow> json" where
  "anthropic_body stream req =
     (let (sys, rest) = splitSystemPrompt (req_messages req)
      in JObj ([(''model'', JStr (req_model req))]
           @ jopt ''system'' (map_option JStr sys)
           @ [(''messages'', JArr (map message_json rest)),
              (''max_tokens'', JNum (case req_maxTokens req of None \<Rightarrow> DEFAULT_MAX_TOKENS | Some n \<Rightarrow> n))]
           @ jopt ''temperature'' (map_option JNum (req_temperature req))
           @ (if stream then [(''stream'', JBool True)] else [])))"

definition text_blocks :: "json list \<Rightarrow> string" where
  "text_blocks blocks =
     concat (map (\<lambda>b. jstr (jget b ''text'')) (filter (\<lambda>b. jget b ''type'' = Some (JStr ''text'')) blocks))"

definition anthropic_chat ::
    "fetch \<Rightarrow> AnthropicAdapterConfig \<Rightarrow> UnifiedChatRequest \<Rightarrow> (thrown, UnifiedChatResponse) result" where
  "anthropic_chat fetch config req =
     result_bind (anthropic_headers config) (\<lambda>hs.
     result_bind (post_json fetch (anthropic_baseUrl config @ ''/v1/messages'') hs (anthropic_body False req)) (\<lambda>res.
     if \<not> res_ok res then Inl (provider_failure ''Anthropic'' ''anthropic'' res)
     else result_bind (res_json res) (\<lambda>body.
       case as_array (jget body ''content'') of
         None \<Rightarrow> Inl (ThrownJs ''TypeError'')
       | Some blocks \<Rightarrow>
           if \<not> is_obj (jget body ''usage'') then Inl (ThrownJs ''TypeError'')
           else Inr \<lparr>rsp_id = jstr (jget body ''id''), rsp_provider = ''anthropic'', rsp_model = req_model req,
                     rsp_message = \<lparr>role = Assistant, content = text_blocks blocks\<rparr>,
                     rsp_finishReason = anthropic_mapFinishReason (as_string (jget body ''stop_reason'')),
                     rsp_usage = usage_or_0 (jget body ''usage'') ''input_tokens'' ''output_tokens''\<rparr>)))"

record anthropic_state =
  as_id :: string
  as_prompt :: rat
  as_completion :: rat
  as_stop :: "string option"

definition anthropic_step :: "string \<Rightarrow> anthropic_state \<Rightarrow> string \<Rightarrow> anthropic_state step" where
  "anthropic_step model st payload =
     (case json_parse payload of
        None \<Rightarrow> Throw (ThrownJs ''SyntaxError'')
      | Some event \<Rightarrow>
          let ty = as_string (jget event ''type''); msg = jget event ''message''; d = jget event ''delta'' in
          if ty = Some ''message_start'' then
            (if is_obj msg \<and> \<not> is_obj (opt_get msg ''usage'') then Throw (ThrownJs ''TypeError'')
             else Continue (st\<lparr>as_id := (case as_string (opt_get msg ''id'') of None \<Rightarrow> as_id st | Some i \<Rightarrow> i),
                    as_prompt := (case as_number (opt_get (opt_get msg ''usage'') ''input_tokens'') of
                       None \<Rightarrow> 0 | Some n \<Rightarrow> n)\<rparr>) [])
          else if ty = Some ''content_block_delta'' then
            (let text = jstr (opt_get d ''text'')
             in if opt_get d ''type'' = Some (JStr ''text_delta'') \<and> text \<noteq> [] then
                  Continue st [\<lparr>chk_id = as_id st, chk_provider = ''anthropic'', chk_model = model, delta = text,
                    chk_done = False, chk_finishReason = None, chk_usage = None\<rparr>]
                else Continue st [])
          else if ty = Some ''message_delta'' then
            Continue (st\<lparr>as_stop := (case as_string (opt_get d ''stop_reason'') of None \<Rightarrow> as_stop st | Some r \<Rightarrow> Some r),
                as_completion := (case as_number (opt_get (jget event ''usage'') ''output_tokens'') of
                   None \<Rightarrow> as_completion st | Some n \<Rightarrow> n)\<rparr>) []
          else if ty = Some ''message_stop'' then
            Return [\<lparr>chk_id = as_id st, chk_provider = ''anthropic'', chk_model = model, delta = [],
                chk_done = True, chk_finishReason = Some (anthropic_mapFinishReason (as_stop st)),
                chk_usage = Some \<lparr>promptTokens = as_prompt st, completionTokens = as_completion st\<rparr>\<rparr>]
          else Continue st [])"

definition anthropic_chatStream ::
    "fetch \<Rightarrow> AnthropicAdapterConfig \<Rightarrow> UnifiedChatRequest \<Rightarrow> UnifiedChatChunk list \<times> thrown option" where
  "anthropic_chatStream fetch config req =
     (case result_bind (anthropic_headers config) (\<lambda>hs.
             post_json fetch (anthropic_baseUrl config @ ''/v1/messages'') hs (anthropic_body True req)) of
        Inl e \<Rightarrow> ([], Some e)
      | Inr res \<Rightarrow>
          (case res_body res of
             None \<Rightarrow> ([], Some (provider_failure ''Anthropic'' ''anthropic'' res))
           | Some chunks \<Rightarrow>
               if \<not> res_ok res then ([], Some (provider_failure ''Anthropic'' ''anthropic'' res))
               else run_stream (anthropic_step (req_model req))
                      \<lparr>as_id = [], as_prompt = 0, as_completion = 0, as_stop = None\<rparr> (parseSSELines chunks)))"

section \<open>gemini.ts\<close>

definition gemini_mapFinishReason :: "string option \<Rightarrow> FinishReason" where
  "gemini_mapFinishReason reason =
     (if reason = Some ''STOP'' then Fin_stop
      else if reason = Some ''MAX_TOKENS'' then Fin_length
      else if reason = Some ''SAFETY'' \<or> reason = Some ''RECITATION'' then Fin_content_filter
      else Fin_stop)"

definition gemini_text :: "string \<Rightarrow> json" where
  "gemini_text t = JObj [(''text'', JStr t)]"

definition toGeminiPayload :: "UnifiedMessage list \<Rightarrow> json list \<times> json option" where
  "toGeminiPayload messages =
     (let (systemParts, rest) = split_system messages;
          contents = map (\<lambda>m. JObj [(''role'', JStr (if role m = Assistant then ''model'' else ''user'')),
                                    (''parts'', JArr [gemini_text (content m)])]) rest
      in (contents,
          if systemParts \<noteq> [] then Some (JObj [(''parts'', JArr [gemini_text (join_with [newline] systemParts)])])
          else None))"

record GeminiAdapterConfig =
  gemini_apiKey :: "string option"
  gemini_baseUrl :: string

definition gemini_requireApiKey :: "GeminiAdapterConfig \<Rightarrow> (thrown, string) result" where
  "gemini_requireApiKey config =
     (case api_key (gemini_apiKey config) of
        None \<Rightarrow> Inl (ThrownApp (ProviderError ''Gemini is not configured (missing GEMINI_API_KEY)'' ''gemini''))
      | Some k \<Rightarrow> Inr k)"

definition gemini_body :: "UnifiedChatRequest \<Rightarrow> json" where
  "gemini_body req =
     (let (contents, systemInstruction) = toGeminiPayload (req_messages req)
      in JObj ([(''contents'', JArr contents)] @ jopt ''systemInstruction'' systemInstruction
           @ [(''generationConfig'', JObj (jopt ''maxOutputTokens'' (map_option JNum (req_maxTokens req))
                @ jopt ''temperature'' (map_option JNum (req_temperature req))))]))"

definition gemini_parts :: "json \<Rightarrow> string option" where
  "gemini_parts candidate =
     map_option (\<lambda>ps. concat (map (\<lambda>p. jstr (jget p ''text'')) ps))
       (as_array (opt_get (jget candidate ''content'') ''parts''))"

definition gemini_chat ::
    "fetch \<Rightarrow> string \<Rightarrow> GeminiAdapterConfig \<Rightarrow> UnifiedChatRequest \<Rightarrow> (thrown, UnifiedChatResponse) result" where
  "gemini_chat fetch uuid config req =
     result_bind (gemini_requireApiKey config) (\<lambda>apiKey.
     result_bind (post_json fetch (gemini_baseUrl config @ ''/v1beta/models/'' @ req_model req @ '':generateContent?key='' @ apiKey)
        [json_content_type] (gemini_body req)) (\<lambda>res.
     if \<not> res_ok res then Inl (provider_failure ''Gemini'' ''gemini'' res)
     else result_bind (res_json res) (\<lambda>body.
       case as_array (jget body ''candidates'') of
         None \<Rightarrow> Inl (ThrownJs ''TypeError'')
       | Some [] \<Rightarrow> Inl (ThrownApp (ProviderError ''Gemini response had no candidates'' ''gemini''))
       | Some (candidate # _) \<Rightarrow>
           (case gemini_parts candidate of
              None \<Rightarrow> Inl (ThrownJs ''TypeError'')
            | Some text \<Rightarrow>
                Inr \<lparr>rsp_id = uuid, rsp_provider = ''gemini'', rsp_model = req_model req,
                     rsp_message = \<lparr>role = Assistant, content = text\<rparr>,
                     rsp_finishReason = gemini_mapFinishReason (as_string (jget candidate ''finishReason'')),
                     rsp_usage = usage_or_0 (jget body ''usageMetadata'') ''promptTokenCount'' ''candidatesTokenCount''\<rparr>))))"

definition gemini_step :: "string \<Rightarrow> string \<Rightarrow> unit \<Rightarrow> string \<Rightarrow> unit step" where
  "gemini_step uuid model st payload =
     (case json_parse payload of
        None \<Rightarrow> Throw (ThrownJs ''SyntaxError'')
      | Some chunk \<Rightarrow>
          (case as_array (jget chunk ''candidates'') of
             None \<Rightarrow> Throw (ThrownJs ''TypeError'')
           | Some [] \<Rightarrow> Continue () []
           | Some (candidate # _) \<Rightarrow>
               (case gemini_parts candidate of
                  None \<Rightarrow> Throw (ThrownJs ''TypeError'')
                | Some text \<Rightarrow>
                    (let reason = as_string (jget candidate ''finishReason'');
                         isFinal = (reason \<noteq> None \<and> reason \<noteq> Some [])
                     in Continue ()
                          [\<lparr>chk_id = uuid, chk_provider = ''gemini'', chk_model = model, delta = text,
                            chk_done = isFinal,
                            chk_finishReason = (if isFinal then Some (gemini_mapFinishReason reason) else None),
                            chk_usage = (if isFinal then
                              Some (usage_or_0 (jget chunk ''usageMetadata'') ''promptTokenCount'' ''candidatesTokenCount'')
                              else None)\<rparr>]))))"

definition gemini_chatStream ::
    "fetch \<Rightarrow> string \<Rightarrow> GeminiAdapterConfig \<Rightarrow> UnifiedChatRequest \<Rightarrow> UnifiedChatChunk list \<times> thrown option" where
  "gemini_chatStream fetch uuid config req =
     (case result_bind (gemini_requireApiKey config) (\<lambda>apiKey.
             post_json fetch (gemini_baseUrl config @ ''/v1beta/models/'' @ req_model req
                 @ '':streamGenerateContent?alt=sse&key='' @ apiKey) [json_content_type] (gemini_body req)) of
        Inl e \<Rightarrow> ([], Some e)
      | Inr res \<Rightarrow>
          (case res_body res of
             None \<Rightarrow> ([], Some (provider_failure ''Gemini'' ''gemini'' res))
           | Some chunks \<Rightarrow>
               if \<not> res_ok res then ([], Some (provider_failure ''Gemini'' ''gemini'' res))
               else run_stream (gemini_step uuid (req_model req)) () (parseSSELines chunks)))"

section \<open>ollama.ts\<close>

record OllamaAdapterConfig =
  ollama_baseUrl :: string

definition ollama_unreachable :: "string \<Rightarrow> string \<Rightarrow> thrown" where
  "ollama_unreachable baseUrl msg =
     ThrownApp (ProviderError (''Could not reach Ollama at '' @ baseUrl @ '' - is it running? ('' @ msg @ '')'') ''ollama'')"

definition callOllama :: "fetch \<Rightarrow> string \<Rightarrow> json \<Rightarrow> (thrown, HttpResponse) result" where
  "callOllama fetch baseUrl payload =
     (case fetch \<lparr>url = baseUrl @ ''/api/chat'', http_method = ''POST'', http_headers = [json_content_type],
                  http_body = Some payload\<rparr> of
        Inl msg \<Rightarrow> Inl (ollama_unreachable baseUrl msg)
      | Inr res \<Rightarrow> Inr res)"

definition ollama_body :: "bool \<Rightarrow> UnifiedChatRequest \<Rightarrow> json" where
  "ollama_body stream req =
     JObj [(''model'', JStr (req_model req)), (''messages'', JArr (map message_json (req_messages req))),
       (''stream'', JBool stream),
       (''options'', JObj (jopt ''temperature'' (map_option JNum (req_temperature req))
          @ jopt ''num_predict'' (map_option JNum (req_maxTokens req))))]"

definition ollama_chat ::
    "fetch \<Rightarrow> string \<Rightarrow> OllamaAdapterConfig \<Rightarrow> UnifiedChatRequest \<Rightarrow> (thrown, UnifiedChatResponse) result" where
  "ollama_chat fetch uuid config req =
     result_bind (callOllama fetch (ollama_baseUrl config) (ollama_body False req)) (\<lambda>res.
     if \<not> res_ok res then Inl (provider_failure ''Ollama'' ''ollama'' res)
     else result_bind (res_json res) (\<lambda>body.
       case as_string (opt_get (jget body ''message'') ''content'') of
         None \<Rightarrow> Inl (ThrownJs ''TypeError'')
       | Some text \<Rightarrow>
           Inr \<lparr>rsp_id = uuid, rsp_provider = ''ollama'', rsp_model = req_model req,
                rsp_message = \<lparr>role = Assistant, content = text\<rparr>, rsp_finishReason = Fin_stop,
                rsp_usage = usage_or_0 (Some body) ''prompt_eval_count'' ''eval_count''\<rparr>))"

definition ollama_step :: "string \<Rightarrow> string \<Rightarrow> unit \<Rightarrow> string \<Rightarrow> unit step" where
  "ollama_step uuid model st line =
     (case json_parse line of
        None \<Rightarrow> Throw (ThrownJs ''SyntaxError'')
      | Some chunk \<Rightarrow>
          (case as_string (opt_get (jget chunk ''message'') ''content'') of
             None \<Rightarrow> Throw (ThrownJs ''TypeError'')
           | Some text \<Rightarrow>
               (let fin = (jget chunk ''done'' = Some (JBool True))
                in Continue ()
                     [\<lparr>chk_id = uuid, chk_provider = ''ollama'', chk_model = model, delta = text, chk_done = fin,
                       chk_finishReason = (if fin then Some Fin_stop else None),
                       chk_usage = (if fin then Some (usage_or_0 (Some chunk) ''prompt_eval_count'' ''eval_count'')
                         else None)\<rparr>])))"

definition ollama_chatStream ::
    "fetch \<Rightarrow> string \<Rightarrow> OllamaAdapterConfig \<Rightarrow> UnifiedChatRequest \<Rightarrow> UnifiedChatChunk list \<times> thrown option" where
  "ollama_chatStream fetch uuid config req =
     (case callOllama fetch (ollama_baseUrl config) (ollama_body True req) of
        Inl e \<Rightarrow> ([], Some e)
      | Inr res \<Rightarrow>
          (case res_body res of
             None \<Rightarrow> ([], Some (provider_failure ''Ollama'' ''ollama'' res))
           | Some chunks \<Rightarrow>
               if \<not> res_ok res then ([], Some (provider_failure ''Ollama'' ''ollama'' res))
               else run_stream (ollama_step uuid (req_model req)) () (parseNDJSONLines chunks)))"

section \<open>mock.ts\<close>

definition mock_reply :: "UnifiedChatRequest \<Rightarrow> string" where
  "mock_reply req =
     ''echo: '' @ (case find (\<lambda>m. role m = User) (rev (req_messages req)) of None \<Rightarrow> [] | Some m \<Rightarrow> content m)"

definition mock_usage :: "UnifiedChatRequest \<Rightarrow> UnifiedUsage" where
  "mock_usage req =
     \<lparr>promptTokens = of_nat (length (req_messages req)),
      completionTokens = of_nat (length (split_on (CHR '' '') (mock_reply req)))\<rparr>"

definition mock_chat :: "string \<Rightarrow> UnifiedChatRequest \<Rightarrow> (thrown, UnifiedChatResponse) result" where
  "mock_chat uuid req =
     Inr \<lparr>rsp_id = uuid, rsp_provider = ''mock'', rsp_model = req_model req,
          rsp_message = \<lparr>role = Assistant, content = mock_reply req\<rparr>, rsp_finishReason = Fin_stop,
          rsp_usage = mock_usage req\<rparr>"

definition mock_chatStream :: "string \<Rightarrow> UnifiedChatRequest \<Rightarrow> UnifiedChatChunk list \<times> thrown option" where
  "mock_chatStream uuid req =
     (map (\<lambda>word. \<lparr>chk_id = uuid, chk_provider = ''mock'', chk_model = req_model req, delta = word @ '' '',
            chk_done = False, chk_finishReason = None, chk_usage = None\<rparr>) (split_on (CHR '' '') (mock_reply req))
      @ [\<lparr>chk_id = uuid, chk_provider = ''mock'', chk_model = req_model req, delta = [], chk_done = True,
          chk_finishReason = Some Fin_stop, chk_usage = Some (mock_usage req)\<rparr>], None)"

section \<open>modelsCache.ts and the model lists\<close>

definition MODELS_TTL_SECONDS :: int where
  "MODELS_TTL_SECONDS = 60 * 60"

definition models_json :: "ModelInfo list \<Rightarrow> json" where
  "models_json ms = JArr (map (\<lambda>m. JObj [(''id'', JStr (mi_id m)), (''provider'', JStr (mi_provider m))]) ms)"

definition models_of_json :: "json \<Rightarrow> ModelInfo list" where
  "models_of_json j =
     (case j of
        JArr xs \<Rightarrow> map (\<lambda>x. \<lparr>mi_id = jstr (jget x ''id''), mi_provider = jstr (jget x ''provider'')\<rparr>) xs
      | _ \<Rightarrow> [])"

text \<open>What this key holds is written here and nowhere else, always as JSON.\<close>

fun stored_json :: "sval option \<Rightarrow> json option" where
  "stored_json (Some (SJson j)) = Some j"
| "stored_json _ = None"

definition cachedModels ::
    "('s, 'm) redis_scheme \<Rightarrow> string \<Rightarrow> (thrown, ModelInfo list) result \<Rightarrow> ms \<Rightarrow> 's
      \<Rightarrow> (thrown, ModelInfo list) result \<times> 's" where
  "cachedModels R provider fetchLive t s =
     (case stored_json (r_get R (''models:'' @ provider) t s) of
        Some j \<Rightarrow> (Inr (models_of_json j), s)
      | None \<Rightarrow>
          (case fetchLive of
             Inl e \<Rightarrow> (Inl e, s)
           | Inr models \<Rightarrow>
               (Inr models, r_set R (''models:'' @ provider) (SJson (models_json models)) (MODELS_TTL_SECONDS * 1000) t s)))"

definition openai_models ::
    "('s, 'm) redis_scheme \<Rightarrow> fetch \<Rightarrow> OpenAIAdapterConfig \<Rightarrow> ms \<Rightarrow> 's \<Rightarrow> (thrown, ModelInfo list) result \<times> 's" where
  "openai_models R fetch config t s =
     (case api_key (openai_apiKey config) of
        None \<Rightarrow> (Inr [], s)
      | Some _ \<Rightarrow>
          cachedModels R ''openai''
            (result_bind (openai_headers config) (\<lambda>hs.
             result_bind (get_url fetch (openai_baseUrl config @ ''/v1/models'') hs) (\<lambda>res.
             if \<not> res_ok res then
               Inl (ThrownApp (ProviderError (''OpenAI models list failed: '' @ show_nat (res_status res)) ''openai''))
             else result_bind (res_json res) (\<lambda>body.
               case as_array (jget body ''data'') of
                 None \<Rightarrow> Inl (ThrownJs ''TypeError'')
               | Some xs \<Rightarrow>
                   Inr (map (\<lambda>i. \<lparr>mi_id = i, mi_provider = ''openai''\<rparr>)
                     (filter looksLikeChatModel (map (\<lambda>x. jstr (jget x ''id'')) xs))))))) t s)"

definition anthropic_models ::
    "('s, 'm) redis_scheme \<Rightarrow> fetch \<Rightarrow> AnthropicAdapterConfig \<Rightarrow> ms \<Rightarrow> 's \<Rightarrow> (thrown, ModelInfo list) result \<times> 's" where
  "anthropic_models R fetch config t s =
     (case api_key (anthropic_apiKey config) of
        None \<Rightarrow> (Inr [], s)
      | Some _ \<Rightarrow>
          cachedModels R ''anthropic''
            (result_bind (anthropic_headers config) (\<lambda>hs.
             result_bind (get_url fetch (anthropic_baseUrl config @ ''/v1/models'') hs) (\<lambda>res.
             if \<not> res_ok res then
               Inl (ThrownApp (ProviderError (''Anthropic models list failed: '' @ show_nat (res_status res)) ''anthropic''))
             else result_bind (res_json res) (\<lambda>body.
               case as_array (jget body ''data'') of
                 None \<Rightarrow> Inl (ThrownJs ''TypeError'')
               | Some xs \<Rightarrow> Inr (map (\<lambda>x. \<lparr>mi_id = jstr (jget x ''id''), mi_provider = ''anthropic''\<rparr>) xs))))) t s)"

definition strip_models_prefix :: "string \<Rightarrow> string" where
  "strip_models_prefix n = (if starts_with n ''models/'' then drop 7 n else n)"

definition gemini_models ::
    "('s, 'm) redis_scheme \<Rightarrow> fetch \<Rightarrow> GeminiAdapterConfig \<Rightarrow> ms \<Rightarrow> 's \<Rightarrow> (thrown, ModelInfo list) result \<times> 's" where
  "gemini_models R fetch config t s =
     (case api_key (gemini_apiKey config) of
        None \<Rightarrow> (Inr [], s)
      | Some k \<Rightarrow>
          cachedModels R ''gemini''
            (result_bind (get_url fetch (gemini_baseUrl config @ ''/v1beta/models?key='' @ k) []) (\<lambda>res.
             if \<not> res_ok res then
               Inl (ThrownApp (ProviderError (''Gemini models list failed: '' @ show_nat (res_status res)) ''gemini''))
             else result_bind (res_json res) (\<lambda>body.
               case as_array (jget body ''models'') of
                 None \<Rightarrow> Inl (ThrownJs ''TypeError'')
               | Some xs \<Rightarrow>
                   Inr (map (\<lambda>x. \<lparr>mi_id = strip_models_prefix (jstr (jget x ''name'')), mi_provider = ''gemini''\<rparr>)
                     (filter (\<lambda>x. case as_array (jget x ''supportedGenerationMethods'') of
                         None \<Rightarrow> False | Some ys \<Rightarrow> JStr ''generateContent'' \<in> set ys) xs))))) t s)"

definition ollama_models ::
    "('s, 'm) redis_scheme \<Rightarrow> fetch \<Rightarrow> OllamaAdapterConfig \<Rightarrow> ms \<Rightarrow> 's \<Rightarrow> (thrown, ModelInfo list) result \<times> 's" where
  "ollama_models R fetch config t s =
     cachedModels R ''ollama''
       (case fetch \<lparr>url = ollama_baseUrl config @ ''/api/tags'', http_method = ''GET'', http_headers = [], http_body = None\<rparr> of
          Inl msg \<Rightarrow> Inl (ollama_unreachable (ollama_baseUrl config) msg)
        | Inr res \<Rightarrow>
            if \<not> res_ok res then
              Inl (ThrownApp (ProviderError (''Ollama tags request failed: '' @ show_nat (res_status res)) ''ollama''))
            else result_bind (res_json res) (\<lambda>body.
              case as_array (jget body ''models'') of
                None \<Rightarrow> Inl (ThrownJs ''TypeError'')
              | Some xs \<Rightarrow> Inr (map (\<lambda>x. \<lparr>mi_id = jstr (jget x ''name''), mi_provider = ''ollama''\<rparr>) xs))) t s"

definition mock_models :: "ModelInfo list" where
  "mock_models = [\<lparr>mi_id = ''mock-echo'', mi_provider = ''mock''\<rparr>]"

section \<open>registry.ts and buildRegistry\<close>

text \<open>
  A provider object as the rest of the gateway sees it: its name, what its model list returns and its
  two chat operations, which depend on the time they are called at and say when they finish.
  \<open>lp_ref\<close> stands for the object's identity.
\<close>

record LLMProvider =
  lp_ref :: nat
  lp_name :: string
  lp_models :: "(thrown, ModelInfo list) result"
  lp_chat :: "UnifiedChatRequest \<Rightarrow> ms \<Rightarrow> (thrown, UnifiedChatResponse) result \<times> ms"
  lp_chatStream :: "UnifiedChatRequest \<Rightarrow> ms \<Rightarrow> (UnifiedChatChunk list \<times> thrown option) \<times> ms"

record ResolvedModel =
  rm_provider :: LLMProvider
  providerModel :: string

record ProviderRule =
  rule_provider :: LLMProvider
  rule_matches :: "string \<Rightarrow> bool"

record ModelRegistry =
  reg_resolve :: "string \<Rightarrow> ResolvedModel option"
  reg_listModels :: "ModelInfo list"
  reg_listProviderNames :: "string list"

text \<open>First occurrences only, by key.\<close>

fun distinct_by :: "('a \<Rightarrow> 'k) \<Rightarrow> 'k list \<Rightarrow> 'a list \<Rightarrow> 'a list" where
  "distinct_by f seen [] = []"
| "distinct_by f seen (x # xs) =
     (if f x \<in> set seen then distinct_by f seen xs else x # distinct_by f (f x # seen) xs)"

definition createModelRegistry :: "ProviderRule list \<Rightarrow> string \<Rightarrow> ModelRegistry" where
  "createModelRegistry rules defaultModel =
     \<lparr>reg_resolve = (\<lambda>modelName.
        let target = (if modelName = ''auto'' then defaultModel else modelName)
        in map_option (\<lambda>rule. \<lparr>rm_provider = rule_provider rule, providerModel = target\<rparr>)
             (find (\<lambda>r. rule_matches r target) rules)),
      reg_listModels = concat (map (\<lambda>p. case lp_models p of Inl _ \<Rightarrow> [] | Inr ms \<Rightarrow> ms)
        (distinct_by lp_ref [] (map rule_provider rules))),
      reg_listProviderNames = distinct_by id [] (map (\<lambda>r. lp_name (rule_provider r)) rules)\<rparr>"

definition openai_matches :: "string \<Rightarrow> bool" where
  "openai_matches m \<longleftrightarrow>
     starts_with m ''gpt-'' \<or> starts_with m ''o1'' \<or> starts_with m ''o3'' \<or> starts_with m ''o4''"

definition buildRegistry ::
    "LLMProvider \<Rightarrow> LLMProvider \<Rightarrow> LLMProvider \<Rightarrow> LLMProvider \<Rightarrow> LLMProvider option \<Rightarrow> string \<Rightarrow> ModelRegistry" where
  "buildRegistry openai anthropic gemini ollama mock defaultModel =
     createModelRegistry
       ([\<lparr>rule_provider = openai, rule_matches = openai_matches\<rparr>,
         \<lparr>rule_provider = anthropic, rule_matches = (\<lambda>m. starts_with m ''claude-'')\<rparr>,
         \<lparr>rule_provider = gemini, rule_matches = (\<lambda>m. starts_with m ''gemini-'')\<rparr>]
        @ (case mock of None \<Rightarrow> [] | Some p \<Rightarrow> [\<lparr>rule_provider = p, rule_matches = (\<lambda>m. starts_with m ''mock-'')\<rparr>])
        @ [\<lparr>rule_provider = ollama, rule_matches = (\<lambda>_. True)\<rparr>])
       defaultModel"

section \<open>What the adapters guarantee\<close>

lemma parse_same_text:
  "concat b = concat b' \<Longrightarrow> parseSSELines b = parseSSELines b'"
  "concat b = concat b' \<Longrightarrow> parseNDJSONLines b = parseNDJSONLines b'"
  by (simp_all add: parseSSELines_def parseNDJSONLines_def read_chunks_text)

text \<open>Two servers that answer with the same status and the same text, cut differently.\<close>

definition same_answers :: "fetch \<Rightarrow> fetch \<Rightarrow> bool" where
  "same_answers f g \<longleftrightarrow>
     (\<forall>rq. case (f rq, g rq) of
        (Inl m, Inl m') \<Rightarrow> m = m'
      | (Inr r, Inr r') \<Rightarrow> res_status r = res_status r' \<and> map_option concat (res_body r) = map_option concat (res_body r')
      | _ \<Rightarrow> False)"

lemma same_answers_cases [consumes 1, case_names failed answered]:
  assumes "same_answers f g"
  obtains m where "f rq = Inl m" "g rq = Inl m"
  | r r' where "f rq = Inr r" "g rq = Inr r'" "res_status r = res_status r'"
      "res_text r = res_text r'" "map_option concat (res_body r) = map_option concat (res_body r')"
proof -
  from assms have "case (f rq, g rq) of
        (Inl m, Inl m') \<Rightarrow> m = m'
      | (Inr r, Inr r') \<Rightarrow> res_status r = res_status r' \<and> map_option concat (res_body r) = map_option concat (res_body r')
      | _ \<Rightarrow> False" by (simp add: same_answers_def)
  moreover have "res_text r = res_text r'" if "map_option concat (res_body r) = map_option concat (res_body r')" for r r'
    using that by (cases "res_body r"; cases "res_body r'") (simp_all add: res_text_def)
  ultimately show ?thesis
    by (auto split: sum.splits intro: that)
qed

lemma stream_same_answer:
  assumes "res_status r = res_status r'" "res_text r = res_text r'"
    "map_option concat (res_body r) = map_option concat (res_body r')"
    and "\<And>b b'. concat b = concat b' \<Longrightarrow> parse b = parse b'"
  shows "(case res_body r of None \<Rightarrow> (xs, Some (provider_failure l n r))
      | Some b \<Rightarrow> if \<not> res_ok r then (xs, Some (provider_failure l n r)) else run_stream step st (parse b)) =
    (case res_body r' of None \<Rightarrow> (xs, Some (provider_failure l n r'))
      | Some b \<Rightarrow> if \<not> res_ok r' then (xs, Some (provider_failure l n r')) else run_stream step st (parse b))"
proof -
  have "provider_failure l n r = provider_failure l n r'" "res_ok r = res_ok r'"
    using assms by (simp_all add: provider_failure_def res_ok_def)
  then show ?thesis
    using assms(3) assms(4) [of "the (res_body r)" "the (res_body r')"]
    by (cases "res_body r"; cases "res_body r'") simp_all
qed

lemma same_post [consumes 1, case_names failed answered]:
  assumes "same_answers f g"
  obtains e where "post_json f u hs b = Inl e" "post_json g u hs b = Inl e"
  | r r' where "post_json f u hs b = Inr r" "post_json g u hs b = Inr r'" "res_status r = res_status r'"
      "res_text r = res_text r'" "map_option concat (res_body r) = map_option concat (res_body r')"
  using assms
  by (cases rule: same_answers_cases
      [of f g "\<lparr>url = u, http_method = ''POST'', http_headers = hs, http_body = Some b\<rparr>"])
    (auto simp: post_json_def intro: that)

lemma same_ollama [consumes 1, case_names failed answered]:
  assumes "same_answers f g"
  obtains e where "callOllama f u b = Inl e" "callOllama g u b = Inl e"
  | r r' where "callOllama f u b = Inr r" "callOllama g u b = Inr r'" "res_status r = res_status r'"
      "res_text r = res_text r'" "map_option concat (res_body r) = map_option concat (res_body r')"
  using assms
  by (cases rule: same_answers_cases
      [of f g "\<lparr>url = u @ ''/api/chat'', http_method = ''POST'', http_headers = [json_content_type], http_body = Some b\<rparr>"])
    (auto simp: callOllama_def intro: that)

text \<open>
  C32. What the four streaming adapters yield (and throw) depends on the provider's answer and
  not on how the network cut it into chunks.
\<close>

theorem chatStream_chunking_independent:
  assumes "same_answers f g"
  shows "openai_chatStream f uuid oc req = openai_chatStream g uuid oc req
    \<and> anthropic_chatStream f ac req = anthropic_chatStream g ac req
    \<and> gemini_chatStream f uuid gc req = gemini_chatStream g uuid gc req
    \<and> ollama_chatStream f uuid lc req = ollama_chatStream g uuid lc req"
proof (intro conjI)
  show "openai_chatStream f uuid oc req = openai_chatStream g uuid oc req"
  proof (cases "openai_headers oc")
    case (Inr hs)
    from assms show ?thesis
      by (cases rule: same_post [of f g "openai_baseUrl oc @ ''/v1/chat/completions''" hs "openai_body True req"])
        (simp_all add: openai_chatStream_def Inr, intro stream_same_answer [OF _ _ _ parse_same_text(1)], assumption+)
  qed (simp add: openai_chatStream_def)
  show "anthropic_chatStream f ac req = anthropic_chatStream g ac req"
  proof (cases "anthropic_headers ac")
    case (Inr hs)
    from assms show ?thesis
      by (cases rule: same_post [of f g "anthropic_baseUrl ac @ ''/v1/messages''" hs "anthropic_body True req"])
        (simp_all add: anthropic_chatStream_def Inr, intro stream_same_answer [OF _ _ _ parse_same_text(1)], assumption+)
  qed (simp add: anthropic_chatStream_def)
  show "gemini_chatStream f uuid gc req = gemini_chatStream g uuid gc req"
  proof (cases "gemini_requireApiKey gc")
    case (Inr k)
    from assms show ?thesis
      by (cases rule: same_post [of f g "gemini_baseUrl gc @ ''/v1beta/models/'' @ req_model req
            @ '':streamGenerateContent?alt=sse&key='' @ k" "[json_content_type]" "gemini_body req"])
        (simp_all add: gemini_chatStream_def Inr, intro stream_same_answer [OF _ _ _ parse_same_text(1)], assumption+)
  qed (simp add: gemini_chatStream_def)
  show "ollama_chatStream f uuid lc req = ollama_chatStream g uuid lc req"
    using assms
    by (cases rule: same_ollama [of f g "ollama_baseUrl lc" "ollama_body True req"])
      (simp_all add: ollama_chatStream_def, intro stream_same_answer [OF _ _ _ parse_same_text(2)], assumption+)
qed

definition demo_request :: UnifiedChatRequest where
  "demo_request = \<lparr>req_model = ''llama3'', req_messages = [\<lparr>role = User, content = ''hi''\<rparr>],
     req_stream = Some True, req_maxTokens = None, req_temperature = None\<rparr>"

theorem chatStream_chunking_independent_witness:
  "ollama_chatStream (\<lambda>_. Inr \<lparr>res_status = 200, res_body = Some [''{'', ''}'' @ [newline]]\<rparr>) ''u'' \<lparr>ollama_baseUrl = ''http://o''\<rparr> demo_request =
   ollama_chatStream (\<lambda>_. Inr \<lparr>res_status = 200, res_body = Some [''{}'' @ [newline]]\<rparr>) ''u'' \<lparr>ollama_baseUrl = ''http://o''\<rparr> demo_request"
  by (rule chatStream_chunking_independent [THEN conjunct2, THEN conjunct2, THEN conjunct2])
    (simp add: same_answers_def)

end
