(* ===== verification/Routing.thy ===== *)
theory Routing
  imports Providers CircuitBreaker "HOL-Library.Multiset"
begin

text \<open>
  Model routing in the gateway: list prices (\<^verbatim>\<open>lib/pricing.ts\<close>), the shared latency window
  (\<^verbatim>\<open>lib/providerStats.ts\<close>), the scoring formula (\<^verbatim>\<open>lib/routingScoring.ts\<close>), scored and A/B
  selection (\<^verbatim>\<open>lib/routing.ts\<close>), the decision itself (\<^verbatim>\<open>lib/resolveModel.ts\<close>) and the calls it
  leads to (\<^verbatim>\<open>lib/resilience.ts\<close>). A number that JavaScript computes as \<^verbatim>\<open>NaN\<close> is \<open>None\<close>.
\<close>

section \<open>pricing.ts\<close>

record ModelPricing =
  inputPerMillion :: rat
  outputPerMillion :: rat

definition PRICING :: "(string \<times> ModelPricing) list" where
  "PRICING =
     [(''gpt-4o'', \<lparr>inputPerMillion = 5, outputPerMillion = 15\<rparr>),
      (''gpt-4o-mini'', \<lparr>inputPerMillion = 15 / 100, outputPerMillion = 6 / 10\<rparr>),
      (''claude-3-5-sonnet-20241022'', \<lparr>inputPerMillion = 3, outputPerMillion = 15\<rparr>),
      (''claude-3-5-haiku-20241022'', \<lparr>inputPerMillion = 8 / 10, outputPerMillion = 4\<rparr>),
      (''gemini-1.5-pro'', \<lparr>inputPerMillion = 125 / 100, outputPerMillion = 5\<rparr>),
      (''gemini-1.5-flash'', \<lparr>inputPerMillion = 75 / 1000, outputPerMillion = 3 / 10\<rparr>)]"

definition FREE :: ModelPricing where
  "FREE = \<lparr>inputPerMillion = 0, outputPerMillion = 0\<rparr>"

text \<open>
  \<^verbatim>\<open>PRICING[model] ?? FREE\<close>: an inherited property is not nullish, and has no rates
  (\<open>None\<close>, so that what is computed from them is \<^verbatim>\<open>NaN\<close>).
\<close>

definition getModelPricing :: "string \<Rightarrow> ModelPricing option" where
  "getModelPricing model =
     (case prop_lookup PRICING model of Own p \<Rightarrow> Some p | Inherited \<Rightarrow> None | Missing \<Rightarrow> Some FREE)"

definition getBlendedCostPer1k :: "string \<Rightarrow> rat option" where
  "getBlendedCostPer1k model =
     map_option (\<lambda>p. (inputPerMillion p + outputPerMillion p) / 2 / 1000) (getModelPricing model)"

definition computeCostUsd :: "string \<Rightarrow> UnifiedUsage \<Rightarrow> usd option" where
  "computeCostUsd model usage =
     map_option (\<lambda>p.
       let cost = promptTokens usage / 1000000 * inputPerMillion p
                + completionTokens usage / 1000000 * outputPerMillion p
       in of_int (math_round (cost * 1000000)) / 1000000) (getModelPricing model)"

section \<open>providerStats.ts\<close>

record ProviderStats =
  sampleCount :: nat
  p50Ms :: int
  p99Ms :: int
  successRate :: rat
  rpmCurrent :: nat

definition STATS_WINDOW_MS :: ms where
  "STATS_WINDOW_MS = 5 * 60000"

definition RPM_WINDOW_MS :: ms where
  "RPM_WINDOW_MS = 60000"

definition statsKey :: "string \<Rightarrow> string" where
  "statsKey provider = ''routing:stats:'' @ provider"

definition record_script ::
    "('s, 'm) redis_scheme \<Rightarrow> string \<Rightarrow> ms \<Rightarrow> ms \<Rightarrow> string \<Rightarrow> 's \<Rightarrow> 's" where
  "record_script R key now windowMs member s =
     (let s1 = r_zadd R key now member now s;
          s2 = r_zremrangebyscore R key None (now - windowMs) now s1
      in r_pexpire R key windowMs now s2)"

definition stats_member :: "ms \<Rightarrow> rat \<Rightarrow> bool \<Rightarrow> string \<Rightarrow> string" where
  "stats_member now latencyMs success uuid =
     show_int now @ '':'' @ show_int (math_round latencyMs) @ '':'' @ (if success then ''1'' else ''0'') @ '':'' @ uuid"

definition recordProviderOutcome ::
    "('s, 'm) redis_scheme \<Rightarrow> string \<Rightarrow> string \<Rightarrow> rat \<Rightarrow> bool \<Rightarrow> ms \<Rightarrow> 's \<Rightarrow> 's" where
  "recordProviderOutcome R uuid provider latencyMs success now s =
     record_script R (statsKey provider) now STATS_WINDOW_MS (stats_member now latencyMs success uuid) s"

definition percentile :: "int list \<Rightarrow> int \<Rightarrow> int" where
  "percentile xs p =
     (if xs = [] then 0
      else
        (let n = int (length xs);
             idx = min (n - 1) (math_ceil (of_int p / 100 * of_int n) - 1)
         in xs ! nat (max 0 idx)))"

text \<open>\<^verbatim>\<open>Number(s)\<close> on the integers that \<open>stats_member\<close> printed.\<close>

definition read_int :: "string \<Rightarrow> int" where
  "read_int s = (case s of c # cs \<Rightarrow> if c = CHR ''-'' then - int (read_nat cs) else int (read_nat s) | [] \<Rightarrow> 0)"

record sample =
  sm_ts :: ms
  sm_latency :: int
  sm_success :: bool

definition read_sample :: "string \<Rightarrow> sample" where
  "read_sample member =
     (let parts = split_on (CHR '':'') member
      in \<lparr>sm_ts = read_int (parts ! 0), sm_latency = (if 1 < length parts then read_int (parts ! 1) else 0),
          sm_success = (2 < length parts \<and> parts ! 2 = ''1'')\<rparr>)"

definition stats_of :: "ms \<Rightarrow> sample list \<Rightarrow> ProviderStats" where
  "stats_of now samples =
     (let latencies = sort (map sm_latency samples);
          successes = length (filter sm_success samples);
          rpmCount = length (filter (\<lambda>m. now - sm_ts m \<le> RPM_WINDOW_MS) samples)
      in \<lparr>sampleCount = length samples, p50Ms = percentile latencies 50, p99Ms = percentile latencies 99,
          successRate = of_nat successes / of_nat (length samples), rpmCurrent = rpmCount\<rparr>)"

definition getProviderStats ::
    "('s, 'm) redis_scheme \<Rightarrow> string \<Rightarrow> ms \<Rightarrow> 's \<Rightarrow> ProviderStats \<times> 's" where
  "getProviderStats R provider now s =
     (let key = statsKey provider;
          s1 = r_zremrangebyscore R key None (now - STATS_WINDOW_MS) now s;
          members = map fst (r_zrange R key now s1)
      in if members = [] then
           (\<lparr>sampleCount = 0, p50Ms = 0, p99Ms = 0, successRate = 0, rpmCurrent = 0\<rparr>, s1)
         else (stats_of now (map read_sample members), s1))"

section \<open>routingScoring.ts\<close>

record RoutingWeights =
  w_latency :: rat
  w_cost :: rat
  w_reliability :: rat

definition ROUTING_PRESETS :: "(string \<times> RoutingWeights) list" where
  "ROUTING_PRESETS =
     [(''cost_optimized'', \<lparr>w_latency = 2/10, w_cost = 6/10, w_reliability = 2/10\<rparr>),
      (''latency_optimized'', \<lparr>w_latency = 6/10, w_cost = 1/10, w_reliability = 3/10\<rparr>),
      (''balanced'', \<lparr>w_latency = 3/10, w_cost = 4/10, w_reliability = 3/10\<rparr>)]"

definition DEFAULT_ROUTING_PRESET :: string where
  "DEFAULT_ROUTING_PRESET = ''cost_optimized''"

definition isRoutingPresetName :: "json option \<Rightarrow> bool" where
  "isRoutingPresetName value =
     (case as_string value of None \<Rightarrow> False | Some v \<Rightarrow> has_prop ROUTING_PRESETS v)"

definition ASSUMED_P99_MS_WHEN_UNKNOWN :: rat where
  "ASSUMED_P99_MS_WHEN_UNKNOWN = 1000"

definition ASSUMED_SUCCESS_RATE_WHEN_UNKNOWN :: rat where
  "ASSUMED_SUCCESS_RATE_WHEN_UNKNOWN = 95 / 100"

definition MIN_LATENCY_MS :: rat where
  "MIN_LATENCY_MS = 1"

definition MIN_COST_PER_1K :: rat where
  "MIN_COST_PER_1K = 1 / 1000000"

definition computeRoutingScore :: "ProviderStats \<Rightarrow> rat \<Rightarrow> RoutingWeights \<Rightarrow> rat" where
  "computeRoutingScore stats costPer1kTokens weights =
     (let p99 = (if sampleCount stats > 0 then max (of_int (p99Ms stats)) MIN_LATENCY_MS
                 else ASSUMED_P99_MS_WHEN_UNKNOWN);
          rate = (if sampleCount stats > 0 then successRate stats else ASSUMED_SUCCESS_RATE_WHEN_UNKNOWN);
          cost = max costPer1kTokens MIN_COST_PER_1K
      in 1 / p99 * w_latency weights + 1 / cost * w_cost weights + rate * w_reliability weights)"

section \<open>routing.ts\<close>

record ScoredCandidate =
  cand_model :: string
  cand_resolved :: ResolvedModel
  cand_score :: "rat option"

definition resolveOpenCandidates ::
    "('s, 'm) redis_scheme \<Rightarrow> ModelRegistry \<Rightarrow> string list \<Rightarrow> ms \<Rightarrow> 's \<Rightarrow> (string \<times> ResolvedModel) list" where
  "resolveOpenCandidates R registry candidateModels now s =
     List.map_filter (\<lambda>model.
       case reg_resolve registry model of
         None \<Rightarrow> None
       | Some r \<Rightarrow>
           if getCircuitState R (lp_name (rm_provider r)) now s \<noteq> ''open'' then Some (model, r) else None)
     candidateModels"

text \<open>
  \<^verbatim>\<open>sort((a, b) => b.score - a.score)\<close> is stable; a comparison with \<^verbatim>\<open>NaN\<close> counts as equal,
  as \<open>score_before\<close> does for \<open>None\<close> (whole lists of real scores are what the lemmas speak about).
\<close>

definition score_before :: "ScoredCandidate \<Rightarrow> ScoredCandidate \<Rightarrow> bool" where
  "score_before a b =
     (case (cand_score a, cand_score b) of (Some x, Some y) \<Rightarrow> y < x | _ \<Rightarrow> False)"

fun insert_scored :: "ScoredCandidate \<Rightarrow> ScoredCandidate list \<Rightarrow> ScoredCandidate list" where
  "insert_scored x [] = [x]"
| "insert_scored x (y # ys) = (if score_before y x then y # insert_scored x ys else x # y # ys)"

definition sort_scored :: "ScoredCandidate list \<Rightarrow> ScoredCandidate list" where
  "sort_scored xs = foldr insert_scored xs []"

fun score_all ::
    "('s, 'm) redis_scheme \<Rightarrow> RoutingWeights \<Rightarrow> (string \<times> ResolvedModel) list \<Rightarrow> ms \<Rightarrow> 's
      \<Rightarrow> ScoredCandidate list \<times> 's" where
  "score_all R weights [] now s = ([], s)"
| "score_all R weights ((model, resolved) # rest) now s =
     (let (stats, s1) = getProviderStats R (lp_name (rm_provider resolved)) now s;
          costPer1k = getBlendedCostPer1k (providerModel resolved);
          (scored, s2) = score_all R weights rest now s1
      in (\<lparr>cand_model = model, cand_resolved = resolved,
           cand_score = map_option (\<lambda>c. computeRoutingScore stats c weights) costPer1k\<rparr> # scored, s2))"

text \<open>
  \<^verbatim>\<open>ROUTING_PRESETS[presetName].weights\<close> on an inherited property is \<^verbatim>\<open>undefined\<close>; reading
  \<^verbatim>\<open>weights.latency\<close> of the first candidate then throws.
\<close>

definition scoreCandidates ::
    "('s, 'm) redis_scheme \<Rightarrow> ModelRegistry \<Rightarrow> string list \<Rightarrow> string \<Rightarrow> ms \<Rightarrow> 's
      \<Rightarrow> (thrown, ScoredCandidate list) result \<times> 's" where
  "scoreCandidates R registry candidateModels presetName now s =
     (let available = resolveOpenCandidates R registry candidateModels now s
      in case prop_lookup ROUTING_PRESETS presetName of
           Own weights \<Rightarrow>
             (let (scored, s') = score_all R weights available now s in (Inr (sort_scored scored), s'))
         | Inherited \<Rightarrow> if available = [] then (Inr [], s) else (Inl (ThrownJs ''TypeError''), s)
         | Missing \<Rightarrow> (Inl (ThrownJs ''TypeError''), s))"

type_synonym AbConfig = "(string \<times> rat) list"

record AbSelection =
  ab_model :: string
  ab_resolved :: ResolvedModel
  ab_weight :: rat
  normalizedWeight :: rat

text \<open>\<^verbatim>\<open>abConfig[model]!\<close> for a key of the object.\<close>

definition ab_weight_of :: "AbConfig \<Rightarrow> string \<Rightarrow> rat" where
  "ab_weight_of abConfig model = (case map_of abConfig model of None \<Rightarrow> 0 | Some w \<Rightarrow> w)"

definition ab_pick :: "AbConfig \<Rightarrow> rat \<Rightarrow> string \<times> ResolvedModel \<Rightarrow> AbSelection" where
  "ab_pick abConfig totalWeight mr =
     \<lparr>ab_model = fst mr, ab_resolved = snd mr, ab_weight = ab_weight_of abConfig (fst mr),
      normalizedWeight = ab_weight_of abConfig (fst mr) / totalWeight\<rparr>"

fun ab_roll :: "AbConfig \<Rightarrow> rat \<Rightarrow> (string \<times> ResolvedModel) list \<Rightarrow> (string \<times> ResolvedModel) option" where
  "ab_roll abConfig roll [] = None"
| "ab_roll abConfig roll (mr # rest) =
     (let roll' = roll - ab_weight_of abConfig (fst mr)
      in if roll' \<le> 0 then Some mr else ab_roll abConfig roll' rest)"

definition selectAbVariant ::
    "('s, 'm) redis_scheme \<Rightarrow> ModelRegistry \<Rightarrow> AbConfig \<Rightarrow> rat \<Rightarrow> ms \<Rightarrow> 's \<Rightarrow> AbSelection option" where
  "selectAbVariant R registry abConfig random now s =
     (let available = resolveOpenCandidates R registry (map fst abConfig) now s
      in if available = [] then None
         else
           (let totalWeight = (\<Sum>mr \<leftarrow> available. ab_weight_of abConfig (fst mr))
            in case ab_roll abConfig (random * totalWeight) available of
                 Some mr \<Rightarrow> Some (ab_pick abConfig totalWeight mr)
               | None \<Rightarrow> Some (ab_pick abConfig totalWeight (last available))))"

definition abCountKey :: "string \<Rightarrow> string \<Rightarrow> string" where
  "abCountKey orgId model = ''routing:ab:'' @ orgId @ '':'' @ model"

definition recordAbSelection :: "('s, 'm) redis_scheme \<Rightarrow> string \<Rightarrow> string \<Rightarrow> ms \<Rightarrow> 's \<Rightarrow> 's" where
  "recordAbSelection R orgId model now s = snd (r_incr R (abCountKey orgId model) now s)"

definition getAbStats ::
    "('s, 'm) redis_scheme \<Rightarrow> string \<Rightarrow> AbConfig \<Rightarrow> ms \<Rightarrow> 's \<Rightarrow> (string \<times> int) list" where
  "getAbStats R orgId abConfig now s =
     map (\<lambda>m. (m, case r_counter R (abCountKey orgId m) now s of None \<Rightarrow> 0 | Some n \<Rightarrow> n)) (map fst abConfig)"

section \<open>resolveModel.ts\<close>

record RoutingOptions =
  preset :: string
  opt_abConfig :: "AbConfig option"

datatype RouteReason = Route_explicit | Route_ab_variant | Route_scored

record RouteDecision =
  rd_resolved :: ResolvedModel
  reason :: RouteReason
  presetUsed :: "string option"
  abVariant :: "(string \<times> rat) option"
  candidatesConsidered :: "(string \<times> rat option) list option"

definition resolveModelWithFallback ::
    "('s, 'm) redis_scheme \<Rightarrow> string \<Rightarrow> string list \<Rightarrow> ModelRegistry \<Rightarrow> string \<Rightarrow> RoutingOptions \<Rightarrow> rat \<Rightarrow> ms \<Rightarrow> 's
      \<Rightarrow> (thrown, RouteDecision) result \<times> 's" where
  "resolveModelWithFallback R DEFAULT_MODEL AUTO_FALLBACK_MODELS registry modelName routing random now s =
     (if modelName \<noteq> ''auto'' then
        (case reg_resolve registry modelName of
           None \<Rightarrow> (Inl (ThrownApp (ValidationError (''Unknown model: '' @ modelName))), s)
         | Some resolved \<Rightarrow>
             (Inr \<lparr>rd_resolved = resolved, reason = Route_explicit, presetUsed = None, abVariant = None,
                   candidatesConsidered = None\<rparr>, s))
      else
        (case Option.bind (opt_abConfig routing) (\<lambda>ab. selectAbVariant R registry ab random now s) of
           Some variant \<Rightarrow>
             (Inr \<lparr>rd_resolved = ab_resolved variant, reason = Route_ab_variant, presetUsed = None,
                   abVariant = Some (ab_model variant, normalizedWeight variant),
                   candidatesConsidered = None\<rparr>, s)
         | None \<Rightarrow>
             (let candidateModels = DEFAULT_MODEL # AUTO_FALLBACK_MODELS
              in case scoreCandidates R registry candidateModels (preset routing) now s of
                   (Inl e, s') \<Rightarrow> (Inl e, s')
                 | (Inr [], s') \<Rightarrow>
                     if list_ex (\<lambda>m. reg_resolve registry m \<noteq> None) candidateModels
                     then (Inl (ThrownApp AllProvidersUnavailableError), s')
                     else (Inl (ThrownApp (ValidationError (''Unknown model: '' @ modelName))), s')
                 | (Inr (best # others), s') \<Rightarrow>
                     (Inr \<lparr>rd_resolved = cand_resolved best, reason = Route_scored, presetUsed = Some (preset routing),
                           abVariant = None,
                           candidatesConsidered =
                             Some (map (\<lambda>c. (cand_model c, cand_score c)) (best # others))\<rparr>, s'))))"

section \<open>resilience.ts\<close>

record resilience_env =
  RETRY_MAX_ATTEMPTS :: int
  RETRY_BASE_DELAY_MS :: rat
  CIRCUIT_FAILURE_THRESHOLD :: int
  CIRCUIT_FAILURE_WINDOW_MS :: ms
  CIRCUIT_OPEN_DURATION_MS :: ms

definition breaker_config :: "resilience_env \<Rightarrow> CircuitBreakerConfig" where
  "breaker_config env =
     \<lparr>failureThreshold = CIRCUIT_FAILURE_THRESHOLD env, failureWindowMs = CIRCUIT_FAILURE_WINDOW_MS env,
      openDurationMs = CIRCUIT_OPEN_DURATION_MS env\<rparr>"

fun is_circuit_open :: "'e cb_error \<Rightarrow> bool" where
  "is_circuit_open (CircuitOpenError n) = True"
| "is_circuit_open (Thrown e) = False"

definition callProviderResilient ::
    "('s, 'm) redis_scheme \<Rightarrow> resilience_env \<Rightarrow> (nat \<Rightarrow> rat) \<Rightarrow> string \<Rightarrow> (thrown, 'a, 's) call \<Rightarrow> (thrown, 'a, 's) call" where
  "callProviderResilient R env random providerName fn now s =
     (case withRetry \<lparr>maxAttempts = RETRY_MAX_ATTEMPTS env, baseDelayMs = RETRY_BASE_DELAY_MS env\<rparr>
             (\<lambda>err. \<not> is_circuit_open err) random
             (\<lambda>_. withCircuitBreaker R providerName (breaker_config env) fn) now s of
        (Inr a, t, s') \<Rightarrow> (Inr a, t, s')
      | (Inl (Some (CircuitOpenError _)), t, s') \<Rightarrow>
          (Inl (ThrownApp (ServiceUnavailableError (providerName @ '' is temporarily unavailable (circuit open)'')
             (Some (of_int (CIRCUIT_OPEN_DURATION_MS env) / 1000)) ''SERVICE_UNAVAILABLE'')), t, s')
      | (Inl (Some (Thrown e)), t, s') \<Rightarrow> (Inl e, t, s')
      | (Inl None, t, s') \<Rightarrow> (Inl (ThrownJs ''undefined''), t, s'))"

fun thrown_unavailable :: "thrown \<Rightarrow> bool" where
  "thrown_unavailable (ThrownApp e) = is_service_unavailable e"
| "thrown_unavailable (ThrownJs m) = False"

definition callProviderResilientWithStats ::
    "('s, 'm) redis_scheme \<Rightarrow> resilience_env \<Rightarrow> (nat \<Rightarrow> rat) \<Rightarrow> string \<Rightarrow> string \<Rightarrow> (thrown, 'a, 's) call \<Rightarrow> (thrown, 'a, 's) call" where
  "callProviderResilientWithStats R env random uuid providerName fn start s =
     (case callProviderResilient R env random providerName fn start s of
        (Inr a, t, s') \<Rightarrow> (Inr a, t, recordProviderOutcome R uuid providerName (of_int (t - start)) True t s')
      | (Inl e, t, s') \<Rightarrow>
          (Inl e, t,
           if thrown_unavailable e then s'
           else recordProviderOutcome R uuid providerName (of_int (t - start)) False t s'))"

section \<open>Scored routing picks the best available candidate\<close>

definition all_priced :: "ScoredCandidate list \<Rightarrow> bool" where
  "all_priced cs \<longleftrightarrow> (\<forall>c \<in> set cs. cand_score c \<noteq> None)"

abbreviation score_of :: "ScoredCandidate \<Rightarrow> rat" where
  "score_of c \<equiv> the (cand_score c)"

lemma mset_insert_scored [simp]: "mset (insert_scored x ys) = add_mset x (mset ys)"
  by (induction ys) auto

lemma mset_sort_scored [simp]: "mset (sort_scored xs) = mset xs"
  by (induction xs) (simp_all add: sort_scored_def)

lemma sorted_insert_scored:
  assumes "all_priced (x # ys)" and "sorted_wrt (\<lambda>a b. score_of b \<le> score_of a) ys"
  shows "sorted_wrt (\<lambda>a b. score_of b \<le> score_of a) (insert_scored x ys)"
  using assms
proof (induction ys)
  case (Cons y ys)
  have mem: "set (insert_scored x ys) = insert x (set ys)"
    by (metis mset_insert_scored set_mset_add_mset_insert set_mset_mset)
  show ?case
  proof (cases "score_before y x")
    case True
    with Cons mem show ?thesis
      by (auto simp: score_before_def all_priced_def split: option.splits)
  next
    case False
    with Cons.prems have "score_of y \<le> score_of x"
      by (auto simp: score_before_def all_priced_def split: option.splits)
    with Cons.prems False show ?thesis by force
  qed
qed simp

lemma sorted_sort_scored:
  "all_priced xs \<Longrightarrow> sorted_wrt (\<lambda>a b. score_of b \<le> score_of a) (sort_scored xs)"
proof (induction xs)
  case (Cons x xs)
  have "set (sort_scored xs) = set xs" by (metis mset_sort_scored set_mset_mset)
  with Cons show ?case
    using sorted_insert_scored [of x "sort_scored xs"] by (simp add: sort_scored_def all_priced_def)
qed (simp add: sort_scored_def)

lemma score_all_models: "map (\<lambda>c. (cand_model c, cand_resolved c)) (fst (score_all R w cs now s)) = cs"
proof (induction cs arbitrary: s)
  case (Cons mr cs)
  obtain m r where "mr = (m, r)" by force
  with Cons show ?case by (simp add: split_beta Let_def)
qed simp

lemma score_all_priced:
  "\<forall>(m, r) \<in> set cs. getBlendedCostPer1k (providerModel r) \<noteq> None \<Longrightarrow> all_priced (fst (score_all R w cs now s))"
proof (induction cs arbitrary: s)
  case (Cons mr cs)
  obtain m r where "mr = (m, r)" by force
  with Cons show ?case by (auto simp: split_beta Let_def all_priced_def)
qed (simp add: all_priced_def)

lemma resolveOpenCandidates_mem:
  "(m, r) \<in> set (resolveOpenCandidates R registry ms now s) \<longleftrightarrow>
     m \<in> set ms \<and> reg_resolve registry m = Some r \<and> getCircuitState R (lp_name (rm_provider r)) now s \<noteq> ''open''"
proof (induction ms)
  case (Cons a ms)
  have "resolveOpenCandidates R registry (a # ms) now s =
      (case reg_resolve registry a of None \<Rightarrow> [] | Some r \<Rightarrow>
         if getCircuitState R (lp_name (rm_provider r)) now s \<noteq> ''open'' then [(a, r)] else [])
      @ resolveOpenCandidates R registry ms now s"
    by (simp add: resolveOpenCandidates_def split: option.split)
  with Cons show ?case by (cases "reg_resolve registry a") auto
qed (simp add: resolveOpenCandidates_def)

lemma resolveOpenCandidates_empty:
  "resolveOpenCandidates R registry ms now s = [] \<longleftrightarrow>
     (\<forall>m \<in> set ms. \<forall>r. reg_resolve registry m = Some r \<longrightarrow> getCircuitState R (lp_name (rm_provider r)) now s = ''open'')"
proof -
  have "xs = [] \<longleftrightarrow> (\<forall>m r. (m, r) \<notin> set xs)" for xs :: "(string \<times> ResolvedModel) list"
    by (cases xs) auto
  from this [of "resolveOpenCandidates R registry ms now s"] show ?thesis
    unfolding resolveOpenCandidates_mem by blast
qed


definition demo_provider :: "nat \<Rightarrow> string \<Rightarrow> LLMProvider" where
  "demo_provider i n = \<lparr>lp_ref = i, lp_name = n, lp_models = Inr [],
     lp_chat = (\<lambda>_ t. (Inl (ThrownJs ''offline''), t)), lp_chatStream = (\<lambda>_ t. (([], None), t))\<rparr>"

definition demo_registry :: ModelRegistry where
  "demo_registry = buildRegistry (demo_provider 0 ''openai'') (demo_provider 1 ''anthropic'')
     (demo_provider 2 ''gemini'') (demo_provider 3 ''ollama'') None ''gpt-4o''"

lemma demo_registry_resolve:
  "reg_resolve demo_registry ''gpt-4o'' = Some \<lparr>rm_provider = demo_provider 0 ''openai'', providerModel = ''gpt-4o''\<rparr>"
  "reg_resolve demo_registry ''gemini-1.5-flash'' =
     Some \<lparr>rm_provider = demo_provider 2 ''gemini'', providerModel = ''gemini-1.5-flash''\<rparr>"
  by (simp_all add: demo_registry_def buildRegistry_def createModelRegistry_def openai_matches_def)

lemma mem_empty_circuit [simp]: "getCircuitState mem_redis n t mem_empty = ''closed''"
  by (simp add: getCircuitState_def r_hget_def)


section \<open>A/B selection follows the weights\<close>

definition total_weight :: "AbConfig \<Rightarrow> (string \<times> ResolvedModel) list \<Rightarrow> rat" where
  "total_weight ab xs = (\<Sum>mr \<leftarrow> xs. ab_weight_of ab (fst mr))"

lemma total_weight_simps [simp]:
  "total_weight ab [] = 0" "total_weight ab (x # xs) = ab_weight_of ab (fst x) + total_weight ab xs"
  "total_weight ab (xs @ ys) = total_weight ab xs + total_weight ab ys"
  by (simp_all add: total_weight_def)

lemma ab_roll_interval:
  assumes "\<forall>x \<in> set xs. 0 < ab_weight_of ab (fst x)"
    and "total_weight ab xs < roll" and "roll \<le> total_weight ab xs + ab_weight_of ab (fst mr)"
  shows "ab_roll ab roll (xs @ mr # ys) = Some mr"
  using assms
proof (induction xs arbitrary: roll)
  case (Cons x xs)
  have "0 \<le> total_weight ab xs"
    using Cons.prems(1) unfolding total_weight_def by (intro sum_list_nonneg) force
  with Cons show ?case by auto
qed simp

text \<open>
  The A/B split hands each available variant exactly its share of the unit interval: variant
  \<open>mr\<close> is selected when the random number falls in the slice of length \<^verbatim>\<open>normalizedWeight\<close> that
  follows the shares of the variants before it, and no variant with an open circuit is in the split.
\<close>

theorem ab_selection_share:
  assumes "resolveOpenCandidates R registry (map fst ab) now s = xs @ mr # ys"
    and "\<forall>x \<in> set (xs @ mr # ys). 0 < ab_weight_of ab (fst x)"
    and "total_weight ab xs / total_weight ab (xs @ mr # ys) < random"
    and "random \<le> total_weight ab xs / total_weight ab (xs @ mr # ys) + normalizedWeight (ab_pick ab (total_weight ab (xs @ mr # ys)) mr)"
  shows "selectAbVariant R registry ab random now s = Some (ab_pick ab (total_weight ab (xs @ mr # ys)) mr)
    \<and> getCircuitState R (lp_name (rm_provider (snd mr))) now s \<noteq> ''open''"
proof -
  let ?T = "total_weight ab (xs @ mr # ys)"
  have "0 \<le> total_weight ab zs" if "set zs \<subseteq> set (xs @ mr # ys)" for zs
    using that assms(2) unfolding total_weight_def by (intro sum_list_nonneg) force
  from this [of xs] this [of ys] assms(2) have "0 < ?T" by (auto intro: add_nonneg_pos add_pos_nonneg)
  moreover have "a / T < r \<Longrightarrow> a < r * T" "r \<le> a / T + b / T \<Longrightarrow> r * T \<le> a + b" if "0 < T" for a b r T :: rat
    using that by (simp_all add: field_simps)
  ultimately have "total_weight ab xs < random * ?T" "random * ?T \<le> total_weight ab xs + ab_weight_of ab (fst mr)"
    using assms(3,4) by (simp_all only: ab_pick_def AbSelection.simps)
  then have "ab_roll ab (random * ?T) (xs @ mr # ys) = Some mr"
    using assms(2) by (intro ab_roll_interval) auto
  then have "selectAbVariant R registry ab random now s = Some (ab_pick ab ?T mr)"
    using assms(1) by (simp add: selectAbVariant_def total_weight_def)
  moreover have "(fst mr, snd mr) \<in> set (resolveOpenCandidates R registry (map fst ab) now s)"
    using assms(1) by simp
  ultimately show ?thesis by (simp only: resolveOpenCandidates_mem) simp
qed

definition demo_split :: AbConfig where
  "demo_split = [(''gpt-4o'', 7), (''gemini-1.5-flash'', 3)]"

theorem ab_selection_share_witness:
  "map_option ab_model (selectAbVariant mem_redis demo_registry demo_split (8/10) 0 mem_empty) = Some ''gemini-1.5-flash''"
  using ab_selection_share [of mem_redis demo_registry demo_split 0 mem_empty
      "[(''gpt-4o'', \<lparr>rm_provider = demo_provider 0 ''openai'', providerModel = ''gpt-4o''\<rparr>)]"
      "(''gemini-1.5-flash'', \<lparr>rm_provider = demo_provider 2 ''gemini'', providerModel = ''gemini-1.5-flash''\<rparr>)" "[]" "8/10"]
  by (simp add: resolveOpenCandidates_def demo_split_def demo_registry_resolve demo_provider_def ab_weight_of_def ab_pick_def)

section \<open>Percentiles and prices\<close>

lemma percentile_nth:
  assumes "xs \<noteq> []" and "0 < p" and "p \<le> 100"
  obtains k where "k < length xs" "percentile xs p = xs ! k" "of_int p / 100 * of_nat (length xs) \<le> (of_nat (Suc k) :: rat)"
    "(of_nat k :: rat) < of_int p / 100 * of_nat (length xs)"
proof -
  let ?n = "int (length xs)" and ?x = "of_int p / 100 * of_nat (length xs) :: rat"
  have n: "0 < ?n" using assms by simp
  have "0 < ?x" using assms by simp
  moreover have "?x \<le> of_nat (length xs)"
    using assms(3) mult_right_mono [of "of_int p / 100" "1 :: rat" "of_nat (length xs)"] by simp
  ultimately have c: "1 \<le> math_ceil ?x" "math_ceil ?x \<le> ?n"
    unfolding math_ceil_def by (simp_all add: ceiling_le_iff one_le_ceiling)
  define k where "k = nat (math_ceil ?x - 1)"
  have k: "int k = math_ceil ?x - 1" using c by (simp add: k_def)
  show ?thesis
  proof
    show "k < length xs" using c k by linarith
    show "percentile xs p = xs ! k" using c assms(1) by (simp add: percentile_def k_def Let_def)
    have "of_int (math_ceil ?x) = (of_nat (Suc k) :: rat)" using k by (metis diff_add_cancel of_int_of_nat_eq of_nat_Suc add.commute)
    then show "?x \<le> of_nat (Suc k)" unfolding math_ceil_def by (metis le_of_int_ceiling)
    have "of_int (math_ceil ?x - 1) < ?x" unfolding math_ceil_def by linarith
    then show "of_nat k < ?x" using k by (metis of_int_of_nat_eq)
  qed
qed

lemma sorted_count_le:
  assumes "sorted xs" and "k < length xs"
  shows "Suc k \<le> length (filter (\<lambda>x. x \<le> xs ! k) xs)"
proof -
  have "filter (\<lambda>x. x \<le> xs ! k) (take (Suc k) xs) = take (Suc k) xs"
    using assms by (auto simp: filter_id_conv in_set_conv_nth sorted_iff_nth_mono)
  then have "Suc k = length (filter (\<lambda>x. x \<le> xs ! k) (take (Suc k) xs))"
    using assms(2) by simp
  also have "\<dots> \<le> length (filter (\<lambda>x. x \<le> xs ! k) (take (Suc k) xs @ drop (Suc k) xs))"
    by (simp only: filter_append length_append le_add1)
  finally show ?thesis by simp
qed

lemma length_filter_sort: "length (filter P (sort xs)) = length (filter P xs)"
  by (metis mset_filter mset_sort size_mset)

text \<open>
  The statistics the router scores with are sound: on a non-empty window \<^verbatim>\<open>p50Ms\<close> and
  \<^verbatim>\<open>p99Ms\<close> are latencies that occurred, at least half (99 per cent) of the samples are no slower
  than them, \<^verbatim>\<open>p50Ms <= p99Ms\<close>, and the success rate is in \<open>[0, 1]\<close>.
\<close>

theorem provider_stats_sound:
  assumes "samples \<noteq> []"
  shows "let st = stats_of now samples; lat = map sm_latency samples in
    p50Ms st \<in> set lat \<and> p99Ms st \<in> set lat \<and> p50Ms st \<le> p99Ms st
    \<and> 50 / 100 * of_nat (sampleCount st) \<le> (of_nat (length (filter (\<lambda>x. x \<le> p50Ms st) lat)) :: rat)
    \<and> 99 / 100 * of_nat (sampleCount st) \<le> (of_nat (length (filter (\<lambda>x. x \<le> p99Ms st) lat)) :: rat)
    \<and> 0 \<le> successRate st \<and> successRate st \<le> 1"
proof -
  define st where "st = stats_of now samples"
  define lat where "lat = map sm_latency samples"
  define xs where "xs = sort lat"
  have xs: "xs \<noteq> []" "sorted xs" "set xs = set lat" "length xs = length samples"
    using assms(1) by (auto simp: xs_def lat_def) (metis length_0_conv length_map length_sort)
  obtain i where i: "i < length xs" "percentile xs 50 = xs ! i"
    "of_int 50 / 100 * of_nat (length xs) \<le> (of_nat (Suc i) :: rat)" "(of_nat i :: rat) < of_int 50 / 100 * of_nat (length xs)"
    by (rule percentile_nth [OF xs(1), of 50]) simp_all
  obtain j where j: "j < length xs" "percentile xs 99 = xs ! j"
    "of_int 99 / 100 * of_nat (length xs) \<le> (of_nat (Suc j) :: rat)" "(of_nat j :: rat) < of_int 99 / 100 * of_nat (length xs)"
    by (rule percentile_nth [OF xs(1), of 99]) simp_all
  have "(of_nat i :: rat) < of_nat (Suc j)"
    using i(4) j(3) mult_right_mono [of "50 / 100" "99 / 100 :: rat" "of_nat (length xs)"] by simp
  then have "i \<le> j" by (simp only: of_nat_less_iff)
  have p: "p50Ms st = xs ! i" "p99Ms st = xs ! j" "sampleCount st = length xs"
    using i(2) j(2) xs(4) by (simp_all add: st_def stats_of_def xs_def lat_def Let_def)
  have count: "of_nat (Suc k) \<le> (of_nat (length (filter (\<lambda>x. x \<le> xs ! k) lat)) :: rat)" if "k < length xs" for k
    using sorted_count_le [OF xs(2) that] length_filter_sort [of _ lat] by (simp only: xs_def of_nat_le_iff)
  have "successRate st \<le> 1" "0 \<le> successRate st"
    by (simp_all add: st_def stats_of_def Let_def divide_le_eq)
  moreover have "xs ! i \<le> xs ! j" using xs(2) \<open>i \<le> j\<close> j(1) by (simp add: sorted_nth_mono)
  ultimately show ?thesis
    unfolding Let_def st_def [symmetric] lat_def [symmetric] p
    using nth_mem [OF i(1)] nth_mem [OF j(1)] xs(3)
      order_trans [OF i(3) count [OF i(1)]] order_trans [OF j(3) count [OF j(1)]]
    by simp
qed

theorem provider_stats_sound_witness:
  "p99Ms (stats_of 0 [\<lparr>sm_ts = 0, sm_latency = 30, sm_success = True\<rparr>, \<lparr>sm_ts = 0, sm_latency = 10, sm_success = False\<rparr>]) \<in> {10, 30}"
  using provider_stats_sound [of "[\<lparr>sm_ts = 0, sm_latency = 30, sm_success = True\<rparr>, \<lparr>sm_ts = 0, sm_latency = 10, sm_success = False\<rparr>]" 0]
  unfolding Let_def by auto

lemma pricing_nonneg:
  assumes "getModelPricing m = Some p"
  shows "0 \<le> inputPerMillion p \<and> 0 \<le> outputPerMillion p"
proof (cases "map_of PRICING m")
  case None
  with assms have "p = FREE" by (auto simp: getModelPricing_def prop_lookup_def split: if_splits)
  then show ?thesis by (simp add: FREE_def)
next
  case (Some q)
  with assms have "(m, p) \<in> set PRICING" by (auto simp: getModelPricing_def prop_lookup_def dest: map_of_SomeD)
  then show ?thesis by (auto simp: PRICING_def)
qed

lemma computeCostUsd_nonneg:
  assumes "computeCostUsd m u = Some c" and "0 \<le> promptTokens u" and "0 \<le> completionTokens u"
  shows "0 \<le> c"
proof -
  from assms(1) obtain p where p: "getModelPricing m = Some p"
    and c: "c = of_int (math_round ((promptTokens u / 1000000 * inputPerMillion p
          + completionTokens u / 1000000 * outputPerMillion p) * 1000000)) / 1000000"
    unfolding computeCostUsd_def Let_def map_option_eq_Some by blast
  show ?thesis
    unfolding c using pricing_nonneg [OF p] assms(2,3)
    by (intro divide_nonneg_nonneg of_int_nonneg math_round_nonneg mult_nonneg_nonneg add_nonneg_nonneg) simp_all
qed

text \<open>
  \<^verbatim>\<open>computeCostUsd\<close> charges within half a millionth of a dollar of the list price, in whole
  millionths (what the \<^verbatim>\<open>DECIMAL(12,6)\<close> column stores) and never a negative amount; a model without
  a listed price costs nothing unless its name is a property every object inherits, for which the cost
  is \<^verbatim>\<open>NaN\<close>.
\<close>

theorem computeCostUsd_rounding:
  assumes "0 \<le> promptTokens u" and "0 \<le> completionTokens u"
  shows "case getModelPricing m of
      None \<Rightarrow> m \<in> set object_prototype_keys \<and> computeCostUsd m u = None
    | Some p \<Rightarrow> (\<exists>k \<ge> 0. computeCostUsd m u = Some (of_int k / 1000000) \<and>
        \<bar>of_int k / 1000000 - (promptTokens u * inputPerMillion p + completionTokens u * outputPerMillion p) / 1000000\<bar> \<le> 1 / 2000000
        \<and> (map_of PRICING m = None \<longrightarrow> k = 0))"
proof (cases "getModelPricing m")
  case None
  then show ?thesis
    by (simp add: computeCostUsd_def) (auto simp: getModelPricing_def prop_lookup_def split: option.splits if_splits)
next
  case (Some p)
  let ?c = "promptTokens u * inputPerMillion p + completionTokens u * outputPerMillion p"
  note pos = pricing_nonneg [OF Some]
  have cost: "computeCostUsd m u = Some (of_int (math_round ?c) / 1000000)"
    by (simp add: computeCostUsd_def Some Let_def distrib_right)
  have "0 \<le> math_round ?c" using assms pos by (intro math_round_nonneg) simp
  moreover have "map_of PRICING m = None \<longrightarrow> math_round ?c = 0"
  proof
    assume "map_of PRICING m = None"
    with Some have "p = FREE" by (auto simp: getModelPricing_def prop_lookup_def split: if_splits)
    then show "math_round ?c = 0" by (simp add: FREE_def)
  qed
  moreover have "\<bar>of_int (math_round ?c) / 1000000 - ?c / 1000000\<bar> \<le> 1 / 2000000"
    by (rule math_round_abs_error)
  ultimately show ?thesis using cost Some by auto
qed

theorem computeCostUsd_rounding_witness:
  "computeCostUsd ''gpt-4o'' \<lparr>promptTokens = 1000, completionTokens = 200\<rparr> = Some (8000 / 1000000)
    \<and> computeCostUsd ''constructor'' \<lparr>promptTokens = 1, completionTokens = 1\<rparr> = None"
proof -
  have "getModelPricing ''constructor'' = None"
    by (simp add: getModelPricing_def prop_lookup_def PRICING_def object_prototype_keys_def)
  then have "computeCostUsd ''constructor'' \<lparr>promptTokens = 1, completionTokens = 1\<rparr> = None"
    using computeCostUsd_rounding [of "\<lparr>promptTokens = 1, completionTokens = 1\<rparr>" "''constructor''"] by simp
  then show ?thesis
    by (simp add: computeCostUsd_def getModelPricing_def prop_lookup_def PRICING_def Let_def)
qed

section \<open>Calls through an open circuit\<close>

lemma withRetry_gives_up:
  assumes "fn 1 t s = (Inl e, t', s')" and "\<not> shouldRetry e" and "1 \<le> maxAttempts cfg"
  shows "withRetry cfg shouldRetry random fn t s = (Inl (Some e), t', s')"
  unfolding withRetry_def by (subst withRetry_loop.simps) (use assms in simp)

context redis_service
begin

lemma open_circuit_call:
  assumes "r_read R (cb_key name) t s = Some (RHash h)"
    and "h ''state'' = Some (HStr ''open'')" "h ''openedAt'' = Some (HNum (of_int z))"
    and "t < z + CIRCUIT_OPEN_DURATION_MS env" and "1 \<le> RETRY_MAX_ATTEMPTS env"
  shows "callProviderResilientWithStats R env random uuid name fn t s =
    (Inl (ThrownApp (ServiceUnavailableError (name @ '' is temporarily unavailable (circuit open)'')
       (Some (of_int (CIRCUIT_OPEN_DURATION_MS env) / 1000)) ''SERVICE_UNAVAILABLE'')), t, s)"
proof -
  have "holds R (cb_key name) h t t s" using assms(1) by (auto simp: holds_def dest: antisym)
  then have "withCircuitBreaker R name (breaker_config env) fn t s = (Inl (CircuitOpenError name), t, s)"
    by (rule open_fails_fast [OF _ assms(2,3)]) (simp add: breaker_config_def assms(4))
  then have "withRetry \<lparr>maxAttempts = RETRY_MAX_ATTEMPTS env, baseDelayMs = RETRY_BASE_DELAY_MS env\<rparr>
      (\<lambda>err. \<not> is_circuit_open err) random (\<lambda>_. withCircuitBreaker R name (breaker_config env) fn) t s =
      (Inl (Some (CircuitOpenError name)), t, s)"
    by (rule withRetry_gives_up) (simp_all add: assms(5))
  then show ?thesis by (simp add: callProviderResilientWithStats_def callProviderResilient_def)
qed

end

text \<open>
  C37. Calling a provider whose circuit is open returns at once with a 503 that carries a
  \<^verbatim>\<open>Retry-After\<close> of at least one second: the provider is not called, nothing is retried, and
  neither the breaker nor the latency window of the router is touched.
\<close>

theorem open_circuit_answers_503:
  assumes "redis_service R" and "r_read R (cb_key name) t s = Some (RHash h)"
    and "h ''state'' = Some (HStr ''open'')" "h ''openedAt'' = Some (HNum (of_int z))"
    and "t < z + CIRCUIT_OPEN_DURATION_MS env" and "1 \<le> RETRY_MAX_ATTEMPTS env"
  shows "\<exists>e n. callProviderResilientWithStats R env random uuid name fn t s = (Inl (ThrownApp e), t, s)
    \<and> statusCode e = 503 \<and> 1 \<le> n \<and> headers e = [(''Retry-After'', show_int n)]"
proof -
  obtain n where "n \<ge> 1" "retry_after (of_int (CIRCUIT_OPEN_DURATION_MS env) / 1000) = (''Retry-After'', show_int n)"
    using retry_after_positive by blast
  then show ?thesis
    using redis_service.open_circuit_call [OF assms, of random uuid fn] by (auto simp: ServiceUnavailableError_def)
qed

definition demo_env :: resilience_env where
  "demo_env = \<lparr>RETRY_MAX_ATTEMPTS = 3, RETRY_BASE_DELAY_MS = 200, CIRCUIT_FAILURE_THRESHOLD = 5,
     CIRCUIT_FAILURE_WINDOW_MS = 30000, CIRCUIT_OPEN_DURATION_MS = 30000\<rparr>"

theorem open_circuit_answers_503_witness:
  "\<exists>e n. callProviderResilientWithStats mem_redis demo_env (\<lambda>_. 0) ''u'' ''openai''
       (\<lambda>t s. (Inr True, t, s)) 500 opened = (Inl (ThrownApp e), 500, opened)
    \<and> statusCode e = 503 \<and> 1 \<le> n \<and> headers e = [(''Retry-After'', show_int n)]"
  by (rule open_circuit_answers_503 [OF mem.redis_service_axioms read_opened, where z = 100]) (simp_all add: demo_env_def)

end
