(* ===== verification/Database.thy ===== *)
theory Database
  imports Json Errors
begin

text \<open>
  The PostgreSQL tables the services share (\<^verbatim>\<open>packages/db/prisma/schema.prisma\<close>), as lists of
  rows, and \<^verbatim>\<open>withTenant\<close> of \<^verbatim>\<open>packages/db/src/tenant.ts\<close>: a transaction whose queries on the
  tables with row-level security see and write the rows of one organisation only, and whose writes
  disappear when it throws. Columns no modelled operation reads are left out. Row ids and timestamps
  that the database generates are arguments of the operations that insert.
\<close>

section \<open>schema.prisma\<close>

datatype Plan = FREE_PLAN | PRO | ENTERPRISE
datatype UserRole = OWNER | ADMIN | MEMBER
datatype InvoiceStatus = INV_PENDING | INV_PAID | INV_FAILED
datatype JobStatus = QUEUED | RUNNING | COMPLETED | JOB_FAILED | DEAD_LETTER
datatype WebhookDeliveryStatus = WH_PENDING | WH_DELIVERED | WH_FAILED | WH_EXHAUSTED

record Organization =
  org_id :: string
  org_name :: string
  org_plan :: Plan
  org_stripeCustomerId :: "string option"
  org_budgetOverrideUsd :: "usd option"
  org_featureFlags :: json

record BillingPlan =
  bp_planTier :: Plan
  bp_monthlyBudgetUsd :: usd
  bp_priceUsd :: usd
  bp_stripePriceId :: "string option"

record Invoice =
  inv_orgId :: string
  inv_stripeInvoiceId :: "string option"
  inv_periodStart :: ms
  inv_periodEnd :: ms
  inv_amountUsd :: usd
  inv_status :: InvoiceStatus

record OutboxEvent =
  ob_id :: string
  ob_eventType :: string
  ob_payload :: json
  ob_publishedAt :: "ms option"
  ob_createdAt :: ms

record UserRow =
  usr_id :: string
  usr_email :: string
  usr_passwordHash :: string
  usr_role :: UserRole
  usr_orgId :: string

record ApiKey =
  ak_id :: string
  ak_orgId :: string
  ak_keyHash :: string
  ak_keyPrefix :: string
  ak_scopes :: "string list"
  ak_isActive :: bool
  ak_rateLimitRpm :: int
  ak_lastUsedAt :: "ms option"
  ak_createdAt :: ms

record UsageRecord =
  ur_orgId :: string
  ur_apiKeyId :: string
  ur_model :: string
  ur_promptTokens :: rat
  ur_completionTokens :: rat
  ur_costUsd :: usd
  ur_requestId :: string
  ur_createdAt :: ms

record Job =
  job_id :: string
  job_orgId :: string
  job_apiKeyId :: "string option"
  job_bullJobId :: "string option"
  job_type :: string
  job_status :: JobStatus
  job_priority :: int
  job_payload :: json
  job_progress :: int
  job_result :: "json option"
  job_error :: "string option"
  job_attempts :: int
  job_createdAt :: ms
  job_startedAt :: "ms option"
  job_finishedAt :: "ms option"

record AuditLog =
  al_orgId :: string
  al_eventId :: string
  al_eventType :: string
  al_payload :: json

record WebhookEndpoint =
  we_id :: string
  we_orgId :: string
  we_url :: string
  we_secret :: string
  we_eventTypes :: "string list"
  we_isActive :: bool
  we_createdAt :: ms

record WebhookEvent =
  wev_id :: string
  wev_orgId :: string
  wev_eventType :: string
  wev_payload :: json
  wev_createdAt :: ms

record WebhookDelivery =
  wd_id :: string
  wd_orgId :: string
  wd_endpointId :: string
  wd_eventId :: string
  wd_status :: WebhookDeliveryStatus
  wd_attempts :: int
  wd_responseStatus :: "int option"
  wd_responseBody :: "string option"
  wd_lastAttemptAt :: "ms option"
  wd_createdAt :: ms

record SemanticCacheEntry =
  sce_orgId :: string
  sce_model :: string
  sce_promptHash :: string
  sce_embedding :: "rat list option"
  sce_response :: string
  sce_createdAt :: ms

record db =
  organizations :: "Organization list"
  billing_plans :: "BillingPlan list"
  invoices :: "Invoice list"
  stripe_events :: "(string \<times> string) list"
  outbox_events :: "OutboxEvent list"
  users :: "UserRow list"
  api_keys :: "ApiKey list"
  usage_records :: "UsageRecord list"
  jobs :: "Job list"
  audit_log :: "AuditLog list"
  webhook_endpoints :: "WebhookEndpoint list"
  webhook_events :: "WebhookEvent list"
  webhook_deliveries :: "WebhookDelivery list"
  semantic_cache :: "SemanticCacheEntry list"

definition empty_db :: db where
  "empty_db = \<lparr>organizations = [], billing_plans = [], invoices = [], stripe_events = [], outbox_events = [],
     users = [], api_keys = [], usage_records = [], jobs = [], audit_log = [], webhook_endpoints = [],
     webhook_events = [], webhook_deliveries = [], semantic_cache = []\<rparr>"

section \<open>tenant.ts\<close>

definition is_hex :: "char \<Rightarrow> bool" where
  "is_hex c \<longleftrightarrow> hex_value c \<noteq> None"

definition is_uuid :: "string \<Rightarrow> bool" where
  "is_uuid s \<longleftrightarrow>
     map length (split_on (CHR ''-'') s) = [8, 4, 4, 4, 12] \<and> list_all (list_all is_hex) (split_on (CHR ''-'') s)"

text \<open>
  The tenant policy hides the rows of other organisations: \<open>tenant_rows\<close> is what a query in the
  transaction sees, and \<open>tenant_update\<close> what an update in it does to the table.
\<close>

definition tenant_rows :: "('r \<Rightarrow> string) \<Rightarrow> string \<Rightarrow> 'r list \<Rightarrow> 'r list" where
  "tenant_rows org_of orgId rows = filter (\<lambda>r. org_of r = orgId) rows"

definition tenant_update :: "('r \<Rightarrow> string) \<Rightarrow> string \<Rightarrow> ('r \<Rightarrow> bool) \<Rightarrow> ('r \<Rightarrow> 'r) \<Rightarrow> 'r list \<Rightarrow> 'r list" where
  "tenant_update org_of orgId P f rows = map (\<lambda>r. if org_of r = orgId \<and> P r then f r else r) rows"

definition withTenant :: "db \<Rightarrow> string \<Rightarrow> (db \<Rightarrow> (thrown, 'a) result \<times> db) \<Rightarrow> (thrown, 'a) result \<times> db" where
  "withTenant d orgId fn =
     (if \<not> is_uuid orgId then (Inl (ThrownJs (''withTenant: orgId is not a valid UUID: '' @ orgId)), d)
      else
        (case fn d of
           (Inr a, d') \<Rightarrow> (Inr a, d')
         | (Inl e, d') \<Rightarrow> (Inl e, d)))"

lemma tenant_rows_mem [simp]: "r \<in> set (tenant_rows f o' rows) \<longleftrightarrow> r \<in> set rows \<and> f r = o'"
  by (auto simp: tenant_rows_def)

lemma withTenant_error: "fst (withTenant d orgId fn) = Inl e \<Longrightarrow> snd (withTenant d orgId fn) = d"
  by (auto simp: withTenant_def split: prod.splits sum.splits if_splits)

lemma tenant_update_other:
  "(\<And>r. f (g r) = f r) \<Longrightarrow> o' \<noteq> orgId \<Longrightarrow> tenant_rows f o' (tenant_update f orgId P g rows) = tenant_rows f o' rows"
  by (induction rows) (auto simp: tenant_rows_def tenant_update_def)

lemma length_tenant_update [simp]: "length (tenant_update f orgId P g rows) = length rows"
  by (simp add: tenant_update_def)

end
