(* ===== verification/Outbox.thy ===== *)
theory Outbox
  imports Database
begin

text \<open>
  The transactional outbox of \<^verbatim>\<open>packages/outbox/src/outbox.ts\<close>: writing an event inside the caller's
  transaction, one poll, and the poller, whose ticks never overlap. The lemmas describe exactly which
  rows a poll marks and, for a publisher that works, that everything is delivered once and in order.
\<close>

section \<open>outbox.ts\<close>

definition writeOutboxEvent :: "string \<Rightarrow> ms \<Rightarrow> string \<Rightarrow> json \<Rightarrow> db \<Rightarrow> db" where
  "writeOutboxEvent rowId now eventType payload d =
     d\<lparr>outbox_events := outbox_events d @
        [\<lparr>ob_id = rowId, ob_eventType = eventType, ob_payload = payload, ob_publishedAt = None, ob_createdAt = now\<rparr>]\<rparr>"

record PollResult =
  attempted :: nat
  published :: nat

text \<open>
  \<open>publish\<close> stands for the \<^verbatim>\<open>EventPublisher\<close>: it is given the bus and the event and says whether it
  threw. Rows with equal \<^verbatim>\<open>createdAt\<close> come in insertion order.
\<close>

definition pending_events :: "nat \<Rightarrow> db \<Rightarrow> OutboxEvent list" where
  "pending_events batchSize d =
     take batchSize (sort_key ob_createdAt (filter (\<lambda>e. ob_publishedAt e = None) (outbox_events d)))"

definition mark_published :: "string \<Rightarrow> ms \<Rightarrow> db \<Rightarrow> db" where
  "mark_published i now d =
     d\<lparr>outbox_events := map (\<lambda>e. if ob_id e = i then e\<lparr>ob_publishedAt := Some now\<rparr> else e) (outbox_events d)\<rparr>"

fun publish_all ::
    "('w \<Rightarrow> string \<Rightarrow> json \<Rightarrow> string \<Rightarrow> bool \<times> 'w) \<Rightarrow> ms \<Rightarrow> OutboxEvent list \<Rightarrow> 'w \<Rightarrow> db \<Rightarrow> nat \<times> 'w \<times> db" where
  "publish_all publish now [] w d = (0, w, d)"
| "publish_all publish now (e # es) w d =
     (case publish w (ob_eventType e) (ob_payload e) (ob_id e) of
        (True, w') \<Rightarrow>
          (let (n, w'', d') = publish_all publish now es w' (mark_published (ob_id e) now d) in (Suc n, w'', d'))
      | (False, w') \<Rightarrow> publish_all publish now es w' d)"

definition pollOutbox ::
    "('w \<Rightarrow> string \<Rightarrow> json \<Rightarrow> string \<Rightarrow> bool \<times> 'w) \<Rightarrow> nat \<Rightarrow> ms \<Rightarrow> 'w \<Rightarrow> db \<Rightarrow> PollResult \<times> 'w \<times> db" where
  "pollOutbox publish batchSize now w d =
     (let pending = pending_events batchSize d;
          (n, w', d') = publish_all publish now pending w d
      in (\<lparr>attempted = length pending, published = n\<rparr>, w', d'))"

text \<open>The poller: each tick starts after the previous one has finished; \<open>stop\<close> ends the list.\<close>

fun startOutboxPoller ::
    "('w \<Rightarrow> string \<Rightarrow> json \<Rightarrow> string \<Rightarrow> bool \<times> 'w) \<Rightarrow> ms list \<Rightarrow> 'w \<Rightarrow> db \<Rightarrow> 'w \<times> db" where
  "startOutboxPoller publish [] w d = (w, d)"
| "startOutboxPoller publish (now # ticks) w d =
     (let (_, w', d') = pollOutbox publish 50 now w d in startOutboxPoller publish ticks w' d')"

section \<open>What a poll does to the table\<close>

fun publish_outcomes ::
    "('w \<Rightarrow> string \<Rightarrow> json \<Rightarrow> string \<Rightarrow> bool \<times> 'w) \<Rightarrow> OutboxEvent list \<Rightarrow> 'w \<Rightarrow> (OutboxEvent \<times> bool) list" where
  "publish_outcomes publish [] w = []"
| "publish_outcomes publish (e # es) w =
     (let (b, w') = publish w (ob_eventType e) (ob_payload e) (ob_id e) in (e, b) # publish_outcomes publish es w')"

definition accepted_ids :: "(OutboxEvent \<times> bool) list \<Rightarrow> string set" where
  "accepted_ids outs = {ob_id e | e. (e, True) \<in> set outs}"

definition mark_set :: "string set \<Rightarrow> ms \<Rightarrow> db \<Rightarrow> db" where
  "mark_set ids now d =
     d\<lparr>outbox_events := map (\<lambda>e. if ob_id e \<in> ids then e\<lparr>ob_publishedAt := Some now\<rparr> else e) (outbox_events d)\<rparr>"

lemma mark_set_empty [simp]: "mark_set {} now d = d"
  by (simp add: mark_set_def)

lemma mark_set_mark: "mark_set ids now (mark_published i now d) = mark_set (insert i ids) now d"
  by (auto simp: mark_set_def mark_published_def)

lemma accepted_ids_simps [simp]:
  "accepted_ids [] = {}"
  "accepted_ids ((e, b) # outs) = (if b then insert (ob_id e) (accepted_ids outs) else accepted_ids outs)"
  by (auto simp: accepted_ids_def)

lemma publish_all_marks:
  "publish_all publish now es w d = (n, w', d') \<Longrightarrow>
     d' = mark_set (accepted_ids (publish_outcomes publish es w)) now d
     \<and> n = length (filter snd (publish_outcomes publish es w))"
proof (induction es arbitrary: w d n)
  case (Cons e es)
  obtain b w1 where pub: "publish w (ob_eventType e) (ob_payload e) (ob_id e) = (b, w1)" by force
  show ?case
  proof (cases b)
    case True
    with Cons.prems pub obtain m where
      run: "publish_all publish now es w1 (mark_published (ob_id e) now d) = (m, w', d')" and "n = Suc m"
      by (auto split: prod.splits)
    with Cons.IH [OF run] True pub show ?thesis by (simp add: mark_set_mark)
  next
    case False
    with Cons pub show ?thesis by simp
  qed
qed simp

text \<open>
  One poll attempts the oldest unpublished events in order of creation, at most
  \<^verbatim>\<open>batchSize\<close> of them, and each of them whatever happened to the others; it marks exactly the ones
  the publisher accepted and changes nothing else, so a failed event stays for the next poll.
\<close>

theorem pollOutbox_marks_accepted:
  "let pending = pending_events b d; outs = publish_outcomes publish pending w;
       (res, w', d') = pollOutbox publish b now w d
   in map fst outs = pending \<and> sorted (map ob_createdAt pending) \<and> attempted res = length pending
      \<and> published res = length (filter snd outs) \<and> d' = mark_set (accepted_ids outs) now d"
proof -
  have "map fst (publish_outcomes publish es v) = es" for es v
    by (induction es arbitrary: v) (simp_all add: split_beta Let_def)
  moreover have "sorted (map ob_createdAt (pending_events b d))"
    by (simp add: pending_events_def take_map [symmetric] sorted_wrt_take)
  moreover obtain n w' d' where run: "publish_all publish now (pending_events b d) w d = (n, w', d')"
    by (cases "publish_all publish now (pending_events b d) w d") auto
  ultimately show ?thesis
    using publish_all_marks [OF run] by (simp add: pollOutbox_def Let_def)
qed

section \<open>Draining the outbox\<close>

text \<open>A publisher that accepts everything; the bus is the list of event ids it received.\<close>

definition reliable :: "string list \<Rightarrow> string \<Rightarrow> json \<Rightarrow> string \<Rightarrow> bool \<times> string list" where
  "reliable bus eventType payload eventId = (True, bus @ [eventId])"

lemma publish_all_reliable_Cons:
  "publish_all reliable now (e # es) w d =
     (let (n, w', d') = publish_all reliable now es (w @ [ob_id e]) (mark_published (ob_id e) now d) in (Suc n, w', d'))"
  by (simp add: reliable_def)

lemma publish_outcomes_reliable: "publish_outcomes reliable es v = map (\<lambda>e. (e, True)) es"
  by (induction es arbitrary: v) (simp_all add: reliable_def)

definition backlog :: "db \<Rightarrow> OutboxEvent list" where
  "backlog d = sort_key ob_createdAt (filter (\<lambda>e. ob_publishedAt e = None) (outbox_events d))"

lemma publish_all_reliable:
  "\<exists>d'. publish_all reliable now es w d = (length es, w @ map ob_id es, d')"
proof (induction es arbitrary: w d)
  case (Cons e es)
  obtain d' where "publish_all reliable now es (w @ [ob_id e]) (mark_published (ob_id e) now d) =
      (length es, (w @ [ob_id e]) @ map ob_id es, d')"
    using Cons by blast
  then show ?case by (simp add: publish_all_reliable_Cons del: publish_all.simps)
qed simp

lemma backlog_mark_set: "backlog (mark_set ids now d) = filter (\<lambda>e. ob_id e \<notin> ids) (backlog d)"
proof -
  have "filter (\<lambda>e. ob_publishedAt e = None)
        (map (\<lambda>e. if ob_id e \<in> ids then e\<lparr>ob_publishedAt := Some now\<rparr> else e) es) =
      filter (\<lambda>e. ob_id e \<notin> ids) (filter (\<lambda>e. ob_publishedAt e = None) es)" for es :: "OutboxEvent list"
    by (induction es) auto
  then show ?thesis by (simp add: backlog_def mark_set_def filter_sort)
qed

lemma filter_drop_prefix:
  "distinct (map f xs) \<Longrightarrow> filter (\<lambda>x. f x \<notin> f ` set (take n xs)) xs = drop n xs"
proof (induction xs arbitrary: n)
  case (Cons x xs)
  show ?case
  proof (cases n)
    case (Suc m)
    have "filter (\<lambda>y. f y \<notin> insert (f x) (f ` set (take m xs))) xs = filter (\<lambda>y. f y \<notin> f ` set (take m xs)) xs"
      using Cons.prems by (intro filter_cong) (auto intro: rev_image_eqI)
    with Cons Suc show ?thesis by simp
  qed (simp add: filter_id_conv)
qed simp

lemma poll_reliable:
  assumes "distinct (map ob_id (outbox_events d))"
  obtains d' where "pollOutbox reliable b now bus d =
      (\<lparr>attempted = length (take b (backlog d)), published = length (take b (backlog d))\<rparr>,
       bus @ map ob_id (take b (backlog d)), d')"
    "backlog d' = drop b (backlog d)" "map ob_id (outbox_events d') = map ob_id (outbox_events d)"
proof -
  let ?p = "pending_events b d"
  have p: "?p = take b (backlog d)" by (simp add: pending_events_def backlog_def)
  obtain d' where run: "publish_all reliable now ?p bus d = (length ?p, bus @ map ob_id ?p, d')"
    using publish_all_reliable by metis
  have "accepted_ids (publish_outcomes reliable es v) = ob_id ` set es" for es v
    by (auto simp: publish_outcomes_reliable accepted_ids_def)
  then have d': "d' = mark_set (ob_id ` set ?p) now d" using publish_all_marks [OF run] by simp
  have "distinct (map ob_id (backlog d))"
    using assms by (simp add: backlog_def distinct_map distinct_map_filter inj_on_def)
  then have "backlog d' = drop b (backlog d)"
    by (simp add: d' backlog_mark_set p filter_drop_prefix)
  moreover have "map ob_id (outbox_events d') = map ob_id (outbox_events d)"
    by (simp add: d' mark_set_def)
  moreover have "pollOutbox reliable b now bus d = (\<lparr>attempted = length ?p, published = length ?p\<rparr>, bus @ map ob_id ?p, d')"
    using run by (simp add: pollOutbox_def Let_def)
  ultimately show ?thesis using that p by simp
qed

text \<open>
  C24. With a working publisher the poller drains the outbox: after \<open>k\<close> ticks the bus has
  received the first \<open>50 * k\<close> events of the backlog, each once and in order of creation, and what is
  left is the rest of the backlog; so \<open>k\<close> ticks with \<open>50 * k\<close> at least the backlog's length
  deliver everything.
\<close>

theorem outbox_drains_in_order:
  assumes "distinct (map ob_id (outbox_events d))"
  shows "\<exists>d'. startOutboxPoller reliable ticks bus d = (bus @ map ob_id (take (50 * length ticks) (backlog d)), d')
    \<and> backlog d' = drop (50 * length ticks) (backlog d)"
  using assms
proof (induction ticks arbitrary: bus d)
  case Nil
  then show ?case by simp
next
  case (Cons now ticks)
  obtain d1 where d1: "pollOutbox reliable 50 now bus d =
      (\<lparr>attempted = length (take 50 (backlog d)), published = length (take 50 (backlog d))\<rparr>,
       bus @ map ob_id (take 50 (backlog d)), d1)"
    "backlog d1 = drop 50 (backlog d)" "map ob_id (outbox_events d1) = map ob_id (outbox_events d)"
    using poll_reliable [OF Cons.prems] by blast
  obtain d' where "startOutboxPoller reliable ticks (bus @ map ob_id (take 50 (backlog d))) d1 =
      ((bus @ map ob_id (take 50 (backlog d))) @ map ob_id (take (50 * length ticks) (backlog d1)), d')"
    "backlog d' = drop (50 * length ticks) (backlog d1)"
    using Cons.IH [of d1] Cons.prems d1(3) by metis
  with d1 show ?case
    by (auto simp: take_add [of 50] map_append [symmetric] add.commute simp del: map_append)
qed

theorem outbox_drains_in_order_witness:
  "\<exists>d'. startOutboxPoller reliable [100] []
      (writeOutboxEvent ''e2'' 20 ''usage.recorded'' JNull (writeOutboxEvent ''e1'' 30 ''budget.warning'' JNull empty_db))
     = ([''e2'', ''e1''], d')"
  using outbox_drains_in_order [of "writeOutboxEvent ''e2'' 20 ''usage.recorded'' JNull
      (writeOutboxEvent ''e1'' 30 ''budget.warning'' JNull empty_db)" "[100]" "[]"]
  by (auto simp: writeOutboxEvent_def empty_db_def backlog_def)

text \<open>
  A poller is held up by what always fails: when the oldest \<^verbatim>\<open>batchSize\<close> events are refused
  every time, a poll changes nothing, so the events behind them are never attempted.
\<close>

lemma pollOutbox_starves:
  assumes "\<And>w e. e \<in> set (pending_events b d) \<Longrightarrow> publish w (ob_eventType e) (ob_payload e) (ob_id e) = (False, w)"
  shows "pollOutbox publish b now w d = (\<lparr>attempted = length (pending_events b d), published = 0\<rparr>, w, d)"
proof -
  have "publish_all publish now es w d = (0, w, d)"
    if "\<And>w e. e \<in> set es \<Longrightarrow> publish w (ob_eventType e) (ob_payload e) (ob_id e) = (False, w)" for es
    using that by (induction es) auto
  from this [OF assms] show ?thesis by (simp add: pollOutbox_def Let_def)
qed

end
