(* ===== verification/Billing.thy ===== *)
theory Billing
  imports Routing Outbox
begin

text \<open>
  Budgets and billing: \<^verbatim>\<open>packages/billing/src/budgetStatus.ts\<close>, the distributed lock of
  \<^verbatim>\<open>apps/gateway/src/lib/billingLock.ts\<close> and \<^verbatim>\<open>apps/gateway/src/lib/billing.ts\<close>. Locked code works
  on the Redis state and the database together. The UTC calendar of \<^verbatim>\<open>Date\<close> is the proleptic
  Gregorian calendar, computed from the day number.
\<close>

section \<open>budgetStatus.ts\<close>

definition DAY_MS :: ms where
  "DAY_MS = 86400000"

text \<open>Year, month (from 1) and day of a day number counted from 1970-01-01, and back.\<close>

definition civil_of_days :: "int \<Rightarrow> int \<times> int \<times> int" where
  "civil_of_days n =
     (let z = n + 719468; era = z div 146097; doe = z mod 146097;
          yoe = (doe - doe div 1460 + doe div 36524 - doe div 146096) div 365;
          doy = doe - (365 * yoe + yoe div 4 - yoe div 100);
          mp = (5 * doy + 2) div 153;
          d = doy - (153 * mp + 2) div 5 + 1;
          m = (if mp < 10 then mp + 3 else mp - 9)
      in (yoe + era * 400 + (if m \<le> 2 then 1 else 0), m, d))"

definition days_of_civil :: "int \<Rightarrow> int \<Rightarrow> int \<Rightarrow> int" where
  "days_of_civil y m d =
     (let y' = (if m \<le> 2 then y - 1 else y); era = y' div 400; yoe = y' mod 400;
          doy = (153 * (if m > 2 then m - 3 else m + 9) + 2) div 5 + d - 1;
          doe = yoe * 365 + yoe div 4 - yoe div 100 + doy
      in era * 146097 + doe - 719468)"

definition utc_year_month :: "ms \<Rightarrow> int \<times> int" where
  "utc_year_month now = (let (y, m, _) = civil_of_days (now div DAY_MS) in (y, m))"

definition startOfCurrentMonthUtc :: "ms \<Rightarrow> ms" where
  "startOfCurrentMonthUtc now = (let (y, m) = utc_year_month now in days_of_civil y m 1 * DAY_MS)"

definition pad2 :: "int \<Rightarrow> string" where
  "pad2 n = (if 0 \<le> n \<and> n < 10 then ''0'' @ show_int n else show_int n)"

definition currentPeriodKey :: "ms \<Rightarrow> string" where
  "currentPeriodKey now = (let (y, m) = utc_year_month now in show_int y @ ''-'' @ pad2 m)"

record BudgetStatus =
  spentUsd :: usd
  budgetUsd :: "usd option"
  remainingUsd :: "usd option"
  remainingFraction :: rat

definition find_org :: "string \<Rightarrow> db \<Rightarrow> Organization option" where
  "find_org orgId d = find (\<lambda>r. org_id r = orgId) (organizations d)"

definition spent_since :: "string \<Rightarrow> ms \<Rightarrow> db \<Rightarrow> usd" where
  "spent_since orgId start d =
     (\<Sum>r \<leftarrow> filter (\<lambda>r. start \<le> ur_createdAt r) (tenant_rows ur_orgId orgId (usage_records d)). ur_costUsd r)"

definition getBudgetStatus :: "string \<Rightarrow> ms \<Rightarrow> db \<Rightarrow> (thrown, BudgetStatus) result" where
  "getBudgetStatus orgId now d =
     (case find_org orgId d of
        None \<Rightarrow> Inl (ThrownJs ''NotFoundError'')
      | Some org \<Rightarrow>
          (let budget = (case org_budgetOverrideUsd org of
                 Some b \<Rightarrow> Some b
               | None \<Rightarrow> map_option bp_monthlyBudgetUsd
                   (find (\<lambda>p. bp_planTier p = org_plan org) (billing_plans d)))
           in result_bind
                (fst (withTenant d orgId (\<lambda>tx. (Inr (spent_since orgId (startOfCurrentMonthUtc now) tx), tx))))
                (\<lambda>spent.
                  case budget of
                    None \<Rightarrow> Inr \<lparr>spentUsd = spent, budgetUsd = None, remainingUsd = None, remainingFraction = 1\<rparr>
                  | Some b \<Rightarrow>
                      Inr \<lparr>spentUsd = spent, budgetUsd = Some b, remainingUsd = Some (b - spent),
                           remainingFraction = (if b > 0 then (b - spent) / b else 0)\<rparr>)))"

section \<open>billingLock.ts\<close>

record DistributedLockOptions =
  ttlMs :: ms
  retries :: nat
  retryDelayMs :: ms

datatype 'e lock_error = LockAcquisitionError string | Inside 'e

definition lockKeyFor :: "string \<Rightarrow> string" where
  "lockKeyFor name = ''billing:lock:'' @ name"

definition release_script :: "('s, 'm) redis_scheme \<Rightarrow> string \<Rightarrow> string \<Rightarrow> ms \<Rightarrow> 's \<Rightarrow> 's" where
  "release_script R key token t s =
     (if r_get R key t s = Some (SText token) then r_del R key t s else s)"

text \<open>
  The loop of \<^verbatim>\<open>withDistributedLock\<close> with \<open>left\<close> attempts still allowed after this one. The
  protected \<open>fn\<close> starts at a time, sees Redis and the database, and says when it ended.
\<close>

fun lock_loop ::
    "('s, 'm) redis_scheme \<Rightarrow> string \<Rightarrow> string \<Rightarrow> ('e, 'a, 's \<times> 'd) call \<Rightarrow> DistributedLockOptions \<Rightarrow> nat
      \<Rightarrow> ('e lock_error, 'a, 's \<times> 'd) call" where
  "lock_loop R key token fn opts left t (s, d) =
     (let (acquired, s1) = r_set_nx R key (SText token) (ttlMs opts) t s
      in if acquired then
           (let (r, t', s2, d') = fn t (s1, d)
            in (map_sum Inside id r, t', release_script R key token t' s2, d'))
         else
           (case left of
              0 \<Rightarrow> (Inl (LockAcquisitionError key), t, s1, d)
            | Suc n \<Rightarrow> lock_loop R key token fn opts n (t + retryDelayMs opts) (s1, d)))"

definition withDistributedLock ::
    "('s, 'm) redis_scheme \<Rightarrow> string \<Rightarrow> string \<Rightarrow> ('e, 'a, 's \<times> 'd) call \<Rightarrow> DistributedLockOptions
      \<Rightarrow> ('e lock_error, 'a, 's \<times> 'd) call" where
  "withDistributedLock R token name fn opts = lock_loop R (lockKeyFor name) token fn opts (retries opts)"

section \<open>billing.ts\<close>

definition DEFAULT_LOCK_OPTS :: DistributedLockOptions where
  "DEFAULT_LOCK_OPTS = \<lparr>ttlMs = 5000, retries = 3, retryDelayMs = 50\<rparr>"

definition jusd :: "usd option \<Rightarrow> json" where
  "jusd v = (case v of None \<Rightarrow> JNull | Some x \<Rightarrow> JNum x)"

definition budget_exceeded_payload :: "string \<Rightarrow> BudgetStatus \<Rightarrow> json" where
  "budget_exceeded_payload orgId status =
     JObj [(''orgId'', JStr orgId), (''spentUsd'', JNum (spentUsd status)), (''budgetUsd'', jusd (budgetUsd status)),
           (''remainingUsd'', jusd (remainingUsd status))]"

text \<open>The body of the locked section; \<open>rowId\<close> is the id the outbox row would get.\<close>

definition check_budget :: "string \<Rightarrow> string \<Rightarrow> ms \<Rightarrow> db \<Rightarrow> (thrown, BudgetStatus) result \<times> db" where
  "check_budget rowId orgId now d =
     (case getBudgetStatus orgId now d of
        Inl e \<Rightarrow> (Inl e, d)
      | Inr status \<Rightarrow>
          (case remainingUsd status of
             Some r \<Rightarrow>
               if r \<le> 0 then
                 (case withTenant d orgId (\<lambda>tx. (Inr (), writeOutboxEvent rowId now ''budget.exceeded''
                          (budget_exceeded_payload orgId status) tx)) of
                    (Inl e, d') \<Rightarrow> (Inl e, d')
                  | (Inr _, d') \<Rightarrow> (Inl (ThrownApp (BudgetExceededError r)), d'))
               else (Inr status, d)
           | None \<Rightarrow> (Inr status, d)))"

definition enforceBudget ::
    "('s, 'm) redis_scheme \<Rightarrow> string \<Rightarrow> string \<Rightarrow> string \<Rightarrow> DistributedLockOptions \<Rightarrow> (thrown lock_error, BudgetStatus, 's \<times> db) call" where
  "enforceBudget R token rowId orgId lockOpts now =
     withDistributedLock R token (orgId @ '':'' @ currentPeriodKey now)
       (\<lambda>t (s, d). let (r, d') = check_budget rowId orgId t d in (r, t, s, d')) lockOpts now"

record RecordUsageParams =
  rup_orgId :: string
  rup_apiKeyId :: string
  rup_model :: string
  rup_usage :: UnifiedUsage
  rup_requestId :: string

record RecordUsageResult =
  costUsd :: usd
  recorded :: bool

definition usage_payload :: "RecordUsageParams \<Rightarrow> usd \<Rightarrow> json" where
  "usage_payload params cost =
     JObj [(''orgId'', JStr (rup_orgId params)), (''apiKeyId'', JStr (rup_apiKeyId params)),
           (''model'', JStr (rup_model params)), (''promptTokens'', JNum (promptTokens (rup_usage params))),
           (''completionTokens'', JNum (completionTokens (rup_usage params))), (''costUsd'', JNum cost),
           (''requestId'', JStr (rup_requestId params))]"

text \<open>
  \<^verbatim>\<open>INSERT ... ON CONFLICT (request_id) DO NOTHING\<close>; the unique index spans all organisations. A
  cost that is \<^verbatim>\<open>NaN\<close> cannot be serialised for the column and the statement throws.
\<close>

definition insert_usage :: "RecordUsageParams \<Rightarrow> usd \<Rightarrow> ms \<Rightarrow> db \<Rightarrow> nat \<times> db" where
  "insert_usage params cost now d =
     (if list_ex (\<lambda>r. ur_requestId r = rup_requestId params) (usage_records d) then (0, d)
      else (1, d\<lparr>usage_records := usage_records d @
        [\<lparr>ur_orgId = rup_orgId params, ur_apiKeyId = rup_apiKeyId params, ur_model = rup_model params,
          ur_promptTokens = promptTokens (rup_usage params), ur_completionTokens = completionTokens (rup_usage params),
          ur_costUsd = cost, ur_requestId = rup_requestId params, ur_createdAt = now\<rparr>]\<rparr>))"

definition recordUsageAndOutbox ::
    "string \<Rightarrow> RecordUsageParams \<Rightarrow> ms \<Rightarrow> db \<Rightarrow> (thrown, RecordUsageResult) result \<times> db" where
  "recordUsageAndOutbox rowId params now d =
     (case computeCostUsd (rup_model params) (rup_usage params) of
        None \<Rightarrow> (Inl (ThrownJs ''invalid cost_usd''), d)
      | Some cost \<Rightarrow>
          (case withTenant d (rup_orgId params) (\<lambda>tx.
                  let (affected, tx1) = insert_usage params cost now tx
                  in if affected > 0
                     then (Inr True, writeOutboxEvent rowId now ''usage.recorded'' (usage_payload params cost) tx1)
                     else (Inr False, tx1)) of
             (Inl e, d') \<Rightarrow> (Inl e, d')
           | (Inr rec, d') \<Rightarrow> (Inr \<lparr>costUsd = cost, recorded = rec\<rparr>, d')))"

definition maybePublishBudgetWarning :: "string \<Rightarrow> string \<Rightarrow> BudgetStatus \<Rightarrow> ms \<Rightarrow> db \<Rightarrow> (thrown, unit) result \<times> db" where
  "maybePublishBudgetWarning rowId orgId status now d =
     (if budgetUsd status = None \<or> remainingFraction status \<ge> 1/10 then (Inr (), d)
      else withTenant d orgId (\<lambda>tx. (Inr (), writeOutboxEvent rowId now ''budget.warning''
             (JObj [(''orgId'', JStr orgId), (''spentUsd'', JNum (spentUsd status)), (''budgetUsd'', jusd (budgetUsd status)),
                    (''remainingFraction'', JNum (remainingFraction status))]) tx)))"

section \<open>The lock excludes\<close>

text \<open>
  The interleavings of callers of one lock: the time, the store, the callers inside the locked section
  (token and the end of its lease) and the tokens drawn so far. A caller may take its time to release;
  \<^verbatim>\<open>randomUUID\<close> never repeats a token.
\<close>

type_synonym 's lock_state = "ms \<times> 's \<times> (string \<times> ms) set \<times> string set"

inductive lock_step :: "('s, 'm) redis_scheme \<Rightarrow> string \<Rightarrow> ms \<Rightarrow> 's lock_state \<Rightarrow> 's lock_state \<Rightarrow> bool"
  for R key ttl where
  acquire: "now \<le> t \<Longrightarrow> token \<notin> used \<Longrightarrow> r_set_nx R key (SText token) ttl t s = (True, s') \<Longrightarrow>
    lock_step R key ttl (now, s, H, used) (t, s', insert (token, t + ttl) H, insert token used)"
| contend: "now \<le> t \<Longrightarrow> r_set_nx R key (SText token) ttl t s = (False, s') \<Longrightarrow>
    lock_step R key ttl (now, s, H, used) (t, s', H, insert token used)"
| release: "now \<le> t \<Longrightarrow> (token, lease) \<in> H \<Longrightarrow>
    lock_step R key ttl (now, s, H, used) (t, release_script R key token t s, H - {(token, lease)}, used)"

inductive_cases lock_stepE: "lock_step R key ttl (now, s, H, used) st"

lemmas lock_step_cases = lock_stepE [consumes 1, case_names acquire contend release]

definition lock_inv :: "('s, 'm) redis_scheme \<Rightarrow> string \<Rightarrow> 's lock_state \<Rightarrow> bool" where
  "lock_inv R key st = (case st of (now, s, H, used) \<Rightarrow>
     (\<forall>(token, lease) \<in> H. token \<in> used \<and>
        (\<forall>t. now \<le> t \<and> t < lease \<longrightarrow> r_get R key t s = Some (SText token))) \<and>
     (\<forall>token a b. (token, a) \<in> H \<and> (token, b) \<in> H \<longrightarrow> a = b))"

lemma lock_invD:
  assumes "lock_inv R key (now, s, H, used)" and "(token, lease) \<in> H"
  shows "token \<in> used" and "now \<le> t \<Longrightarrow> t < lease \<Longrightarrow> r_get R key t s = Some (SText token)"
    and "(token, lease') \<in> H \<Longrightarrow> lease' = lease"
  using assms by (auto simp: lock_inv_def)

lemma lock_invI:
  assumes "\<And>token lease. (token, lease) \<in> H \<Longrightarrow> token \<in> used"
    and "\<And>token lease t. (token, lease) \<in> H \<Longrightarrow> now \<le> t \<Longrightarrow> t < lease \<Longrightarrow> r_get R key t s = Some (SText token)"
    and "\<And>token a b. (token, a) \<in> H \<Longrightarrow> (token, b) \<in> H \<Longrightarrow> a = b"
  shows "lock_inv R key (now, s, H, used)"
  unfolding lock_inv_def using assms by blast

context redis_service
begin

lemma release_get:
  "t \<le> t' \<Longrightarrow> r_get R key t' (release_script R key token t s) =
     (if r_get R key t s = Some (SText token) then None else r_get R key t' s)"
  by (simp add: release_script_def get_del)

lemma lock_step_inv:
  assumes "lock_step R key ttl (now, s, H, used) st" and "lock_inv R key (now, s, H, used)"
  shows "lock_inv R key st"
  using assms(1)
proof (cases rule: lock_step_cases)
  note inv = lock_invD [OF assms(2)]
  case (acquire t token s')
  have free: "r_read R key t s = None" and s': "s' = r_set R key (SText token) ttl t s"
    using acquire(4) by (auto simp: r_set_nx_def split: option.splits)
  have "lease \<le> t" if "(tok, lease) \<in> H" for tok lease
    using inv(2) [OF that acquire(2)] free by (force simp: r_get_def)
  moreover have "r_get R key t' s' = Some (SText token)" if "t \<le> t'" "t' < t + ttl" for t'
    using that by (simp add: s' get_set)
  ultimately have get: "r_get R key t' s' = Some (SText tok)"
    if "(tok, l) \<in> insert (token, t + ttl) H" "t \<le> t'" "t' < l" for tok l t'
    using that by force
  show ?thesis
    unfolding acquire(1) by (rule lock_invI) (use inv(1,3) acquire(3) get in blast)+
next
  note inv = lock_invD [OF assms(2)]
  case (contend t token s')
  have "s' = s" using contend(3) by (auto simp: r_set_nx_def split: option.splits)
  moreover have "r_get R key t' s = Some (SText tok)" if "(tok, l) \<in> H" "t \<le> t'" "t' < l" for tok l t'
    by (rule inv(2) [OF that(1) _ that(3)]) (use that(2) contend(2) in linarith)
  ultimately show ?thesis
    unfolding contend(1) by (intro lock_invI) (use inv(1,3) in blast)+
next
  note inv = lock_invD [OF assms(2)]
  case (release t token lease)
  have keep: "r_get R key t' (release_script R key token t s) = Some (SText tok)"
    if "(tok, l) \<in> H" "(tok, l) \<noteq> (token, lease)" "t \<le> t'" "t' < l" for tok l t'
  proof -
    have "tok \<noteq> token" using inv(3) [OF release(3), of l] that(1,2) by auto
    moreover have "r_get R key t s = Some (SText tok)" using inv(2) [OF that(1) release(2)] that(3,4) by simp
    moreover have "r_get R key t' s = Some (SText tok)"
      by (rule inv(2) [OF that(1) _ that(4)]) (use that(3) release(2) in linarith)
    ultimately show ?thesis by (simp add: release_get [OF that(3)])
  qed
  show ?thesis
    unfolding release(1)
  proof (rule lock_invI)
    fix tok l t'
    assume "(tok, l) \<in> H - {(token, lease)}" "t \<le> t'" "t' < l"
    then show "r_get R key t' (release_script R key token t s) = Some (SText tok)"
      using keep [of tok l t'] by blast
  qed (use inv(1,3) in blast)+
qed

lemma lock_reachable_inv:
  assumes "(lock_step R key ttl)\<^sup>*\<^sup>* (t0, s0, {}, {}) st"
  shows "lock_inv R key st"
  using assms proof (induction rule: rtranclp_induct)
  case base
  then show ?case by (simp add: lock_inv_def)
next
  case (step a b)
  then show ?case by (cases a) (blast intro: lock_step_inv)
qed

end



section \<open>Every request is billed once\<close>

text \<open>The payloads of the \<^verbatim>\<open>usage.recorded\<close> events, and those the usage rows would have.\<close>

definition usage_events :: "db \<Rightarrow> json list" where
  "usage_events d = map ob_payload (filter (\<lambda>e. ob_eventType e = ''usage.recorded'') (outbox_events d))"

definition row_payload :: "UsageRecord \<Rightarrow> json" where
  "row_payload r =
     JObj [(''orgId'', JStr (ur_orgId r)), (''apiKeyId'', JStr (ur_apiKeyId r)), (''model'', JStr (ur_model r)),
           (''promptTokens'', JNum (ur_promptTokens r)), (''completionTokens'', JNum (ur_completionTokens r)),
           (''costUsd'', JNum (ur_costUsd r)), (''requestId'', JStr (ur_requestId r))]"

definition billing_ok :: "db \<Rightarrow> bool" where
  "billing_ok d \<longleftrightarrow> distinct (map ur_requestId (usage_records d)) \<and> usage_events d = map row_payload (usage_records d)"

definition billable :: "RecordUsageParams \<Rightarrow> bool" where
  "billable p \<longleftrightarrow> is_uuid (rup_orgId p) \<and> computeCostUsd (rup_model p) (rup_usage p) \<noteq> None"

fun record_all :: "(string \<times> RecordUsageParams \<times> ms) list \<Rightarrow> db \<Rightarrow> db" where
  "record_all [] d = d"
| "record_all ((rowId, p, now) # rs) d = record_all rs (snd (recordUsageAndOutbox rowId p now d))"

lemma recordUsage_duplicate:
  assumes "billable p" and "rup_requestId p \<in> set (map ur_requestId (usage_records d))"
  shows "snd (recordUsageAndOutbox rowId p now d) = d"
  using assms
  by (auto simp: recordUsageAndOutbox_def billable_def withTenant_def insert_usage_def list_ex_iff Let_def)

lemma recordUsage_fresh:
  fixes rowId :: string and now :: ms
  assumes "billable p" and "rup_requestId p \<notin> set (map ur_requestId (usage_records d))"
  defines "d' \<equiv> snd (recordUsageAndOutbox rowId p now d)"
  shows "\<exists>row. usage_records d' = usage_records d @ [row] \<and> ur_requestId row = rup_requestId p
    \<and> ur_orgId row = rup_orgId p \<and> Some (ur_costUsd row) = computeCostUsd (rup_model p) (rup_usage p)
    \<and> usage_events d' = usage_events d @ [row_payload row]"
proof -
  have "\<not> list_ex (\<lambda>r. ur_requestId r = rup_requestId p) (usage_records d)"
    using assms(2) by (force simp: list_ex_iff)
  then show ?thesis
    using assms(1)
    by (auto simp: d'_def recordUsageAndOutbox_def billable_def withTenant_def insert_usage_def Let_def
        writeOutboxEvent_def usage_events_def row_payload_def usage_payload_def)
qed

lemma billing_ok_step:
  fixes rowId :: string and now :: ms
  assumes "billing_ok d" and "billable p"
  defines "d' \<equiv> snd (recordUsageAndOutbox rowId p now d)"
  shows "billing_ok d'" and "map ur_requestId (usage_records d') = map ur_requestId (usage_records d) @
      (if rup_requestId p \<in> set (map ur_requestId (usage_records d)) then [] else [rup_requestId p])"
proof -
  have "billing_ok d' \<and> map ur_requestId (usage_records d') = map ur_requestId (usage_records d) @
      (if rup_requestId p \<in> set (map ur_requestId (usage_records d)) then [] else [rup_requestId p])"
  proof (cases "rup_requestId p \<in> set (map ur_requestId (usage_records d))")
    case True
    then show ?thesis using assms recordUsage_duplicate [OF assms(2) True] by simp
  next
    case False
    from recordUsage_fresh [OF assms(2) False, of rowId now] obtain row where
      "usage_records d' = usage_records d @ [row]" "ur_requestId row = rup_requestId p"
      "usage_events d' = usage_events d @ [row_payload row]"
      unfolding d'_def by blast
    then show ?thesis using assms(1) False by (simp add: billing_ok_def)
  qed
  then show "billing_ok d'" and "map ur_requestId (usage_records d') = map ur_requestId (usage_records d) @
      (if rup_requestId p \<in> set (map ur_requestId (usage_records d)) then [] else [rup_requestId p])"
    by blast+
qed

lemma distinct_by_cong: "set seen = set seen' \<Longrightarrow> distinct_by f seen xs = distinct_by f seen' xs"
proof (induction xs arbitrary: seen seen')
  case (Cons x xs)
  from Cons.prems have "set (f x # seen) = set (f x # seen')" by simp
  from Cons.IH [OF this] Cons.IH [OF Cons.prems] Cons.prems show ?case by simp
qed simp


definition demo_org :: string where
  "demo_org = ''00000000-0000-0000-0000-000000000001''"

lemma is_uuid_demo_org [simp]: "is_uuid demo_org"
  by (simp add: is_uuid_def demo_org_def is_hex_def hex_value_def)

definition demo_usage :: "string \<Rightarrow> RecordUsageParams" where
  "demo_usage req = \<lparr>rup_orgId = demo_org, rup_apiKeyId = ''k'', rup_model = ''gpt-4o'',
     rup_usage = \<lparr>promptTokens = 1000, completionTokens = 200\<rparr>, rup_requestId = req\<rparr>"

lemma billable_demo_usage [simp]: "billable (demo_usage req)"
  by (simp add: billable_def demo_usage_def computeCostUsd_def getModelPricing_def prop_lookup_def PRICING_def)


section \<open>Budget enforcement\<close>

lemma lock_loop_free:
  assumes "redis_service R" and "r_read R key t s = None"
    and "fn t (r_set R key (SText token) (ttlMs opts) t s, d) = (r, t', s2, d')"
  shows "lock_loop R key token fn opts n t (s, d) = (map_sum Inside id r, t', release_script R key token t' s2, d')"
  using assms by (cases n) (simp_all add: r_set_nx_def)

text \<open>
  C23. \<^verbatim>\<open>enforceBudget\<close> on a free lock: a request passes exactly when the month's spend of its
  organisation is below the budget that applies (override, else plan; no budget means no limit) and then
  nothing is written; otherwise it is refused with 402 and exactly one \<^verbatim>\<open>budget.exceeded\<close> event is
  written. Either way the lock is free again afterwards.
\<close>

theorem enforceBudget_verdict:
  assumes "redis_service R" and "is_uuid orgId" and "find_org orgId d = Some org"
    and "r_read R (lockKeyFor (orgId @ '':'' @ currentPeriodKey now)) now s = None" and "0 < ttlMs opts"
  shows "\<exists>r s' d'. enforceBudget R token rowId orgId opts now (s, d) = (r, now, s', d')
    \<and> (\<forall>t \<ge> now. r_read R (lockKeyFor (orgId @ '':'' @ currentPeriodKey now)) t s' = None)
    \<and> (let spent = spent_since orgId (startOfCurrentMonthUtc now) d;
           budget = (case org_budgetOverrideUsd org of Some b \<Rightarrow> Some b
             | None \<Rightarrow> map_option bp_monthlyBudgetUsd (find (\<lambda>p. bp_planTier p = org_plan org) (billing_plans d)))
       in case budget of
            Some b \<Rightarrow>
              if b \<le> spent then
                r = Inl (Inside (ThrownApp (BudgetExceededError (b - spent)))) \<and>
                (\<exists>payload. d' = writeOutboxEvent rowId now ''budget.exceeded'' payload d)
              else (\<exists>st. r = Inr st \<and> remainingUsd st = Some (b - spent)) \<and> d' = d
          | None \<Rightarrow> (\<exists>st. r = Inr st \<and> remainingUsd st = None) \<and> d' = d)"
proof -
  let ?k = "lockKeyFor (orgId @ '':'' @ currentPeriodKey now)"
  let ?s1 = "r_set R ?k (SText token) (ttlMs opts) now s"
  let ?s' = "release_script R ?k token now ?s1"
  obtain r d' where chk: "check_budget rowId orgId now d = (r, d')" by force
  have run: "enforceBudget R token rowId orgId opts now (s, d) = (map_sum Inside id r, now, ?s', d')"
    unfolding enforceBudget_def withDistributedLock_def
    by (rule lock_loop_free [OF assms(1,4)]) (simp add: chk)
  have "r_get R ?k now ?s1 = Some (SText token)"
    using redis_service.get_set [OF assms(1) order_refl, of ?k now ?k] assms(5) by simp
  then have free: "\<forall>t \<ge> now. r_read R ?k t ?s' = None"
    using redis_service.read_del [OF assms(1)] by (simp add: release_script_def)
  show ?thesis
    using run free chk assms(2,3)
    by (auto simp: check_budget_def getBudgetStatus_def withTenant_def Let_def split: option.splits if_splits)
qed

theorem enforceBudget_verdict_witness:
  "fst (enforceBudget mem_redis ''tok'' ''row'' demo_org DEFAULT_LOCK_OPTS 1000
     (mem_empty, empty_db\<lparr>organizations := [\<lparr>org_id = demo_org, org_name = ''o'', org_plan = PRO,
        org_stripeCustomerId = None, org_budgetOverrideUsd = Some 0, org_featureFlags = JNull\<rparr>]\<rparr>))
   = Inl (Inside (ThrownApp (BudgetExceededError 0)))"
  using enforceBudget_verdict [OF mem.redis_service_axioms is_uuid_demo_org, of
      "empty_db\<lparr>organizations := [\<lparr>org_id = demo_org, org_name = ''o'', org_plan = PRO,
        org_stripeCustomerId = None, org_budgetOverrideUsd = Some 0, org_featureFlags = JNull\<rparr>]\<rparr>"
      "\<lparr>org_id = demo_org, org_name = ''o'', org_plan = PRO,
        org_stripeCustomerId = None, org_budgetOverrideUsd = Some 0, org_featureFlags = JNull\<rparr>"
      1000 mem_empty DEFAULT_LOCK_OPTS "''tok''" "''row''"]
  by (auto simp: find_org_def DEFAULT_LOCK_OPTS_def spent_since_def empty_db_def tenant_rows_def)

end
