(* ===== verification/JsNumber.thy ===== *)
theory JsNumber
  imports Json Database
begin

text \<open>
  JavaScript's \<^verbatim>\<open>Number\<close> on JSON values and text, as \<^verbatim>\<open>z.coerce.number()\<close> and the Stripe adapter
  use it. The lemmas show that it reads back what \<^verbatim>\<open>String\<close> prints for a natural number.
\<close>

section \<open>Number(x)\<close>

text \<open>Exact where a double is not, and without the signs of zero and infinity.\<close>

datatype jsnum = NaN | Infinite | Fin rat

definition hex_number :: "string \<Rightarrow> rat option" where
  "hex_number s =
     (if s = [] \<or> \<not> list_all is_hex s then None
      else Some (of_nat (foldl (\<lambda>n c. 16 * n + the (hex_value c)) 0 s)))"

definition js_decimal :: "string \<Rightarrow> jsnum" where
  "js_decimal s =
     (let (i, s1) = json_digits s;
          (f, s2) = (case s1 of c # cs \<Rightarrow> (if c = CHR ''.'' then json_digits cs else ([], s1)) | [] \<Rightarrow> ([], s1))
      in if i = [] \<and> f = [] then NaN
         else
           (case json_exponent s2 of
              Some (e, []) \<Rightarrow> Fin (of_nat (read_nat (i @ f)) * pow10 (e - int (length f)))
            | _ \<Rightarrow> NaN))"

fun js_negate :: "jsnum \<Rightarrow> jsnum" where
  "js_negate (Fin x) = Fin (- x)"
| "js_negate n = n"

definition js_number :: "string \<Rightarrow> jsnum" where
  "js_number raw =
     (let s = trim raw in
      if s = [] then Fin 0
      else if starts_with s ''0x'' \<or> starts_with s ''0X'' then (case hex_number (drop 2 s) of None \<Rightarrow> NaN | Some x \<Rightarrow> Fin x)
      else
        (let (neg, u) = (case s of c # cs \<Rightarrow> if c = CHR ''-'' then (True, cs) else if c = CHR ''+'' then (False, cs) else (False, s)
                         | [] \<Rightarrow> (False, s));
             n = (if u = ''Infinity'' then Infinite else js_decimal u)
         in if neg then js_negate n else n))"

fun coerce_number :: "json \<Rightarrow> jsnum" where
  "coerce_number JNull = Fin 0"
| "coerce_number (JBool b) = Fin (if b then 1 else 0)"
| "coerce_number (JNum x) = Fin x"
| "coerce_number (JStr s) = js_number s"
| "coerce_number (JArr []) = Fin 0"
| "coerce_number (JArr [JBool b]) = NaN"
| "coerce_number (JArr [x]) = coerce_number x"
| "coerce_number (JArr (x # y # xs)) = NaN"
| "coerce_number (JObj kvs) = NaN"

lemma show_nat_not_space: "c \<in> set (show_nat n) \<Longrightarrow> \<not> is_space c"
  using show_nat_digits [of c n] by (auto simp: is_digit_def is_space_def)

lemma json_digits_show_nat: "json_digits (show_nat n) = (show_nat n, [])"
  using show_nat_digits by (auto simp: json_digits_def takeWhile_eq_all_conv dropWhile_eq_Nil_conv)

lemma js_number_show_nat: "js_number (show_nat n) = Fin (of_nat n)"
proof -
  have notin: "c \<notin> set (show_nat n)" if "c \<in> {CHR ''x'', CHR ''X'', CHR ''-'', CHR ''+'', CHR ''I''}" for c
    using that by (intro not_digit_notin_show_nat) (auto simp: is_digit_def)
  obtain c cs where cs: "show_nat n = c # cs" by (cases "show_nat n") auto
  have "trim (show_nat n) = show_nat n"
    by (rule trim_id) (simp_all add: show_nat_not_space [of _ n])
  moreover have "\<not> starts_with (show_nat n) ''0x''" "\<not> starts_with (show_nat n) ''0X''"
    using notin [of "CHR ''x''"] notin [of "CHR ''X''"] by (auto simp: prefix_def)
  moreover have "show_nat n \<noteq> ''Infinity''"
  proof
    assume "show_nat n = ''Infinity''"
    with notin [of "CHR ''I''"] show False by simp
  qed
  moreover have "c \<noteq> CHR ''-''" "c \<noteq> CHR ''+''" using notin [of c] cs by auto
  moreover have "js_decimal (show_nat n) = Fin (of_nat n)"
    by (simp add: js_decimal_def json_digits_show_nat json_exponent_def pow10_def)
  ultimately show ?thesis by (auto simp: js_number_def Let_def cs)
qed

end
