(* ===== verification/Webhooks.thy ===== *)
theory Webhooks
  imports Outbox JsNumber "HOL-Library.Word"
begin

unbundle bit_operations_syntax

text \<open>
  Outbound webhooks, \<^verbatim>\<open>packages/webhooks\<close>: the address guard (\<^verbatim>\<open>ssrf.ts\<close>), signatures
  (\<^verbatim>\<open>hmac.ts\<close>), one delivery attempt (\<^verbatim>\<open>deliver.ts\<close>), endpoints, dispatch and the record of
  attempts (\<^verbatim>\<open>service.ts\<close>), and the delivery worker (\<^verbatim>\<open>queue.ts\<close>). Parameters: the URL parser
  \<open>parse_url\<close> (scheme and host), the IPv6 recogniser \<open>is_v6\<close>, the resolver \<open>dns_lookup\<close>,
  \<open>hmac\<close>, \<open>stringify\<close>, the network and BullMQ's decision to run a job again. Addresses
  are 32-bit words, as the bit operations of the source make them.
\<close>

section \<open>ssrf.ts\<close>

record SsrfCheckResult =
  safe :: bool
  ssrf_reason :: "string option"

text \<open>\<^verbatim>\<open>net.isIP\<close>: a dotted quad of decimal numbers up to 255 without leading zeros is version 4.\<close>

definition is_octet :: "string \<Rightarrow> bool" where
  "is_octet p \<longleftrightarrow> p \<noteq> [] \<and> length p \<le> 3 \<and> list_all is_digit p \<and> (length p > 1 \<longrightarrow> hd p \<noteq> CHR ''0'') \<and> read_nat p \<le> 255"

definition is_v4 :: "string \<Rightarrow> bool" where
  "is_v4 s \<longleftrightarrow> length (split_on (CHR ''.'') s) = 4 \<and> list_all is_octet (split_on (CHR ''.'') s)"

definition ipv4ToInt :: "string \<Rightarrow> 32 word" where
  "ipv4ToInt ip =
     (let parts = map (\<lambda>p. word_of_nat (read_nat p)) (split_on (CHR ''.'') ip)
      in (push_bit 24 (parts ! 0) OR push_bit 16 (parts ! 1)) OR (push_bit 8 (parts ! 2) OR (parts ! 3)))"

definition inCidr :: "32 word \<Rightarrow> string \<Rightarrow> nat \<Rightarrow> bool" where
  "inCidr address base bits =
     (let baseInt = ipv4ToInt base;
          m = (if bits = 0 then 0 else push_bit (32 - bits) (- 1))
      in (address AND m) = (baseInt AND m))"

definition blocked_ranges :: "(string \<times> nat) list" where
  "blocked_ranges =
     [(''10.0.0.0'', 8), (''172.16.0.0'', 12), (''192.168.0.0'', 16), (''127.0.0.0'', 8), (''169.254.0.0'', 16),
      (''0.0.0.0'', 8), (''100.64.0.0'', 10), (''224.0.0.0'', 4)]"

definition isSafeIPv4 :: "string \<Rightarrow> bool" where
  "isSafeIPv4 address =
     (let i = ipv4ToInt address in \<not> list_ex (\<lambda>(base, bits). inCidr i base bits) blocked_ranges)"

definition is_lower_hex :: "char \<Rightarrow> bool" where
  "is_lower_hex c \<longleftrightarrow> is_digit c \<or> (97 \<le> (of_char c :: nat) \<and> (of_char c :: nat) \<le> 102)"

definition hex_group :: "string \<Rightarrow> bool" where
  "hex_group g \<longleftrightarrow> 1 \<le> length g \<and> length g \<le> 4 \<and> list_all is_lower_hex g"

definition parse_hex :: "string \<Rightarrow> nat" where
  "parse_hex = foldl (\<lambda>n c. 16 * n + (case hex_value c of None \<Rightarrow> 0 | Some v \<Rightarrow> v)) 0"

definition decimal_run :: "string \<Rightarrow> bool" where
  "decimal_run p \<longleftrightarrow> p \<noteq> [] \<and> list_all is_digit p"

definition unwrapIPv4Mapped :: "string \<Rightarrow> string option" where
  "unwrapIPv4Mapped normalized =
     (if \<not> starts_with normalized ''::ffff:'' then None
      else
        (let rest = drop 7 normalized;
             dots = split_on (CHR ''.'') rest;
             groups = split_on (CHR '':'') rest
         in if length dots = 4 \<and> list_all decimal_run dots then Some rest
            else if length groups = 2 \<and> list_all hex_group groups then
              (let high = parse_hex (groups ! 0); low = parse_hex (groups ! 1)
               in Some (join_with ''.'' (map show_nat
                    [high div 256 mod 256, high mod 256, low div 256 mod 256, low mod 256])))
            else None))"

definition lower_case :: "string \<Rightarrow> string" where
  "lower_case s = map (\<lambda>c. let n = (of_char c :: nat) in if 65 \<le> n \<and> n \<le> 90 then char_of (n + 32) else c) s"

definition isSafeIPv6 :: "string \<Rightarrow> bool" where
  "isSafeIPv6 address =
     (let normalized = lower_case address
      in case unwrapIPv4Mapped normalized of
           Some mapped \<Rightarrow> isSafeIPv4 mapped
         | None \<Rightarrow>
             if normalized = ''::1'' \<or> normalized = ''::'' then False
             else if starts_with normalized ''fe8'' \<or> starts_with normalized ''fe9'' then False
             else if starts_with normalized ''fea'' \<or> starts_with normalized ''feb'' then False
             else if starts_with normalized ''fc'' \<or> starts_with normalized ''fd'' then False
             else True)"

definition checkAddress :: "(string \<Rightarrow> bool) \<Rightarrow> string \<Rightarrow> bool" where
  "checkAddress is_v6 address =
     (if is_v4 address then isSafeIPv4 address else if is_v6 address then isSafeIPv6 address else False)"

definition unsafeReason :: "string \<Rightarrow> string" where
  "unsafeReason address = ''resolves to a disallowed address ('' @ address @ '')''"

definition strip_brackets :: "string \<Rightarrow> string" where
  "strip_brackets h =
     (let h1 = (if h \<noteq> [] \<and> hd h = CHR ''['' then tl h else h)
      in if h1 \<noteq> [] \<and> last h1 = CHR '']'' then butlast h1 else h1)"

definition unsafe :: "string \<Rightarrow> SsrfCheckResult" where
  "unsafe r = \<lparr>safe = False, ssrf_reason = Some r\<rparr>"

text \<open>A resolver error is \<open>None\<close>.\<close>

definition isSafeWebhookTarget ::
    "(string \<Rightarrow> (string \<times> string) option) \<Rightarrow> (string \<Rightarrow> bool) \<Rightarrow> (string \<Rightarrow> string list option) \<Rightarrow> string \<Rightarrow> SsrfCheckResult" where
  "isSafeWebhookTarget parse_url is_v6 dns_lookup rawUrl =
     (case parse_url rawUrl of
        None \<Rightarrow> unsafe ''not a valid URL''
      | Some (protocol, host) \<Rightarrow>
          if protocol \<noteq> ''https:'' then unsafe ''only https URLs are allowed''
          else
            (let hostname = strip_brackets host
             in if is_v4 hostname \<or> is_v6 hostname then
                  (if checkAddress is_v6 hostname then \<lparr>safe = True, ssrf_reason = None\<rparr>
                   else unsafe (unsafeReason hostname))
                else
                  (case dns_lookup hostname of
                     None \<Rightarrow> unsafe ''hostname does not resolve''
                   | Some [] \<Rightarrow> unsafe ''hostname does not resolve''
                   | Some addresses \<Rightarrow>
                       (case find (\<lambda>a. \<not> checkAddress is_v6 a) addresses of
                          Some a \<Rightarrow> unsafe (unsafeReason a)
                        | None \<Rightarrow> \<lparr>safe = True, ssrf_reason = None\<rparr>))))"

section \<open>hmac.ts\<close>

definition generateWebhookSecret :: "string \<Rightarrow> string" where
  "generateWebhookSecret random = ''whsec_'' @ random"

definition signWebhookPayload :: "(string \<Rightarrow> string \<Rightarrow> string) \<Rightarrow> string \<Rightarrow> string \<Rightarrow> string" where
  "signWebhookPayload hmac rawBody secret = hmac secret rawBody"

text \<open>\<^verbatim>\<open>Buffer.from(s, 'hex')\<close> decodes pairs up to the first that is not hexadecimal.\<close>

fun hex_bytes :: "string \<Rightarrow> nat list" where
  "hex_bytes (a # b # cs) =
     (case (hex_value a, hex_value b) of (Some x, Some y) \<Rightarrow> (16 * x + y) # hex_bytes cs | _ \<Rightarrow> [])"
| "hex_bytes _ = []"

definition verifyWebhookSignature :: "(string \<Rightarrow> string \<Rightarrow> string) \<Rightarrow> string \<Rightarrow> string \<Rightarrow> string \<Rightarrow> bool" where
  "verifyWebhookSignature hmac rawBody secret signature =
     (let expectedBuf = hex_bytes (signWebhookPayload hmac rawBody secret); actualBuf = hex_bytes signature
      in length expectedBuf = length actualBuf \<and> expectedBuf = actualBuf)"

section \<open>types.ts\<close>

definition WEBHOOK_RETRY_SCHEDULE_MS :: "ms list" where
  "WEBHOOK_RETRY_SCHEDULE_MS = [1000, 5000, 30000, 5 * 60000, 30 * 60000]"

definition WEBHOOK_MAX_ATTEMPTS :: nat where
  "WEBHOOK_MAX_ATTEMPTS = length WEBHOOK_RETRY_SCHEDULE_MS + 1"

record WebhookJobData =
  wj_deliveryId :: string
  wj_orgId :: string
  wj_endpointId :: string
  wj_eventId :: string
  wj_url :: string
  wj_secret :: string
  wj_eventType :: string
  wj_payload :: json

definition WEBHOOK_EVENT_TYPES :: "string list" where
  "WEBHOOK_EVENT_TYPES =
     [''job.completed'', ''job.failed'', ''budget.warning'', ''budget.exceeded'', ''api_key.created'',
      ''api_key.revoked'', ''request.rate_limited'', ''provider.degraded'']"

definition isWebhookEventType :: "json option \<Rightarrow> bool" where
  "isWebhookEventType v = (case as_string v of None \<Rightarrow> False | Some s \<Rightarrow> s \<in> set WEBHOOK_EVENT_TYPES)"

section \<open>deliver.ts\<close>

datatype DeliveryOutcome = Delivered | Rejected | Retry

record DeliveryAttemptResult =
  outcome :: DeliveryOutcome
  da_responseStatus :: "int option"
  da_responseBody :: "string option"
  da_errorMessage :: "string option"

definition RESPONSE_BODY_MAX_LENGTH :: nat where
  "RESPONSE_BODY_MAX_LENGTH = 2000"

text \<open>The POST as the receiver sees it, and what comes back: an error message or status and text.\<close>

record delivery_request =
  dq_url :: string
  dq_headers :: "(string \<times> string) list"
  dq_body :: string

type_synonym delivery_net = "delivery_request \<Rightarrow> (string, int \<times> string) result"

definition sendAndClassify ::
    "(string \<Rightarrow> string \<Rightarrow> string) \<Rightarrow> (json \<Rightarrow> string) \<Rightarrow> delivery_net \<Rightarrow> string \<Rightarrow> WebhookJobData \<Rightarrow> DeliveryAttemptResult" where
  "sendAndClassify hmac stringify net timestamp job =
     (let body = stringify (JObj [(''event'', JStr (wj_eventType job)), (''data'', wj_payload job), (''timestamp'', JStr timestamp)]);
          signature = signWebhookPayload hmac body (wj_secret job)
      in case net \<lparr>dq_url = wj_url job,
                   dq_headers = [(''Content-Type'', ''application/json''), (''X-CloudMesh-Signature'', signature)],
                   dq_body = body\<rparr> of
           Inl err \<Rightarrow> \<lparr>outcome = Retry, da_responseStatus = None, da_responseBody = None, da_errorMessage = Some err\<rparr>
         | Inr (status, text) \<Rightarrow>
             (let responseBody = take RESPONSE_BODY_MAX_LENGTH text
              in if 200 \<le> status \<and> status < 300 then
                   \<lparr>outcome = Delivered, da_responseStatus = Some status, da_responseBody = Some responseBody, da_errorMessage = None\<rparr>
                 else if 300 \<le> status \<and> status < 400 then
                   \<lparr>outcome = Rejected, da_responseStatus = Some status, da_responseBody = Some responseBody,
                    da_errorMessage = Some ''redirect response - not followed, not retried''\<rparr>
                 else if 400 \<le> status \<and> status < 500 then
                   \<lparr>outcome = Rejected, da_responseStatus = Some status, da_responseBody = Some responseBody, da_errorMessage = None\<rparr>
                 else
                   \<lparr>outcome = Retry, da_responseStatus = Some status, da_responseBody = Some responseBody, da_errorMessage = None\<rparr>))"

definition attemptDelivery ::
    "(string \<Rightarrow> SsrfCheckResult) \<Rightarrow> (WebhookJobData \<Rightarrow> DeliveryAttemptResult) \<Rightarrow> WebhookJobData \<Rightarrow> DeliveryAttemptResult" where
  "attemptDelivery checkTarget send job =
     (let ssrf = checkTarget (wj_url job)
      in if \<not> safe ssrf then
           \<lparr>outcome = Rejected, da_responseStatus = None, da_responseBody = None,
            da_errorMessage = Some (''blocked by SSRF guard: '' @ (case ssrf_reason ssrf of None \<Rightarrow> ''undefined'' | Some r \<Rightarrow> r))\<rparr>
         else send job)"

section \<open>service.ts\<close>

definition UnsafeWebhookUrlError :: "string option \<Rightarrow> thrown" where
  "UnsafeWebhookUrlError r =
     ThrownJs (''Webhook URL failed the SSRF safety check'' @
       (case r of None \<Rightarrow> [] | Some m \<Rightarrow> if m = [] then [] else '': '' @ m))"

record RegisteredWebhook =
  rw_id :: string
  rw_url :: string
  rw_eventTypes :: "string list"
  rw_secret :: string

definition registerWebhookEndpoint ::
    "(string \<Rightarrow> SsrfCheckResult) \<Rightarrow> string \<Rightarrow> ms \<Rightarrow> string \<Rightarrow> string \<Rightarrow> string \<Rightarrow> string list \<Rightarrow> db
      \<Rightarrow> (thrown, RegisteredWebhook) result \<times> db" where
  "registerWebhookEndpoint checkTarget rowId now random orgId url eventTypes d =
     (let check = checkTarget url
      in if \<not> safe check then (Inl (UnsafeWebhookUrlError (ssrf_reason check)), d)
         else
           (let secret = generateWebhookSecret random;
                endpoint = \<lparr>we_id = rowId, we_orgId = orgId, we_url = url, we_secret = secret, we_eventTypes = eventTypes,
                            we_isActive = True, we_createdAt = now\<rparr>
            in case withTenant d orgId (\<lambda>tx. (Inr (), tx\<lparr>webhook_endpoints := webhook_endpoints tx @ [endpoint]\<rparr>)) of
                 (Inl e, d') \<Rightarrow> (Inl e, d')
               | (Inr _, d') \<Rightarrow>
                   (Inr \<lparr>rw_id = rowId, rw_url = url, rw_eventTypes = eventTypes, rw_secret = secret\<rparr>, d')))"

text \<open>The columns \<^verbatim>\<open>listWebhookEndpoints\<close> selects; the secret is not one of them.\<close>

record endpoint_listing =
  el_id :: string
  el_url :: string
  el_eventTypes :: "string list"
  el_isActive :: bool
  el_createdAt :: ms

definition listWebhookEndpoints :: "db \<Rightarrow> string \<Rightarrow> (thrown, endpoint_listing list) result" where
  "listWebhookEndpoints d orgId =
     fst (withTenant d orgId (\<lambda>tx. (Inr (map (\<lambda>e. \<lparr>el_id = we_id e, el_url = we_url e, el_eventTypes = we_eventTypes e,
         el_isActive = we_isActive e, el_createdAt = we_createdAt e\<rparr>)
       (sort_key (\<lambda>e. - we_createdAt e) (tenant_rows we_orgId orgId (webhook_endpoints tx)))), tx)))"

text \<open>The deliveries of a deleted endpoint go with it (\<^verbatim>\<open>onDelete: Cascade\<close>).\<close>

definition deleteWebhookEndpoint :: "string \<Rightarrow> string \<Rightarrow> db \<Rightarrow> (thrown, bool) result \<times> db" where
  "deleteWebhookEndpoint orgId endpointId d =
     withTenant d orgId (\<lambda>tx.
       let gone = (\<lambda>e. we_orgId e = orgId \<and> we_id e = endpointId);
           count = length (filter gone (webhook_endpoints tx))
       in (Inr (count > 0),
           if count > 0 then
             tx\<lparr>webhook_endpoints := filter (\<lambda>e. \<not> gone e) (webhook_endpoints tx),
                webhook_deliveries := filter (\<lambda>w. wd_endpointId w \<noteq> endpointId) (webhook_deliveries tx)\<rparr>
           else tx))"

text \<open>
  What \<^verbatim>\<open>take\<close> does with a number is Prisma's, the parameter \<open>take_rows\<close>: a negative one counts from the
  end, a fraction and \<^verbatim>\<open>NaN\<close> are refused. The event of a row is read in the same transaction.
\<close>

definition js_min :: "jsnum \<Rightarrow> rat \<Rightarrow> jsnum" where
  "js_min n m = (case n of NaN \<Rightarrow> NaN | Infinite \<Rightarrow> Fin m | Fin x \<Rightarrow> Fin (min x m))"

definition listWebhookDeliveries ::
    "(jsnum \<Rightarrow> WebhookDelivery list \<Rightarrow> (thrown, WebhookDelivery list) result) \<Rightarrow> db \<Rightarrow> string \<Rightarrow> string \<Rightarrow> jsnum option
      \<Rightarrow> (thrown, (WebhookDelivery \<times> WebhookEvent option) list) result" where
  "listWebhookDeliveries take_rows d orgId endpointId limit =
     fst (withTenant d orgId (\<lambda>tx.
       (result_bind (take_rows (js_min (case limit of None \<Rightarrow> Fin 50 | Some n \<Rightarrow> n) 200) (sort_key (\<lambda>w. - wd_createdAt w)
            (filter (\<lambda>w. wd_endpointId w = endpointId) (tenant_rows wd_orgId orgId (webhook_deliveries tx)))))
          (\<lambda>rows. Inr (map (\<lambda>w. (w, find (\<lambda>v. wev_id v = wd_eventId w) (tenant_rows wev_orgId orgId (webhook_events tx)))) rows)),
        tx)))"

text \<open>The options of \<^verbatim>\<open>queue.add\<close> are the same for every job; the queue is the list of added jobs.\<close>

record DispatchResult =
  dr_eventId :: string
  dr_deliveryCount :: nat

definition subscribed :: "string \<Rightarrow> string \<Rightarrow> db \<Rightarrow> WebhookEndpoint list" where
  "subscribed orgId eventType d =
     filter (\<lambda>e. we_isActive e \<and> eventType \<in> set (we_eventTypes e)) (tenant_rows we_orgId orgId (webhook_endpoints d))"

definition new_delivery :: "string \<Rightarrow> string \<Rightarrow> string \<Rightarrow> string \<Rightarrow> ms \<Rightarrow> WebhookDelivery" where
  "new_delivery i orgId endpointId eventId now =
     \<lparr>wd_id = i, wd_orgId = orgId, wd_endpointId = endpointId, wd_eventId = eventId, wd_status = WH_PENDING, wd_attempts = 0,
      wd_responseStatus = None, wd_responseBody = None, wd_lastAttemptAt = None, wd_createdAt = now\<rparr>"

definition webhook_job :: "string \<Rightarrow> string \<Rightarrow> string \<Rightarrow> string \<Rightarrow> json \<Rightarrow> WebhookEndpoint \<Rightarrow> WebhookJobData" where
  "webhook_job deliveryId orgId eventId eventType payload endpoint =
     \<lparr>wj_deliveryId = deliveryId, wj_orgId = orgId, wj_endpointId = we_id endpoint, wj_eventId = eventId,
      wj_url = we_url endpoint, wj_secret = we_secret endpoint, wj_eventType = eventType, wj_payload = payload\<rparr>"

fun dispatch_loop ::
    "(nat \<Rightarrow> string) \<Rightarrow> nat \<Rightarrow> ms \<Rightarrow> string \<Rightarrow> string \<Rightarrow> string \<Rightarrow> json \<Rightarrow> WebhookEndpoint list \<Rightarrow> WebhookJobData list \<times> db
      \<Rightarrow> WebhookJobData list \<times> db" where
  "dispatch_loop newId n now orgId eventId eventType payload [] (q, d) = (q, d)"
| "dispatch_loop newId n now orgId eventId eventType payload (endpoint # es) (q, d) =
     dispatch_loop newId (Suc n) now orgId eventId eventType payload es
       (q @ [webhook_job (newId n) orgId eventId eventType payload endpoint],
        d\<lparr>webhook_deliveries := webhook_deliveries d @ [new_delivery (newId n) orgId (we_id endpoint) eventId now]\<rparr>)"

definition dispatchWebhookEvent ::
    "(nat \<Rightarrow> string) \<Rightarrow> ms \<Rightarrow> string \<Rightarrow> string \<Rightarrow> json \<Rightarrow> WebhookJobData list \<Rightarrow> db
      \<Rightarrow> (thrown, DispatchResult) result \<times> WebhookJobData list \<times> db" where
  "dispatchWebhookEvent newId now orgId eventType payload q d =
     (case withTenant d orgId (\<lambda>tx. (Inr (), tx\<lparr>webhook_events := webhook_events tx @
              [\<lparr>wev_id = newId 0, wev_orgId = orgId, wev_eventType = eventType, wev_payload = payload, wev_createdAt = now\<rparr>]\<rparr>)) of
        (Inl e, d1) \<Rightarrow> (Inl e, q, d1)
      | (Inr _, d1) \<Rightarrow>
          (let endpoints = subscribed orgId eventType d1;
               (q', d') = dispatch_loop newId 1 now orgId (newId 0) eventType payload endpoints (q, d1)
           in (Inr \<lparr>dr_eventId = newId 0, dr_deliveryCount = length endpoints\<rparr>, q', d')))"

definition delivery_status :: "DeliveryOutcome \<Rightarrow> bool \<Rightarrow> WebhookDeliveryStatus" where
  "delivery_status out isFinalAttempt =
     (case out of Delivered \<Rightarrow> WH_DELIVERED | Rejected \<Rightarrow> WH_FAILED
      | Retry \<Rightarrow> if isFinalAttempt then WH_EXHAUSTED else WH_PENDING)"

text \<open>A field that is \<^verbatim>\<open>undefined\<close> leaves its column as it is.\<close>

definition or_keep :: "'a option \<Rightarrow> 'a option \<Rightarrow> 'a option" where
  "or_keep v old = (case v of None \<Rightarrow> old | Some x \<Rightarrow> Some x)"

definition recordDeliveryAttempt ::
    "string \<Rightarrow> string \<Rightarrow> int \<Rightarrow> DeliveryAttemptResult \<Rightarrow> bool \<Rightarrow> ms \<Rightarrow> db \<Rightarrow> (thrown, unit) result \<times> db" where
  "recordDeliveryAttempt orgId deliveryId attempt res isFinalAttempt now d =
     withTenant d orgId (\<lambda>tx.
       (Inr (), tx\<lparr>webhook_deliveries := tenant_update wd_orgId orgId (\<lambda>w. wd_id w = deliveryId)
          (\<lambda>w. w\<lparr>wd_status := delivery_status (outcome res) isFinalAttempt, wd_attempts := attempt,
                 wd_responseStatus := or_keep (da_responseStatus res) (wd_responseStatus w),
                 wd_responseBody := or_keep (da_responseBody res) (wd_responseBody w),
                 wd_lastAttemptAt := Some now\<rparr>)
          (webhook_deliveries tx)\<rparr>))"

section \<open>queue.ts\<close>

definition makeBackoffStrategy :: "ms list \<Rightarrow> nat \<Rightarrow> ms" where
  "makeBackoffStrategy schedule attemptsMade =
     (if attemptsMade < length schedule then schedule ! attemptsMade else last schedule)"

text \<open>
  The processor for one attempt: \<open>Inr\<close> when it resolves, \<open>Inl\<close> with the message when it throws
  (a failed database write throws as well); and the \<^verbatim>\<open>failed\<close> listener, which sees the attempts
  made including the one that just failed.
\<close>

definition thrown_text :: "thrown \<Rightarrow> string" where
  "thrown_text e = (case e of ThrownApp a \<Rightarrow> message a | ThrownJs m \<Rightarrow> m)"

definition webhook_processor ::
    "(WebhookJobData \<Rightarrow> DeliveryAttemptResult) \<Rightarrow> nat \<Rightarrow> ms \<Rightarrow> WebhookJobData \<Rightarrow> db \<Rightarrow> (string, unit) result \<times> db" where
  "webhook_processor attemptDelivery' attemptsMade now job d =
     (let res = attemptDelivery' job; attempt = int attemptsMade + 1
      in if outcome res = Retry then
           (case recordDeliveryAttempt (wj_orgId job) (wj_deliveryId job) attempt res False now d of
              (Inl e, d') \<Rightarrow> (Inl (thrown_text e), d')
            | (Inr _, d') \<Rightarrow>
                (Inl (case da_errorMessage res of None \<Rightarrow> ''delivery failed, retrying'' | Some m \<Rightarrow> m), d'))
         else
           (case recordDeliveryAttempt (wj_orgId job) (wj_deliveryId job) attempt res True now d of
              (Inl e, d') \<Rightarrow> (Inl (thrown_text e), d')
            | (Inr _, d') \<Rightarrow> (Inr (), d')))"

definition on_failed :: "nat \<Rightarrow> string \<Rightarrow> ms \<Rightarrow> WebhookJobData \<Rightarrow> db \<Rightarrow> db" where
  "on_failed attemptsMade err now job d =
     (if attemptsMade < WEBHOOK_MAX_ATTEMPTS then d
      else snd (recordDeliveryAttempt (wj_orgId job) (wj_deliveryId job) (int attemptsMade)
             \<lparr>outcome = Retry, da_responseStatus = None, da_responseBody = None, da_errorMessage = Some err\<rparr> True now d))"

text \<open>
  BullMQ runs a job again after a throw while its \<^verbatim>\<open>attempts\<close> option allows it. \<open>results\<close> are the
  outcomes of the attempts in order (the world may differ at every attempt), each with its time;
  the run stops when the list ends, when the processor resolves or when no attempt is left.
\<close>

fun delivery_series :: "nat \<Rightarrow> WebhookJobData \<Rightarrow> (DeliveryAttemptResult \<times> ms) list \<Rightarrow> db \<Rightarrow> nat \<times> db" where
  "delivery_series made job [] d = (made, d)"
| "delivery_series made job ((res, now) # results) d =
     (if made \<ge> WEBHOOK_MAX_ATTEMPTS then (made, d)
      else
        (case webhook_processor (\<lambda>_. res) made now job d of
           (Inr _, d') \<Rightarrow> (Suc made, d')
         | (Inl err, d') \<Rightarrow> delivery_series (Suc made) job results (on_failed (Suc made) err now job d')))"

section \<open>The address guard\<close>

text \<open>A CIDR match is equality of the leading bits; addresses are computed as numbers.\<close>

lemma cidr_drop_bit:
  fixes a b :: "32 word"
  shows "(a AND push_bit n (- 1)) = (b AND push_bit n (- 1)) \<longleftrightarrow> drop_bit n a = drop_bit n b"
proof
  assume eq: "(a AND push_bit n (- 1)) = (b AND push_bit n (- 1))"
  have "bit (drop_bit n a) k = bit (drop_bit n b) k" for k
    using arg_cong [OF eq, of "\<lambda>w. bit w (n + k)"] bit_imp_le_length [of a "n + k"] bit_imp_le_length [of b "n + k"]
    by (auto simp: bit_simps)
  then show "drop_bit n a = drop_bit n b" by (intro bit_word_eqI) simp
next
  assume eq: "drop_bit n a = drop_bit n b"
  have "bit a k = bit b k" if "n \<le> k" for k
    using arg_cong [OF eq, of "\<lambda>w. bit w (k - n)"] that by (simp add: bit_simps)
  then show "(a AND push_bit n (- 1)) = (b AND push_bit n (- 1))"
    by (intro bit_word_eqI) (auto simp: bit_simps)
qed

lemma or_push_bit_nat: "y < 2 ^ n \<Longrightarrow> push_bit n x OR y = x * 2 ^ n + (y::nat)"
proof -
  assume y: "y < 2 ^ n"
  have "push_bit n x AND y = 0"
  proof (rule bit_eqI)
    fix k
    have "\<not> bit y k" if "n \<le> k"
    proof -
      have "y < 2 ^ k" by (rule less_le_trans [OF y power_increasing [OF that]]) simp
      then show ?thesis by (simp add: bit_iff_odd)
    qed
    then show "bit (push_bit n x AND y) k = bit (0::nat) k" by (auto simp: bit_simps)
  qed
  then show ?thesis by (metis disjunctive_add_eq_or push_bit_eq_mult)
qed

definition dotted :: "nat \<Rightarrow> nat \<Rightarrow> nat \<Rightarrow> nat \<Rightarrow> string" where
  "dotted a b c d = join_with ''.'' (map show_nat [a, b, c, d])"

lemma dot_notin_show_nat [simp]: "CHR ''.'' \<notin> set (show_nat n)"
  by (rule not_digit_notin_show_nat) (simp add: is_digit_def)

lemma split_dotted [simp]: "split_on (CHR ''.'') (dotted a b c d) = map show_nat [a, b, c, d]"
  unfolding dotted_def by (rule split_on_join_with) auto

definition addr :: "nat \<Rightarrow> nat \<Rightarrow> nat \<Rightarrow> nat \<Rightarrow> nat" where
  "addr a b c d = a * 2 ^ 24 + b * 2 ^ 16 + c * 2 ^ 8 + d"

lemma unat_ipv4ToInt:
  assumes "a < 256" "b < 256" "c < 256" "d < 256"
  shows "unat (ipv4ToInt (dotted a b c d)) = addr a b c d"
proof -
  have t: "take_bit 32 (push_bit n x) = push_bit n x" if "x < 256" "n \<le> 24" for x n :: nat
  proof -
    have "x * 2 ^ n < 2 ^ 8 * 2 ^ 24"
      using that power_increasing [of n 24 "2::nat"] by (intro mult_less_le_imp_less) auto
    then show ?thesis by (simp add: take_bit_eq_mod push_bit_eq_mult)
  qed
  have small: "unat (word_of_nat x :: 32 word) = x" if "x < 256" for x
    using that by (simp add: unat_of_nat)
  have low: "push_bit 8 c OR d = c * 256 + d" "push_bit 16 b OR (c * 256 + d) = b * 65536 + (c * 256 + d)"
    "push_bit 24 a OR (b * 65536 + (c * 256 + d)) = a * 16777216 + (b * 65536 + (c * 256 + d))"
    using assms or_push_bit_nat [of d 8 c] or_push_bit_nat [of "c * 256 + d" 16 b]
      or_push_bit_nat [of "b * 65536 + (c * 256 + d)" 24 a] by simp_all
  show ?thesis
    using assms by (simp add: ipv4ToInt_def unsigned_or_eq unsigned_push_bit_eq t small or.assoc low addr_def
        del: push_bit_numeral)
qed

definition private_ipv4 :: "nat \<Rightarrow> nat \<Rightarrow> bool" where
  "private_ipv4 a b \<longleftrightarrow> a = 0 \<or> a = 10 \<or> a = 127 \<or> (a = 100 \<and> 64 \<le> b \<and> b \<le> 127) \<or> (a = 169 \<and> b = 254)
     \<or> (a = 172 \<and> 16 \<le> b \<and> b \<le> 31) \<or> (a = 192 \<and> b = 168) \<or> (224 \<le> a \<and> a \<le> 239)"

lemma inCidr_div:
  assumes "0 < bits" "bits \<le> 32"
  shows "inCidr w base bits \<longleftrightarrow> unat w div 2 ^ (32 - bits) = unat (ipv4ToInt base) div 2 ^ (32 - bits)"
proof -
  have "inCidr w base bits \<longleftrightarrow> drop_bit (32 - bits) w = drop_bit (32 - bits) (ipv4ToInt base)"
    using assms cidr_drop_bit [of w "32 - bits" "ipv4ToInt base"] by (simp add: inCidr_def Let_def)
  also have "\<dots> \<longleftrightarrow> drop_bit (32 - bits) (unat w) = drop_bit (32 - bits) (unat (ipv4ToInt base))"
    by (simp only: word_unat_eq_iff unat_drop_bit_eq)
  finally show ?thesis by (simp add: drop_bit_eq_div)
qed

lemma base_dotted:
  "''10.0.0.0'' = dotted 10 0 0 0" "''172.16.0.0'' = dotted 172 16 0 0" "''192.168.0.0'' = dotted 192 168 0 0"
  "''127.0.0.0'' = dotted 127 0 0 0" "''169.254.0.0'' = dotted 169 254 0 0" "''0.0.0.0'' = dotted 0 0 0 0"
  "''100.64.0.0'' = dotted 100 64 0 0" "''224.0.0.0'' = dotted 224 0 0 0"
  by code_simp+

lemma base_addr:
  "unat (ipv4ToInt ''10.0.0.0'') = addr 10 0 0 0" "unat (ipv4ToInt ''172.16.0.0'') = addr 172 16 0 0"
  "unat (ipv4ToInt ''192.168.0.0'') = addr 192 168 0 0" "unat (ipv4ToInt ''127.0.0.0'') = addr 127 0 0 0"
  "unat (ipv4ToInt ''169.254.0.0'') = addr 169 254 0 0" "unat (ipv4ToInt ''0.0.0.0'') = addr 0 0 0 0"
  "unat (ipv4ToInt ''100.64.0.0'') = addr 100 64 0 0" "unat (ipv4ToInt ''224.0.0.0'') = addr 224 0 0 0"
  using unat_ipv4ToInt [of 10 0 0 0] unat_ipv4ToInt [of 172 16 0 0] unat_ipv4ToInt [of 192 168 0 0]
    unat_ipv4ToInt [of 127 0 0 0] unat_ipv4ToInt [of 169 254 0 0] unat_ipv4ToInt [of 0 0 0 0]
    unat_ipv4ToInt [of 100 64 0 0] unat_ipv4ToInt [of 224 0 0 0] by (simp_all flip: base_dotted)

lemma in_range:
  assumes "a < 256" "b < 256" "c < 256" "d < 256"
  defines "w \<equiv> ipv4ToInt (dotted a b c d)"
  shows "inCidr w ''10.0.0.0'' 8 \<longleftrightarrow> a = 10" "inCidr w ''127.0.0.0'' 8 \<longleftrightarrow> a = 127" "inCidr w ''0.0.0.0'' 8 \<longleftrightarrow> a = 0"
    "inCidr w ''172.16.0.0'' 12 \<longleftrightarrow> a = 172 \<and> 16 \<le> b \<and> b \<le> 31"
    "inCidr w ''192.168.0.0'' 16 \<longleftrightarrow> a = 192 \<and> b = 168"
    "inCidr w ''169.254.0.0'' 16 \<longleftrightarrow> a = 169 \<and> b = 254"
    "inCidr w ''100.64.0.0'' 10 \<longleftrightarrow> a = 100 \<and> 64 \<le> b \<and> b \<le> 127"
    "inCidr w ''224.0.0.0'' 4 \<longleftrightarrow> 224 \<le> a \<and> a \<le> 239"
proof -
  have low: "b * 65536 + c * 256 + d < 16777216" "c * 256 + d < 65536" using assms by simp_all
  have top: "addr a b c d div 16777216 = a" "addr a b c d div 65536 = a * 256 + b"
    using low by (simp_all add: addr_def)
  have split: "(a * 256 + b) div 16 = a * 16 + b div 16" "(a * 256 + b) div 64 = a * 4 + b div 64" by arith+
  have mid: "addr a b c d div 1048576 = a * 16 + b div 16" "addr a b c d div 4194304 = a * 4 + b div 64"
     "addr a b c d div 268435456 = a div 16"
    using div_mult2_eq [of "addr a b c d" 65536 16] div_mult2_eq [of "addr a b c d" 65536 64]
      div_mult2_eq [of "addr a b c d" 16777216 16] top split by simp_all
  note e = inCidr_div base_addr unat_ipv4ToInt [OF assms(1-4)] w_def
  show "inCidr w ''10.0.0.0'' 8 \<longleftrightarrow> a = 10" "inCidr w ''127.0.0.0'' 8 \<longleftrightarrow> a = 127" "inCidr w ''0.0.0.0'' 8 \<longleftrightarrow> a = 0"
    by (simp_all add: e top) (simp_all add: addr_def)
  show "inCidr w ''192.168.0.0'' 16 \<longleftrightarrow> a = 192 \<and> b = 168" "inCidr w ''169.254.0.0'' 16 \<longleftrightarrow> a = 169 \<and> b = 254"
    using assms(1,2) by (simp_all add: e top) (simp_all add: addr_def, arith+)
  have q: "b div 16 < 16" "b div 16 = 1 \<longleftrightarrow> 16 \<le> b \<and> b \<le> 31" "b div 64 < 4" "b div 64 = 1 \<longleftrightarrow> 64 \<le> b \<and> b \<le> 127"
    "a div 16 = 14 \<longleftrightarrow> 224 \<le> a \<and> a \<le> 239"
    using assms(2) by arith+
  have quot: "(a * 16 + r = 2753) \<longleftrightarrow> a = 172 \<and> r = 1" if "r < 16" for r using that by arith
  have quot': "(a * 4 + r = 401) \<longleftrightarrow> a = 100 \<and> r = 1" if "r < 4" for r using that by arith
  show "inCidr w ''172.16.0.0'' 12 \<longleftrightarrow> a = 172 \<and> 16 \<le> b \<and> b \<le> 31"
    "inCidr w ''100.64.0.0'' 10 \<longleftrightarrow> a = 100 \<and> 64 \<le> b \<and> b \<le> 127"
    "inCidr w ''224.0.0.0'' 4 \<longleftrightarrow> 224 \<le> a \<and> a \<le> 239"
    using quot [OF q(1)] quot' [OF q(3)] q by (simp_all add: e mid) (simp_all add: addr_def)
qed

lemma isSafeIPv4_dotted:
  "a < 256 \<Longrightarrow> b < 256 \<Longrightarrow> c < 256 \<Longrightarrow> d < 256 \<Longrightarrow> isSafeIPv4 (dotted a b c d) \<longleftrightarrow> \<not> private_ipv4 a b"
  by (auto simp: isSafeIPv4_def Let_def blocked_ranges_def in_range private_ipv4_def)

text \<open>The two spellings of an IPv4-mapped IPv6 address.\<close>

definition hex_digit :: "nat \<Rightarrow> char" where
  "hex_digit n = (if n < 10 then char_of (48 + n) else char_of (87 + n))"

definition hex4 :: "nat \<Rightarrow> string" where
  "hex4 n = [hex_digit (n div 4096), hex_digit (n div 256 mod 16), hex_digit (n div 16 mod 16), hex_digit (n mod 16)]"

lemma hex_digit_facts:
  assumes "n < 16"
  shows "hex_value (hex_digit n) = Some n" "is_lower_hex (hex_digit n)" "hex_digit n \<noteq> CHR '':''" "hex_digit n \<noteq> CHR ''.''"
proof -
  have code: "of_char (hex_digit n) = (if n < 10 then 48 + n else 87 + n)"
    using assms by (simp add: hex_digit_def)
  then show "hex_value (hex_digit n) = Some n" "is_lower_hex (hex_digit n)"
    using assms by (auto simp: hex_value_def is_lower_hex_def is_digit_def Let_def)
  have "of_char (CHR '':'') = (58::nat)" "of_char (CHR ''.'') = (46::nat)" by simp_all
  moreover have "of_char (hex_digit n) \<noteq> (58::nat)" "of_char (hex_digit n) \<noteq> (46::nat)" using code assms by auto
  ultimately show "hex_digit n \<noteq> CHR '':''" "hex_digit n \<noteq> CHR ''.''" by metis+
qed

lemma lower_case_lower: "list_all (\<lambda>c. \<not> (65 \<le> (of_char c :: nat) \<and> (of_char c :: nat) \<le> 90)) s \<Longrightarrow> lower_case s = s"
  by (induction s) (auto simp: lower_case_def Let_def)

lemma parse_hex4: "n < 65536 \<Longrightarrow> parse_hex (hex4 n) = n"
proof -
  assume n: "n < 65536"
  then have "n div 4096 < 16" by simp
  then have "parse_hex (hex4 n) = 16 * (16 * (16 * (n div 4096) + n div 256 mod 16) + n div 16 mod 16) + n mod 16"
    by (simp add: parse_hex_def hex4_def hex_digit_facts)
  moreover have "n div 16 div 16 = n div 256" "n div 256 div 16 = n div 4096"
    by (simp_all flip: div_mult2_eq)
  ultimately show ?thesis
    using div_mult_mod_eq [of n 16] div_mult_mod_eq [of "n div 16" 16] div_mult_mod_eq [of "n div 256" 16] by (metis mult.commute)
qed

lemma hex4_facts:
  assumes "n < 65536"
  shows "hex_group (hex4 n)" "CHR '':'' \<notin> set (hex4 n)" "CHR ''.'' \<notin> set (hex4 n)"
    "c \<in> set (hex4 n) \<Longrightarrow> is_lower_hex c"
proof -
  have "n div 4096 < 16" using assms by simp
  note d = hex_digit_facts [OF this] hex_digit_facts [of "n div 256 mod 16"] hex_digit_facts [of "n div 16 mod 16"]
    hex_digit_facts [of "n mod 16"]
  show "hex_group (hex4 n)" "CHR '':'' \<notin> set (hex4 n)" "CHR ''.'' \<notin> set (hex4 n)"
    "c \<in> set (hex4 n) \<Longrightarrow> is_lower_hex c"
    using d by (auto simp: hex4_def hex_group_def)
qed

lemma unwrap_dotted: "unwrapIPv4Mapped (''::ffff:'' @ dotted a b c d) = Some (dotted a b c d)"
proof -
  have "list_all decimal_run (map show_nat [a, b, c, d])"
    by (auto simp: decimal_run_def list_all_iff show_nat_digits)
  then show ?thesis by (simp add: unwrapIPv4Mapped_def)
qed

lemma unwrap_hex:
  assumes "a < 256" "b < 256" "c < 256" "d < 256"
  shows "unwrapIPv4Mapped (''::ffff:'' @ hex4 (a * 256 + b) @ '':'' @ hex4 (c * 256 + d)) = Some (dotted a b c d)"
proof -
  have n: "a * 256 + b < 65536" "c * 256 + d < 65536" using assms by simp_all
  have "split_on (CHR '':'') (hex4 (a * 256 + b) @ '':'' @ hex4 (c * 256 + d)) = [hex4 (a * 256 + b), hex4 (c * 256 + d)]"
    using hex4_facts(2) [OF n(1)] hex4_facts(2) [OF n(2)] by (simp add: split_on_append_sep split_on_no_sep)
  moreover have "split_on (CHR ''.'') (hex4 (a * 256 + b) @ '':'' @ hex4 (c * 256 + d)) = [hex4 (a * 256 + b) @ '':'' @ hex4 (c * 256 + d)]"
    using hex4_facts(3) [OF n(1)] hex4_facts(3) [OF n(2)] by (simp add: split_on_no_sep)
  ultimately show ?thesis
    using assms hex4_facts(1) [OF n(1)] hex4_facts(1) [OF n(2)]
    by (simp add: unwrapIPv4Mapped_def parse_hex4 [OF n(1)] parse_hex4 [OF n(2)] dotted_def)
qed

lemma lower_case_prefix:
  "(\<And>c. c \<in> set s \<Longrightarrow> is_lower_hex c \<or> c = CHR '':'' \<or> c = CHR ''.'') \<Longrightarrow> lower_case (''::ffff:'' @ s) = ''::ffff:'' @ s"
  by (rule lower_case_lower) (fastforce simp: list_all_iff is_lower_hex_def is_digit_def)

lemma show_nat_lower_hex: "c \<in> set (show_nat n) \<Longrightarrow> is_lower_hex c"
  using show_nat_digits by (auto simp: is_lower_hex_def)



lemma digit_char_nonzero: "0 < k \<Longrightarrow> k < 10 \<Longrightarrow> digit_char k \<noteq> CHR ''0''"
  using digit_value_digit_char [of k] by (auto simp: digit_value_def)

lemma show_nat_octet: "n < 256 \<Longrightarrow> is_octet (show_nat n)"
proof -
  assume n: "n < 256"
  consider "n < 10" | "10 \<le> n" "n < 100" | "100 \<le> n" by linarith
  then have "length (show_nat n) \<le> 3 \<and> (length (show_nat n) > 1 \<longrightarrow> hd (show_nat n) \<noteq> CHR ''0'')"
  proof cases
    case 1
    then show ?thesis by (simp add: show_nat.simps [of n])
  next
    case 2
    then have "0 < n div 10" "n div 10 < 10" by linarith+
    with 2 show ?thesis by (simp add: show_nat.simps [of n] show_nat.simps [of "n div 10"] digit_char_nonzero)
  next
    case 3
    then have "0 < n div 10 div 10" "n div 10 div 10 < 10" "\<not> n div 10 < 10" using n by linarith+
    with 3 show ?thesis
      by (simp add: show_nat.simps [of n] show_nat.simps [of "n div 10"] show_nat.simps [of "n div 10 div 10"] digit_char_nonzero)
  qed
  with n show ?thesis by (auto simp: is_octet_def list_all_iff show_nat_digits)
qed

lemma dotted_is_v4: "a < 256 \<Longrightarrow> b < 256 \<Longrightarrow> c < 256 \<Longrightarrow> d < 256 \<Longrightarrow> is_v4 (dotted a b c d)"
  by (simp add: is_v4_def show_nat_octet)

definition target_allowed :: "(string \<Rightarrow> (string \<times> string) option) \<Rightarrow> (string \<Rightarrow> bool) \<Rightarrow> (string \<Rightarrow> string list option) \<Rightarrow> string \<Rightarrow> bool" where
  "target_allowed parse_url is_v6 dns_lookup url =
     (\<exists>host. parse_url url = Some (''https:'', host)
        \<and> (let h = strip_brackets host
           in if is_v4 h \<or> is_v6 h then checkAddress is_v6 h
              else \<exists>as. dns_lookup h = Some as \<and> as \<noteq> [] \<and> list_all (checkAddress is_v6) as))"

lemma isSafeWebhookTarget_iff: "safe (isSafeWebhookTarget parse_url is_v6 dns_lookup url) \<longleftrightarrow> target_allowed parse_url is_v6 dns_lookup url"
proof -
  have "find (\<lambda>a. \<not> checkAddress is_v6 a) as = None \<Longrightarrow> list_all (checkAddress is_v6) as"
    and "find (\<lambda>a. \<not> checkAddress is_v6 a) as = Some x \<Longrightarrow> \<not> list_all (checkAddress is_v6) as" for as x
    by (auto simp: find_None_iff find_Some_iff list_all_iff)
  note found = this
  show ?thesis
    unfolding isSafeWebhookTarget_def target_allowed_def unsafe_def Let_def
    by (auto split: option.splits list.splits if_splits dest: found simp del: list.pred_inject find.simps)
qed

lemma checkAddress_private:
  "a < 256 \<Longrightarrow> b < 256 \<Longrightarrow> c < 256 \<Longrightarrow> d < 256 \<Longrightarrow> private_ipv4 a b \<Longrightarrow> \<not> checkAddress is_v6 (dotted a b c d)"
  by (simp add: checkAddress_def dotted_is_v4 isSafeIPv4_dotted)


section \<open>The delivery series\<close>

definition delivery_row :: "string \<Rightarrow> string \<Rightarrow> db \<Rightarrow> WebhookDelivery option" where
  "delivery_row orgId i d = find (\<lambda>w. wd_id w = i) (tenant_rows wd_orgId orgId (webhook_deliveries d))"

lemma find_map_if:
  "(\<And>w. P (f w) = P w) \<Longrightarrow> find P (filter Q (map (\<lambda>w. if Q w \<and> P w then f w else w) ws)) = map_option f (find P (filter Q ws))"
  if "\<And>w. Q (f w) = Q w"
  using that by (induction ws) auto

lemma recordDeliveryAttempt_row:
  assumes "is_uuid orgId" "delivery_row orgId i d = Some w"
  obtains d' where "recordDeliveryAttempt orgId i n res fin now d = (Inr (), d')"
    "delivery_row orgId i d' = Some (w\<lparr>wd_status := delivery_status (outcome res) fin, wd_attempts := n,
                 wd_responseStatus := or_keep (da_responseStatus res) (wd_responseStatus w),
                 wd_responseBody := or_keep (da_responseBody res) (wd_responseBody w),
                 wd_lastAttemptAt := Some now\<rparr>)"
proof -
  let ?f = "\<lambda>w. w\<lparr>wd_status := delivery_status (outcome res) fin, wd_attempts := n,
                 wd_responseStatus := or_keep (da_responseStatus res) (wd_responseStatus w),
                 wd_responseBody := or_keep (da_responseBody res) (wd_responseBody w),
                 wd_lastAttemptAt := Some now\<rparr>"
  have "find (\<lambda>w. wd_id w = i) (tenant_rows wd_orgId orgId (tenant_update wd_orgId orgId (\<lambda>w. wd_id w = i) ?f (webhook_deliveries d)))
      = Some (?f w)"
    using assms(2) unfolding tenant_rows_def tenant_update_def delivery_row_def by (subst find_map_if) auto
  then show ?thesis using that assms(1) by (simp add: recordDeliveryAttempt_def withTenant_def delivery_row_def)
qed

text \<open>What a series of attempts comes to, from \<open>made\<close> attempts already made.\<close>

fun series_verdict :: "nat \<Rightarrow> DeliveryOutcome list \<Rightarrow> WebhookDeliveryStatus \<times> nat" where
  "series_verdict made [] = (if made \<ge> WEBHOOK_MAX_ATTEMPTS then WH_EXHAUSTED else WH_PENDING, made)"
| "series_verdict made (x # xs) =
     (if made \<ge> WEBHOOK_MAX_ATTEMPTS then (WH_EXHAUSTED, made)
      else case x of Delivered \<Rightarrow> (WH_DELIVERED, Suc made) | Rejected \<Rightarrow> (WH_FAILED, Suc made)
           | Retry \<Rightarrow> series_verdict (Suc made) xs)"

lemma processor_row:
  assumes "is_uuid (wj_orgId job)" "delivery_row (wj_orgId job) (wj_deliveryId job) d = Some w"
  shows "\<exists>d' w' r. webhook_processor (\<lambda>_. res) made now job d = (r, d')
      \<and> delivery_row (wj_orgId job) (wj_deliveryId job) d' = Some w'
      \<and> wd_status w' = delivery_status (outcome res) (outcome res \<noteq> Retry) \<and> wd_attempts w' = int made + 1
      \<and> (isl r \<longleftrightarrow> outcome res = Retry)"
proof -
  obtain d' where "recordDeliveryAttempt (wj_orgId job) (wj_deliveryId job) (int made + 1) res (outcome res \<noteq> Retry) now d = (Inr (), d')"
    "delivery_row (wj_orgId job) (wj_deliveryId job) d' =
       Some (w\<lparr>wd_status := delivery_status (outcome res) (outcome res \<noteq> Retry), wd_attempts := int made + 1,
                 wd_responseStatus := or_keep (da_responseStatus res) (wd_responseStatus w),
                 wd_responseBody := or_keep (da_responseBody res) (wd_responseBody w),
                 wd_lastAttemptAt := Some now\<rparr>)"
    using recordDeliveryAttempt_row [OF assms] by blast
  then show ?thesis by (auto simp: webhook_processor_def Let_def)
qed

lemma on_failed_row:
  assumes "is_uuid (wj_orgId job)" "delivery_row (wj_orgId job) (wj_deliveryId job) d = Some w"
    and "wd_status w = WH_PENDING" "wd_attempts w = int made"
  shows "\<exists>w'. delivery_row (wj_orgId job) (wj_deliveryId job) (on_failed made err now job d) = Some w'
      \<and> wd_status w' = (if made \<ge> WEBHOOK_MAX_ATTEMPTS then WH_EXHAUSTED else WH_PENDING) \<and> wd_attempts w' = int made"
proof (cases "made < WEBHOOK_MAX_ATTEMPTS")
  case True
  with assms show ?thesis by (simp add: on_failed_def)
next
  case False
  obtain d' w' where "recordDeliveryAttempt (wj_orgId job) (wj_deliveryId job) (int made)
        \<lparr>outcome = Retry, da_responseStatus = None, da_responseBody = None, da_errorMessage = Some err\<rparr> True now d = (Inr (), d')"
    "delivery_row (wj_orgId job) (wj_deliveryId job) d' = Some w'" "wd_status w' = WH_EXHAUSTED" "wd_attempts w' = int made"
    by (rule recordDeliveryAttempt_row [OF assms(1,2), of "int made"
        "\<lparr>outcome = Retry, da_responseStatus = None, da_responseBody = None, da_errorMessage = Some err\<rparr>" True now])
      (simp add: delivery_status_def)
  with False show ?thesis by (simp add: on_failed_def)
qed

text \<open>
  C22. The record of a delivery is decided by its attempts: while every attempt asks for a retry it
  is PENDING and counts them; the first success makes it DELIVERED and the first final rejection
  FAILED, and no attempt follows either; the sixth retry makes it EXHAUSTED, and no series has more
  than \<^verbatim>\<open>WEBHOOK_MAX_ATTEMPTS\<close> attempts.
\<close>

theorem delivery_series_verdict:
  assumes "is_uuid (wj_orgId job)" "delivery_row (wj_orgId job) (wj_deliveryId job) d = Some w"
    and "wd_status w = (if made \<ge> WEBHOOK_MAX_ATTEMPTS then WH_EXHAUSTED else WH_PENDING)" "wd_attempts w = int made"
    and "made \<le> WEBHOOK_MAX_ATTEMPTS"
  shows "\<exists>d' w'. delivery_series made job results d = (snd (series_verdict made (map (outcome \<circ> fst) results)), d')
    \<and> delivery_row (wj_orgId job) (wj_deliveryId job) d' = Some w'
    \<and> (wd_status w', wd_attempts w') = map_prod (\<lambda>x. x) int (series_verdict made (map (outcome \<circ> fst) results))
    \<and> snd (series_verdict made (map (outcome \<circ> fst) results)) \<le> WEBHOOK_MAX_ATTEMPTS"
  using assms(2-)
proof (induction results arbitrary: made d w)
  case Nil
  then show ?case by simp
next
  case (Cons x results)
  obtain res now where x: "x = (res, now)" by force
  show ?case
  proof (cases "made \<ge> WEBHOOK_MAX_ATTEMPTS")
    case True
    with Cons.prems x show ?thesis by simp
  next
    case False
    obtain d1 w1 r where p: "webhook_processor (\<lambda>_. res) made now job d = (r, d1)"
      "delivery_row (wj_orgId job) (wj_deliveryId job) d1 = Some w1"
      "wd_status w1 = delivery_status (outcome res) (outcome res \<noteq> Retry)" "wd_attempts w1 = int (Suc made)"
      "isl r \<longleftrightarrow> outcome res = Retry"
      using processor_row [OF assms(1) Cons.prems(1), of res made now] by auto
    show ?thesis
    proof (cases "outcome res")
      case Retry
      then obtain err where r: "r = Inl err" using p(5) by (cases r) auto
      obtain w2 where w2: "delivery_row (wj_orgId job) (wj_deliveryId job) (on_failed (Suc made) err now job d1) = Some w2"
        "wd_status w2 = (if Suc made \<ge> WEBHOOK_MAX_ATTEMPTS then WH_EXHAUSTED else WH_PENDING)" "wd_attempts w2 = int (Suc made)"
        using on_failed_row [OF assms(1) p(2), of "Suc made" err now] p(3,4) Retry by (auto simp: delivery_status_def)
      then show ?thesis using Cons.IH [OF w2] False x p(1) r Retry by simp
    next
      case Delivered
      then obtain u where "r = Inr u" using p(5) by (cases r) auto
      then show ?thesis using False x p Delivered by (simp add: delivery_status_def)
    next
      case Rejected
      then obtain u where "r = Inr u" using p(5) by (cases r) auto
      then show ?thesis using False x p Rejected by (simp add: delivery_status_def)
    qed
  qed
qed


lemma webhook_job_simps [simp]:
  "wj_deliveryId (webhook_job i orgId ev t p e) = i" "wj_orgId (webhook_job i orgId ev t p e) = orgId"
  "wj_url (webhook_job i orgId ev t p e) = we_url e" "wj_secret (webhook_job i orgId ev t p e) = we_secret e"
  by (simp_all add: webhook_job_def)

theorem delivery_series_verdict_witness:
  "\<exists>d' w'. delivery_series 0 (webhook_job ''d'' ''11111111-1111-1111-1111-111111111111'' ''e'' ''job.failed'' JNull
        \<lparr>we_id = ''w'', we_orgId = ''o'', we_url = ''u'', we_secret = ''s'', we_eventTypes = [], we_isActive = True, we_createdAt = 0\<rparr>)
      (replicate 7 (\<lparr>outcome = Retry, da_responseStatus = Some 503, da_responseBody = None, da_errorMessage = None\<rparr>, 1))
      (empty_db\<lparr>webhook_deliveries := [new_delivery ''d'' ''11111111-1111-1111-1111-111111111111'' ''w'' ''e'' 0]\<rparr>) = (6, d')
    \<and> delivery_row ''11111111-1111-1111-1111-111111111111'' ''d'' d' = Some w' \<and> wd_status w' = WH_EXHAUSTED \<and> wd_attempts w' = 6"
proof -
  let ?org = "''11111111-1111-1111-1111-111111111111''"
  let ?w = "new_delivery ''d'' ?org ''w'' ''e'' 0"
  let ?res = "\<lparr>outcome = Retry, da_responseStatus = Some 503, da_responseBody = None, da_errorMessage = None\<rparr>"
  have org: "is_uuid ?org" by code_simp
  have row: "delivery_row ?org ''d'' (empty_db\<lparr>webhook_deliveries := [?w]\<rparr>) = Some ?w"
    by (simp add: delivery_row_def tenant_rows_def new_delivery_def)
  have verdict: "series_verdict 0 (map (outcome \<circ> fst) (replicate 7 (?res, 1))) = (WH_EXHAUSTED, 6)"
    by (simp add: numeral_eq_Suc WEBHOOK_MAX_ATTEMPTS_def WEBHOOK_RETRY_SCHEDULE_MS_def)
  show ?thesis
    using delivery_series_verdict [of "webhook_job ''d'' ?org ''e'' ''job.failed'' JNull
        \<lparr>we_id = ''w'', we_orgId = ''o'', we_url = ''u'', we_secret = ''s'', we_eventTypes = [], we_isActive = True, we_createdAt = 0\<rparr>"
      "empty_db\<lparr>webhook_deliveries := [?w]\<rparr>" ?w 0 "replicate 7 (?res, 1)", unfolded webhook_job_simps, OF org row]
    unfolding verdict by (simp add: new_delivery_def WEBHOOK_MAX_ATTEMPTS_def WEBHOOK_RETRY_SCHEDULE_MS_def)
qed

section \<open>Dispatch\<close>

lemma dispatch_loop_result:
  "dispatch_loop newId n now orgId eventId eventType payload es (q, d) =
     (q @ map (\<lambda>(i, e). webhook_job (newId (n + i)) orgId eventId eventType payload e) (enumerate 0 es),
      d\<lparr>webhook_deliveries := webhook_deliveries d @
         map (\<lambda>(i, e). new_delivery (newId (n + i)) orgId (we_id e) eventId now) (enumerate 0 es)\<rparr>)"
proof (induction es arbitrary: n q d)
  case (Cons e es)
  have "enumerate (Suc 0) es = map (\<lambda>(i, e). (Suc i, e)) (enumerate 0 es)"
    by (simp add: enumerate_Suc_eq apfst_def map_prod_def case_prod_beta)
  with Cons show ?case by (simp add: case_prod_beta comp_def)
qed simp

text \<open>
  Dispatching an event stores it once, even when nobody listens, and creates exactly one pending
  delivery and one queued job, in matching order, for each active endpoint of the same organisation
  that subscribed to the event type; the queue keeps what it held and no endpoint of another organisation
  is touched or read.
\<close>

theorem dispatch_fans_out:
  assumes "is_uuid orgId"
  shows "let es = filter (\<lambda>e. we_orgId e = orgId \<and> we_isActive e \<and> eventType \<in> set (we_eventTypes e)) (webhook_endpoints d);
       (r, q', d') = dispatchWebhookEvent newId now orgId eventType payload q d
     in r = Inr \<lparr>dr_eventId = newId 0, dr_deliveryCount = length es\<rparr>
        \<and> webhook_events d' = webhook_events d @
            [\<lparr>wev_id = newId 0, wev_orgId = orgId, wev_eventType = eventType, wev_payload = payload, wev_createdAt = now\<rparr>]
        \<and> (\<exists>new. webhook_deliveries d' = webhook_deliveries d @ new \<and> length new = length es
             \<and> map wd_endpointId new = map we_id es \<and> list_all (\<lambda>w. wd_status w = WH_PENDING \<and> wd_orgId w = orgId \<and> wd_eventId w = newId 0) new
             \<and> (\<exists>jobs. q' = q @ jobs \<and> map wj_deliveryId jobs = map wd_id new \<and> map wj_url jobs = map we_url es \<and> map wj_secret jobs = map we_secret es))
        \<and> webhook_endpoints d' = webhook_endpoints d"
proof -
  define es where "es = filter (\<lambda>e. we_orgId e = orgId \<and> we_isActive e \<and> eventType \<in> set (we_eventTypes e)) (webhook_endpoints d)"
  have sub: "subscribed orgId eventType (d\<lparr>webhook_events := evs\<rparr>) = es" for evs
    by (simp add: subscribed_def tenant_rows_def es_def conj_commute)
  define new where "new = map (\<lambda>(i, e). new_delivery (newId (Suc i)) orgId (we_id e) (newId 0) now) (enumerate 0 es)"
  define jobs where "jobs = map (\<lambda>(i, e). webhook_job (newId (Suc i)) orgId (newId 0) eventType payload e) (enumerate 0 es)"
  have snds: "map (\<lambda>(i, e). f e) (enumerate 0 es) = map f es" for f :: "WebhookEndpoint \<Rightarrow> 'x"
    by (metis (no_types, lifting) map_snd_enumerate list.map_comp case_prod_beta' comp_apply map_eq_conv)
  have "length new = length es" "map wd_endpointId new = map we_id es"
    "list_all (\<lambda>w. wd_status w = WH_PENDING \<and> wd_orgId w = orgId \<and> wd_eventId w = newId 0) new"
    "map wj_deliveryId jobs = map wd_id new" "map wj_url jobs = map we_url es" "map wj_secret jobs = map we_secret es"
    using snds by (auto simp: new_def jobs_def new_delivery_def webhook_job_def case_prod_beta' comp_def list_all_iff)
  then show ?thesis
    using assms unfolding es_def [symmetric]
    by (auto simp: dispatchWebhookEvent_def withTenant_def sub dispatch_loop_result new_def [symmetric] jobs_def [symmetric]
        intro!: exI [of _ new] exI [of _ jobs])
qed

theorem dispatch_fans_out_witness:
  "fst (dispatchWebhookEvent show_nat 5 ''11111111-1111-1111-1111-111111111111'' ''job.failed'' JNull []
     (empty_db\<lparr>webhook_endpoints :=
        [\<lparr>we_id = ''w'', we_orgId = ''11111111-1111-1111-1111-111111111111'', we_url = ''u'', we_secret = ''s'',
          we_eventTypes = [''job.failed''], we_isActive = True, we_createdAt = 0\<rparr>]\<rparr>)) =
   Inr \<lparr>dr_eventId = show_nat 0, dr_deliveryCount = 1\<rparr>"
proof -
  have "is_uuid ''11111111-1111-1111-1111-111111111111''" by code_simp
  from dispatch_fans_out [OF this, of "''job.failed''" "empty_db\<lparr>webhook_endpoints :=
        [\<lparr>we_id = ''w'', we_orgId = ''11111111-1111-1111-1111-111111111111'', we_url = ''u'', we_secret = ''s'',
          we_eventTypes = [''job.failed''], we_isActive = True, we_createdAt = 0\<rparr>]\<rparr>" show_nat 5 JNull "[]"]
  show ?thesis by (simp add: split_beta Let_def)
qed

section \<open>Signatures\<close>

text \<open>A receiver that recomputes the signature of the body it got accepts what was sent.\<close>

lemma delivered_signature_verifies:
  "\<exists>req. sendAndClassify hmac stringify net timestamp job =
      sendAndClassify hmac stringify (\<lambda>_. net req) timestamp job
    \<and> (\<exists>sig. map_of (dq_headers req) ''X-CloudMesh-Signature'' = Some sig
          \<and> verifyWebhookSignature hmac (dq_body req) (wj_secret job) sig)"
  by (rule exI [of _ "let body = stringify (JObj [(''event'', JStr (wj_eventType job)), (''data'', wj_payload job),
        (''timestamp'', JStr timestamp)]) in \<lparr>dq_url = wj_url job,
        dq_headers = [(''Content-Type'', ''application/json''), (''X-CloudMesh-Signature'', signWebhookPayload hmac body (wj_secret job))],
        dq_body = body\<rparr>"])
    (simp add: sendAndClassify_def verifyWebhookSignature_def Let_def)

text \<open>The waiting times: the schedule by index, then its last entry.\<close>

lemma backoff_schedule:
  "map (makeBackoffStrategy WEBHOOK_RETRY_SCHEDULE_MS) [0, 1, 2, 3, 4, 5] = [1000, 5000, 30000, 300000, 1800000, 1800000]"
  by (simp add: makeBackoffStrategy_def WEBHOOK_RETRY_SCHEDULE_MS_def)

end
