(* ===== verification/ApiKeys.thy ===== *)
theory ApiKeys
  imports RateLimiter Billing
begin

text \<open>
  API keys from creation to the gateway's front door: \<^verbatim>\<open>packages/auth\<close> (\<^verbatim>\<open>apiKey.ts\<close>,
  \<^verbatim>\<open>resolveApiKey.ts\<close>), \<^verbatim>\<open>apps/api/src/modules/apiKeys/service.ts\<close>,
  \<^verbatim>\<open>apps/gateway/src/lib/platformEvents.ts\<close> and the gateway's \<^verbatim>\<open>requireApiKey\<close> and
  \<^verbatim>\<open>requireRateLimit\<close>. SHA-256 is the parameter \<open>sha\<close> and random bytes are arguments. Row ids are
  UUIDs (Prisma refuses others before it queries). The state is Redis and the database; each
  operation runs at one time and to its end before the next one starts. The lemmas show that
  under this order the Redis cache in front of the key table is invisible.
\<close>

section \<open>apiKey.ts and resolveApiKey.ts\<close>

definition KEY_PREFIX :: string where
  "KEY_PREFIX = ''cm_live_''"

definition generateApiKey :: "string \<Rightarrow> string \<times> string" where
  "generateApiKey random = (let rawKey = KEY_PREFIX @ random in (rawKey, take 12 rawKey))"

definition hashApiKey :: "(string \<Rightarrow> string) \<Rightarrow> string \<Rightarrow> string" where
  "hashApiKey sha rawKey = sha rawKey"

definition apiKeyCacheKey :: "string \<Rightarrow> string" where
  "apiKeyCacheKey keyHash = ''auth:'' @ keyHash"

definition AUTH_TTL_SECONDS :: int where
  "AUTH_TTL_SECONDS = 300"

record ApiKeyContext =
  ctx_apiKeyId :: string
  ctx_orgId :: string
  ctx_scopes :: "string list"
  ctx_rateLimitRpm :: int

definition ctx_json :: "ApiKeyContext \<Rightarrow> json" where
  "ctx_json c =
     JObj [(''apiKeyId'', JStr (ctx_apiKeyId c)), (''orgId'', JStr (ctx_orgId c)),
           (''scopes'', JArr (map JStr (ctx_scopes c))), (''rateLimitRpm'', JNum (of_int (ctx_rateLimitRpm c)))]"

definition ctx_of_json :: "json \<Rightarrow> ApiKeyContext" where
  "ctx_of_json j =
     \<lparr>ctx_apiKeyId = jstr (jget j ''apiKeyId''), ctx_orgId = jstr (jget j ''orgId''),
      ctx_scopes = (case as_array (jget j ''scopes'') of None \<Rightarrow> [] | Some xs \<Rightarrow> map (\<lambda>x. jstr (Some x)) xs),
      ctx_rateLimitRpm = math_floor (jnum (jget j ''rateLimitRpm''))\<rparr>"

text \<open>\<^verbatim>\<open>lookup_api_key_by_hash\<close> sees the rows of every organisation.\<close>

definition lookup_api_key_by_hash :: "string \<Rightarrow> db \<Rightarrow> ApiKey list" where
  "lookup_api_key_by_hash h d = filter (\<lambda>r. ak_keyHash r = h) (api_keys d)"

definition ctx_of_row :: "ApiKey \<Rightarrow> ApiKeyContext" where
  "ctx_of_row r = \<lparr>ctx_apiKeyId = ak_id r, ctx_orgId = ak_orgId r, ctx_scopes = ak_scopes r, ctx_rateLimitRpm = ak_rateLimitRpm r\<rparr>"

text \<open>The update of \<^verbatim>\<open>lastUsedAt\<close> that the source starts and does not wait for; its errors are only logged.\<close>

definition touch_last_used :: "ApiKeyContext \<Rightarrow> ms \<Rightarrow> db \<Rightarrow> db" where
  "touch_last_used entry now d =
     snd (withTenant d (ctx_orgId entry) (\<lambda>tx. (Inr (), tx\<lparr>api_keys :=
       tenant_update ak_orgId (ctx_orgId entry) (\<lambda>r. ak_id r = ctx_apiKeyId entry) (\<lambda>r. r\<lparr>ak_lastUsedAt := Some now\<rparr>) (api_keys tx)\<rparr>)))"

definition resolveApiKey ::
    "('s, 'm) redis_scheme \<Rightarrow> (string \<Rightarrow> string) \<Rightarrow> string \<Rightarrow> ms \<Rightarrow> 's \<times> db \<Rightarrow> ApiKeyContext option \<times> 's \<times> db" where
  "resolveApiKey R sha rawKey t = (\<lambda>(s, d).
     let keyHash = hashApiKey sha rawKey; cacheKey = apiKeyCacheKey keyHash
     in case stored_json (r_get R cacheKey t s) of
          Some cached \<Rightarrow> (Some (ctx_of_json cached), s, d)
        | None \<Rightarrow>
            (case lookup_api_key_by_hash keyHash d of
               [] \<Rightarrow> (None, s, d)
             | record # _ \<Rightarrow>
                 if \<not> ak_isActive record then (None, s, d)
                 else
                   (let entry = ctx_of_row record
                    in (Some entry, r_set R cacheKey (SJson (ctx_json entry)) (AUTH_TTL_SECONDS * 1000) t s,
                        touch_last_used entry t d))))"

section \<open>apiKeys/service.ts\<close>

record CreatedApiKey =
  cak_id :: string
  cak_rawKey :: string
  cak_keyPrefix :: string
  cak_scopes :: "string list"
  cak_rateLimitRpm :: int

definition key_event_payload :: "string \<Rightarrow> ApiKey \<Rightarrow> json" where
  "key_event_payload orgId key =
     JObj [(''orgId'', JStr orgId), (''apiKeyId'', JStr (ak_id key)), (''keyPrefix'', JStr (ak_keyPrefix key))]"

text \<open>The key's id and hash are unique in the table; a second insertion is Prisma's error \<^verbatim>\<open>P2002\<close>.\<close>

definition createApiKey ::
    "(string \<Rightarrow> string) \<Rightarrow> string \<Rightarrow> string \<Rightarrow> string \<Rightarrow> ms \<Rightarrow> string \<Rightarrow> string list \<Rightarrow> int option \<Rightarrow> db
      \<Rightarrow> (thrown, CreatedApiKey) result \<times> db" where
  "createApiKey sha random rowId eventId now orgId scopes rateLimitRpm d =
     (let (rawKey, keyPrefix) = generateApiKey random; keyHash = hashApiKey sha rawKey;
          rpm = (case rateLimitRpm of None \<Rightarrow> 60 | Some n \<Rightarrow> n);
          key = \<lparr>ak_id = rowId, ak_orgId = orgId, ak_keyHash = keyHash, ak_keyPrefix = keyPrefix, ak_scopes = scopes,
                 ak_isActive = True, ak_rateLimitRpm = rpm, ak_lastUsedAt = None, ak_createdAt = now\<rparr>
      in case withTenant d orgId (\<lambda>tx.
                if list_ex (\<lambda>r. ak_keyHash r = keyHash \<or> ak_id r = rowId) (api_keys tx) then (Inl (ThrownJs ''P2002''), tx)
                else (Inr key, writeOutboxEvent eventId now ''api_key.created'' (key_event_payload orgId key)
                        (tx\<lparr>api_keys := api_keys tx @ [key]\<rparr>))) of
           (Inl e, d') \<Rightarrow> (Inl e, d')
         | (Inr created, d') \<Rightarrow>
             (Inr \<lparr>cak_id = ak_id created, cak_rawKey = rawKey, cak_keyPrefix = ak_keyPrefix created, cak_scopes = ak_scopes created,
                   cak_rateLimitRpm = ak_rateLimitRpm created\<rparr>, d'))"

record ApiKeySummary =
  aks_id :: string
  aks_keyPrefix :: string
  aks_scopes :: "string list"
  aks_isActive :: bool
  aks_rateLimitRpm :: int
  aks_lastUsedAt :: "ms option"
  aks_createdAt :: ms

definition listApiKeys :: "db \<Rightarrow> string \<Rightarrow> (thrown, ApiKeySummary list) result" where
  "listApiKeys d orgId =
     fst (withTenant d orgId (\<lambda>tx.
       (Inr (map (\<lambda>r. \<lparr>aks_id = ak_id r, aks_keyPrefix = ak_keyPrefix r, aks_scopes = ak_scopes r, aks_isActive = ak_isActive r,
           aks_rateLimitRpm = ak_rateLimitRpm r, aks_lastUsedAt = ak_lastUsedAt r, aks_createdAt = ak_createdAt r\<rparr>)
         (sort_key (\<lambda>r. - ak_createdAt r) (tenant_rows ak_orgId orgId (api_keys tx)))), tx)))"

text \<open>An update that matches no visible row is Prisma's error \<^verbatim>\<open>P2025\<close>.\<close>

definition revokeApiKey ::
    "('s, 'm) redis_scheme \<Rightarrow> string \<Rightarrow> string \<Rightarrow> string \<Rightarrow> ms \<Rightarrow> 's \<times> db \<Rightarrow> (thrown, unit) result \<times> 's \<times> db" where
  "revokeApiKey R eventId orgId keyId t = (\<lambda>(s, d).
     case withTenant d orgId (\<lambda>tx.
            case find (\<lambda>r. ak_id r = keyId) (tenant_rows ak_orgId orgId (api_keys tx)) of
              None \<Rightarrow> (Inl (ThrownJs ''P2025''), tx)
            | Some key \<Rightarrow>
                (Inr key, writeOutboxEvent eventId t ''api_key.revoked'' (key_event_payload orgId key)
                   (tx\<lparr>api_keys := tenant_update ak_orgId orgId (\<lambda>r. ak_id r = keyId) (\<lambda>r. r\<lparr>ak_isActive := False\<rparr>) (api_keys tx)\<rparr>))) of
       (Inl (ThrownJs m), d') \<Rightarrow>
         (if m = ''P2025'' then Inl (ThrownApp (NotFoundError ''API key not found'')) else Inl (ThrownJs m), s, d')
     | (Inl e, d') \<Rightarrow> (Inl e, s, d')
     | (Inr revoked, d') \<Rightarrow> (Inr (), r_del R (apiKeyCacheKey (ak_keyHash revoked)) t s, d'))"

section \<open>platformEvents.ts\<close>

definition RATE_LIMITED_DEDUPE_SECONDS :: int where
  "RATE_LIMITED_DEDUPE_SECONDS = 60"

definition PROVIDER_DEGRADED_DEDUPE_SECONDS :: int where
  "PROVIDER_DEGRADED_DEDUPE_SECONDS = 300"

definition claimDedupeSlot :: "('s, 'm) redis_scheme \<Rightarrow> string \<Rightarrow> int \<Rightarrow> ms \<Rightarrow> 's \<Rightarrow> bool \<times> 's" where
  "claimDedupeSlot R key ttlSeconds t s = r_set_nx R key (SText ''1'') (ttlSeconds * 1000) t s"

definition emit :: "string \<Rightarrow> ms \<Rightarrow> string \<Rightarrow> string \<Rightarrow> (string \<times> json) list \<Rightarrow> db \<Rightarrow> (thrown, unit) result \<times> db" where
  "emit rowId now orgId eventType payload d =
     withTenant d orgId (\<lambda>tx. (Inr (), writeOutboxEvent rowId now eventType (JObj ((''orgId'', JStr orgId) # payload)) tx))"

text \<open>\<^verbatim>\<open>Date.prototype.toISOString\<close> for years 0 to 9999.\<close>

definition pad_to :: "nat \<Rightarrow> int \<Rightarrow> string" where
  "pad_to n i = (let x = show_int i in replicate (n - length x) (CHR ''0'') @ x)"

definition toISOString :: "ms \<Rightarrow> string" where
  "toISOString now =
     (let (y, m, d) = civil_of_days (now div DAY_MS); r = now mod DAY_MS
      in pad_to 4 y @ ''-'' @ pad_to 2 m @ ''-'' @ pad_to 2 d @ ''T'' @ pad_to 2 (r div 3600000) @ '':''
         @ pad_to 2 (r div 60000 mod 60) @ '':'' @ pad_to 2 (r div 1000 mod 60) @ ''.'' @ pad_to 3 (r mod 1000) @ ''Z'')"

definition rateLimitedSlot :: "string \<Rightarrow> string" where
  "rateLimitedSlot orgId = ''events:ratelimited:'' @ orgId"

definition emitRateLimitedEvent ::
    "('s, 'm) redis_scheme \<Rightarrow> string \<Rightarrow> string \<Rightarrow> string \<Rightarrow> rat \<Rightarrow> ms \<Rightarrow> 's \<times> db \<Rightarrow> 's \<times> db" where
  "emitRateLimitedEvent R rowId orgId apiKeyId retryAfterSeconds t = (\<lambda>(s, d).
     let (claimed, s') = claimDedupeSlot R (rateLimitedSlot orgId) RATE_LIMITED_DEDUPE_SECONDS t s
     in if \<not> claimed then (s', d)
        else (s', snd (emit rowId t orgId ''request.rate_limited''
          [(''apiKeyId'', JStr apiKeyId), (''retryAfterSeconds'', JNum retryAfterSeconds),
           (''dedupeWindowSeconds'', JNum (of_int RATE_LIMITED_DEDUPE_SECONDS)), (''occurredAt'', JStr (toISOString t))] d)))"

definition emitProviderDegradedEvent ::
    "('s, 'm) redis_scheme \<Rightarrow> string \<Rightarrow> string \<Rightarrow> string \<Rightarrow> string \<Rightarrow> ms \<Rightarrow> 's \<times> db \<Rightarrow> 's \<times> db" where
  "emitProviderDegradedEvent R rowId orgId provider why t = (\<lambda>(s, d).
     let key = ''events:degraded:'' @ orgId @ '':'' @ provider;
         (claimed, s') = claimDedupeSlot R key PROVIDER_DEGRADED_DEDUPE_SECONDS t s
     in if \<not> claimed then (s', d)
        else (s', snd (emit rowId t orgId ''provider.degraded''
          [(''provider'', JStr provider), (''reason'', JStr why),
           (''dedupeWindowSeconds'', JNum (of_int PROVIDER_DEGRADED_DEDUPE_SECONDS)), (''occurredAt'', JStr (toISOString t))] d)))"

section \<open>requireApiKey.ts and requireRateLimit.ts\<close>

definition extractToken :: "string option \<Rightarrow> string option" where
  "extractToken header =
     (case header of
        None \<Rightarrow> None
      | Some h \<Rightarrow>
          if \<not> starts_with h ''Bearer '' then None
          else (let token = trim (drop 7 h) in if length token > 0 then Some token else None))"

definition requireApiKey ::
    "('s, 'm) redis_scheme \<Rightarrow> (string \<Rightarrow> string) \<Rightarrow> string option \<Rightarrow> ms \<Rightarrow> 's \<times> db \<Rightarrow> (AppError, ApiKeyContext) result \<times> 's \<times> db" where
  "requireApiKey R sha header t st =
     (case extractToken header of
        None \<Rightarrow> (Inl (UnauthorizedError ''Missing or malformed Authorization header''), st)
      | Some rawKey \<Rightarrow>
          (case resolveApiKey R sha rawKey t st of
             (None, st') \<Rightarrow> (Inl (UnauthorizedError ''Invalid API key''), st')
           | (Some ctx, st') \<Rightarrow> (Inr ctx, st')))"

definition rate_config :: "ApiKeyContext \<Rightarrow> TokenBucketConfig" where
  "rate_config ctx = \<lparr>tb_capacity = of_int (ctx_rateLimitRpm ctx), tb_refillPerSecond = of_int (ctx_rateLimitRpm ctx) / 60, tb_requested = None\<rparr>"

text \<open>The event is emitted and the header computed at \<open>t2\<close>, after the bucket has answered.\<close>

definition requireRateLimit ::
    "('s, 'm) redis_scheme \<Rightarrow> string \<Rightarrow> ApiKeyContext \<Rightarrow> ms \<Rightarrow> ms \<Rightarrow> 's \<times> db \<Rightarrow> (AppError, unit) result \<times> 's \<times> db" where
  "requireRateLimit R rowId ctx t t2 = (\<lambda>(s, d).
     let (result, s1) = tokenBucket R (ctx_apiKeyId ctx) (rate_config ctx) t s
     in if allowed result then (Inr (), s1, d)
        else
          (let retryAfterSeconds = (resetAt result - of_int t2) / 1000
           in (Inl (RateLimitError retryAfterSeconds),
               emitRateLimitedEvent R rowId (ctx_orgId ctx) (ctx_apiKeyId ctx) retryAfterSeconds t2 (s1, d))))"

section \<open>The key table without the cache\<close>

text \<open>
  The specification of the key service: a table of keys (their last use is left out) with
  creation, revocation and lookup, and no cache. \<open>auth_history\<close> runs the implementation on a sequence of
  timed operations and \<open>spec_history\<close> the specification.
\<close>

datatype auth_op =
    Create string string string string "string list" "int option"
  | Resolve string
  | Revoke string string string

datatype auth_out =
    OutCreated "(thrown, CreatedApiKey) result"
  | OutResolved "ApiKeyContext option"
  | OutRevoked "(thrown, unit) result"

definition auth_step ::
    "('s, 'm) redis_scheme \<Rightarrow> (string \<Rightarrow> string) \<Rightarrow> ms \<Rightarrow> auth_op \<Rightarrow> 's \<times> db \<Rightarrow> auth_out \<times> 's \<times> db" where
  "auth_step R sha t x st =
     (case x of
        Create random rowId eventId orgId scopes rpm \<Rightarrow>
          (let (r, d') = createApiKey sha random rowId eventId t orgId scopes rpm (snd st) in (OutCreated r, fst st, d'))
      | Resolve rawKey \<Rightarrow> (let (r, st') = resolveApiKey R sha rawKey t st in (OutResolved r, st'))
      | Revoke eventId orgId keyId \<Rightarrow> (let (r, st') = revokeApiKey R eventId orgId keyId t st in (OutRevoked r, st')))"

fun auth_history ::
    "('s, 'm) redis_scheme \<Rightarrow> (string \<Rightarrow> string) \<Rightarrow> (auth_op \<times> ms) list \<Rightarrow> 's \<times> db \<Rightarrow> auth_out list \<times> 's \<times> db" where
  "auth_history R sha [] st = ([], st)"
| "auth_history R sha ((x, t) # xs) st =
     (let (out, st') = auth_step R sha t x st; (outs, st'') = auth_history R sha xs st' in (out # outs, st''))"

definition key_table :: "db \<Rightarrow> ApiKey list" where
  "key_table d = map (\<lambda>r. r\<lparr>ak_lastUsedAt := None\<rparr>) (api_keys d)"

definition spec_resolve :: "string \<Rightarrow> ApiKey list \<Rightarrow> ApiKeyContext option" where
  "spec_resolve h ks =
     (case find (\<lambda>r. ak_keyHash r = h) ks of
        None \<Rightarrow> None
      | Some r \<Rightarrow> if ak_isActive r then Some (ctx_of_row r) else None)"

definition not_uuid_error :: "string \<Rightarrow> thrown" where
  "not_uuid_error orgId = ThrownJs (''withTenant: orgId is not a valid UUID: '' @ orgId)"

definition spec_step :: "(string \<Rightarrow> string) \<Rightarrow> ms \<Rightarrow> auth_op \<Rightarrow> ApiKey list \<Rightarrow> auth_out \<times> ApiKey list" where
  "spec_step sha t x ks =
     (case x of
        Create random rowId eventId orgId scopes rpm \<Rightarrow>
          (let raw = ''cm_live_'' @ random; limit = (case rpm of None \<Rightarrow> 60 | Some n \<Rightarrow> n)
           in if \<not> is_uuid orgId then (OutCreated (Inl (not_uuid_error orgId)), ks)
              else if sha raw \<in> ak_keyHash ` set ks \<or> rowId \<in> ak_id ` set ks then (OutCreated (Inl (ThrownJs ''P2002'')), ks)
              else (OutCreated (Inr \<lparr>cak_id = rowId, cak_rawKey = raw, cak_keyPrefix = take 12 raw, cak_scopes = scopes,
                                     cak_rateLimitRpm = limit\<rparr>),
                    ks @ [\<lparr>ak_id = rowId, ak_orgId = orgId, ak_keyHash = sha raw, ak_keyPrefix = take 12 raw, ak_scopes = scopes,
                           ak_isActive = True, ak_rateLimitRpm = limit, ak_lastUsedAt = None, ak_createdAt = t\<rparr>]))
      | Resolve raw \<Rightarrow> (OutResolved (spec_resolve (sha raw) ks), ks)
      | Revoke eventId orgId keyId \<Rightarrow>
          (if \<not> is_uuid orgId then (OutRevoked (Inl (not_uuid_error orgId)), ks)
           else if list_ex (\<lambda>r. ak_id r = keyId \<and> ak_orgId r = orgId) ks
             then (OutRevoked (Inr ()), map (\<lambda>r. if ak_id r = keyId \<and> ak_orgId r = orgId then r\<lparr>ak_isActive := False\<rparr> else r) ks)
           else (OutRevoked (Inl (ThrownApp (NotFoundError ''API key not found''))), ks)))"

fun spec_history :: "(string \<Rightarrow> string) \<Rightarrow> (auth_op \<times> ms) list \<Rightarrow> ApiKey list \<Rightarrow> auth_out list \<times> ApiKey list" where
  "spec_history sha [] ks = ([], ks)"
| "spec_history sha ((x, t) # xs) ks =
     (let (out, ks') = spec_step sha t x ks; (outs, ks'') = spec_history sha xs ks' in (out # outs, ks''))"

definition keys_distinct :: "ApiKey list \<Rightarrow> bool" where
  "keys_distinct ks \<longleftrightarrow> distinct (map ak_id ks) \<and> distinct (map ak_keyHash ks)"

text \<open>The cache is coherent: whatever it will still answer is what the table says.\<close>

definition keys_ok :: "('s, 'm) redis_scheme \<Rightarrow> ms \<Rightarrow> 's \<Rightarrow> db \<Rightarrow> bool" where
  "keys_ok R t s d \<longleftrightarrow> keys_distinct (key_table d) \<and>
     (\<forall>h t' v. t \<le> t' \<longrightarrow> r_read R (apiKeyCacheKey h) t' s = Some v \<longrightarrow>
        (\<exists>c. spec_resolve h (key_table d) = Some c \<and> v = RStr (SJson (ctx_json c))))"

lemma ctx_round_trip [simp]: "ctx_of_json (ctx_json c) = c"
  by (simp add: ctx_of_json_def ctx_json_def math_floor_def comp_def)

lemma apiKeyCacheKey_eq_iff [simp, key_simps]: "apiKeyCacheKey a = apiKeyCacheKey b \<longleftrightarrow> a = b"
  by (simp add: apiKeyCacheKey_def)

lemma find_map_same: "(\<And>x. P (f x) = P x) \<Longrightarrow> find P (map f xs) = map_option f (find P xs)"
  by (induction xs) auto

lemma find_SomeD: "find P xs = Some x \<Longrightarrow> x \<in> set xs \<and> P x"
  by (auto simp: find_Some_iff)

lemma key_table_images:
  "ak_keyHash ` set (key_table d) = ak_keyHash ` set (api_keys d)" "ak_id ` set (key_table d) = ak_id ` set (api_keys d)"
  by (simp_all add: key_table_def image_image)

lemma lookup_key_table:
  "spec_resolve h (key_table d) =
     (case lookup_api_key_by_hash h d of [] \<Rightarrow> None | r # _ \<Rightarrow> if ak_isActive r then Some (ctx_of_row r) else None)"
proof -
  have "find (\<lambda>r. ak_keyHash r = h) xs =
      (case filter (\<lambda>r. ak_keyHash r = h) xs of [] \<Rightarrow> None | r # _ \<Rightarrow> Some r)" for xs :: "ApiKey list"
    by (induction xs) auto
  from this [of "api_keys d"]
  have "find (\<lambda>r. ak_keyHash r = h) (key_table d) = map_option (\<lambda>r. r\<lparr>ak_lastUsedAt := None\<rparr>)
      (case lookup_api_key_by_hash h d of [] \<Rightarrow> None | r # _ \<Rightarrow> Some r)"
    by (simp add: key_table_def find_map_same lookup_api_key_by_hash_def)
  then show ?thesis
    by (auto simp: spec_resolve_def ctx_of_row_def split: list.splits)
qed

lemma key_table_touch [simp]: "key_table (touch_last_used c t d) = key_table d"
  by (auto simp: key_table_def touch_last_used_def withTenant_def tenant_update_def)

lemma spec_resolve_append:
  "spec_resolve h (ks @ [k]) =
     (if h \<in> ak_keyHash ` set ks then spec_resolve h ks
      else if ak_keyHash k = h \<and> ak_isActive k then Some (ctx_of_row k) else None)"
proof -
  have "find (\<lambda>r. ak_keyHash r = h) (ks @ [k]) =
      (if h \<in> ak_keyHash ` set ks then find (\<lambda>r. ak_keyHash r = h) ks else if ak_keyHash k = h then Some k else None)"
    by (induction ks) auto
  then show ?thesis by (simp add: spec_resolve_def)
qed

lemma spec_resolve_absent: "h \<notin> ak_keyHash ` set ks \<Longrightarrow> spec_resolve h ks = None"
proof -
  assume "h \<notin> ak_keyHash ` set ks"
  then have "find (\<lambda>r. ak_keyHash r = h) ks = None" by (auto simp: find_None_iff)
  then show ?thesis by (simp add: spec_resolve_def)
qed

lemma spec_resolve_revoke:
  assumes "keys_distinct ks" "k \<in> set ks" "ak_id k = keyId" "ak_orgId k = orgId"
  shows "spec_resolve h (map (\<lambda>r. if ak_id r = keyId \<and> ak_orgId r = orgId then r\<lparr>ak_isActive := False\<rparr> else r) ks) =
     (if h = ak_keyHash k then None else spec_resolve h ks)"
proof (cases "find (\<lambda>r. ak_keyHash r = h) ks")
  case None
  then show ?thesis by (simp add: spec_resolve_def find_map_same)
next
  case (Some r)
  then have r: "r \<in> set ks" "ak_keyHash r = h" by (auto simp: find_Some_iff)
  have "ak_id r = keyId \<longleftrightarrow> r = k" "h = ak_keyHash k \<longleftrightarrow> r = k"
    using assms r by (auto simp: keys_distinct_def distinct_map inj_on_def)
  with Some assms show ?thesis by (auto simp: spec_resolve_def find_map_same ctx_of_row_def)
qed

section \<open>The cache is invisible\<close>

context redis_service
begin

lemma keys_ok_later: "keys_ok R t s d \<Longrightarrow> t \<le> t' \<Longrightarrow> keys_ok R t' s d"
  unfolding keys_ok_def by (meson order_trans)

lemma resolve_step:
  assumes ok: "keys_ok R t s d"
  shows "\<exists>s' d'. resolveApiKey R sha raw t (s, d) = (spec_resolve (sha raw) (key_table d), s', d')
    \<and> key_table d' = key_table d \<and> keys_ok R t s' d'"
proof (cases "r_read R (apiKeyCacheKey (sha raw)) t s")
  case (Some v)
  then obtain c where c: "spec_resolve (sha raw) (key_table d) = Some c" "v = RStr (SJson (ctx_json c))"
    using ok unfolding keys_ok_def by blast
  with Some ok show ?thesis by (simp add: resolveApiKey_def hashApiKey_def r_get_def)
next
  case None
  show ?thesis
  proof (cases "spec_resolve (sha raw) (key_table d)")
    case miss: None
    then have "resolveApiKey R sha raw t (s, d) = (None, s, d)"
      using None by (auto simp: resolveApiKey_def hashApiKey_def r_get_def lookup_key_table split: list.splits if_splits)
    with miss ok show ?thesis by simp
  next
    case (Some c)
    let ?s = "r_set R (apiKeyCacheKey (sha raw)) (SJson (ctx_json c)) (AUTH_TTL_SECONDS * 1000) t s"
    have run: "resolveApiKey R sha raw t (s, d) = (Some c, ?s, touch_last_used c t d)"
      using Some None
      by (auto simp: resolveApiKey_def hashApiKey_def r_get_def lookup_key_table Let_def split: list.splits if_splits)
    have "keys_ok R t ?s (touch_last_used c t d)"
      using ok Some unfolding keys_ok_def by (auto simp: read_set split: if_splits)
    with run Some show ?thesis by simp
  qed
qed

lemma create_step:
  assumes ok: "keys_ok R t s d"
  shows "\<exists>d'. createApiKey sha random rowId eventId t orgId scopes rpm d =
      (case spec_step sha t (Create random rowId eventId orgId scopes rpm) (key_table d) of (OutCreated r, _) \<Rightarrow> r, d')
    \<and> key_table d' = snd (spec_step sha t (Create random rowId eventId orgId scopes rpm) (key_table d)) \<and> keys_ok R t s d'"
proof -
  have ids: "sha raw \<in> ak_keyHash ` set (key_table d) \<or> rowId \<in> ak_id ` set (key_table d)
      \<longleftrightarrow> list_ex (\<lambda>r. ak_keyHash r = sha raw \<or> ak_id r = rowId) (api_keys d)" for raw
    unfolding key_table_images by (auto simp: list_ex_iff intro: rev_image_eqI)
  show ?thesis
  proof (cases "is_uuid orgId \<and> \<not> list_ex (\<lambda>r. ak_keyHash r = sha (''cm_live_'' @ random) \<or> ak_id r = rowId) (api_keys d)")
    case False
    then show ?thesis
      using ok ids [of "''cm_live_'' @ random"]
      by (auto simp: createApiKey_def spec_step_def generateApiKey_def KEY_PREFIX_def hashApiKey_def withTenant_def not_uuid_error_def Let_def)
  next
    case True
    let ?k = "\<lparr>ak_id = rowId, ak_orgId = orgId, ak_keyHash = sha (''cm_live_'' @ random), ak_keyPrefix = take 12 (''cm_live_'' @ random),
       ak_scopes = scopes, ak_isActive = True, ak_rateLimitRpm = (case rpm of None \<Rightarrow> 60 | Some n \<Rightarrow> n), ak_lastUsedAt = None, ak_createdAt = t\<rparr>"
    let ?d = "writeOutboxEvent eventId t ''api_key.created'' (key_event_payload orgId ?k) (d\<lparr>api_keys := api_keys d @ [?k]\<rparr>)"
    have table: "key_table ?d = key_table d @ [?k]" by (simp add: key_table_def writeOutboxEvent_def)
    have new: "sha (''cm_live_'' @ random) \<notin> ak_keyHash ` set (key_table d)" "rowId \<notin> ak_id ` set (key_table d)"
      using True ids [of "''cm_live_'' @ random"] by blast+
    have "keys_ok R t s ?d"
      unfolding keys_ok_def table
    proof (intro conjI allI impI)
      show "keys_distinct (key_table d @ [?k])" using ok new by (auto simp: keys_ok_def keys_distinct_def)
      fix h t' v
      assume "t \<le> t'" "r_read R (apiKeyCacheKey h) t' s = Some v"
      then obtain c where c: "spec_resolve h (key_table d) = Some c" "v = RStr (SJson (ctx_json c))"
        using ok unfolding keys_ok_def by blast
      then have "h \<in> ak_keyHash ` set (key_table d)" using spec_resolve_absent by fastforce
      with c show "\<exists>c. spec_resolve h (key_table d @ [?k]) = Some c \<and> v = RStr (SJson (ctx_json c))"
        by (simp add: spec_resolve_append)
    qed
    with True new table show ?thesis
      by (auto simp: createApiKey_def spec_step_def generateApiKey_def KEY_PREFIX_def hashApiKey_def withTenant_def Let_def)
  qed
qed

lemma revoke_step:
  assumes ok: "keys_ok R t s d"
  shows "\<exists>s' d'. revokeApiKey R eventId orgId keyId t (s, d) =
      (case spec_step sha t (Revoke eventId orgId keyId) (key_table d) of (OutRevoked r, _) \<Rightarrow> r, s', d')
    \<and> key_table d' = snd (spec_step sha t (Revoke eventId orgId keyId) (key_table d)) \<and> keys_ok R t s' d'"
proof (cases "find (\<lambda>r. ak_id r = keyId) (tenant_rows ak_orgId orgId (api_keys d))")
  case None
  then have "\<not> list_ex (\<lambda>r. ak_id r = keyId \<and> ak_orgId r = orgId) (key_table d)"
    by (auto simp: find_None_iff key_table_def list_ex_iff)
  with None ok show ?thesis
    by (auto simp: revokeApiKey_def spec_step_def withTenant_def not_uuid_error_def)
next
  case (Some k)
  then have k: "k \<in> set (api_keys d)" "ak_id k = keyId" "ak_orgId k = orgId"
    by (auto dest: find_SomeD)
  let ?f = "\<lambda>r. if ak_id r = keyId \<and> ak_orgId r = orgId then r\<lparr>ak_isActive := False\<rparr> else r"
  let ?d = "writeOutboxEvent eventId t ''api_key.revoked'' (key_event_payload orgId k)
      (d\<lparr>api_keys := tenant_update ak_orgId orgId (\<lambda>r. ak_id r = keyId) (\<lambda>r. r\<lparr>ak_isActive := False\<rparr>) (api_keys d)\<rparr>)"
  let ?k = "k\<lparr>ak_lastUsedAt := None\<rparr>"
  have in_table: "?k \<in> set (key_table d)" using k by (auto simp: key_table_def)
  have table: "key_table ?d = map ?f (key_table d)"
    by (auto simp: key_table_def writeOutboxEvent_def tenant_update_def)
  have found: "list_ex (\<lambda>r. ak_id r = keyId \<and> ak_orgId r = orgId) (key_table d)"
    using k unfolding list_ex_iff by (intro bexI [OF _ in_table]) simp
  have dist: "keys_distinct (key_table d)" using ok by (simp add: keys_ok_def)
  show ?thesis
  proof (cases "is_uuid orgId")
    case False
    with ok show ?thesis by (auto simp: revokeApiKey_def spec_step_def withTenant_def not_uuid_error_def)
  next
    case True
    have "keys_ok R t (r_del R (apiKeyCacheKey (ak_keyHash k)) t s) ?d"
      unfolding keys_ok_def table
    proof (intro conjI allI impI)
      have "map ak_id (map ?f (key_table d)) = map ak_id (key_table d)"
        "map ak_keyHash (map ?f (key_table d)) = map ak_keyHash (key_table d)" by simp_all
      then show "keys_distinct (map ?f (key_table d))" using dist unfolding keys_distinct_def by metis
      fix h t' v
      assume "t \<le> t'" "r_read R (apiKeyCacheKey h) t' (r_del R (apiKeyCacheKey (ak_keyHash k)) t s) = Some v"
      then have h: "h \<noteq> ak_keyHash k" "r_read R (apiKeyCacheKey h) t' s = Some v"
        by (auto simp: read_del split: if_splits)
      then obtain c where "spec_resolve h (key_table d) = Some c" "v = RStr (SJson (ctx_json c))"
        using ok \<open>t \<le> t'\<close> unfolding keys_ok_def by blast
      with h(1) show "\<exists>c. spec_resolve h (map ?f (key_table d)) = Some c \<and> v = RStr (SJson (ctx_json c))"
        using spec_resolve_revoke [OF dist in_table, of keyId orgId h] k by simp
    qed
    with True Some found table show ?thesis
      by (auto simp: revokeApiKey_def spec_step_def withTenant_def)
  qed
qed

lemma auth_step_refines:
  assumes ok: "keys_ok R t s d"
  shows "\<exists>s' d'. auth_step R sha t x (s, d) = (fst (spec_step sha t x (key_table d)), s', d')
    \<and> key_table d' = snd (spec_step sha t x (key_table d)) \<and> keys_ok R t s' d'"
proof (cases x)
  case (Create random rowId eventId orgId scopes rpm)
  with create_step [OF ok, of sha random rowId eventId orgId scopes rpm] show ?thesis
    by (auto simp: auth_step_def spec_step_def Let_def)
next
  case (Resolve raw)
  with resolve_step [OF ok, of sha raw] show ?thesis by (auto simp: auth_step_def spec_step_def)
next
  case (Revoke eventId orgId keyId)
  with revoke_step [OF ok, of eventId orgId keyId sha] show ?thesis by (auto simp: auth_step_def spec_step_def)
qed

lemma auth_history_refines:
  assumes "sorted (map snd xs)" "\<forall>x \<in> set xs. t \<le> snd x" "keys_ok R t s d"
  shows "\<exists>s' d'. auth_history R sha xs (s, d) = (fst (spec_history sha xs (key_table d)), s', d')
    \<and> key_table d' = snd (spec_history sha xs (key_table d)) \<and> keys_ok R (last (t # map snd xs)) s' d'"
  using assms
proof (induction xs arbitrary: t s d)
  case (Cons xt xs)
  obtain x u where xt: "xt = (x, u)" by force
  then have "keys_ok R u s d" using Cons.prems keys_ok_later by auto
  then obtain s1 d1 where step: "auth_step R sha u x (s, d) = (fst (spec_step sha u x (key_table d)), s1, d1)"
    "key_table d1 = snd (spec_step sha u x (key_table d))" "keys_ok R u s1 d1"
    using auth_step_refines by blast
  have "sorted (map snd xs)" "\<forall>y \<in> set xs. u \<le> snd y" using Cons.prems(1) xt by auto
  from Cons.IH [OF this step(3)] step xt show ?case by (auto simp: split_beta Let_def)
qed simp

end

lemma spec_step_revoked:
  assumes "spec_resolve h ks = None" "h \<in> ak_keyHash ` set ks" "keys_distinct ks"
  shows "spec_resolve h (snd (spec_step sha t x ks)) = None \<and> h \<in> ak_keyHash ` set (snd (spec_step sha t x ks))
    \<and> keys_distinct (snd (spec_step sha t x ks))"
proof (cases x)
  case (Create random rowId eventId orgId scopes rpm)
  with assms show ?thesis
    by (auto simp: spec_step_def Let_def spec_resolve_append keys_distinct_def)
next
  case (Resolve raw)
  with assms show ?thesis by (simp add: spec_step_def)
next
  case (Revoke eventId orgId keyId)
  let ?f = "\<lambda>r. if ak_id r = keyId \<and> ak_orgId r = orgId then r\<lparr>ak_isActive := False\<rparr> else r"
  have cong: "map ak_id (map ?f ks) = map ak_id ks" "map ak_keyHash (map ?f ks) = map ak_keyHash ks" by simp_all
  then have "keys_distinct (map ?f ks)" using assms(3) unfolding keys_distinct_def by metis
  moreover have "h \<in> ak_keyHash ` set (map ?f ks)" using assms(2) cong(2) by (metis list.set_map)
  moreover have "spec_resolve h (map ?f ks) = None"
    using assms(1) by (auto simp: spec_resolve_def find_map_same split: option.splits)
  ultimately show ?thesis using Revoke assms by (simp add: spec_step_def)
qed

lemma spec_history_revoked:
  "spec_resolve h ks = None \<Longrightarrow> h \<in> ak_keyHash ` set ks \<Longrightarrow> keys_distinct ks \<Longrightarrow>
     spec_resolve h (snd (spec_history sha xs ks)) = None"
proof (induction xs arbitrary: ks)
  case (Cons xt xs)
  then show ?case
    using spec_step_revoked [OF Cons.prems, of sha "snd xt" "fst xt"] by (cases xt) (simp add: split_beta Let_def)
qed simp

text \<open>
  C5. Caching API keys in Redis changes nothing that a caller can see: for every sequence of key
  creations, revocations and lookups run one after the other, on any server that keeps the contract of
  Redis, each answer is the answer of a plain table of keys without a cache, and the cache stays coherent.
\<close>

theorem api_key_cache_refines:
  assumes "redis_service R" "sorted (map snd xs)" "\<forall>x \<in> set xs. t \<le> snd x" "keys_ok R t s d"
  shows "\<exists>s' d'. auth_history R sha xs (s, d) = (fst (spec_history sha xs (key_table d)), s', d')
    \<and> key_table d' = snd (spec_history sha xs (key_table d)) \<and> keys_ok R (last (t # map snd xs)) s' d'"
  using assms by (rule redis_service.auth_history_refines)

theorem api_key_cache_refines_witness:
  "fst (auth_history mem_redis (\<lambda>k. k)
      [(Create ''abc'' ''k1'' ''e1'' demo_org [''chat''] None, 1), (Resolve ''cm_live_abc'', 2), (Revoke ''e2'' demo_org ''k1'', 3),
       (Resolve ''cm_live_abc'', 4)] (mem_empty, empty_db)) =
   fst (spec_history (\<lambda>k. k)
      [(Create ''abc'' ''k1'' ''e1'' demo_org [''chat''] None, 1), (Resolve ''cm_live_abc'', 2), (Revoke ''e2'' demo_org ''k1'', 3),
       (Resolve ''cm_live_abc'', 4)] [])"
proof -
  have "keys_ok mem_redis 0 mem_empty empty_db"
    by (simp add: keys_ok_def keys_distinct_def key_table_def empty_db_def)
  moreover have "key_table empty_db = []" by (simp add: key_table_def empty_db_def)
  ultimately show ?thesis
    using api_key_cache_refines [OF mem.redis_service_axioms, of
        "[(Create ''abc'' ''k1'' ''e1'' demo_org [''chat''] None, 1), (Resolve ''cm_live_abc'', 2), (Revoke ''e2'' demo_org ''k1'', 3),
          (Resolve ''cm_live_abc'', 4)]" 0 mem_empty empty_db "\<lambda>k. k"]
    by (auto simp del: auth_history.simps spec_history.simps)
qed

text \<open>
  A revoked key stops working at once and for good: after a successful revocation, whatever key
  operations follow, a request that presents the key is answered 401, even if the key had been cached
  a moment before; and a revocation from another organisation is answered 404 and changes nothing.
\<close>

theorem revoked_key_refused:
  assumes "redis_service R" "keys_ok R t s d" and k: "k \<in> set (api_keys d)" "sha raw = ak_keyHash k"
    and revoke: "revokeApiKey R eventId (ak_orgId k) (ak_id k) t (s, d) = (Inr (), s1, d1)"
    and hist: "sorted (map snd xs)" "\<forall>x \<in> set xs. t \<le> snd x" "auth_history R sha xs (s1, d1) = (outs, s2, d2)"
    and u: "last (t # map snd xs) \<le> u" and "extractToken header = Some raw"
  shows "fst (requireApiKey R sha header u (s2, d2)) = Inl (UnauthorizedError ''Invalid API key'')
    \<and> (is_uuid other \<and> other \<noteq> ak_orgId k \<longrightarrow>
         revokeApiKey R eventId other (ak_id k) t (s, d) = (Inl (ThrownApp (NotFoundError ''API key not found'')), s, d))"
proof
  let ?k = "k\<lparr>ak_lastUsedAt := None\<rparr>"
  have table: "?k \<in> set (key_table d)" using k by (auto simp: key_table_def)
  have dist: "keys_distinct (key_table d)" using assms(2) by (simp add: keys_ok_def)
  obtain s' d' where step: "revokeApiKey R eventId (ak_orgId k) (ak_id k) t (s, d) =
      (case spec_step sha t (Revoke eventId (ak_orgId k) (ak_id k)) (key_table d) of (OutRevoked r, _) \<Rightarrow> r, s', d')"
    "key_table d' = snd (spec_step sha t (Revoke eventId (ak_orgId k) (ak_id k)) (key_table d))" "keys_ok R t s' d'"
    using redis_service.revoke_step [OF assms(1,2)] by blast
  then have same: "s' = s1" "d' = d1" and uuid: "is_uuid (ak_orgId k)"
    using revoke by (auto simp: spec_step_def split: if_splits)
  have "list_ex (\<lambda>r. ak_id r = ak_id k \<and> ak_orgId r = ak_orgId k) (key_table d)"
    unfolding list_ex_iff by (intro bexI [OF _ table]) simp
  then have table1: "key_table d1 = map (\<lambda>r. if ak_id r = ak_id k \<and> ak_orgId r = ak_orgId k then r\<lparr>ak_isActive := False\<rparr> else r) (key_table d)"
    using step(2) same uuid by (simp add: spec_step_def)
  have none: "spec_resolve (ak_keyHash k) (key_table d1) = None"
    unfolding table1 using spec_resolve_revoke [OF dist table, of "ak_id k" "ak_orgId k" "ak_keyHash k"] by simp
  have "map ak_keyHash (key_table d1) = map ak_keyHash (key_table d)" by (simp add: table1)
  then have "ak_keyHash k \<in> ak_keyHash ` set (key_table d1)"
    using k by (metis key_table_images(1) list.set_map imageI)
  moreover have "keys_distinct (key_table d1)" using step(3) same by (simp add: keys_ok_def)
  ultimately have later: "spec_resolve (ak_keyHash k) (snd (spec_history sha xs (key_table d1))) = None"
    using none spec_history_revoked by blast
  have "key_table d2 = snd (spec_history sha xs (key_table d1))" "keys_ok R (last (t # map snd xs)) s2 d2"
    using redis_service.auth_history_refines [OF assms(1) hist(1,2), of s1 d1 sha] step(3) same hist(3) by auto
  with later have "keys_ok R u s2 d2" "spec_resolve (sha raw) (key_table d2) = None"
    using redis_service.keys_ok_later [OF assms(1) _ u] k(2) by auto
  then show "fst (requireApiKey R sha header u (s2, d2)) = Inl (UnauthorizedError ''Invalid API key'')"
    using redis_service.resolve_step [OF assms(1), of u s2 d2 sha raw] \<open>extractToken header = Some raw\<close>
    by (auto simp: requireApiKey_def)
  have "find (\<lambda>r. ak_id r = ak_id k) (tenant_rows ak_orgId other (api_keys d)) = None" if "other \<noteq> ak_orgId k"
  proof -
    have "distinct (map ak_id (api_keys d))" using dist by (simp add: keys_distinct_def key_table_def comp_def)
    with k(1) that show ?thesis by (auto simp: find_None_iff distinct_map inj_on_def)
  qed
  then show "is_uuid other \<and> other \<noteq> ak_orgId k \<longrightarrow>
      revokeApiKey R eventId other (ak_id k) t (s, d) = (Inl (ThrownApp (NotFoundError ''API key not found'')), s, d)"
    by (simp add: revokeApiKey_def withTenant_def)
qed

definition demo_key :: ApiKey where
  "demo_key = \<lparr>ak_id = ''k1'', ak_orgId = demo_org, ak_keyHash = ''cm_live_abc'', ak_keyPrefix = ''cm_live_abc'', ak_scopes = [],
     ak_isActive = True, ak_rateLimitRpm = 60, ak_lastUsedAt = None, ak_createdAt = 0\<rparr>"

lemma demo_keys_ok: "keys_ok mem_redis 0 mem_empty (empty_db\<lparr>api_keys := [demo_key]\<rparr>)"
  by (simp add: keys_ok_def keys_distinct_def key_table_def)

theorem revoked_key_refused_witness:
  "\<exists>s1 d1. revokeApiKey mem_redis ''e'' demo_org ''k1'' 0 (mem_empty, empty_db\<lparr>api_keys := [demo_key]\<rparr>) = (Inr (), s1, d1)
    \<and> fst (requireApiKey mem_redis (\<lambda>k. k) (Some ''Bearer cm_live_abc'') 5 (s1, d1)) = Inl (UnauthorizedError ''Invalid API key'')"
proof -
  obtain s1 d1 where run:
    "revokeApiKey mem_redis ''e'' (ak_orgId demo_key) (ak_id demo_key) 0 (mem_empty, empty_db\<lparr>api_keys := [demo_key]\<rparr>) = (Inr (), s1, d1)"
    by (simp add: revokeApiKey_def withTenant_def demo_key_def tenant_rows_def)
  have token: "extractToken (Some ''Bearer cm_live_abc'') = Some ''cm_live_abc''" by code_simp
  have key: "demo_key \<in> set (api_keys (empty_db\<lparr>api_keys := [demo_key]\<rparr>))" "''cm_live_abc'' = ak_keyHash demo_key"
    and sel: "ak_orgId demo_key = demo_org" "ak_id demo_key = ''k1''"
    by (simp_all add: demo_key_def)
  have "fst (requireApiKey mem_redis (\<lambda>k. k) (Some ''Bearer cm_live_abc'') 5 (s1, d1)) = Inl (UnauthorizedError ''Invalid API key'')"
    by (rule revoked_key_refused [where raw = "''cm_live_abc''" and xs = "[]" and outs = "[]",
          OF mem.redis_service_axioms demo_keys_ok key(1) _ run, THEN conjunct1]) (simp_all add: token demo_key_def)
  with run [unfolded sel] show ?thesis by blast
qed

section \<open>One notification per window\<close>

fun rate_limited_run ::
    "('s, 'm) redis_scheme \<Rightarrow> string \<Rightarrow> (string \<times> string \<times> rat \<times> ms) list \<Rightarrow> 's \<times> db \<Rightarrow> 's \<times> db" where
  "rate_limited_run R orgId [] st = st"
| "rate_limited_run R orgId ((rowId, apiKeyId, wait, t) # xs) st =
     rate_limited_run R orgId xs (emitRateLimitedEvent R rowId orgId apiKeyId wait t st)"

context redis_service
begin

lemma emit_slot_taken:
  "r_read R (rateLimitedSlot orgId) t s = Some v \<Longrightarrow> emitRateLimitedEvent R rowId orgId k wait t (s, d) = (s, d)"
  by (simp add: emitRateLimitedEvent_def claimDedupeSlot_def r_set_nx_def)

lemma slot_taken_run:
  assumes "\<And>u. t \<le> u \<Longrightarrow> u < T \<Longrightarrow> r_read R (rateLimitedSlot orgId) u s = Some v"
  shows "\<forall>x \<in> set xs. t \<le> snd (snd (snd x)) \<and> snd (snd (snd x)) < T \<Longrightarrow> rate_limited_run R orgId xs (s, d) = (s, d)"
proof (induction xs)
  case (Cons x xs)
  obtain rowId k wait u where x: "x = (rowId, k, wait, u)" by (cases x)
  with Cons.prems have "emitRateLimitedEvent R rowId orgId k wait u (s, d) = (s, d)"
    using emit_slot_taken [OF assms] by auto
  with Cons x show ?case by simp
qed simp

lemma emit_slot_free:
  assumes "r_read R (rateLimitedSlot orgId) t s = None" "is_uuid orgId"
  obtains s' e where "\<And>d. emitRateLimitedEvent R rowId orgId k wait t (s, d) = (s', d\<lparr>outbox_events := outbox_events d @ [e]\<rparr>)"
    "ob_eventType e = ''request.rate_limited''" "ob_id e = rowId"
    "\<And>u. t \<le> u \<Longrightarrow> r_read R (rateLimitedSlot orgId) u s' = (if u < t + 60000 then Some (RStr (SText ''1'')) else None)"
proof -
  let ?s = "r_set R (rateLimitedSlot orgId) (SText ''1'') 60000 t s"
  let ?p = "JObj [(''orgId'', JStr orgId), (''apiKeyId'', JStr k), (''retryAfterSeconds'', JNum wait),
      (''dedupeWindowSeconds'', JNum (of_int RATE_LIMITED_DEDUPE_SECONDS)), (''occurredAt'', JStr (toISOString t))]"
  have "emitRateLimitedEvent R rowId orgId k wait t (s, d) = (?s, d\<lparr>outbox_events := outbox_events d @
      [\<lparr>ob_id = rowId, ob_eventType = ''request.rate_limited'', ob_payload = ?p, ob_publishedAt = None, ob_createdAt = t\<rparr>]\<rparr>)" for d
    using assms by (simp add: emitRateLimitedEvent_def claimDedupeSlot_def r_set_nx_def emit_def withTenant_def
        writeOutboxEvent_def RATE_LIMITED_DEDUPE_SECONDS_def)
  from that [OF this] show ?thesis by (simp add: read_set)
qed

lemma rate_limited_window:
  assumes "r_read R (rateLimitedSlot orgId) t s = None" "is_uuid orgId"
    and "\<forall>x \<in> set xs. t \<le> snd (snd (snd x)) \<and> snd (snd (snd x)) < t + 60000" "t + 60000 \<le> t'"
  shows "\<exists>s' s'' e e'. rate_limited_run R orgId ((rowId, k, wait, t) # xs) (s, d) = (s', d\<lparr>outbox_events := outbox_events d @ [e]\<rparr>)
    \<and> ob_eventType e = ''request.rate_limited'' \<and> ob_id e = rowId
    \<and> emitRateLimitedEvent R rowId' orgId k' wait' t' (s', d\<lparr>outbox_events := outbox_events d @ [e]\<rparr>) =
        (s'', d\<lparr>outbox_events := outbox_events d @ [e, e']\<rparr>)"
proof -
  obtain s' e where e: "\<And>d. emitRateLimitedEvent R rowId orgId k wait t (s, d) = (s', d\<lparr>outbox_events := outbox_events d @ [e]\<rparr>)"
    "ob_eventType e = ''request.rate_limited''" "ob_id e = rowId"
    "\<And>u. t \<le> u \<Longrightarrow> r_read R (rateLimitedSlot orgId) u s' = (if u < t + 60000 then Some (RStr (SText ''1'')) else None)"
    using emit_slot_free [OF assms(1,2)] by metis
  have "rate_limited_run R orgId ((rowId, k, wait, t) # xs) (s, d) = (s', d\<lparr>outbox_events := outbox_events d @ [e]\<rparr>)"
    using slot_taken_run [of t "t + 60000" orgId s', OF _ assms(3)] e(1,4) by simp
  moreover have "r_read R (rateLimitedSlot orgId) t' s' = None" using e(4) [of t'] assms(4) by simp
  then obtain s'' e' where "\<And>d. emitRateLimitedEvent R rowId' orgId k' wait' t' (s', d) = (s'', d\<lparr>outbox_events := outbox_events d @ [e']\<rparr>)"
    using emit_slot_free [OF _ assms(2)] by metis
  ultimately show ?thesis using e(2,3) by auto
qed

end

text \<open>
  However hard a rate-limited organisation is hammered, the durable notification is written once
  per window: the first rejection writes one outbox event, every further one in the next 60 seconds
  writes nothing and leaves the store alone, and the first one after that writes again.
\<close>

theorem rate_limited_event_once_per_window:
  assumes "redis_service R" "r_read R (rateLimitedSlot orgId) t s = None" "is_uuid orgId"
    and "\<forall>x \<in> set xs. t \<le> snd (snd (snd x)) \<and> snd (snd (snd x)) < t + 60000" "t + 60000 \<le> t'"
  shows "\<exists>s' s'' e e'. rate_limited_run R orgId ((rowId, k, wait, t) # xs) (s, d) = (s', d\<lparr>outbox_events := outbox_events d @ [e]\<rparr>)
    \<and> ob_eventType e = ''request.rate_limited'' \<and> ob_id e = rowId
    \<and> emitRateLimitedEvent R rowId' orgId k' wait' t' (s', d\<lparr>outbox_events := outbox_events d @ [e]\<rparr>) =
        (s'', d\<lparr>outbox_events := outbox_events d @ [e, e']\<rparr>)"
  using assms by (rule redis_service.rate_limited_window)

theorem rate_limited_event_once_per_window_witness:
  "\<exists>s' d'. rate_limited_run mem_redis demo_org [(''e1'', ''k'', 1, 100), (''e2'', ''k'', 1, 200), (''e3'', ''k'', 1, 60000)]
      (mem_empty, empty_db) = (s', d') \<and> length (outbox_events d') = 1"
proof -
  have "\<forall>x \<in> set [(''e2'', ''k'', 1 :: rat, 200 :: ms), (''e3'', ''k'', 1, 60000)].
      100 \<le> snd (snd (snd x)) \<and> snd (snd (snd x)) < 100 + 60000" by simp
  from rate_limited_event_once_per_window [OF mem.redis_service_axioms _ is_uuid_demo_org this order_refl, of mem_empty "''e1''" "''k''" 1 empty_db,
      where rowId' = "''e4''" and k' = "''k''" and wait' = 1]
  obtain s' e where "rate_limited_run mem_redis demo_org [(''e1'', ''k'', 1, 100), (''e2'', ''k'', 1, 200), (''e3'', ''k'', 1, 60000)]
      (mem_empty, empty_db) = (s', empty_db\<lparr>outbox_events := outbox_events empty_db @ [e]\<rparr>)"
    by (auto simp del: rate_limited_run.simps)
  then show ?thesis by (simp add: empty_db_def del: rate_limited_run.simps)
qed

end
