(* ===== verification/GatewayState.thy ===== *)
theory GatewayState
  imports ApiKeys
begin

text \<open>
  The smaller libraries of the gateway that keep state for a request: feature flags
  (\<^verbatim>\<open>featureFlags.ts\<close>), idempotent replays (\<^verbatim>\<open>idempotency.ts\<close>), coalescing of identical requests
  (\<^verbatim>\<open>requestDedup.ts\<close>), the semantic response cache (\<^verbatim>\<open>semanticCache.ts\<close>) and the live statistics
  of an organisation (\<^verbatim>\<open>orgLiveStats.ts\<close>). The vector distance of the database is a parameter \<open>vdist\<close>
  and SHA-256 the parameter \<open>sha\<close>. What is stored as JSON is stored structurally; a reading function
  gives back what the cast in the source sees.
\<close>

section \<open>featureFlags.ts\<close>

definition FLAGS_TTL_SECONDS :: int where
  "FLAGS_TTL_SECONDS = 60"

definition AB_CONFIG_MAX_VARIANTS :: nat where
  "AB_CONFIG_MAX_VARIANTS = 10"

definition AB_CONFIG_MAX_WEIGHT :: rat where
  "AB_CONFIG_MAX_WEIGHT = 1000000"

record OrgFeatureFlags =
  ff_semantic_cache :: bool
  ff_request_dedup :: bool
  ff_cache_ttl_days :: "rat option"
  ff_billing_enforcement :: bool
  ff_routing_preset :: string
  ff_ab_config :: "AbConfig option"

definition FLAG_DEFAULTS :: OrgFeatureFlags where
  "FLAG_DEFAULTS = \<lparr>ff_semantic_cache = False, ff_request_dedup = False, ff_cache_ttl_days = None,
     ff_billing_enforcement = False, ff_routing_preset = DEFAULT_ROUTING_PRESET, ff_ab_config = None\<rparr>"

definition ab_entry :: "string \<times> json \<Rightarrow> (string \<times> rat) option" where
  "ab_entry e =
     (case snd e of
        JNum w \<Rightarrow> if 0 < w \<and> w \<le> AB_CONFIG_MAX_WEIGHT \<and> length (fst e) > 0 then Some (fst e, w) else None
      | _ \<Rightarrow> None)"

definition coerceAbConfig :: "json option \<Rightarrow> AbConfig option" where
  "coerceAbConfig raw =
     (case raw of
        Some (JObj kvs) \<Rightarrow>
          (let entries = List.map_filter ab_entry kvs
           in if length entries = 0 then None else Some (take AB_CONFIG_MAX_VARIANTS entries))
      | _ \<Rightarrow> None)"

definition flags_cacheKey :: "string \<Rightarrow> string" where
  "flags_cacheKey orgId = ''feature_flags:'' @ orgId"

text \<open>Only objects and arrays have \<^verbatim>\<open>typeof raw === "object"\<close>; the properties read here are no array's.\<close>

definition coerce :: "json option \<Rightarrow> OrgFeatureFlags" where
  "coerce raw =
     (case raw of
        Some (JObj kvs) \<Rightarrow>
          (let obj = JObj kvs
           in \<lparr>ff_semantic_cache = (jget obj ''semantic_cache'' = Some (JBool True)),
               ff_request_dedup = (jget obj ''request_dedup'' = Some (JBool True)),
               ff_cache_ttl_days = (case as_number (jget obj ''cache_ttl_days'') of
                   Some n \<Rightarrow> if n > 0 then Some n else None
                 | None \<Rightarrow> None),
               ff_billing_enforcement = (jget obj ''billing_enforcement'' = Some (JBool True)),
               ff_routing_preset = (if isRoutingPresetName (jget obj ''routing_preset'')
                   then jstr (jget obj ''routing_preset'') else DEFAULT_ROUTING_PRESET),
               ff_ab_config = coerceAbConfig (jget obj ''ab_config'')\<rparr>)
      | _ \<Rightarrow> FLAG_DEFAULTS)"

text \<open>\<^verbatim>\<open>JSON.stringify\<close> leaves out what is \<^verbatim>\<open>undefined\<close>.\<close>

definition flags_json :: "OrgFeatureFlags \<Rightarrow> json" where
  "flags_json f =
     JObj ([(''semantic_cache'', JBool (ff_semantic_cache f)), (''request_dedup'', JBool (ff_request_dedup f))]
       @ (case ff_cache_ttl_days f of None \<Rightarrow> [] | Some n \<Rightarrow> [(''cache_ttl_days'', JNum n)])
       @ [(''billing_enforcement'', JBool (ff_billing_enforcement f)), (''routing_preset'', JStr (ff_routing_preset f))]
       @ (case ff_ab_config f of None \<Rightarrow> [] | Some ab \<Rightarrow> [(''ab_config'', JObj (map (\<lambda>(k, w). (k, JNum w)) ab))]))"

definition ab_of_json :: "json \<Rightarrow> AbConfig" where
  "ab_of_json j = (case j of JObj kvs \<Rightarrow> map (\<lambda>(k, v). (k, jnum (Some v))) kvs | _ \<Rightarrow> [])"

definition flags_of_json :: "json \<Rightarrow> OrgFeatureFlags" where
  "flags_of_json j =
     \<lparr>ff_semantic_cache = (jget j ''semantic_cache'' = Some (JBool True)),
      ff_request_dedup = (jget j ''request_dedup'' = Some (JBool True)),
      ff_cache_ttl_days = as_number (jget j ''cache_ttl_days''),
      ff_billing_enforcement = (jget j ''billing_enforcement'' = Some (JBool True)),
      ff_routing_preset = jstr (jget j ''routing_preset''),
      ff_ab_config = map_option ab_of_json (jget j ''ab_config'')\<rparr>"

definition getOrgFeatureFlags ::
    "('s, 'm) redis_scheme \<Rightarrow> string \<Rightarrow> ms \<Rightarrow> 's \<times> db \<Rightarrow> OrgFeatureFlags \<times> 's" where
  "getOrgFeatureFlags R orgId t = (\<lambda>(s, d).
     case stored_json (r_get R (flags_cacheKey orgId) t s) of
       Some cached \<Rightarrow> (flags_of_json cached, s)
     | None \<Rightarrow>
         (let flags = coerce (map_option org_featureFlags (find_org orgId d))
          in (flags, r_set R (flags_cacheKey orgId) (SJson (flags_json flags)) (FLAGS_TTL_SECONDS * 1000) t s)))"

section \<open>idempotency.ts\<close>

record IdempotentRecord =
  ir_statusCode :: int
  ir_body :: json

definition idempotencyKey :: "string \<Rightarrow> string \<Rightarrow> string" where
  "idempotencyKey orgId key = ''idempotency:'' @ orgId @ '':'' @ key"

definition idem_json :: "IdempotentRecord \<Rightarrow> json" where
  "idem_json r = JObj [(''statusCode'', JNum (of_int (ir_statusCode r))), (''body'', ir_body r)]"

definition idem_of_json :: "json \<Rightarrow> IdempotentRecord" where
  "idem_of_json j = \<lparr>ir_statusCode = math_floor (jnum (jget j ''statusCode'')),
     ir_body = (case jget j ''body'' of None \<Rightarrow> JNull | Some b \<Rightarrow> b)\<rparr>"

definition getIdempotentReplay ::
    "('s, 'm) redis_scheme \<Rightarrow> string \<Rightarrow> string \<Rightarrow> ms \<Rightarrow> 's \<Rightarrow> IdempotentRecord option" where
  "getIdempotentReplay R orgId key t s = map_option idem_of_json (stored_json (r_get R (idempotencyKey orgId key) t s))"

definition storeIdempotentResult ::
    "('s, 'm) redis_scheme \<Rightarrow> string \<Rightarrow> string \<Rightarrow> IdempotentRecord \<Rightarrow> int \<Rightarrow> ms \<Rightarrow> 's \<Rightarrow> 's" where
  "storeIdempotentResult R orgId key r ttlSeconds t s =
     r_set R (idempotencyKey orgId key) (SJson (idem_json r)) (ttlSeconds * 1000) t s"

section \<open>requestDedup.ts\<close>

record RequestDedupOptions =
  leaderTtlSeconds :: int
  followerWaitMs :: ms

definition PROCESSING :: string where
  "PROCESSING = ''__DEDUP_PROCESSING__''"

definition dedupKey :: "string \<Rightarrow> string" where
  "dedupKey key = ''dedup:'' @ key"

definition resultChannel :: "string \<Rightarrow> string" where
  "resultChannel key = ''dedup_result:'' @ key"

definition dedup_failed :: json where
  "dedup_failed = JObj [(''__dedupFailed'', JBool True)]"

text \<open>
  The key holds the marker or a result. \<open>fn\<close> is the caller's work on the shared state, here together
  with its result as JSON. Publishing goes to the channel's subscribers: the list of messages is part of
  the state. For a follower, \<open>meanwhile\<close> is what others do while it subscribes and \<open>awaited\<close> what
  reaches it first: a message, or nothing until the time is up.
\<close>

fun dedup_result :: "sval option \<Rightarrow> json option" where
  "dedup_result (Some (SJson j)) = Some j"
| "dedup_result _ = None"

type_synonym 's dedup_state = "'s \<times> (string \<times> json) list"

definition run_leader ::
    "('s, 'm) redis_scheme \<Rightarrow> string \<Rightarrow> (thrown, json, 's dedup_state) call \<Rightarrow> RequestDedupOptions \<Rightarrow> (thrown, json, 's dedup_state) call" where
  "run_leader R key fn opts t st =
     (case fn t st of
        (Inr res, t', s', ch) \<Rightarrow>
          (Inr res, t', r_set R (dedupKey key) (SJson res) (leaderTtlSeconds opts * 1000) t' s', ch @ [(resultChannel key, res)])
      | (Inl err, t', s', ch) \<Rightarrow>
          (Inl err, t', r_del R (dedupKey key) t' s', ch @ [(resultChannel key, dedup_failed)]))"

definition waitForLeader ::
    "('s, 'm) redis_scheme \<Rightarrow> string \<Rightarrow> (ms \<times> 's dedup_state \<Rightarrow> ms \<times> 's dedup_state) \<Rightarrow> json option
      \<Rightarrow> (thrown, json, 's dedup_state) call \<Rightarrow> RequestDedupOptions \<Rightarrow> (thrown, json, 's dedup_state) call" where
  "waitForLeader R key meanwhile awaited fallback opts t st =
     (let (t1, s1, ch1) = meanwhile (t, st)
      in case dedup_result (r_get R (dedupKey key) t1 s1) of
           Some res \<Rightarrow> (Inr res, t1, s1, ch1)
         | None \<Rightarrow>
             (case awaited of
                None \<Rightarrow> fallback (t1 + followerWaitMs opts) (s1, ch1)
              | Some msg \<Rightarrow>
                  if jget msg ''__dedupFailed'' = Some (JBool True) then fallback t1 (s1, ch1)
                  else (Inr msg, t1, s1, ch1)))"

definition withRequestDedup ::
    "('s, 'm) redis_scheme \<Rightarrow> string \<Rightarrow> (ms \<times> 's dedup_state \<Rightarrow> ms \<times> 's dedup_state) \<Rightarrow> json option
      \<Rightarrow> (thrown, json, 's dedup_state) call \<Rightarrow> RequestDedupOptions \<Rightarrow> (thrown, json, 's dedup_state) call" where
  "withRequestDedup R key meanwhile awaited fn opts t st =
     (let (claimed, s1) = r_set_nx R (dedupKey key) (SText PROCESSING) (leaderTtlSeconds opts * 1000) t (fst st)
      in if claimed then run_leader R key fn opts t (s1, snd st)
         else
           (case dedup_result (r_get R (dedupKey key) t s1) of
              Some res \<Rightarrow> (Inr res, t, s1, snd st)
            | None \<Rightarrow> waitForLeader R key meanwhile awaited fn opts t (s1, snd st)))"

section \<open>semanticCache.ts\<close>

record SemanticCacheLookupOptions =
  similarityThreshold :: rat
  ttlDays :: int

definition message_json :: "UnifiedMessage \<Rightarrow> json" where
  "message_json m =
     JObj [(''role'', JStr (case role m of System \<Rightarrow> ''system'' | User \<Rightarrow> ''user'' | Assistant \<Rightarrow> ''assistant'')),
           (''content'', JStr (content m))]"

definition computePromptHash :: "(json \<Rightarrow> string) \<Rightarrow> string \<Rightarrow> UnifiedMessage list \<Rightarrow> string" where
  "computePromptHash sha_json model messages =
     sha_json (JObj [(''model'', JStr model), (''messages'', JArr (map message_json messages))])"

definition cache_live :: "string \<Rightarrow> string \<Rightarrow> int \<Rightarrow> ms \<Rightarrow> SemanticCacheEntry \<Rightarrow> bool" where
  "cache_live orgId model days now e \<longleftrightarrow>
     sce_orgId e = orgId \<and> sce_model e = model \<and> sce_createdAt e > now - days * DAY_MS"

definition exact_hits :: "string \<Rightarrow> string \<Rightarrow> string \<Rightarrow> int \<Rightarrow> ms \<Rightarrow> db \<Rightarrow> SemanticCacheEntry list" where
  "exact_hits orgId model promptHash days now d =
     sort_key (\<lambda>e. - sce_createdAt e)
       (filter (\<lambda>e. cache_live orgId model days now e \<and> sce_promptHash e = promptHash) (semantic_cache d))"

definition semantic_hits ::
    "(rat list \<Rightarrow> rat list \<Rightarrow> rat) \<Rightarrow> string \<Rightarrow> string \<Rightarrow> rat list \<Rightarrow> int \<Rightarrow> ms \<Rightarrow> db \<Rightarrow> (rat \<times> SemanticCacheEntry) list" where
  "semantic_hits vdist orgId model v days now d =
     sort_key fst (List.map_filter (\<lambda>e. if cache_live orgId model days now e
         then map_option (\<lambda>w. (vdist w v, e)) (sce_embedding e) else None) (semantic_cache d))"

definition lookupCache ::
    "(rat list \<Rightarrow> rat list \<Rightarrow> rat) \<Rightarrow> db \<Rightarrow> string \<Rightarrow> string \<Rightarrow> string \<Rightarrow> (thrown, rat list) result \<Rightarrow> SemanticCacheLookupOptions \<Rightarrow> ms
      \<Rightarrow> (thrown, string option) result" where
  "lookupCache vdist d orgId model promptHash embedding opts now =
     fst (withTenant d orgId (\<lambda>tx.
       case exact_hits orgId model promptHash (ttlDays opts) now tx of
         e # _ \<Rightarrow> (Inr (Some (sce_response e)), tx)
       | [] \<Rightarrow>
           (case embedding of
              Inl err \<Rightarrow> (Inl err, tx)
            | Inr v \<Rightarrow>
                (case semantic_hits vdist orgId model v (ttlDays opts) now tx of
                   [] \<Rightarrow> (Inr None, tx)
                 | (dd, e) # _ \<Rightarrow> (Inr (if 1 - dd \<ge> similarityThreshold opts then Some (sce_response e) else None), tx)))))"

definition storeCache ::
    "string \<Rightarrow> string \<Rightarrow> string \<Rightarrow> rat list \<Rightarrow> string \<Rightarrow> ms \<Rightarrow> db \<Rightarrow> (thrown, unit) result \<times> db" where
  "storeCache orgId model promptHash embedding response now d =
     withTenant d orgId (\<lambda>tx. (Inr (), tx\<lparr>semantic_cache := semantic_cache tx @
       [\<lparr>sce_orgId = orgId, sce_model = model, sce_promptHash = promptHash, sce_embedding = Some embedding,
         sce_response = response, sce_createdAt = now\<rparr>]\<rparr>))"

definition flushCache :: "string \<Rightarrow> string option \<Rightarrow> db \<Rightarrow> (thrown, nat) result \<times> db" where
  "flushCache orgId keepModel d =
     withTenant d orgId (\<lambda>tx.
       let gone = (\<lambda>e. sce_orgId e = orgId \<and>
             (case keepModel of None \<Rightarrow> True | Some m \<Rightarrow> m = [] \<or> sce_model e \<noteq> m))
       in (Inr (length (filter gone (semantic_cache tx))), tx\<lparr>semantic_cache := filter (\<lambda>e. \<not> gone e) (semantic_cache tx)\<rparr>))"

datatype cache_outcome = Hit | Miss

definition cache_statsKey :: "string \<Rightarrow> cache_outcome \<Rightarrow> string" where
  "cache_statsKey orgId oc = ''cache_stats:'' @ orgId @ '':'' @ (case oc of Hit \<Rightarrow> ''hit'' | Miss \<Rightarrow> ''miss'')"

definition recordCacheOutcome :: "('s, 'm) redis_scheme \<Rightarrow> string \<Rightarrow> cache_outcome \<Rightarrow> ms \<Rightarrow> 's \<Rightarrow> 's" where
  "recordCacheOutcome R orgId oc t s = snd (r_incr R (cache_statsKey orgId oc) t s)"

record CacheStats =
  hits :: int
  misses :: int

definition getCacheStats :: "('s, 'm) redis_scheme \<Rightarrow> string \<Rightarrow> ms \<Rightarrow> 's \<Rightarrow> CacheStats" where
  "getCacheStats R orgId t s =
     \<lparr>hits = counter_or_zero R (cache_statsKey orgId Hit) t s, misses = counter_or_zero R (cache_statsKey orgId Miss) t s\<rparr>"

section \<open>orgLiveStats.ts\<close>

record LiveStats =
  rps :: rat
  live_p99 :: int
  live_errors :: nat

definition LIVE_WINDOW_MS :: ms where
  "LIVE_WINDOW_MS = 60000"

definition ACTIVE_ORGS_KEY :: string where
  "ACTIVE_ORGS_KEY = ''livestats:active_orgs''"

definition live_statsKey :: "string \<Rightarrow> string" where
  "live_statsKey orgId = ''livestats:'' @ orgId"

definition live_record_script ::
    "('s, 'm) redis_scheme \<Rightarrow> string \<Rightarrow> string \<Rightarrow> ms \<Rightarrow> ms \<Rightarrow> string \<Rightarrow> string \<Rightarrow> 's \<Rightarrow> 's" where
  "live_record_script R key activeOrgsKey now windowMs member orgId s =
     (let s1 = r_zadd R key now member now s;
          s2 = r_zremrangebyscore R key None (now - windowMs) now s1;
          s3 = r_pexpire R key windowMs now s2
      in r_sadd R activeOrgsKey orgId now s3)"

definition recordOrgRequestOutcome ::
    "('s, 'm) redis_scheme \<Rightarrow> string \<Rightarrow> string \<Rightarrow> rat \<Rightarrow> bool \<Rightarrow> ms \<Rightarrow> 's \<Rightarrow> 's" where
  "recordOrgRequestOutcome R uuid orgId latencyMs isError now s =
     live_record_script R (live_statsKey orgId) ACTIVE_ORGS_KEY now LIVE_WINDOW_MS
       (stats_member now latencyMs isError uuid) orgId s"

definition live_of :: "sample list \<Rightarrow> LiveStats" where
  "live_of samples =
     \<lparr>rps = of_int (math_round (of_nat (length samples) / (of_int LIVE_WINDOW_MS / 1000) * 100)) / 100,
      live_p99 = percentile (sort (map sm_latency samples)) 99,
      live_errors = length (filter sm_success samples)\<rparr>"

text \<open>The third field of a member is 1 for an error here; \<open>read_sample\<close> reads the fields.\<close>

definition getOrgLiveStats :: "('s, 'm) redis_scheme \<Rightarrow> string \<Rightarrow> ms \<Rightarrow> 's \<Rightarrow> LiveStats \<times> 's" where
  "getOrgLiveStats R orgId now s =
     (let key = live_statsKey orgId;
          s1 = r_zremrangebyscore R key None (now - LIVE_WINDOW_MS) now s;
          members = map fst (r_zrange R key now s1)
      in if members = [] then (\<lparr>rps = 0, live_p99 = 0, live_errors = 0\<rparr>, s1)
         else (live_of (map read_sample members), s1))"

definition getActiveOrgIds :: "('s, 'm) redis_scheme \<Rightarrow> ms \<Rightarrow> 's \<Rightarrow> string list" where
  "getActiveOrgIds R t s = r_smembers R ACTIVE_ORGS_KEY t s"

section \<open>Feature flags\<close>

definition ab_config_ok :: "AbConfig \<Rightarrow> bool" where
  "ab_config_ok ab \<longleftrightarrow> ab \<noteq> [] \<and> length ab \<le> 10 \<and> list_all (\<lambda>(k, w). k \<noteq> [] \<and> 0 < w \<and> w \<le> 1000000) ab"

definition flags_ok :: "OrgFeatureFlags \<Rightarrow> bool" where
  "flags_ok f \<longleftrightarrow> pred_option ab_config_ok (ff_ab_config f) \<and> pred_option (\<lambda>n. 0 < n) (ff_cache_ttl_days f)
     \<and> has_prop ROUTING_PRESETS (ff_routing_preset f)"

lemma coerceAbConfig_ok: "pred_option ab_config_ok (coerceAbConfig raw)"
proof -
  have "ab_config_ok (take AB_CONFIG_MAX_VARIANTS es)" if "es = List.map_filter ab_entry kvs" "es \<noteq> []" for es kvs
  proof -
    have "\<forall>(k, w) \<in> set es. k \<noteq> [] \<and> 0 < w \<and> w \<le> 1000000"
      unfolding that(1) by (auto simp: List.map_filter_def ab_entry_def AB_CONFIG_MAX_WEIGHT_def split: json.splits if_splits)
    then show ?thesis
      using that(2) by (auto simp: ab_config_ok_def AB_CONFIG_MAX_VARIANTS_def list_all_iff dest: in_set_takeD)
  qed
  then show ?thesis by (simp add: coerceAbConfig_def Let_def split: option.split json.split)
qed

lemma flags_round_trip [simp]: "flags_of_json (flags_json f) = f"
proof -
  have "ab_of_json (JObj (map (\<lambda>(k, w). (k, JNum w)) ab)) = ab" for ab
    by (induction ab) (auto simp: ab_of_json_def)
  then show ?thesis
    by (cases f) (auto simp: flags_of_json_def flags_json_def split: option.splits)
qed

lemma default_preset_known: "has_prop ROUTING_PRESETS DEFAULT_ROUTING_PRESET"
  by (simp add: has_prop_def prop_lookup_def ROUTING_PRESETS_def DEFAULT_ROUTING_PRESET_def)

text \<open>
  Whatever an organisation's flags column holds, the flags the gateway works with are well formed: an
  A/B split is non-empty, has at most ten variants, each with a name and a positive weight of at most
  a million; a cache lifetime is positive; the routing preset is a name the preset table answers to; a
  switch is on only if it is literally \<^verbatim>\<open>true\<close>, and a column that is no object gives the defaults.
  Storing the flags as JSON and reading them back loses nothing.
\<close>

theorem coerced_flags_wf:
  "flags_ok (coerce raw) \<and> flags_of_json (flags_json (coerce raw)) = coerce raw
   \<and> ff_billing_enforcement (coerce raw) = (opt_get raw ''billing_enforcement'' = Some (JBool True))
   \<and> ff_semantic_cache (coerce raw) = (opt_get raw ''semantic_cache'' = Some (JBool True))
   \<and> ff_request_dedup (coerce raw) = (opt_get raw ''request_dedup'' = Some (JBool True))
   \<and> (is_obj raw \<or> coerce raw = FLAG_DEFAULTS)"
proof (cases "is_obj raw")
  case False
  then have "coerce raw = FLAG_DEFAULTS"
    by (auto simp: coerce_def split: option.splits json.splits)
  moreover have "opt_get raw k = None" for k
  proof (cases raw)
    case (Some j)
    with False show ?thesis by (cases j) (simp_all add: opt_get_def)
  qed (simp add: opt_get_def)
  ultimately have "coerce raw = FLAG_DEFAULTS" "\<And>k. opt_get raw k = None" by auto
  then show ?thesis by (simp add: flags_ok_def FLAG_DEFAULTS_def default_preset_known)
next
  case True
  then obtain kvs where raw: "raw = Some (JObj kvs)" by (cases raw rule: is_obj.cases) auto
  have "has_prop ROUTING_PRESETS (ff_routing_preset (coerce raw))"
    by (auto simp: raw coerce_def isRoutingPresetName_def default_preset_known split: option.splits elim!: as_string.elims)
  moreover have "pred_option (\<lambda>n. 0 < n) (ff_cache_ttl_days (coerce raw))"
    by (simp add: raw coerce_def split: option.split)
  ultimately show ?thesis
    by (simp add: flags_ok_def raw opt_get_def) (simp add: coerce_def coerceAbConfig_ok)
qed

section \<open>Idempotent replays\<close>

lemma idem_round_trip [simp]: "idem_of_json (idem_json r) = r"
  by (simp add: idem_of_json_def idem_json_def math_floor_def)

lemma idempotencyKey_eq_iff:
  assumes "CHR '':'' \<notin> set a" "CHR '':'' \<notin> set b"
  shows "idempotencyKey a k = idempotencyKey b l \<longleftrightarrow> a = b \<and> k = l"
  using first_sep_inject [OF assms, of k l] by (simp add: idempotencyKey_def)

lemma colon_notin_uuid: "is_uuid s \<Longrightarrow> CHR '':'' \<notin> set s"
proof
  assume uuid: "is_uuid s" and "CHR '':'' \<in> set s"
  then have "CHR '':'' \<in> set (join_with [CHR ''-''] (split_on (CHR ''-'') s))" by (simp add: join_with_split_on)
  moreover have "set (join_with [CHR ''-''] xss) \<subseteq> insert (CHR ''-'') (\<Union>(set ` set xss))" for xss :: "string list"
    by (induction "[CHR ''-'']" xss rule: join_with.induct) auto
  ultimately obtain g where "g \<in> set (split_on (CHR ''-'') s)" "CHR '':'' \<in> set g" by blast
  moreover have "list_all (list_all is_hex) (split_on (CHR ''-'') s)" using uuid by (simp add: is_uuid_def)
  moreover have "\<not> is_hex (CHR '':'')" by (simp add: is_hex_def hex_value_def)
  ultimately show False by (auto simp: list_all_iff)
qed

text \<open>
  A stored response is replayed, status and body unchanged, to the same organisation under the
  same key until its lifetime ends, and to nobody else: a lookup under another key or by another
  organisation sees what it saw before, so equal keys of different tenants never collide.
\<close>

theorem idempotent_replay_round_trip:
  assumes "redis_service R" "is_uuid orgId" "is_uuid orgId'" "t \<le> t'"
  shows "getIdempotentReplay R orgId' key' t' (storeIdempotentResult R orgId key r ttlSeconds t s) =
     (if orgId' = orgId \<and> key' = key then (if t' < t + ttlSeconds * 1000 then Some r else None)
      else getIdempotentReplay R orgId' key' t' s)"
  using assms
  by (simp add: getIdempotentReplay_def storeIdempotentResult_def redis_service.get_set idempotencyKey_eq_iff colon_notin_uuid)

theorem idempotent_replay_round_trip_witness:
  "getIdempotentReplay mem_redis demo_org ''k'' 5
     (storeIdempotentResult mem_redis demo_org ''k'' \<lparr>ir_statusCode = 200, ir_body = JStr ''hi''\<rparr> 60 1 mem_empty)
   = Some \<lparr>ir_statusCode = 200, ir_body = JStr ''hi''\<rparr>"
  by (subst idempotent_replay_round_trip [OF mem.redis_service_axioms]) simp_all

section \<open>The semantic cache\<close>

lemma map_filter_mem: "y \<in> set (List.map_filter f xs) \<longleftrightarrow> (\<exists>x \<in> set xs. f x = Some y)"
  by (induction xs) (auto simp: List.map_filter_simps split: option.split)

lemma sort_key_ConsD:
  assumes "sort_key f xs = y # ys"
  shows "y \<in> set xs" "\<And>z. z \<in> set xs \<Longrightarrow> f y \<le> f z"
proof -
  have mem: "set xs = insert y (set ys)" using arg_cong [OF assms, of set] by simp
  then show "y \<in> set xs" by simp
  have "sorted (map f (y # ys))" using sorted_sort_key [of f xs] by (simp add: assms)
  then show "\<And>z. z \<in> set xs \<Longrightarrow> f y \<le> f z" unfolding mem by auto
qed

lemma sort_key_Cons_ex: "x \<in> set xs \<Longrightarrow> \<exists>y ys. sort_key f xs = y # ys"
proof (cases "sort_key f xs")
  case Nil
  moreover assume "x \<in> set xs"
  ultimately show ?thesis using set_sort [of f xs] by simp
qed blast

lemma exact_hit:
  assumes "exact_hits orgId model h days now d = e # es"
  shows "e \<in> set (semantic_cache d)" "cache_live orgId model days now e" "sce_promptHash e = h"
  using sort_key_ConsD(1) [OF assms [unfolded exact_hits_def]] by auto

lemma semantic_hit:
  assumes "semantic_hits vdist orgId model v days now d = (x, e) # es"
  shows "e \<in> set (semantic_cache d)" "cache_live orgId model days now e" "\<exists>w. sce_embedding e = Some w \<and> x = vdist w v"
    and "\<And>e' w'. e' \<in> set (semantic_cache d) \<Longrightarrow> cache_live orgId model days now e' \<Longrightarrow> sce_embedding e' = Some w' \<Longrightarrow> x \<le> vdist w' v"
proof -
  note hit = sort_key_ConsD [OF assms [unfolded semantic_hits_def]]
  show "e \<in> set (semantic_cache d)" "cache_live orgId model days now e" "\<exists>w. sce_embedding e = Some w \<and> x = vdist w v"
    using hit(1) by (auto simp: map_filter_mem split: if_splits)
  fix e' w'
  assume "e' \<in> set (semantic_cache d)" "cache_live orgId model days now e'" "sce_embedding e' = Some w'"
  then have "(vdist w' v, e') \<in> set (List.map_filter (\<lambda>e. if cache_live orgId model days now e
         then map_option (\<lambda>w. (vdist w v, e)) (sce_embedding e) else None) (semantic_cache d))"
    by (auto simp: map_filter_mem intro!: bexI [of _ e'])
  from hit(2) [OF this] show "x \<le> vdist w' v" by simp
qed

text \<open>An entry that may answer a lookup with \<open>r\<close>.\<close>

definition may_answer ::
    "(rat list \<Rightarrow> rat list \<Rightarrow> rat) \<Rightarrow> db \<Rightarrow> string \<Rightarrow> string \<Rightarrow> string \<Rightarrow> (thrown, rat list) result \<Rightarrow> SemanticCacheLookupOptions \<Rightarrow> ms
      \<Rightarrow> string \<Rightarrow> SemanticCacheEntry \<Rightarrow> bool" where
  "may_answer vdist d orgId model h embedding opts now r e \<longleftrightarrow>
     e \<in> set (semantic_cache d) \<and> sce_orgId e = orgId \<and> sce_model e = model \<and> now < sce_createdAt e + ttlDays opts * DAY_MS
     \<and> sce_response e = r
     \<and> (sce_promptHash e = h \<or> (\<exists>v w. embedding = Inr v \<and> sce_embedding e = Some w \<and> 1 - vdist w v \<ge> similarityThreshold opts
          \<and> list_all (\<lambda>e'. cache_live orgId model (ttlDays opts) now e' \<longrightarrow> pred_option (\<lambda>w'. vdist w v \<le> vdist w' v) (sce_embedding e'))
              (semantic_cache d)))"

lemma lookupCache_found:
  assumes "lookupCache vdist d orgId model h embedding opts now = Inr (Some r)"
  shows "\<exists>e. may_answer vdist d orgId model h embedding opts now r e"
proof (cases "exact_hits orgId model h (ttlDays opts) now d")
  case (Cons e es)
  with assms have "sce_response e = r" by (auto simp: lookupCache_def withTenant_def split: if_splits)
  with exact_hit [OF Cons] show ?thesis by (auto simp: may_answer_def cache_live_def)
next
  case Nil
  with assms obtain v x e es where hit: "embedding = Inr v" "semantic_hits vdist orgId model v (ttlDays opts) now d = (x, e) # es"
    "1 - x \<ge> similarityThreshold opts" "sce_response e = r"
    by (auto simp: lookupCache_def withTenant_def split: if_splits sum.splits list.splits)
  note e = semantic_hit [OF hit(2)]
  obtain w where w: "sce_embedding e = Some w" "x = vdist w v" using e(3) by blast
  have "list_all (\<lambda>e'. cache_live orgId model (ttlDays opts) now e' \<longrightarrow> pred_option (\<lambda>w'. vdist w v \<le> vdist w' v) (sce_embedding e'))
      (semantic_cache d)"
    using e(4) w(2) by (auto simp: list_all_iff pred_option_def)
  with e(1,2) hit w have "may_answer vdist d orgId model h embedding opts now r e" by (auto simp: may_answer_def cache_live_def)
  then show ?thesis ..
qed



section \<open>Coalescing identical requests\<close>

context redis_service
begin

lemma dedup_leader:
  assumes "r_read R (dedupKey key) t s = None" "0 < leaderTtlSeconds opts"
  shows "withRequestDedup R key meanwhile awaited fn opts t (s, ch) =
     run_leader R key fn opts t (r_set R (dedupKey key) (SText PROCESSING) (leaderTtlSeconds opts * 1000) t s, ch)"
  using assms by (simp add: withRequestDedup_def r_set_nx_def)

lemma dedup_cached_result:
  assumes "r_read R (dedupKey key) t s = Some (RStr (SJson res))"
  shows "withRequestDedup R key meanwhile awaited fn opts t (s, ch) = (Inr res, t, s, ch)"
  using assms by (simp add: withRequestDedup_def r_set_nx_def r_get_def)

lemma dedup_follower:
  assumes "r_read R (dedupKey key) t s = Some (RStr (SText PROCESSING))"
  shows "withRequestDedup R key meanwhile awaited fn opts t (s, ch) = waitForLeader R key meanwhile awaited fn opts t (s, ch)"
  using assms by (simp add: withRequestDedup_def r_set_nx_def r_get_def)

lemma dedup_flight:
  assumes free: "r_read R (dedupKey key) t s = None" and ttl: "0 < leaderTtlSeconds opts"
    and fn: "fn t (r_set R (dedupKey key) (SText PROCESSING) (leaderTtlSeconds opts * 1000) t s, ch) = (r, t', s', ch')"
    and u: "t' \<le> u" "u < t' + leaderTtlSeconds opts * 1000"
  shows "case withRequestDedup R key meanwhile awaited fn opts t (s, ch) of
      (r0, t0, s0, ch0) \<Rightarrow> r0 = r \<and>
        (case r of
           Inr res \<Rightarrow> ch0 = ch' @ [(resultChannel key, res)]
             \<and> withRequestDedup R key meanwhile' awaited' fn' opts u (s0, ch0) = (Inr res, u, s0, ch0)
         | Inl err \<Rightarrow> ch0 = ch' @ [(resultChannel key, dedup_failed)] \<and> r_read R (dedupKey key) u s0 = None)"
proof (cases r)
  case (Inl err)
  then show ?thesis using fn u by (simp add: dedup_leader [OF free ttl] run_leader_def read_del)
next
  case (Inr res)
  then have "withRequestDedup R key meanwhile awaited fn opts t (s, ch) =
      (Inr res, t', r_set R (dedupKey key) (SJson res) (leaderTtlSeconds opts * 1000) t' s', ch' @ [(resultChannel key, res)])"
    using fn by (simp add: dedup_leader [OF free ttl] run_leader_def)
  with Inr u show ?thesis by (simp add: dedup_cached_result read_set)
qed

end



end
