(* ===== verification/Jobs.thy ===== *)
theory Jobs
  imports GatewayState Webhooks
begin

text \<open>
  Background jobs: \<^verbatim>\<open>packages/jobs\<close> (\<^verbatim>\<open>types.ts\<close>, \<^verbatim>\<open>progress.ts\<close>, \<^verbatim>\<open>service.ts\<close>,
  \<^verbatim>\<open>queue.ts\<close>) and the gateway's handlers and routes (\<^verbatim>\<open>modules/jobs\<close>). BullMQ's queue is the list of
  the entries added to it; what is published to Redis is the list of progress events. \<open>newId\<close> gives
  the id of the next outbox row. The embedding service and the providers are parameters that take
  their time. The lemmas follow a job through its attempts and show that retries never bill twice.
\<close>

section \<open>types.ts\<close>

definition JOB_PRIORITIES :: "(string \<times> int) list" where
  "JOB_PRIORITIES = [(''CRITICAL'', 1), (''HIGH'', 5), (''NORMAL'', 10), (''LOW'', 20)]"

definition DEFAULT_PRIORITY :: string where
  "DEFAULT_PRIORITY = ''NORMAL''"

definition isJobPriorityName :: "json option \<Rightarrow> bool" where
  "isJobPriorityName value = (case as_string value of None \<Rightarrow> False | Some v \<Rightarrow> has_prop JOB_PRIORITIES v)"

text \<open>A name that every object inherits passes the test and its value is no number: \<open>None\<close>.\<close>

definition toPriorityValue :: "json option \<Rightarrow> int option" where
  "toPriorityValue name =
     (case prop_lookup JOB_PRIORITIES (if isJobPriorityName name then jstr name else DEFAULT_PRIORITY) of
        Own n \<Rightarrow> Some n
      | _ \<Rightarrow> None)"

record JobData =
  jd_jobRecordId :: string
  jd_orgId :: string
  jd_type :: string

record JobHandlerContext =
  jhc_jobRecordId :: string
  jhc_orgId :: string
  jhc_apiKeyId :: "string option"

section \<open>progress.ts\<close>

record JobProgressEvent =
  pe_jobId :: string
  pe_progress :: int
  pe_status :: JobStatus
  pe_error :: "string option"

definition jobProgressChannel :: "string \<Rightarrow> string" where
  "jobProgressChannel jobRecordId = ''job:'' @ jobRecordId @ '':progress''"

text \<open>\<open>None\<close> is a percentage that is not finite.\<close>

definition normalizeProgress :: "rat option \<Rightarrow> int" where
  "normalizeProgress percent = (case percent of None \<Rightarrow> 0 | Some p \<Rightarrow> max 0 (min 100 (math_floor p)))"

record jobs_world =
  jw_queue :: "(JobData \<times> int) list"
  jw_published :: "(string \<times> JobProgressEvent) list"
  jw_db :: db

definition publishJobProgress :: "JobProgressEvent \<Rightarrow> jobs_world \<Rightarrow> jobs_world" where
  "publishJobProgress event w = w\<lparr>jw_published := jw_published w @ [(jobProgressChannel (pe_jobId event), event)]\<rparr>"

type_synonym job_run = "json \<Rightarrow> JobHandlerContext \<Rightarrow> (thrown, json, jobs_world) call"

record JobHandler =
  jh_type :: string
  jh_parsePayload :: "json \<Rightarrow> (thrown, json) result"
  jh_run :: job_run

type_synonym JobRegistry = "JobHandler list"

definition jr_register :: "JobHandler \<Rightarrow> JobRegistry \<Rightarrow> JobRegistry" where
  "jr_register h reg =
     (if list_ex (\<lambda>x. jh_type x = jh_type h) reg then map (\<lambda>x. if jh_type x = jh_type h then h else x) reg else reg @ [h])"

definition UnknownJobTypeError :: "string \<Rightarrow> thrown" where
  "UnknownJobTypeError ty = ThrownJs (''Unknown job type: '' @ ty)"

definition jr_get :: "JobRegistry \<Rightarrow> string \<Rightarrow> (thrown, JobHandler) result" where
  "jr_get reg ty = (case find (\<lambda>h. jh_type h = ty) reg of None \<Rightarrow> Inl (UnknownJobTypeError ty) | Some h \<Rightarrow> Inr h)"

definition jr_has :: "JobRegistry \<Rightarrow> string \<Rightarrow> bool" where
  "jr_has reg ty \<longleftrightarrow> list_ex (\<lambda>h. jh_type h = ty) reg"

definition jr_types :: "JobRegistry \<Rightarrow> string list" where
  "jr_types reg = map jh_type reg"

section \<open>service.ts\<close>

definition MAX_JOB_ATTEMPTS :: nat where
  "MAX_JOB_ATTEMPTS = 3"

definition find_job :: "string \<Rightarrow> string \<Rightarrow> db \<Rightarrow> Job option" where
  "find_job orgId jobId d = find (\<lambda>j. job_id j = jobId) (tenant_rows job_orgId orgId (jobs d))"

definition update_job :: "string \<Rightarrow> string \<Rightarrow> (Job \<Rightarrow> Job) \<Rightarrow> db \<Rightarrow> db" where
  "update_job orgId jobId f d = d\<lparr>jobs := tenant_update job_orgId orgId (\<lambda>j. job_id j = jobId) f (jobs d)\<rparr>"

record CreatedJob =
  cj_id :: string
  cj_status :: JobStatus
  cj_type :: string
  cj_priority :: int

text \<open>An update of a row that is not visible throws \<^verbatim>\<open>P2025\<close>.\<close>

definition update_or_throw :: "string \<Rightarrow> string \<Rightarrow> (Job \<Rightarrow> Job) \<Rightarrow> db \<Rightarrow> (thrown, Job) result \<times> db" where
  "update_or_throw orgId jobId f tx =
     (case find_job orgId jobId tx of
        None \<Rightarrow> (Inl (ThrownJs ''P2025''), tx)
      | Some j \<Rightarrow> (Inr (f j), update_job orgId jobId f tx))"

definition createJob ::
    "string \<Rightarrow> string \<Rightarrow> string \<Rightarrow> string option \<Rightarrow> string \<Rightarrow> json \<Rightarrow> json option \<Rightarrow> ms \<Rightarrow> jobs_world
      \<Rightarrow> (thrown, CreatedJob) result \<times> jobs_world" where
  "createJob rowId bullId orgId apiKeyId ty payload priorityName now w =
     (case toPriorityValue priorityName of
        None \<Rightarrow> (Inl (ThrownJs ''invalid priority''), w)
      | Some priority \<Rightarrow>
          (let row = \<lparr>job_id = rowId, job_orgId = orgId, job_apiKeyId = apiKeyId, job_bullJobId = None, job_type = ty,
                 job_status = QUEUED, job_priority = priority, job_payload = payload, job_progress = 0, job_result = None,
                 job_error = None, job_attempts = 0, job_createdAt = now, job_startedAt = None, job_finishedAt = None\<rparr>
           in case withTenant (jw_db w) orgId (\<lambda>tx. (Inr (), tx\<lparr>jobs := jobs tx @ [row]\<rparr>)) of
                (Inl e, d1) \<Rightarrow> (Inl e, w\<lparr>jw_db := d1\<rparr>)
              | (Inr _, d1) \<Rightarrow>
                  (let q = jw_queue w @ [(\<lparr>jd_jobRecordId = rowId, jd_orgId = orgId, jd_type = ty\<rparr>, priority)];
                       (r, d2) = withTenant d1 orgId (update_or_throw orgId rowId (\<lambda>j. j\<lparr>job_bullJobId := Some bullId\<rparr>))
                   in (map_sum (\<lambda>e. e) (\<lambda>_. \<lparr>cj_id = rowId, cj_status = QUEUED, cj_type = ty, cj_priority = priority\<rparr>) r,
                       w\<lparr>jw_queue := q, jw_db := d2\<rparr>))))"

definition getJob :: "db \<Rightarrow> string \<Rightarrow> string \<Rightarrow> (thrown, Job option) result" where
  "getJob d orgId jobId = fst (withTenant d orgId (\<lambda>tx. (Inr (find_job orgId jobId tx), tx)))"

definition listJobs :: "db \<Rightarrow> string \<Rightarrow> JobStatus option \<Rightarrow> nat option \<Rightarrow> (thrown, Job list) result" where
  "listJobs d orgId status limit =
     fst (withTenant d orgId (\<lambda>tx.
       (Inr (take (min (case limit of None \<Rightarrow> 50 | Some n \<Rightarrow> n) 200) (sort_key (\<lambda>j. - job_createdAt j)
          (filter (\<lambda>j. case status of None \<Rightarrow> True | Some st \<Rightarrow> job_status j = st) (tenant_rows job_orgId orgId (jobs tx))))), tx)))"

text \<open>The operations that write a row in a transaction of their own and then publish.\<close>

definition then_publish :: "(thrown, unit) result \<times> db \<Rightarrow> JobProgressEvent \<Rightarrow> jobs_world \<Rightarrow> (thrown, unit) result \<times> jobs_world" where
  "then_publish rd event w =
     (case rd of
        (Inl e, d) \<Rightarrow> (Inl e, w\<lparr>jw_db := d\<rparr>)
      | (Inr _, d) \<Rightarrow> (Inr (), publishJobProgress event (w\<lparr>jw_db := d\<rparr>)))"

definition markJobRunning :: "string \<Rightarrow> string \<Rightarrow> int \<Rightarrow> ms \<Rightarrow> jobs_world \<Rightarrow> (thrown, unit) result \<times> jobs_world" where
  "markJobRunning jobRecordId orgId attempt now w =
     then_publish
       (withTenant (jw_db w) orgId (\<lambda>tx. (Inr (), update_job orgId jobRecordId
          (\<lambda>j. j\<lparr>job_status := RUNNING, job_attempts := attempt, job_startedAt := Some now, job_progress := 0\<rparr>) tx)))
       \<lparr>pe_jobId = jobRecordId, pe_progress = 0, pe_status = RUNNING, pe_error = None\<rparr> w"

definition updateJobProgress :: "string \<Rightarrow> string \<Rightarrow> rat option \<Rightarrow> jobs_world \<Rightarrow> (thrown, unit) result \<times> jobs_world" where
  "updateJobProgress jobRecordId orgId percent w =
     (let progress = normalizeProgress percent
      in then_publish
           (withTenant (jw_db w) orgId (\<lambda>tx. (Inr (), update_job orgId jobRecordId (\<lambda>j. j\<lparr>job_progress := progress\<rparr>) tx)))
           \<lparr>pe_jobId = jobRecordId, pe_progress = progress, pe_status = RUNNING, pe_error = None\<rparr> w)"

definition new_row :: "(nat \<Rightarrow> string) \<Rightarrow> db \<Rightarrow> string" where
  "new_row newId d = newId (length (outbox_events d))"

definition markJobCompleted ::
    "(nat \<Rightarrow> string) \<Rightarrow> string \<Rightarrow> string \<Rightarrow> json \<Rightarrow> ms \<Rightarrow> jobs_world \<Rightarrow> (thrown, unit) result \<times> jobs_world" where
  "markJobCompleted newId jobRecordId orgId res now w =
     then_publish
       (withTenant (jw_db w) orgId (\<lambda>tx.
          case update_or_throw orgId jobRecordId
                 (\<lambda>j. j\<lparr>job_status := COMPLETED, job_progress := 100, job_result := Some res, job_finishedAt := Some now, job_error := None\<rparr>) tx of
            (Inl e, tx1) \<Rightarrow> (Inl e, tx1)
          | (Inr job, tx1) \<Rightarrow>
              (Inr (), writeOutboxEvent (new_row newId tx1) now ''job.completed''
                 (JObj [(''orgId'', JStr orgId), (''jobId'', JStr jobRecordId), (''type'', JStr (job_type job))]) tx1)))
       \<lparr>pe_jobId = jobRecordId, pe_progress = 100, pe_status = COMPLETED, pe_error = None\<rparr> w"

definition markJobFailed ::
    "(nat \<Rightarrow> string) \<Rightarrow> string \<Rightarrow> string \<Rightarrow> string \<Rightarrow> bool \<Rightarrow> ms \<Rightarrow> jobs_world \<Rightarrow> (thrown, unit) result \<times> jobs_world" where
  "markJobFailed newId jobRecordId orgId msg isFinalAttempt now w =
     (let status = (if isFinalAttempt then DEAD_LETTER else JOB_FAILED)
      in then_publish
           (withTenant (jw_db w) orgId (\<lambda>tx.
              let tx1 = update_job orgId jobRecordId (\<lambda>j. j\<lparr>job_status := status, job_error := Some msg,
                    job_finishedAt := (if isFinalAttempt then Some now else job_finishedAt j)\<rparr>) tx
              in case (if isFinalAttempt then find_job orgId jobRecordId tx1 else None) of
                   None \<Rightarrow> (Inr (), tx1)
                 | Some job \<Rightarrow>
                     (Inr (), writeOutboxEvent (new_row newId tx1) now ''job.failed''
                        (JObj [(''orgId'', JStr orgId), (''jobId'', JStr jobRecordId), (''type'', JStr (job_type job)), (''error'', JStr msg)]) tx1)))
           \<lparr>pe_jobId = jobRecordId, pe_progress = 0, pe_status = status, pe_error = Some msg\<rparr> w)"

definition show_status :: "JobStatus \<Rightarrow> string" where
  "show_status st =
     (case st of QUEUED \<Rightarrow> ''QUEUED'' | RUNNING \<Rightarrow> ''RUNNING'' | COMPLETED \<Rightarrow> ''COMPLETED'' | JOB_FAILED \<Rightarrow> ''FAILED'' | DEAD_LETTER \<Rightarrow> ''DEAD_LETTER'')"

definition JobNotReplayableError :: "JobStatus \<Rightarrow> thrown" where
  "JobNotReplayableError st = ThrownJs (''Only DEAD_LETTER jobs can be replayed (job is '' @ show_status st @ '')'')"

definition replayJob :: "string \<Rightarrow> string \<Rightarrow> string \<Rightarrow> jobs_world \<Rightarrow> (thrown, unit) result \<times> jobs_world" where
  "replayJob bullId orgId jobId w =
     (case getJob (jw_db w) orgId jobId of
        Inl e \<Rightarrow> (Inl e, w)
      | Inr None \<Rightarrow> (Inr (), w)
      | Inr (Some job) \<Rightarrow>
          if job_status job \<noteq> DEAD_LETTER then (Inl (JobNotReplayableError (job_status job)), w)
          else
            (case withTenant (jw_db w) orgId (update_or_throw orgId (job_id job)
                    (\<lambda>j. j\<lparr>job_status := QUEUED, job_error := None, job_progress := 0, job_attempts := 0, job_startedAt := None,
                           job_finishedAt := None\<rparr>)) of
               (Inl e, d1) \<Rightarrow> (Inl e, w\<lparr>jw_db := d1\<rparr>)
             | (Inr _, d1) \<Rightarrow>
                 (let q = jw_queue w @ [(\<lparr>jd_jobRecordId = job_id job, jd_orgId = orgId, jd_type = job_type job\<rparr>, job_priority job)];
                      (r, d2) = withTenant d1 orgId (update_or_throw orgId (job_id job) (\<lambda>j. j\<lparr>job_bullJobId := Some bullId\<rparr>))
                  in (map_sum (\<lambda>e. e) (\<lambda>_. ()) r, w\<lparr>jw_queue := q, jw_db := d2\<rparr>))))"

section \<open>queue.ts\<close>

text \<open>The processor of one attempt, and the \<^verbatim>\<open>failed\<close> listener with the attempts made so far.\<close>

definition job_processor ::
    "JobRegistry \<Rightarrow> (nat \<Rightarrow> string) \<Rightarrow> nat \<Rightarrow> JobData \<Rightarrow> (thrown, json, jobs_world) call" where
  "job_processor registry newId attemptsMade jd t w =
     (case markJobRunning (jd_jobRecordId jd) (jd_orgId jd) (int attemptsMade + 1) t w of
        (Inl e, w1) \<Rightarrow> (Inl e, t, w1)
      | (Inr _, w1) \<Rightarrow>
          (case jr_get registry (jd_type jd) of
             Inl e \<Rightarrow> (Inl e, t, w1)
           | Inr handler \<Rightarrow>
               (case getJob (jw_db w1) (jd_orgId jd) (jd_jobRecordId jd) of
                  Inl e \<Rightarrow> (Inl e, t, w1)
                | Inr None \<Rightarrow> (Inl (ThrownJs (''Job record '' @ jd_jobRecordId jd @ '' not found for org'')), t, w1)
                | Inr (Some row) \<Rightarrow>
                    (case jh_parsePayload handler (job_payload row) of
                       Inl e \<Rightarrow> (Inl e, t, w1)
                     | Inr payload \<Rightarrow>
                         (case jh_run handler payload
                                 \<lparr>jhc_jobRecordId = jd_jobRecordId jd, jhc_orgId = jd_orgId jd, jhc_apiKeyId = job_apiKeyId row\<rparr> t w1 of
                            (Inl e, t2, w2) \<Rightarrow> (Inl e, t2, w2)
                          | (Inr res, t2, w2) \<Rightarrow>
                              (case markJobCompleted newId (jd_jobRecordId jd) (jd_orgId jd) res t2 w2 of
                                 (Inl e, w3) \<Rightarrow> (Inl e, t2, w3)
                               | (Inr _, w3) \<Rightarrow> (Inr res, t2, w3)))))))"

definition on_job_failed :: "(nat \<Rightarrow> string) \<Rightarrow> nat \<Rightarrow> string \<Rightarrow> ms \<Rightarrow> JobData \<Rightarrow> jobs_world \<Rightarrow> jobs_world" where
  "on_job_failed newId attemptsMade msg now jd w =
     snd (markJobFailed newId (jd_jobRecordId jd) (jd_orgId jd) msg (attemptsMade \<ge> MAX_JOB_ATTEMPTS) now w)"

text \<open>
  BullMQ gives a job the attempts its options allow; \<open>ts\<close> are the times at which it starts them. The
  result is, per attempt, whether it succeeded.
\<close>

fun job_series ::
    "JobRegistry \<Rightarrow> (nat \<Rightarrow> string) \<Rightarrow> nat \<Rightarrow> JobData \<Rightarrow> ms list \<Rightarrow> jobs_world \<Rightarrow> bool list \<times> jobs_world" where
  "job_series registry newId made jd [] w = ([], w)"
| "job_series registry newId made jd (t # ts) w =
     (if made \<ge> MAX_JOB_ATTEMPTS then ([], w)
      else
        (case job_processor registry newId made jd t w of
           (Inr _, _, w') \<Rightarrow> ([True], w')
         | (Inl e, t', w') \<Rightarrow>
             (let (outs, w'') = job_series registry newId (Suc made) jd ts (on_job_failed newId (Suc made) (thrown_text e) t' jd w')
              in (False # outs, w''))))"

section \<open>modules/jobs/handlers.ts\<close>

definition MAX_BATCH_ITEMS :: nat where
  "MAX_BATCH_ITEMS = 100"

definition MAX_TEXT_LENGTH :: nat where
  "MAX_TEXT_LENGTH = 10000"

text \<open>The zod schemas as predicates; the text of the first issue is the parameter \<open>issue\<close>.\<close>

definition text_list_ok :: "json option \<Rightarrow> bool" where
  "text_list_ok j =
     (case as_array j of
        None \<Rightarrow> False
      | Some xs \<Rightarrow> 1 \<le> length xs \<and> length xs \<le> MAX_BATCH_ITEMS \<and>
          list_all (\<lambda>x. case as_string (Some x) of None \<Rightarrow> False | Some v \<Rightarrow> 1 \<le> length v \<and> length v \<le> MAX_TEXT_LENGTH) xs)"

definition batchEmbeddingsSchema :: "json \<Rightarrow> bool" where
  "batchEmbeddingsSchema raw \<longleftrightarrow> is_obj (Some raw) \<and> text_list_ok (jget raw ''texts'')"

definition bulkChatSchema :: "json \<Rightarrow> bool" where
  "bulkChatSchema raw \<longleftrightarrow> is_obj (Some raw) \<and> text_list_ok (jget raw ''prompts'') \<and>
     (case as_string (jget raw ''model'') of None \<Rightarrow> False | Some m \<Rightarrow> 1 \<le> length m \<and> length m \<le> 200)"

definition parseWith :: "(json \<Rightarrow> bool) \<Rightarrow> (json \<Rightarrow> string) \<Rightarrow> json \<Rightarrow> (thrown, json) result" where
  "parseWith schema issue raw = (if schema raw then Inr raw else Inl (ThrownApp (ValidationError (issue raw))))"

definition payload_texts :: "json option \<Rightarrow> string list" where
  "payload_texts j = (case as_array j of None \<Rightarrow> [] | Some xs \<Rightarrow> map (\<lambda>x. jstr (Some x)) xs)"

fun embed_loop ::
    "(string \<Rightarrow> ms \<Rightarrow> (thrown, rat list) result \<times> ms) \<Rightarrow> JobHandlerContext \<Rightarrow> nat \<Rightarrow> nat \<Rightarrow> string list \<Rightarrow> rat list list
      \<Rightarrow> (thrown, rat list list, jobs_world) call" where
  "embed_loop embedText ctx n i [] acc t w = (Inr acc, t, w)"
| "embed_loop embedText ctx n i (text # texts) acc t w =
     (case embedText text t of
        (Inl e, t') \<Rightarrow> (Inl e, t', w)
      | (Inr v, t') \<Rightarrow>
          (case updateJobProgress (jhc_jobRecordId ctx) (jhc_orgId ctx) (Some ((of_nat i + 1) / of_nat n * 100)) w of
             (Inl e, w') \<Rightarrow> (Inl e, t', w')
           | (Inr _, w') \<Rightarrow> embed_loop embedText ctx n (Suc i) texts (acc @ [v]) t' w'))"

definition batchEmbeddings_run :: "(string \<Rightarrow> ms \<Rightarrow> (thrown, rat list) result \<times> ms) \<Rightarrow> job_run" where
  "batchEmbeddings_run embedText payload ctx t w =
     (let texts = payload_texts (jget payload ''texts'')
      in case embed_loop embedText ctx (length texts) 0 texts [] t w of
           (Inl e, t', w') \<Rightarrow> (Inl e, t', w')
         | (Inr vectors, t', w') \<Rightarrow>
             (Inr (JObj [(''count'', JNum (of_nat (length vectors))),
                         (''dimensions'', JNum (case vectors of [] \<Rightarrow> 0 | v # _ \<Rightarrow> of_nat (length v)))]), t', w'))"

definition batchEmbeddingsHandler ::
    "(json \<Rightarrow> string) \<Rightarrow> (string \<Rightarrow> ms \<Rightarrow> (thrown, rat list) result \<times> ms) \<Rightarrow> JobHandler" where
  "batchEmbeddingsHandler issue embedText =
     \<lparr>jh_type = ''batch_embeddings'', jh_parsePayload = parseWith batchEmbeddingsSchema issue, jh_run = batchEmbeddings_run embedText\<rparr>"

definition job_request_id :: "string \<Rightarrow> nat \<Rightarrow> string" where
  "job_request_id jobRecordId promptIndex = ''job:'' @ jobRecordId @ '':'' @ show_nat promptIndex"

definition billJobUsage ::
    "(nat \<Rightarrow> string) \<Rightarrow> JobHandlerContext \<Rightarrow> string \<Rightarrow> nat \<Rightarrow> UnifiedUsage \<Rightarrow> ms \<Rightarrow> db \<Rightarrow> (thrown, unit) result \<times> db" where
  "billJobUsage newId ctx model promptIndex usage now d =
     (case jhc_apiKeyId ctx of
        None \<Rightarrow> (Inr (), d)
      | Some apiKeyId \<Rightarrow>
          if apiKeyId = [] then (Inr (), d)
          else
            (case recordUsageAndOutbox (new_row newId d)
                    \<lparr>rup_orgId = jhc_orgId ctx, rup_apiKeyId = apiKeyId, rup_model = model, rup_usage = usage,
                     rup_requestId = job_request_id (jhc_jobRecordId ctx) promptIndex\<rparr> now d of
               (Inl e, d') \<Rightarrow> (Inl e, d')
             | (Inr _, d') \<Rightarrow> (Inr (), d')))"

definition prompt_request :: "string \<Rightarrow> string \<Rightarrow> UnifiedChatRequest" where
  "prompt_request model prompt =
     \<lparr>req_model = model, req_messages = [\<lparr>role = User, content = prompt\<rparr>], req_stream = Some False, req_maxTokens = None,
      req_temperature = None\<rparr>"

fun bulk_loop ::
    "(nat \<Rightarrow> string) \<Rightarrow> ResolvedModel \<Rightarrow> JobHandlerContext \<Rightarrow> nat \<Rightarrow> nat \<Rightarrow> string list \<Rightarrow> string list
      \<Rightarrow> (thrown, string list, jobs_world) call" where
  "bulk_loop newId resolved ctx n i [] acc t w = (Inr acc, t, w)"
| "bulk_loop newId resolved ctx n i (prompt # prompts) acc t w =
     (case lp_chat (rm_provider resolved) (prompt_request (providerModel resolved) prompt) t of
        (Inl e, t') \<Rightarrow> (Inl e, t', w)
      | (Inr res, t') \<Rightarrow>
          (case billJobUsage newId ctx (providerModel resolved) i (rsp_usage res) t' (jw_db w) of
             (Inl e, d') \<Rightarrow> (Inl e, t', w\<lparr>jw_db := d'\<rparr>)
           | (Inr _, d') \<Rightarrow>
               (case updateJobProgress (jhc_jobRecordId ctx) (jhc_orgId ctx) (Some ((of_nat i + 1) / of_nat n * 100)) (w\<lparr>jw_db := d'\<rparr>) of
                  (Inl e, w') \<Rightarrow> (Inl e, t', w')
                | (Inr _, w') \<Rightarrow> bulk_loop newId resolved ctx n (Suc i) prompts (acc @ [content (rsp_message res)]) t' w')))"

definition bulkChat_run :: "(nat \<Rightarrow> string) \<Rightarrow> ModelRegistry \<Rightarrow> job_run" where
  "bulkChat_run newId models payload ctx t w =
     (case reg_resolve models (jstr (jget payload ''model'')) of
        None \<Rightarrow> (Inl (ThrownApp (ValidationError (''Unknown model: '' @ jstr (jget payload ''model'')))), t, w)
      | Some resolved \<Rightarrow>
          (let prompts = payload_texts (jget payload ''prompts'')
           in case bulk_loop newId resolved ctx (length prompts) 0 prompts [] t w of
                (Inl e, t', w') \<Rightarrow> (Inl e, t', w')
              | (Inr responses, t', w') \<Rightarrow> (Inr (JObj [(''responses'', JArr (map JStr responses))]), t', w')))"

definition bulkChatHandler :: "(json \<Rightarrow> string) \<Rightarrow> (nat \<Rightarrow> string) \<Rightarrow> ModelRegistry \<Rightarrow> JobHandler" where
  "bulkChatHandler issue newId models =
     \<lparr>jh_type = ''bulk_chat'', jh_parsePayload = parseWith bulkChatSchema issue, jh_run = bulkChat_run newId models\<rparr>"

definition buildJobRegistry ::
    "(json \<Rightarrow> string) \<Rightarrow> (nat \<Rightarrow> string) \<Rightarrow> (string \<Rightarrow> ms \<Rightarrow> (thrown, rat list) result \<times> ms) \<Rightarrow> ModelRegistry \<Rightarrow> JobRegistry" where
  "buildJobRegistry issue newId embedText models =
     jr_register (bulkChatHandler issue newId models) (jr_register (batchEmbeddingsHandler issue embedText) [])"

section \<open>modules/jobs/routes.ts\<close>

definition createJobSchema :: "json \<Rightarrow> bool" where
  "createJobSchema body \<longleftrightarrow> is_obj (Some body) \<and>
     (case as_string (jget body ''type'') of None \<Rightarrow> False | Some ty \<Rightarrow> 1 \<le> length ty \<and> length ty \<le> 100) \<and>
     (case jget body ''priority'' of
        None \<Rightarrow> True
      | Some v \<Rightarrow> (case as_string (Some v) of None \<Rightarrow> False | Some p \<Rightarrow> p \<in> set [''CRITICAL'', ''HIGH'', ''NORMAL'', ''LOW'']))"

text \<open>The answer to an accepted submission (status 202).\<close>

definition created_json :: "CreatedJob \<Rightarrow> json" where
  "created_json job =
     JObj [(''job_id'', JStr (cj_id job)), (''status'', JStr (show_status (cj_status job))), (''type'', JStr (cj_type job)),
           (''priority'', JNum (of_int (cj_priority job)))]"

text \<open>
  \<^verbatim>\<open>POST /v1/jobs\<close> after the two guards. A lock that cannot be taken throws
  \<^verbatim>\<open>LockAcquisitionError\<close>, which is no \<open>AppError\<close>.
\<close>

definition lock_thrown :: "thrown lock_error \<Rightarrow> thrown" where
  "lock_thrown e = (case e of LockAcquisitionError k \<Rightarrow> ThrownJs ''LockAcquisitionError'' | Inside x \<Rightarrow> x)"

definition submit_job ::
    "('s, 'm) redis_scheme \<Rightarrow> (json \<Rightarrow> string) \<Rightarrow> JobRegistry \<Rightarrow> DistributedLockOptions \<Rightarrow> string \<Rightarrow> string \<Rightarrow> string \<Rightarrow> string
      \<Rightarrow> ApiKeyContext \<Rightarrow> json \<Rightarrow> ms \<Rightarrow> 's \<times> jobs_world \<Rightarrow> (thrown, nat \<times> json) result \<times> 's \<times> jobs_world" where
  "submit_job R issue registry lockOpts token eventId rowId bullId ctx body t = (\<lambda>(s, w).
     if \<not> createJobSchema body then (Inl (ThrownApp (ValidationError (issue body))), s, w)
     else
       (let ty = jstr (jget body ''type''); payload = (case jget body ''payload'' of None \<Rightarrow> JNull | Some p \<Rightarrow> p)
        in case jr_get registry ty of
             Inl _ \<Rightarrow>
               (Inl (ThrownApp (ValidationError (''Unknown job type: '' @ ty @ ''. Known types: '' @ join_with '', '' (jr_types registry)))), s, w)
           | Inr handler \<Rightarrow>
               (case jh_parsePayload handler payload of
                  Inl e \<Rightarrow> (Inl e, s, w)
                | Inr _ \<Rightarrow>
                    (let (flags, s1) = getOrgFeatureFlags R (ctx_orgId ctx) t (s, jw_db w);
                         (verdict, t2, s2, d2) =
                           (if ff_billing_enforcement flags
                            then (case enforceBudget R token eventId (ctx_orgId ctx) lockOpts t (s1, jw_db w) of
                                    (Inl e, x) \<Rightarrow> (Inl (lock_thrown e), x) | (Inr _, x) \<Rightarrow> (Inr (), x))
                            else (Inr (), t, s1, jw_db w))
                     in case verdict of
                          Inl e \<Rightarrow> (Inl e, s2, w\<lparr>jw_db := d2\<rparr>)
                        | Inr _ \<Rightarrow>
                            (case createJob rowId bullId (ctx_orgId ctx) (Some (ctx_apiKeyId ctx)) ty payload (jget body ''priority'') t2
                                    (w\<lparr>jw_db := d2\<rparr>) of
                               (Inl e, w') \<Rightarrow> (Inl e, s2, w')
                             | (Inr job, w') \<Rightarrow> (Inr (202, created_json job), s2, w'))))))"

definition get_job_route :: "string \<Rightarrow> string \<Rightarrow> jobs_world \<Rightarrow> (thrown, Job) result" where
  "get_job_route orgId jobId w =
     result_bind (getJob (jw_db w) orgId jobId) (\<lambda>job.
       case job of None \<Rightarrow> Inl (ThrownApp (NotFoundError ''Job not found'')) | Some j \<Rightarrow> Inr j)"

text \<open>Only \<open>JobNotReplayableError\<close> becomes a 400; it is thrown exactly when the job is not dead.\<close>

definition replay_job_route :: "string \<Rightarrow> string \<Rightarrow> string \<Rightarrow> jobs_world \<Rightarrow> (thrown, nat \<times> json) result \<times> jobs_world" where
  "replay_job_route bullId orgId jobId w =
     (case get_job_route orgId jobId w of
        Inl e \<Rightarrow> (Inl e, w)
      | Inr job \<Rightarrow>
          (case replayJob bullId orgId jobId w of
             (Inl e, w') \<Rightarrow>
               (if job_status job \<noteq> DEAD_LETTER then Inl (ThrownApp (ValidationError (thrown_text e))) else Inl e, w')
           | (Inr _, w') \<Rightarrow> (Inr (202, JObj [(''job_id'', JStr jobId), (''status'', JStr ''QUEUED'')]), w')))"

section \<open>A job through its attempts\<close>

text \<open>
  What the worker relies on in a handler: it may bill, report progress and take its time, but it leaves
  the rows of the job table as they are but for their progress, and the job events of the outbox.
\<close>

definition job_core :: "Job \<Rightarrow> string \<times> string \<times> string \<times> string option \<times> json \<times> JobStatus \<times> int" where
  "job_core j = (job_id j, job_orgId j, job_type j, job_apiKeyId j, job_payload j, job_status j, job_attempts j)"

definition job_events :: "db \<Rightarrow> OutboxEvent list" where
  "job_events d = filter (\<lambda>e. ob_eventType e = ''job.completed'' \<or> ob_eventType e = ''job.failed'') (outbox_events d)"

definition job_frame :: "db \<Rightarrow> db \<Rightarrow> bool" where
  "job_frame d d' \<longleftrightarrow> map job_core (jobs d') = map job_core (jobs d) \<and> job_events d' = job_events d"

lemma job_frame_refl [simp]: "job_frame d d"
  by (simp add: job_frame_def)

lemma job_frame_trans: "job_frame a b \<Longrightarrow> job_frame b c \<Longrightarrow> job_frame a c"
  by (simp add: job_frame_def)

lemma find_map: "find Q (map f xs) = map_option f (find (\<lambda>x. Q (f x)) xs)"
  by (induction xs) auto

lemma find_filter: "find P (filter Q xs) = find (\<lambda>x. P x \<and> Q x) xs"
  by (induction xs) auto

lemma find_job_core:
  assumes "job_frame d d'" "find_job orgId i d = Some j"
  obtains j' where "find_job orgId i d' = Some j'" "job_core j' = job_core j"
proof -
  let ?Q = "\<lambda>c. fst c = i \<and> fst (snd c) = orgId"
  have tenant: "find_job orgId i e = find (\<lambda>j. ?Q (job_core j)) (jobs e)" for e
    by (simp add: find_job_def tenant_rows_def job_core_def find_filter)
  have "map_option job_core (find_job orgId i e) = find ?Q (map job_core (jobs e))" for e
    by (simp add: tenant find_map)
  then have "map_option job_core (find_job orgId i d') = map_option job_core (find_job orgId i d)"
    using assms(1) by (simp only: job_frame_def)
  with assms(2) have "map_option job_core (find_job orgId i d') = Some (job_core j)" by simp
  then show ?thesis using that by auto
qed

lemma find_job_update:
  assumes "\<And>j. job_id (f j) = job_id j" "\<And>j. job_orgId (f j) = job_orgId j"
  shows "find_job orgId i (update_job orgId i f d) = map_option f (find_job orgId i d)"
  using assms unfolding find_job_def update_job_def tenant_rows_def tenant_update_def
  by (simp add: find_map_if)

lemma find_job_outbox [simp]: "find_job orgId i (writeOutboxEvent r t ty p d) = find_job orgId i d"
  by (simp add: find_job_def writeOutboxEvent_def)

lemma job_events_simps [simp]:
  "job_events (update_job orgId i f d) = job_events d"
  "job_events (writeOutboxEvent r t ty p d) = (if ty = ''job.completed'' \<or> ty = ''job.failed''
     then job_events d @ [\<lparr>ob_id = r, ob_eventType = ty, ob_payload = p, ob_publishedAt = None, ob_createdAt = t\<rparr>] else job_events d)"
  by (simp_all add: job_events_def update_job_def writeOutboxEvent_def)

lemma updateJobProgress_frame:
  assumes "updateJobProgress i orgId percent w = (r, w')"
  shows "job_frame (jw_db w) (jw_db w')"
proof -
  have "map job_core (jobs (update_job orgId i (\<lambda>j. j\<lparr>job_progress := n\<rparr>) d)) = map job_core (jobs d)" for n d
    by (auto simp: update_job_def tenant_update_def job_core_def)
  then show ?thesis
    using assms by (auto simp: updateJobProgress_def then_publish_def withTenant_def publishJobProgress_def job_frame_def
        Let_def split: if_splits)
qed

lemma recordUsage_frame:
  assumes "recordUsageAndOutbox rowId params now d = (r, d')"
  shows "job_frame d d'"
  using assms
  by (auto simp: recordUsageAndOutbox_def withTenant_def insert_usage_def job_frame_def job_events_def writeOutboxEvent_def
      split: option.splits if_splits prod.splits sum.splits)

lemma billJobUsage_frame: "billJobUsage newId ctx model n usage now d = (r, d') \<Longrightarrow> job_frame d d'"
  by (auto simp: billJobUsage_def split: option.splits if_splits prod.splits sum.splits dest: recordUsage_frame)

lemma embed_loop_frame: "embed_loop embedText ctx n i texts acc t w = (r, t', w') \<Longrightarrow> job_frame (jw_db w) (jw_db w')"
proof (induction texts arbitrary: i acc t w)
  case (Cons x texts)
  then show ?case
    by (fastforce split: prod.splits sum.splits dest: updateJobProgress_frame intro: job_frame_trans)
qed simp

lemma bulk_loop_frame: "bulk_loop newId resolved ctx n i prompts acc t w = (r, t', w') \<Longrightarrow> job_frame (jw_db w) (jw_db w')"
proof (induction prompts arbitrary: i acc t w)
  case (Cons prompt prompts)
  obtain c t1 where chat: "lp_chat (rm_provider resolved) (prompt_request (providerModel resolved) prompt) t = (c, t1)" by force
  show ?case
  proof (cases c)
    case (Inr res)
    obtain b d1 where bill: "billJobUsage newId ctx (providerModel resolved) i (rsp_usage res) t1 (jw_db w) = (b, d1)" by force
    obtain u w2 where prog: "updateJobProgress (jhc_jobRecordId ctx) (jhc_orgId ctx) (Some ((of_nat i + 1) / of_nat n * 100))
        (w\<lparr>jw_db := d1\<rparr>) = (u, w2)" by force
    have f1: "job_frame (jw_db w) d1" using bill by (rule billJobUsage_frame)
    have f2: "job_frame d1 (jw_db w2)" using updateJobProgress_frame [OF prog] by simp
    show ?thesis
      using Cons.prems Cons.IH f1 job_frame_trans [OF f1 f2] chat Inr bill prog
      by (auto split: sum.splits intro: job_frame_trans)
  qed (use Cons.prems chat in simp)
qed simp

locale job_handler =
  fixes h :: JobHandler
  assumes frame: "jh_run h p ctx t w = (r, t', w') \<Longrightarrow> job_frame (jw_db w) (jw_db w')"

interpretation batch: job_handler "batchEmbeddingsHandler issue embedText" for issue embedText
  by unfold_locales (auto simp: batchEmbeddingsHandler_def batchEmbeddings_run_def Let_def dest: embed_loop_frame
      split: prod.splits sum.splits)

interpretation bulk: job_handler "bulkChatHandler issue newId models" for issue newId models
  by unfold_locales (auto simp: bulkChatHandler_def bulkChat_run_def Let_def dest: bulk_loop_frame
      split: prod.splits sum.splits option.splits)

context job_handler
begin

lemma processor_attempt:
  assumes uuid: "is_uuid (jd_orgId jd)" and reg: "jr_get registry (jd_type jd) = Inr h"
    and row: "find_job (jd_orgId jd) (jd_jobRecordId jd) (jw_db w) = Some j"
    and run: "job_processor registry newId made jd t w = (r, t', w')"
  shows "\<exists>j'. find_job (jd_orgId jd) (jd_jobRecordId jd) (jw_db w') = Some j' \<and> job_attempts j' = int made + 1 \<and>
    job_payload j' = job_payload j \<and> job_apiKeyId j' = job_apiKeyId j \<and>
    (if isl r then job_events (jw_db w') = job_events (jw_db w)
     else job_status j' = COMPLETED \<and> map ob_eventType (job_events (jw_db w')) = map ob_eventType (job_events (jw_db w)) @ [''job.completed''])"
proof -
  let ?org = "jd_orgId jd" and ?i = "jd_jobRecordId jd"
  let ?run = "\<lambda>j. j\<lparr>job_status := RUNNING, job_attempts := int made + 1, job_startedAt := Some t, job_progress := 0\<rparr>"
  define w1 where "w1 = publishJobProgress \<lparr>pe_jobId = ?i, pe_progress = 0, pe_status = RUNNING, pe_error = None\<rparr>
      (w\<lparr>jw_db := update_job ?org ?i ?run (jw_db w)\<rparr>)"
  have mark: "markJobRunning ?i ?org (int made + 1) t w = (Inr (), w1)"
    using uuid by (simp add: markJobRunning_def then_publish_def withTenant_def w1_def)
  have row1: "find_job ?org ?i (jw_db w1) = Some (?run j)"
    using row by (simp add: w1_def publishJobProgress_def find_job_update)
  have ev1: "job_events (jw_db w1) = job_events (jw_db w)" by (simp add: w1_def publishJobProgress_def)
  have get: "getJob (jw_db w1) ?org ?i = Inr (Some (?run j))" using row1 uuid by (simp add: getJob_def withTenant_def)
  show ?thesis
  proof (cases "jh_parsePayload h (job_payload j)")
    case (Inl e)
    then have "r = Inl e" "w' = w1" using run mark reg get by (simp_all add: job_processor_def)
    with row1 ev1 show ?thesis by simp
  next
    case (Inr payload)
    obtain r2 t2 w2 where run2: "jh_run h payload \<lparr>jhc_jobRecordId = ?i, jhc_orgId = ?org, jhc_apiKeyId = job_apiKeyId j\<rparr> t w1 = (r2, t2, w2)"
      by (metis surj_pair)
    have fr: "job_frame (jw_db w1) (jw_db w2)" using run2 by (rule frame)
    then obtain j2 where j2: "find_job ?org ?i (jw_db w2) = Some j2" "job_core j2 = job_core (?run j)"
      using find_job_core row1 by blast
    have att: "job_attempts j2 = int made + 1" "job_payload j2 = job_payload j" "job_apiKeyId j2 = job_apiKeyId j"
      using j2(2) by (simp_all add: job_core_def)
    have ev2: "job_events (jw_db w2) = job_events (jw_db w)" using fr ev1 by (simp add: job_frame_def)
    show ?thesis
    proof (cases r2)
      case (Inl e)
      then have "r = Inl e" "w' = w2" using run mark reg get Inr run2 by (simp_all add: job_processor_def)
      with j2(1) att ev2 show ?thesis by simp
    next
      case (Inr res)
      let ?done = "\<lambda>j. j\<lparr>job_status := COMPLETED, job_progress := 100, job_result := Some res, job_finishedAt := Some t2, job_error := None\<rparr>"
      obtain w3 where w3: "markJobCompleted newId ?i ?org res t2 w2 = (Inr (), w3)"
        "find_job ?org ?i (jw_db w3) = Some (?done j2)"
        "map ob_eventType (job_events (jw_db w3)) = map ob_eventType (job_events (jw_db w2)) @ [''job.completed'']"
        using uuid j2(1)
        by (auto simp: markJobCompleted_def then_publish_def withTenant_def update_or_throw_def publishJobProgress_def find_job_update)
      then have "r = Inr res" "w' = w3"
        using run mark reg get \<open>jh_parsePayload h (job_payload j) = Inr payload\<close> run2 Inr by (simp_all add: job_processor_def)
      with w3 att ev2 show ?thesis by simp
    qed
  qed
qed

end

lemma failed_attempt:
  assumes uuid: "is_uuid (jd_orgId jd)" and row: "find_job (jd_orgId jd) (jd_jobRecordId jd) (jw_db w) = Some j"
  shows "\<exists>j'. find_job (jd_orgId jd) (jd_jobRecordId jd) (jw_db (on_job_failed newId made msg t jd w)) = Some j'
    \<and> job_attempts j' = job_attempts j \<and> job_error j' = Some msg \<and> job_payload j' = job_payload j \<and> job_apiKeyId j' = job_apiKeyId j
    \<and> job_status j' = (if made \<ge> MAX_JOB_ATTEMPTS then DEAD_LETTER else JOB_FAILED)
    \<and> map ob_eventType (job_events (jw_db (on_job_failed newId made msg t jd w))) =
        map ob_eventType (job_events (jw_db w)) @ (if made \<ge> MAX_JOB_ATTEMPTS then [''job.failed''] else [])"
  using assms
  by (auto simp: on_job_failed_def markJobFailed_def then_publish_def withTenant_def publishJobProgress_def find_job_update Let_def)

text \<open>The state a job is left in by a list of attempt results.\<close>

definition series_status :: "nat \<Rightarrow> bool list \<Rightarrow> JobStatus \<Rightarrow> JobStatus" where
  "series_status made outs st =
     (if outs = [] then st else if last outs then COMPLETED
      else if made + length outs \<ge> MAX_JOB_ATTEMPTS then DEAD_LETTER else JOB_FAILED)"

definition series_events :: "nat \<Rightarrow> bool list \<Rightarrow> string list" where
  "series_events made outs =
     (if outs = [] then [] else if last outs then [''job.completed'']
      else if made + length outs \<ge> MAX_JOB_ATTEMPTS then [''job.failed''] else [])"

lemma series_simps:
  "series_status made [True] st = COMPLETED" "series_events made [True] = [''job.completed'']"
  "outs \<noteq> [] \<Longrightarrow> series_status made (False # outs) st = series_status (Suc made) outs st'"
  "outs \<noteq> [] \<Longrightarrow> series_events made (False # outs) = series_events (Suc made) outs"
  "series_status made [False] st = (if Suc made \<ge> MAX_JOB_ATTEMPTS then DEAD_LETTER else JOB_FAILED)"
  "series_events made [False] = (if Suc made \<ge> MAX_JOB_ATTEMPTS then [''job.failed''] else [])"
  by (auto simp: series_status_def series_events_def)

context job_handler
begin

lemma series_verdict:
  assumes uuid: "is_uuid (jd_orgId jd)" and reg: "jr_get registry (jd_type jd) = Inr h"
  shows "find_job (jd_orgId jd) (jd_jobRecordId jd) (jw_db w) = Some j \<Longrightarrow> job_attempts j = int made \<Longrightarrow> made \<le> MAX_JOB_ATTEMPTS \<Longrightarrow>
    job_series registry newId made jd ts w = (outs, w') \<Longrightarrow>
    \<exists>j'. find_job (jd_orgId jd) (jd_jobRecordId jd) (jw_db w') = Some j' \<and> job_attempts j' = int (made + length outs)
      \<and> made + length outs \<le> MAX_JOB_ATTEMPTS \<and> True \<notin> set (butlast outs)
      \<and> job_status j' = series_status made outs (job_status j)
      \<and> map ob_eventType (job_events (jw_db w')) = map ob_eventType (job_events (jw_db w)) @ series_events made outs
      \<and> (made + length ts \<ge> MAX_JOB_ATTEMPTS \<and> made < MAX_JOB_ATTEMPTS \<longrightarrow> job_status j' \<in> {COMPLETED, DEAD_LETTER})"
proof (induction ts arbitrary: made w j outs)
  case Nil
  then show ?case by (auto simp: series_status_def series_events_def)
next
  case (Cons t ts)
  show ?case
  proof (cases "made \<ge> MAX_JOB_ATTEMPTS")
    case True
    with Cons.prems show ?thesis by (auto simp: series_status_def series_events_def)
  next
    case False
    obtain r t1 w1 where run: "job_processor registry newId made jd t w = (r, t1, w1)" by (metis surj_pair)
    obtain j1 where j1: "find_job (jd_orgId jd) (jd_jobRecordId jd) (jw_db w1) = Some j1" "job_attempts j1 = int (Suc made)"
      "if isl r then job_events (jw_db w1) = job_events (jw_db w)
       else job_status j1 = COMPLETED \<and> map ob_eventType (job_events (jw_db w1)) = map ob_eventType (job_events (jw_db w)) @ [''job.completed'']"
      using processor_attempt [OF uuid reg Cons.prems(1) run] by auto
    show ?thesis
    proof (cases r)
      case (Inr x)
      with False Cons.prems(4) run j1 show ?thesis by (auto simp: series_simps)
    next
      case (Inl e)
      let ?w2 = "on_job_failed newId (Suc made) (thrown_text e) t1 jd w1"
      obtain outs' where outs: "job_series registry newId (Suc made) jd ts ?w2 = (outs', w')" "outs = False # outs'"
        using False Cons.prems(4) run Inl by (auto split: prod.splits)
      obtain j2 where j2: "find_job (jd_orgId jd) (jd_jobRecordId jd) (jw_db ?w2) = Some j2" "job_attempts j2 = int (Suc made)"
        "job_status j2 = (if Suc made \<ge> MAX_JOB_ATTEMPTS then DEAD_LETTER else JOB_FAILED)"
        "map ob_eventType (job_events (jw_db ?w2)) = map ob_eventType (job_events (jw_db w)) @ series_events made [False]"
        using failed_attempt [OF uuid j1(1), of newId "Suc made" "thrown_text e" t1] j1 Inl by (auto simp: series_simps)
      from Cons.IH [OF j2(1,2) _ outs(1)] False
      obtain j3 where j3: "find_job (jd_orgId jd) (jd_jobRecordId jd) (jw_db w') = Some j3" "job_attempts j3 = int (Suc made + length outs')"
        "Suc made + length outs' \<le> MAX_JOB_ATTEMPTS" "True \<notin> set (butlast outs')"
        "job_status j3 = series_status (Suc made) outs' (job_status j2)"
        "map ob_eventType (job_events (jw_db w')) = map ob_eventType (job_events (jw_db ?w2)) @ series_events (Suc made) outs'"
        "Suc made + length ts \<ge> MAX_JOB_ATTEMPTS \<and> Suc made < MAX_JOB_ATTEMPTS \<longrightarrow> job_status j3 \<in> {COMPLETED, DEAD_LETTER}"
        by auto
      show ?thesis
      proof (cases "outs' = []")
        case True
        have "job_status j3 = series_status made [False] (job_status j)"
          using j3(5) True j2(3) by (simp add: series_status_def)
        moreover have "made + length (t # ts) \<ge> MAX_JOB_ATTEMPTS \<longrightarrow> job_status j3 \<in> {COMPLETED, DEAD_LETTER}"
          using j3(7) j3(5) True j2(3) False by (cases "Suc made < MAX_JOB_ATTEMPTS") (auto simp: series_status_def)
        ultimately show ?thesis using True j2 j3 outs by (simp add: series_events_def)
      next
        case nonempty: False
        then have fewer: "Suc made < MAX_JOB_ATTEMPTS" using j3(3) by (cases outs') auto
        have "series_events made [False] = []" using fewer by (simp add: series_events_def)
        moreover have "series_status made outs (job_status j) = series_status (Suc made) outs' (job_status j2)"
          using series_simps(3) [OF nonempty] by (simp add: outs)
        ultimately show ?thesis using nonempty fewer j2 j3 outs by (auto simp: series_simps(4))
      qed
    qed
  qed
qed

end

lemma registry_handlers:
  "jr_get (buildJobRegistry issue newId embedText models) ''batch_embeddings'' = Inr (batchEmbeddingsHandler issue embedText)"
  "jr_get (buildJobRegistry issue newId embedText models) ''bulk_chat'' = Inr (bulkChatHandler issue newId models)"
  by (simp_all add: buildJobRegistry_def jr_register_def jr_get_def batchEmbeddingsHandler_def bulkChatHandler_def)

text \<open>
  C12. A job of either type ends as its attempts say: at most three are made and none after a
  success; a success leaves it COMPLETED with exactly one \<^verbatim>\<open>job.completed\<close> event, the third failure
  DEAD\_LETTER with exactly one \<^verbatim>\<open>job.failed\<close> event, and a failure before that FAILED with no event at
  all. The row counts the attempts, and three of them always reach an end.
\<close>

theorem job_series_verdict:
  assumes "is_uuid (jd_orgId jd)" "jd_type jd = ''batch_embeddings'' \<or> jd_type jd = ''bulk_chat''"
    and "find_job (jd_orgId jd) (jd_jobRecordId jd) (jw_db w) = Some j" "job_attempts j = 0"
    and "job_series (buildJobRegistry issue newId embedText models) newId 0 jd ts w = (outs, w')"
  shows "\<exists>j'. find_job (jd_orgId jd) (jd_jobRecordId jd) (jw_db w') = Some j' \<and> job_attempts j' = int (length outs)
      \<and> length outs \<le> 3 \<and> True \<notin> set (butlast outs)
      \<and> job_status j' = (if outs = [] then job_status j else if last outs then COMPLETED
           else if length outs \<ge> 3 then DEAD_LETTER else JOB_FAILED)
      \<and> map ob_eventType (job_events (jw_db w')) = map ob_eventType (job_events (jw_db w)) @
           (if outs = [] then [] else if last outs then [''job.completed''] else if length outs \<ge> 3 then [''job.failed''] else [])
      \<and> (length ts \<ge> 3 \<longrightarrow> job_status j' \<in> {COMPLETED, DEAD_LETTER})"
proof -
  have start: "job_attempts j = int 0" "0 \<le> MAX_JOB_ATTEMPTS" using assms(4) by simp_all
  obtain j' where "find_job (jd_orgId jd) (jd_jobRecordId jd) (jw_db w') = Some j'" "job_attempts j' = int (0 + length outs)"
      "0 + length outs \<le> MAX_JOB_ATTEMPTS" "True \<notin> set (butlast outs)" "job_status j' = series_status 0 outs (job_status j)"
      "map ob_eventType (job_events (jw_db w')) = map ob_eventType (job_events (jw_db w)) @ series_events 0 outs"
      "0 + length ts \<ge> MAX_JOB_ATTEMPTS \<and> 0 < MAX_JOB_ATTEMPTS \<longrightarrow> job_status j' \<in> {COMPLETED, DEAD_LETTER}"
  proof (cases "jd_type jd = ''bulk_chat''")
    case True
    then have "jr_get (buildJobRegistry issue newId embedText models) (jd_type jd) = Inr (bulkChatHandler issue newId models)"
      by (simp add: registry_handlers)
    from bulk.series_verdict [OF assms(1) this assms(3) start assms(5)] show ?thesis using that by blast
  next
    case False
    then have "jr_get (buildJobRegistry issue newId embedText models) (jd_type jd) = Inr (batchEmbeddingsHandler issue embedText)"
      using assms(2) by (simp add: registry_handlers)
    from batch.series_verdict [OF assms(1) this assms(3) start assms(5)] show ?thesis using that by blast
  qed
  then show ?thesis by (simp add: series_status_def series_events_def MAX_JOB_ATTEMPTS_def)
qed

section \<open>Billing of bulk jobs\<close>

definition usage_ids :: "db \<Rightarrow> string list" where
  "usage_ids d = map ur_requestId (usage_records d)"

definition bills :: "db \<Rightarrow> db \<Rightarrow> string set \<Rightarrow> bool" where
  "bills d d' S \<longleftrightarrow> prefix (usage_records d) (usage_records d') \<and> (distinct (usage_ids d) \<longrightarrow> distinct (usage_ids d'))
     \<and> set (usage_ids d') \<subseteq> set (usage_ids d) \<union> S"

lemma bills_same: "usage_records d' = usage_records d \<Longrightarrow> bills d d' S"
  by (simp add: bills_def usage_ids_def)

lemma bills_trans: "bills a b S \<Longrightarrow> bills b c S \<Longrightarrow> bills a c S"
  unfolding bills_def by (blast intro: prefix_order.trans)

lemma bills_mono: "bills a b S \<Longrightarrow> S \<subseteq> T \<Longrightarrow> bills a b T"
  unfolding bills_def by blast

lemma bills_keeps: "bills d d' S \<Longrightarrow> set (usage_ids d) \<subseteq> set (usage_ids d')"
  unfolding bills_def usage_ids_def using set_mono_prefix by fastforce

lemma billJobUsage_bills:
  assumes "billJobUsage newId ctx model n usage now d = (r, d')" "jhc_apiKeyId ctx = Some k" "k \<noteq> []"
  shows "bills d d' {job_request_id (jhc_jobRecordId ctx) n}"
    and "\<not> isl r \<Longrightarrow> job_request_id (jhc_jobRecordId ctx) n \<in> set (usage_ids d')"
proof -
  have "bills d d' {job_request_id (jhc_jobRecordId ctx) n} \<and> (\<not> isl r \<longrightarrow> job_request_id (jhc_jobRecordId ctx) n \<in> set (usage_ids d'))"
    using assms
    by (auto simp: billJobUsage_def recordUsageAndOutbox_def withTenant_def insert_usage_def bills_def usage_ids_def writeOutboxEvent_def
        list_ex_iff image_iff split: option.splits if_splits prod.splits sum.splits) metis+
  then show "bills d d' {job_request_id (jhc_jobRecordId ctx) n}"
    "\<not> isl r \<Longrightarrow> job_request_id (jhc_jobRecordId ctx) n \<in> set (usage_ids d')" by blast+
qed

lemma updateJobProgress_usage: "updateJobProgress i orgId p w = (r, w') \<Longrightarrow> usage_records (jw_db w') = usage_records (jw_db w)"
  by (auto simp: updateJobProgress_def then_publish_def withTenant_def publishJobProgress_def update_job_def Let_def split: if_splits)

lemma bulk_loop_bills:
  assumes "jhc_apiKeyId ctx = Some k" "k \<noteq> []"
  shows "bulk_loop newId resolved ctx n i prompts acc t w = (r, t', w') \<Longrightarrow>
    bills (jw_db w) (jw_db w') (job_request_id (jhc_jobRecordId ctx) ` {i..<i + length prompts})
    \<and> (\<not> isl r \<longrightarrow> job_request_id (jhc_jobRecordId ctx) ` {i..<i + length prompts} \<subseteq> set (usage_ids (jw_db w')))"
proof (induction prompts arbitrary: i acc t w)
  case Nil
  then show ?case by (simp add: bills_same)
next
  case (Cons prompt prompts)
  let ?req = "job_request_id (jhc_jobRecordId ctx)"
  let ?S = "?req ` {i..<i + length (prompt # prompts)}"
  obtain c t1 where chat: "lp_chat (rm_provider resolved) (prompt_request (providerModel resolved) prompt) t = (c, t1)" by force
  show ?case
  proof (cases c)
    case (Inl e)
    with Cons.prems chat show ?thesis by (auto simp: bills_same)
  next
    case (Inr res)
    obtain b d1 where bill: "billJobUsage newId ctx (providerModel resolved) i (rsp_usage res) t1 (jw_db w) = (b, d1)" by force
    have b1: "bills (jw_db w) d1 ?S"
      using bills_mono [OF billJobUsage_bills(1) [OF bill assms]] by auto
    show ?thesis
    proof (cases b)
      case (Inl e)
      with Cons.prems chat Inr bill b1 show ?thesis by auto
    next
      case ok: (Inr x)
      then have paid: "?req i \<in> set (usage_ids d1)" using billJobUsage_bills(2) [OF bill assms] by simp
      obtain u w2 where prog: "updateJobProgress (jhc_jobRecordId ctx) (jhc_orgId ctx) (Some ((of_nat i + 1) / of_nat n * 100))
          (w\<lparr>jw_db := d1\<rparr>) = (u, w2)" by force
      have same: "usage_records (jw_db w2) = usage_records d1" using updateJobProgress_usage [OF prog] by simp
      have b2: "bills (jw_db w) (jw_db w2) ?S" using b1 same by (simp add: bills_def usage_ids_def)
      show ?thesis
      proof (cases u)
        case (Inl e)
        with Cons.prems chat Inr bill ok prog b2 show ?thesis by auto
      next
        case cont: (Inr y)
        have split: "{i..<i + length (prompt # prompts)} = insert i {Suc i..<Suc i + length prompts}" by auto
        have rest: "bulk_loop newId resolved ctx n (Suc i) prompts (acc @ [content (rsp_message res)]) t1 w2 = (r, t', w')"
          using Cons.prems chat Inr bill ok prog cont by simp
        note IH = Cons.IH [OF rest]
        have "bills (jw_db w2) (jw_db w') ?S"
          by (rule bills_mono [OF conjunct1 [OF IH]]) auto
        then have all: "bills (jw_db w) (jw_db w') ?S" "?req i \<in> set (usage_ids (jw_db w'))"
          using bills_trans [OF b2] bills_keeps [of "jw_db w2" "jw_db w'" ?S] paid same by (auto simp: usage_ids_def)
        with IH show ?thesis unfolding split by auto
      qed
    qed
  qed
qed


lemma bulkChat_run_bills:
  assumes "bulkChat_run newId models payload ctx t w = (r, t', w')" "jhc_apiKeyId ctx = Some k" "k \<noteq> []"
  defines "S \<equiv> job_request_id (jhc_jobRecordId ctx) ` {0..<length (payload_texts (jget payload ''prompts''))}"
  shows "bills (jw_db w) (jw_db w') S \<and> (\<not> isl r \<longrightarrow> S \<subseteq> set (usage_ids (jw_db w')))"
proof (cases "reg_resolve models (jstr (jget payload ''model''))")
  case None
  with assms(1) show ?thesis by (auto simp: bulkChat_run_def bills_same)
next
  case (Some resolved)
  let ?prompts = "payload_texts (jget payload ''prompts'')"
  obtain r1 t1 w1 where loop: "bulk_loop newId resolved ctx (length ?prompts) 0 ?prompts [] t w = (r1, t1, w1)" by (metis surj_pair)
  have "w' = w1 \<and> (isl r1 \<longleftrightarrow> isl r)" using assms(1) Some loop by (auto simp: bulkChat_run_def split: sum.splits)
  with bulk_loop_bills [OF assms(2,3) loop] show ?thesis by (simp add: S_def)
qed

lemma mark_usage:
  "markJobRunning i orgId n t w = (a, w') \<Longrightarrow> usage_records (jw_db w') = usage_records (jw_db w)"
  "markJobCompleted newId i orgId res t w = (b, w') \<Longrightarrow> usage_records (jw_db w') = usage_records (jw_db w)"
  "usage_records (jw_db (on_job_failed newId m msg t jd w)) = usage_records (jw_db w)"
  by (auto simp: markJobRunning_def markJobCompleted_def on_job_failed_def markJobFailed_def then_publish_def withTenant_def
      publishJobProgress_def update_job_def update_or_throw_def writeOutboxEvent_def Let_def split: if_splits option.splits)

lemma bulk_processor_bills:
  assumes uuid: "is_uuid (jd_orgId jd)" and reg: "jr_get registry (jd_type jd) = Inr (bulkChatHandler issue newId models)"
    and row: "find_job (jd_orgId jd) (jd_jobRecordId jd) (jw_db w) = Some j" "job_apiKeyId j = Some k" "k \<noteq> []"
    and run: "job_processor registry newId made jd t w = (r, t', w')"
  defines "S \<equiv> job_request_id (jd_jobRecordId jd) ` {0..<length (payload_texts (jget (job_payload j) ''prompts''))}"
  shows "bills (jw_db w) (jw_db w') S \<and> (\<not> isl r \<longrightarrow> S \<subseteq> set (usage_ids (jw_db w')))"
proof -
  let ?org = "jd_orgId jd" and ?i = "jd_jobRecordId jd"
  obtain w1 where mark: "markJobRunning ?i ?org (int made + 1) t w = (Inr (), w1)"
    using uuid by (simp add: markJobRunning_def then_publish_def withTenant_def)
  have u1: "usage_records (jw_db w1) = usage_records (jw_db w)" using mark by (rule mark_usage(1))
  have "find_job ?org ?i (jw_db w1) = Some (j\<lparr>job_status := RUNNING, job_attempts := int made + 1, job_startedAt := Some t, job_progress := 0\<rparr>)"
    using mark uuid row(1) by (auto simp: markJobRunning_def then_publish_def withTenant_def publishJobProgress_def find_job_update)
  then have get: "getJob (jw_db w1) ?org ?i = Inr (Some (j\<lparr>job_status := RUNNING, job_attempts := int made + 1, job_startedAt := Some t, job_progress := 0\<rparr>))"
    using uuid by (simp add: getJob_def withTenant_def)
  let ?ctx = "\<lparr>jhc_jobRecordId = ?i, jhc_orgId = ?org, jhc_apiKeyId = Some k\<rparr>"
  obtain r2 t2 w2 where run2: "bulkChat_run newId models (job_payload j) ?ctx t w1 = (r2, t2, w2)" by (metis surj_pair)
  have b2: "bills (jw_db w1) (jw_db w2) S" "\<not> isl r2 \<Longrightarrow> S \<subseteq> set (usage_ids (jw_db w2))"
    using bulkChat_run_bills [OF run2, of k] row(3) by (simp_all add: S_def)
  have via: "bills (jw_db w) (jw_db w2) S" using b2(1) u1 by (simp add: bills_def usage_ids_def)
  consider (bad) "\<not> bulkChatSchema (job_payload j)" | (failed) e where "bulkChatSchema (job_payload j)" "r2 = Inl e"
    | (succeeded) res where "bulkChatSchema (job_payload j)" "r2 = Inr res" by (cases r2) auto
  then show ?thesis
  proof cases
    case bad
    then have "isl r" "w' = w1" using run mark reg get by (auto simp: job_processor_def bulkChatHandler_def parseWith_def)
    with u1 show ?thesis by (simp add: bills_same)
  next
    case failed
    then have "isl r" "w' = w2" using run mark reg get row(2) run2 by (auto simp: job_processor_def bulkChatHandler_def parseWith_def)
    with via show ?thesis by simp
  next
    case succeeded
    obtain x w3 where w3: "markJobCompleted newId ?i ?org res t2 w2 = (x, w3)" by force
    then have "w' = w3" using run mark reg get row(2) run2 succeeded
      by (auto simp: job_processor_def bulkChatHandler_def parseWith_def split: sum.splits)
    moreover have "usage_records (jw_db w3) = usage_records (jw_db w2)" using w3 by (rule mark_usage(2))
    ultimately show ?thesis using via b2(2) succeeded by (simp add: bills_def usage_ids_def)
  qed
qed

lemma bulk_series_bills:
  assumes uuid: "is_uuid (jd_orgId jd)" and reg: "jr_get registry (jd_type jd) = Inr (bulkChatHandler issue newId models)"
    and k: "k \<noteq> []"
  shows "find_job (jd_orgId jd) (jd_jobRecordId jd) (jw_db w) = Some j \<Longrightarrow> job_apiKeyId j = Some k \<Longrightarrow> job_payload j = payload \<Longrightarrow>
    job_series registry newId made jd ts w = (outs, w') \<Longrightarrow>
    bills (jw_db w) (jw_db w') (job_request_id (jd_jobRecordId jd) ` {0..<length (payload_texts (jget payload ''prompts''))})
    \<and> (True \<in> set outs \<longrightarrow> job_request_id (jd_jobRecordId jd) ` {0..<length (payload_texts (jget payload ''prompts''))} \<subseteq> set (usage_ids (jw_db w')))"
proof (induction ts arbitrary: made w j outs)
  case Nil
  then show ?case by (simp add: bills_same)
next
  case (Cons t ts)
  let ?S = "job_request_id (jd_jobRecordId jd) ` {0..<length (payload_texts (jget payload ''prompts''))}"
  obtain r t1 w1 where run: "job_processor registry newId made jd t w = (r, t1, w1)" by (metis surj_pair)
  note b = bulk_processor_bills [OF uuid reg Cons.prems(1,2) k run, unfolded Cons.prems(3)]
  show ?case
  proof (cases "made \<ge> MAX_JOB_ATTEMPTS")
    case True
    with Cons.prems(4) show ?thesis by (auto simp: bills_same)
  next
    case False
    show ?thesis
    proof (cases r)
      case (Inr x)
      with False Cons.prems(4) run b show ?thesis by auto
    next
      case (Inl e)
      let ?w2 = "on_job_failed newId (Suc made) (thrown_text e) t1 jd w1"
      obtain outs' where outs: "job_series registry newId (Suc made) jd ts ?w2 = (outs', w')" "outs = False # outs'"
        using False Cons.prems(4) run Inl by (auto split: prod.splits)
      obtain j1 where "find_job (jd_orgId jd) (jd_jobRecordId jd) (jw_db w1) = Some j1" "job_payload j1 = payload" "job_apiKeyId j1 = Some k"
        using bulk.processor_attempt [OF uuid reg Cons.prems(1) run] Cons.prems(2,3) by auto
      then obtain j2 where j2: "find_job (jd_orgId jd) (jd_jobRecordId jd) (jw_db ?w2) = Some j2" "job_apiKeyId j2 = Some k" "job_payload j2 = payload"
        using failed_attempt [OF uuid] by metis
      have "bills (jw_db w) (jw_db ?w2) ?S" using b mark_usage(3) by (simp add: bills_def usage_ids_def)
      with Cons.IH [OF j2 outs(1)] outs(2) show ?thesis using bills_trans by auto
    qed
  qed
qed


definition demo_models :: ModelRegistry where
  "demo_models = \<lparr>reg_resolve = (\<lambda>m. Some \<lparr>rm_provider = \<lparr>lp_ref = 0, lp_name = ''mock'', lp_models = Inr [],
       lp_chat = (\<lambda>req t. if content (hd (req_messages req)) = ''b'' \<and> t < 200 then (Inl (ThrownJs ''overloaded''), t + 1)
          else (mock_chat ''id'' req, t + 1)),
       lp_chatStream = (\<lambda>req t. (([], None), t))\<rparr>, providerModel = m\<rparr>), reg_listModels = [], reg_listProviderNames = []\<rparr>"

definition demo_job :: Job where
  "demo_job = \<lparr>job_id = ''j1'', job_orgId = demo_org, job_apiKeyId = Some ''k1'', job_bullJobId = None, job_type = ''bulk_chat'',
     job_status = QUEUED, job_priority = 10,
     job_payload = JObj [(''model'', JStr ''mock-1''), (''prompts'', JArr [JStr ''a'', JStr ''b''])], job_progress = 0,
     job_result = None, job_error = None, job_attempts = 0, job_createdAt = 0, job_startedAt = None, job_finishedAt = None\<rparr>"

definition demo_world :: jobs_world where
  "demo_world = \<lparr>jw_queue = [], jw_published = [], jw_db = empty_db\<lparr>jobs := [demo_job]\<rparr>\<rparr>"

definition demo_data :: JobData where
  "demo_data = \<lparr>jd_jobRecordId = ''j1'', jd_orgId = demo_org, jd_type = ''bulk_chat''\<rparr>"

lemma demo_find_job: "find_job (jd_orgId demo_data) (jd_jobRecordId demo_data) (jw_db demo_world) = Some demo_job"
  by (simp add: find_job_def demo_data_def demo_world_def demo_job_def tenant_rows_def)

theorem job_series_verdict_witness:
  "\<exists>outs w' j'. job_series (buildJobRegistry (\<lambda>_. ''bad'') show_nat (\<lambda>_ t. (Inr [], t)) demo_models) show_nat 0 demo_data [100, 110, 120] demo_world = (outs, w')
     \<and> find_job demo_org ''j1'' (jw_db w') = Some j' \<and> job_status j' \<in> {COMPLETED, DEAD_LETTER}"
proof -
  obtain outs w' where run: "job_series (buildJobRegistry (\<lambda>_. ''bad'') show_nat (\<lambda>_ t. (Inr [], t)) demo_models) show_nat 0 demo_data
      [100, 110, 120] demo_world = (outs, w')" by force
  have "is_uuid (jd_orgId demo_data)" "jd_type demo_data = ''batch_embeddings'' \<or> jd_type demo_data = ''bulk_chat''" "job_attempts demo_job = 0"
    by (simp_all add: demo_data_def demo_job_def)
  from job_series_verdict [OF this(1,2) demo_find_job this(3) run] show ?thesis
    using run by (auto simp: demo_data_def)
qed


section \<open>Well-formed rows\<close>

definition jobs_ok :: "db \<Rightarrow> bool" where
  "jobs_ok d \<longleftrightarrow> list_all (\<lambda>j. 0 \<le> job_progress j \<and> job_progress j \<le> 100 \<and> 0 \<le> job_attempts j) (jobs d)"

lemma jobs_ok_update:
  "jobs_ok d \<Longrightarrow> (\<And>j. 0 \<le> job_progress j \<Longrightarrow> job_progress j \<le> 100 \<Longrightarrow> 0 \<le> job_attempts j \<Longrightarrow>
     0 \<le> job_progress (f j) \<and> job_progress (f j) \<le> 100 \<and> 0 \<le> job_attempts (f j)) \<Longrightarrow> jobs_ok (update_job orgId i f d)"
  by (auto simp: jobs_ok_def update_job_def tenant_update_def list_all_iff)

lemma jobs_ok_outbox [simp]: "jobs_ok (writeOutboxEvent r t ty p d) = jobs_ok d"
  by (simp add: jobs_ok_def writeOutboxEvent_def)

lemma jobs_ok_tenant:
  assumes "jobs_ok d" "\<And>a d'. fn d = (Inr a, d') \<Longrightarrow> jobs_ok d'"
  shows "jobs_ok (snd (withTenant d orgId fn))"
  using assms by (auto simp: withTenant_def split: prod.split sum.split)

lemma jobs_ok_publish:
  "jobs_ok (snd rd) \<Longrightarrow> jobs_ok (jw_db (snd (then_publish rd ev w)))"
  by (auto simp: then_publish_def publishJobProgress_def split: prod.split sum.split)

lemma normalizeProgress_range: "0 \<le> normalizeProgress p \<and> normalizeProgress p \<le> 100"
  by (auto simp: normalizeProgress_def split: option.split)

text \<open>
  Every row of the job table stays well formed, whatever a handler reports: progress between 0 and
  100 and a count of attempts that is not negative, under every operation that writes the table.
\<close>

theorem job_rows_stay_wf:
  assumes "jobs_ok (jw_db w)" "0 \<le> n"
  shows "jobs_ok (jw_db (snd (createJob rowId bullId orgId apiKeyId ty payload prio now w)))
    \<and> jobs_ok (jw_db (snd (markJobRunning i orgId n now w)))
    \<and> jobs_ok (jw_db (snd (updateJobProgress i orgId percent w)))
    \<and> jobs_ok (jw_db (snd (markJobCompleted newId i orgId res now w)))
    \<and> jobs_ok (jw_db (snd (markJobFailed newId i orgId msg fin now w)))
    \<and> jobs_ok (jw_db (snd (replayJob bullId orgId i w)))"
proof (intro conjI)
  have upd: "jobs_ok (snd (withTenant d orgId (update_or_throw orgId i' f)))"
    if "jobs_ok d" "\<And>j. 0 \<le> job_progress j \<Longrightarrow> job_progress j \<le> 100 \<Longrightarrow> 0 \<le> job_attempts j \<Longrightarrow>
      0 \<le> job_progress (f j) \<and> job_progress (f j) \<le> 100 \<and> 0 \<le> job_attempts (f j)" for d f i'
    using that by (auto simp: update_or_throw_def intro!: jobs_ok_tenant jobs_ok_update split: option.splits)
  have add: "jobs_ok (d\<lparr>jobs := jobs d @ [j]\<rparr>)" if "jobs_ok d" "job_progress j = 0" "job_attempts j = 0" for d j
    using that by (simp add: jobs_ok_def)
  show "jobs_ok (jw_db (snd (createJob rowId bullId orgId apiKeyId ty payload prio now w)))"
    using assms(1)
    by (auto simp: createJob_def Let_def withTenant_def update_or_throw_def split: option.splits prod.splits if_splits
        intro!: jobs_ok_update add)
  show "jobs_ok (jw_db (snd (markJobRunning i orgId n now w)))"
    unfolding markJobRunning_def using assms by (intro jobs_ok_publish jobs_ok_tenant) (auto intro!: jobs_ok_update)
  show "jobs_ok (jw_db (snd (updateJobProgress i orgId percent w)))"
    unfolding updateJobProgress_def Let_def using assms normalizeProgress_range [of percent]
    by (intro jobs_ok_publish jobs_ok_tenant) (auto intro!: jobs_ok_update)
  show "jobs_ok (jw_db (snd (markJobCompleted newId i orgId res now w)))"
    unfolding markJobCompleted_def using assms
    by (intro jobs_ok_publish jobs_ok_tenant) (auto simp: update_or_throw_def intro!: jobs_ok_update split: option.splits)
  show "jobs_ok (jw_db (snd (markJobFailed newId i orgId msg fin now w)))"
    unfolding markJobFailed_def Let_def using assms
    by (intro jobs_ok_publish jobs_ok_tenant) (auto intro!: jobs_ok_update split: option.splits if_splits)
  show "jobs_ok (jw_db (snd (replayJob bullId orgId i w)))"
    using assms(1)
    by (auto simp: replayJob_def Let_def withTenant_def update_or_throw_def split: option.splits prod.splits if_splits sum.splits
        intro!: jobs_ok_update)
qed

theorem job_rows_stay_wf_witness:
  "jobs_ok (jw_db (snd (updateJobProgress ''j1'' demo_org (Some 250) demo_world)))"
  using job_rows_stay_wf [of demo_world 0 _ _ demo_org _ _ _ _ _ "''j1''" "Some 250"]
  by (simp add: demo_world_def jobs_ok_def demo_job_def)

end
