(* ===== verification/Events.thy ===== *)
theory Events
  imports Jobs
begin

text \<open>
  The event bus and its subscribers: \<^verbatim>\<open>packages/events\<close> (\<^verbatim>\<open>schema.ts\<close>, \<^verbatim>\<open>bus.ts\<close>),
  \<^verbatim>\<open>natsPublisher.ts\<close> and \<^verbatim>\<open>modules/events/subscribers.ts\<close>. JetStream is modelled by what the sources ask
  of it: a stream of messages that refuses a second message with the same id, and deliveries to a
  consumer, each of which ends in an acknowledgement, a request for redelivery or a termination.
  zod's notion of a UUID is the parameter \<open>zuuid\<close>, \<^verbatim>\<open>sendEmail\<close> and \<^verbatim>\<open>reportUsage\<close> are parameters on a
  state of their own. The lemmas show that auditing is exactly once under redelivery and reordering.
\<close>

section \<open>schema.ts\<close>

definition subjectFor :: "string \<Rightarrow> string" where
  "subjectFor eventType = ''cloudmesh.'' @ eventType"

definition EVENT_TYPES :: "string list" where
  "EVENT_TYPES = [''request.completed'', ''usage.recorded'', ''budget.warning'']"

definition isKnownEventType :: "json option \<Rightarrow> bool" where
  "isKnownEventType v = (case as_string v of None \<Rightarrow> False | Some s \<Rightarrow> s \<in> set EVENT_TYPES)"

text \<open>Fields of a zod object: what each accepts, and whether it may be absent. Other keys are dropped.\<close>

type_synonym field = "string \<times> bool \<times> (json \<Rightarrow> bool)"

definition z_string :: "nat \<Rightarrow> nat option \<Rightarrow> json \<Rightarrow> bool" where
  "z_string lo hi j = (case as_string (Some j) of None \<Rightarrow> False
     | Some s \<Rightarrow> lo \<le> length s \<and> (case hi of None \<Rightarrow> True | Some n \<Rightarrow> length s \<le> n))"

definition z_uuid :: "(string \<Rightarrow> bool) \<Rightarrow> json \<Rightarrow> bool" where
  "z_uuid zuuid j = (case as_string (Some j) of None \<Rightarrow> False | Some s \<Rightarrow> zuuid s)"

definition z_number :: "json \<Rightarrow> bool" where
  "z_number j = (as_number (Some j) \<noteq> None)"

definition z_nonneg :: "json \<Rightarrow> bool" where
  "z_nonneg j = (case as_number (Some j) of None \<Rightarrow> False | Some n \<Rightarrow> 0 \<le> n)"

definition z_count :: "json \<Rightarrow> bool" where
  "z_count j = (case as_number (Some j) of None \<Rightarrow> False | Some n \<Rightarrow> 0 \<le> n \<and> n = of_int (math_floor n) \<and> n \<le> 2 ^ 53 - 1)"

definition z_bool :: "json \<Rightarrow> bool" where
  "z_bool j = (case j of JBool b \<Rightarrow> True | _ \<Rightarrow> False)"

definition z_object :: "field list \<Rightarrow> json option \<Rightarrow> json option" where
  "z_object fs raw =
     (case raw of
        Some (JObj kvs) \<Rightarrow>
          (if list_all (\<lambda>(k, optional, P). case map_of kvs k of None \<Rightarrow> optional | Some v \<Rightarrow> P v) fs
           then Some (JObj (List.map_filter (\<lambda>(k, _, _). map_option (\<lambda>v. (k, v)) (map_of kvs k)) fs))
           else None)
      | _ \<Rightarrow> None)"

definition requestCompletedSchema :: "(string \<Rightarrow> bool) \<Rightarrow> field list" where
  "requestCompletedSchema zuuid =
     [(''orgId'', False, z_uuid zuuid), (''requestId'', False, z_string 1 (Some 200)), (''model'', False, z_string 1 (Some 200)),
      (''promptTokens'', False, z_count), (''completionTokens'', False, z_count), (''costUsd'', False, z_nonneg),
      (''latencyMs'', True, z_count), (''cacheHit'', True, z_bool)]"

definition usageRecordedSchema :: "(string \<Rightarrow> bool) \<Rightarrow> field list" where
  "usageRecordedSchema zuuid =
     [(''orgId'', False, z_uuid zuuid), (''apiKeyId'', False, z_uuid zuuid), (''model'', False, z_string 1 (Some 200)),
      (''promptTokens'', False, z_count), (''completionTokens'', False, z_count), (''costUsd'', False, z_nonneg),
      (''requestId'', False, z_string 1 (Some 200))]"

definition budgetWarningSchema :: "(string \<Rightarrow> bool) \<Rightarrow> field list" where
  "budgetWarningSchema zuuid =
     [(''orgId'', False, z_uuid zuuid), (''spentUsd'', False, z_nonneg), (''budgetUsd'', False, (\<lambda>j. j = JNull \<or> z_nonneg j)),
      (''remainingFraction'', False, z_number)]"

record EventEnvelope =
  env_eventId :: string
  env_eventType :: string
  env_timestamp :: string
  env_payload :: "json option"

definition eventEnvelopeSchema :: "json \<Rightarrow> EventEnvelope option" where
  "eventEnvelopeSchema raw =
     (case z_object [(''eventId'', False, z_string 1 (Some 200)), (''eventType'', False, z_string 1 (Some 100)),
                     (''timestamp'', False, z_string 1 None)] (Some raw) of
        None \<Rightarrow> None
      | Some j \<Rightarrow> Some \<lparr>env_eventId = jstr (jget j ''eventId''), env_eventType = jstr (jget j ''eventType''),
                        env_timestamp = jstr (jget j ''timestamp''), env_payload = jget raw ''payload''\<rparr>)"

definition PAYLOAD_SCHEMAS :: "(string \<Rightarrow> bool) \<Rightarrow> (string \<times> field list) list" where
  "PAYLOAD_SCHEMAS zuuid =
     [(''request.completed'', requestCompletedSchema zuuid), (''usage.recorded'', usageRecordedSchema zuuid),
      (''budget.warning'', budgetWarningSchema zuuid)]"

datatype event_error = InvalidEventError | SyntaxErr | HandlerError thrown

text \<open>An inherited property of the schema table has no \<^verbatim>\<open>safeParse\<close>: calling it is a type error.\<close>

definition parseEvent :: "(string \<Rightarrow> bool) \<Rightarrow> json \<Rightarrow> (event_error, EventEnvelope \<times> json option) result" where
  "parseEvent zuuid raw =
     (case eventEnvelopeSchema raw of
        None \<Rightarrow> Inl InvalidEventError
      | Some envelope \<Rightarrow>
          (case prop_lookup (PAYLOAD_SCHEMAS zuuid) (env_eventType envelope) of
             Missing \<Rightarrow> Inr (envelope, env_payload envelope)
           | Inherited \<Rightarrow> Inl (HandlerError (ThrownJs ''TypeError''))
           | Own schema \<Rightarrow>
               (case z_object schema (env_payload envelope) of
                  None \<Rightarrow> Inl InvalidEventError
                | Some payload \<Rightarrow> Inr (envelope, Some payload))))"

section \<open>bus.ts and natsPublisher.ts\<close>

text \<open>A message of the stream: subject, message id and the JSON text it carries, here the value.\<close>

record message =
  msg_subject :: string
  msg_id :: string
  msg_data :: "json option"

definition envelope_json :: "string \<Rightarrow> string \<Rightarrow> string \<Rightarrow> json \<Rightarrow> json" where
  "envelope_json eventId eventType timestamp payload =
     JObj [(''eventId'', JStr eventId), (''eventType'', JStr eventType), (''timestamp'', JStr timestamp), (''payload'', payload)]"

text \<open>
  \<open>js_publish\<close> is JetStream's publish call: it takes the stream, subject, encoded envelope and message id
  and says whether the call returned. Whether a repeated id is stored again is JetStream's affair.
\<close>

definition bus_publish ::
    "('w \<Rightarrow> string \<Rightarrow> json \<Rightarrow> string \<Rightarrow> bool \<times> 'w) \<Rightarrow> ('w \<Rightarrow> ms) \<Rightarrow> 'w \<Rightarrow> string \<Rightarrow> json \<Rightarrow> string \<Rightarrow> bool \<times> 'w" where
  "bus_publish js_publish clock w eventType payload eventId =
     js_publish w (subjectFor eventType) (envelope_json eventId eventType (toISOString (clock w)) payload) eventId"

definition NatsEventPublisher_publish ::
    "('w \<Rightarrow> string \<Rightarrow> json \<Rightarrow> string \<Rightarrow> bool \<times> 'w) \<Rightarrow> ('w \<Rightarrow> ms) \<Rightarrow> 'w \<Rightarrow> string \<Rightarrow> json \<Rightarrow> string \<Rightarrow> bool \<times> 'w" where
  "NatsEventPublisher_publish js_publish clock w eventType payload eventId =
     bus_publish js_publish clock w eventType payload eventId"

datatype ack = Ack | Nak | Term

text \<open>The body of the consumer's loop for one delivered message.\<close>

definition consume ::
    "(string \<Rightarrow> bool) \<Rightarrow> (json option \<Rightarrow> EventEnvelope \<Rightarrow> 's \<Rightarrow> (thrown, unit) result \<times> 's) \<Rightarrow> message \<Rightarrow> 's \<Rightarrow> ack \<times> 's" where
  "consume zuuid handler msg st =
     (case msg_data msg of
        None \<Rightarrow> (Term, st)
      | Some raw \<Rightarrow>
          (case parseEvent zuuid raw of
             Inl (HandlerError _) \<Rightarrow> (Nak, st)
           | Inl _ \<Rightarrow> (Term, st)
           | Inr (envelope, payload) \<Rightarrow>
               (case handler payload envelope st of
                  (Inr _, st') \<Rightarrow> (Ack, st')
                | (Inl _, st') \<Rightarrow> (Nak, st'))))"

text \<open>A consumer's filter: one subject, or everything below the root.\<close>

definition subject_matches :: "string \<Rightarrow> string \<Rightarrow> bool" where
  "subject_matches filterSubject subject \<longleftrightarrow>
     (if filterSubject = ''cloudmesh.>'' then starts_with subject ''cloudmesh.'' \<and> length subject > length ''cloudmesh.''
      else subject = filterSubject)"

text \<open>The deliveries a consumer gets, in any order and as often as JetStream repeats them.\<close>

fun consume_all ::
    "(string \<Rightarrow> bool) \<Rightarrow> string \<Rightarrow> (json option \<Rightarrow> EventEnvelope \<Rightarrow> 's \<Rightarrow> (thrown, unit) result \<times> 's) \<Rightarrow> message list \<Rightarrow> 's \<Rightarrow> ack list \<times> 's" where
  "consume_all zuuid filterSubject handler [] st = ([], st)"
| "consume_all zuuid filterSubject handler (m # ms) st =
     (if subject_matches filterSubject (msg_subject m)
      then (let (a, st') = consume zuuid handler m st; (as, st'') = consume_all zuuid filterSubject handler ms st' in (a # as, st''))
      else consume_all zuuid filterSubject handler ms st)"

section \<open>subscribers.ts\<close>

definition analyticsKey :: "string \<Rightarrow> string \<Rightarrow> string \<Rightarrow> string" where
  "analyticsKey orgId day metric = ''analytics:'' @ orgId @ '':'' @ day @ '':'' @ metric"

definition utcDay :: "string \<Rightarrow> string" where
  "utcDay t = take 10 t"

text \<open>The server with \<^verbatim>\<open>INCRBY\<close>, which only this subscriber issues.\<close>

record 's counter_redis = "'s redis" +
  r_incrby :: "string \<Rightarrow> int \<Rightarrow> ms \<Rightarrow> 's \<Rightarrow> 's"

definition analytics_handler ::
    "('s, 'm) counter_redis_scheme \<Rightarrow> (string \<Rightarrow> bool) \<Rightarrow> ms \<Rightarrow> json option \<Rightarrow> EventEnvelope \<Rightarrow> 's \<Rightarrow> (thrown, unit) result \<times> 's" where
  "analytics_handler R zuuid now payload envelope s =
     (case z_object (usageRecordedSchema zuuid) payload of
        None \<Rightarrow> (Inl (ThrownJs ''ZodError''), s)
      | Some event \<Rightarrow>
          (let orgId = jstr (jget event ''orgId''); day = utcDay (toISOString now);
               totalTokens = math_floor (jnum (jget event ''promptTokens'')) + math_floor (jnum (jget event ''completionTokens''));
               s1 = snd (r_incr R (analyticsKey orgId day ''requests'') now s);
               s2 = r_incrby R (analyticsKey orgId day ''tokens'') totalTokens now s1
           in (Inr (), r_incrby R (analyticsKey orgId day ''cost_micros'') (math_round (jnum (jget event ''costUsd'') * 1000000)) now s2)))"

record DailyAnalytics =
  da_requests :: int
  da_tokens :: int
  da_costUsd :: rat

definition getDailyAnalytics :: "('s, 'm) redis_scheme \<Rightarrow> string \<Rightarrow> string \<Rightarrow> ms \<Rightarrow> 's \<Rightarrow> DailyAnalytics" where
  "getDailyAnalytics R orgId day now s =
     \<lparr>da_requests = counter_or_zero R (analyticsKey orgId day ''requests'') now s,
      da_tokens = counter_or_zero R (analyticsKey orgId day ''tokens'') now s,
      da_costUsd = of_int (counter_or_zero R (analyticsKey orgId day ''cost_micros'') now s) / 1000000\<rparr>"

text \<open>\<^verbatim>\<open>(payload as ...).orgId\<close>: reading a property of \<^verbatim>\<open>null\<close> or \<^verbatim>\<open>undefined\<close> throws.\<close>

definition payload_org :: "json option \<Rightarrow> (thrown, string option) result" where
  "payload_org payload =
     (case payload of
        None \<Rightarrow> Inl (ThrownJs ''TypeError'')
      | Some JNull \<Rightarrow> Inl (ThrownJs ''TypeError'')
      | Some j \<Rightarrow> Inr (case as_string (jget j ''orgId'') of Some s \<Rightarrow> if s = [] then None else Some s | None \<Rightarrow> None))"

definition insert_audit :: "string \<Rightarrow> EventEnvelope \<Rightarrow> json \<Rightarrow> db \<Rightarrow> (thrown, unit) result \<times> db" where
  "insert_audit orgId envelope payload tx =
     (if list_ex (\<lambda>r. al_eventId r = env_eventId envelope) (audit_log tx) then (Inl (ThrownJs ''P2002''), tx)
      else (Inr (), tx\<lparr>audit_log := audit_log tx @
        [\<lparr>al_orgId = orgId, al_eventId = env_eventId envelope, al_eventType = env_eventType envelope, al_payload = payload\<rparr>]\<rparr>))"

definition audit_handler :: "json option \<Rightarrow> EventEnvelope \<Rightarrow> db \<Rightarrow> (thrown, unit) result \<times> db" where
  "audit_handler payload envelope d =
     (case payload_org payload of
        Inl e \<Rightarrow> (Inl e, d)
      | Inr None \<Rightarrow> (Inr (), d)
      | Inr (Some orgId) \<Rightarrow>
          (case withTenant d orgId (insert_audit orgId envelope (the payload)) of
             (Inr _, d') \<Rightarrow> (Inr (), d')
           | (Inl e, d') \<Rightarrow> (if e = ThrownJs ''P2002'' then Inr () else Inl e, d')))"

definition billing_handler ::
    "(string \<Rightarrow> rat \<Rightarrow> string \<Rightarrow> 's \<Rightarrow> (thrown, unit) result \<times> 's) option \<Rightarrow> (string \<Rightarrow> bool)
      \<Rightarrow> json option \<Rightarrow> EventEnvelope \<Rightarrow> 's \<Rightarrow> (thrown, unit) result \<times> 's" where
  "billing_handler reportUsage zuuid payload envelope st =
     (case z_object (usageRecordedSchema zuuid) payload of
        None \<Rightarrow> (Inl (ThrownJs ''ZodError''), st)
      | Some event \<Rightarrow>
          (case reportUsage of
             None \<Rightarrow> (Inr (), st)
           | Some report \<Rightarrow>
               report (jstr (jget event ''orgId'')) (jnum (jget event ''promptTokens'') + jnum (jget event ''completionTokens''))
                 (jstr (jget event ''requestId'')) st))"

definition webhook_dispatch_handler ::
    "(nat \<Rightarrow> string) \<Rightarrow> ms \<Rightarrow> json option \<Rightarrow> EventEnvelope \<Rightarrow> WebhookJobData list \<times> db \<Rightarrow> (thrown, unit) result \<times> WebhookJobData list \<times> db" where
  "webhook_dispatch_handler newId now payload envelope st =
     (if \<not> isWebhookEventType (Some (JStr (env_eventType envelope))) then (Inr (), st)
      else
        (case payload_org payload of
           Inl e \<Rightarrow> (Inl e, st)
         | Inr None \<Rightarrow> (Inr (), st)
         | Inr (Some orgId) \<Rightarrow>
             (case dispatchWebhookEvent newId now orgId (env_eventType envelope) (the payload) (fst st) (snd st) of
                (Inl e, st') \<Rightarrow> (Inl e, st')
              | (Inr _, st') \<Rightarrow> (Inr (), st'))))"

text \<open>A missing property prints as \<^verbatim>\<open>undefined\<close>; the payload properties read here are strings and numbers.\<close>

definition show_prop :: "json option \<Rightarrow> string \<Rightarrow> string" where
  "show_prop payload k = (case as_string (opt_get payload k) of None \<Rightarrow> ''undefined'' | Some s \<Rightarrow> s)"

definition EMAIL_SUBJECTS :: "(string \<times> (json option \<Rightarrow> string)) list" where
  "EMAIL_SUBJECTS =
     [(''job.completed'', \<lambda>p. ''Job '' @ show_prop p ''jobId'' @ '' completed''),
      (''job.failed'', \<lambda>p. ''Job '' @ show_prop p ''jobId'' @ '' failed''),
      (''budget.warning'', \<lambda>p. ''Budget warning: '' @ show_int (math_round (jnum (opt_get p ''remainingFraction'') * 100)) @ ''% remaining''),
      (''budget.exceeded'', \<lambda>p. ''Monthly budget exceeded''),
      (''api_key.created'', \<lambda>p. ''New API key created ('' @ show_prop p ''keyPrefix'' @ '')''),
      (''api_key.revoked'', \<lambda>p. ''API key revoked ('' @ show_prop p ''keyPrefix'' @ '')'')]"

record email =
  em_to :: string
  em_subject :: string
  em_html :: string

text \<open>\<open>pretty\<close> is \<^verbatim>\<open>JSON.stringify(payload, null, 2)\<close>. Inherited keys never get here: \<open>parseEvent\<close> throws first.\<close>

definition email_handler ::
    "(json option \<Rightarrow> string) \<Rightarrow> (email \<Rightarrow> 's \<Rightarrow> (thrown, unit) result \<times> 's) \<Rightarrow> db \<Rightarrow> json option \<Rightarrow> EventEnvelope \<Rightarrow> 's \<Rightarrow> (thrown, unit) result \<times> 's" where
  "email_handler pretty sendEmail d payload envelope st =
     (case map_of EMAIL_SUBJECTS (env_eventType envelope) of
        None \<Rightarrow> (Inr (), st)
      | Some subjectFn \<Rightarrow>
          (case payload_org payload of
             Inl e \<Rightarrow> (Inl e, st)
           | Inr None \<Rightarrow> (Inr (), st)
           | Inr (Some orgId) \<Rightarrow>
               (case fst (withTenant d orgId (\<lambda>tx. (Inr (find (\<lambda>u. usr_orgId u = orgId \<and> usr_role u = OWNER) (users tx)), tx))) of
                  Inl e \<Rightarrow> (Inl e, st)
                | Inr None \<Rightarrow> (Inr (), st)
                | Inr (Some owner) \<Rightarrow>
                    sendEmail \<lparr>em_to = usr_email owner, em_subject = subjectFn payload,
                      em_html = ''<p>'' @ env_eventType envelope @ ''</p><pre>'' @ pretty payload @ ''</pre>''\<rparr> st)))"

section \<open>Auditing is exactly once\<close>

text \<open>The row a delivered message asks for: none for poison, events without organisation, or a bad id.\<close>

definition audit_row :: "(string \<Rightarrow> bool) \<Rightarrow> message \<Rightarrow> AuditLog option" where
  "audit_row zuuid m =
     (if \<not> subject_matches ''cloudmesh.>'' (msg_subject m) then None
      else
        (case msg_data m of
           None \<Rightarrow> None
         | Some raw \<Rightarrow>
             (case parseEvent zuuid raw of
                Inl _ \<Rightarrow> None
              | Inr (envelope, payload) \<Rightarrow>
                  (case payload_org payload of
                     Inr (Some orgId) \<Rightarrow>
                       (if is_uuid orgId
                        then Some \<lparr>al_orgId = orgId, al_eventId = env_eventId envelope,
                                   al_eventType = env_eventType envelope, al_payload = the payload\<rparr>
                        else None)
                   | _ \<Rightarrow> None))))"

definition audit_put :: "AuditLog \<Rightarrow> db \<Rightarrow> db" where
  "audit_put r d = (if al_eventId r \<in> al_eventId ` set (audit_log d) then d else d\<lparr>audit_log := audit_log d @ [r]\<rparr>)"

lemma list_ex_key: "list_ex (\<lambda>r. f r = k) rows \<longleftrightarrow> k \<in> f ` set rows"
  by (auto simp: list_ex_iff)

lemma consume_audit:
  assumes "subject_matches ''cloudmesh.>'' (msg_subject m)"
  shows "case audit_row zuuid m of
      None \<Rightarrow> snd (consume zuuid audit_handler m d) = d
    | Some r \<Rightarrow> consume zuuid audit_handler m d = (Ack, audit_put r d)"
proof (cases "\<exists>raw envelope payload. msg_data m = Some raw \<and> parseEvent zuuid raw = Inr (envelope, payload)")
  case True
  then obtain raw envelope payload where m: "msg_data m = Some raw" "parseEvent zuuid raw = Inr (envelope, payload)" by blast
  show ?thesis
  proof (cases "\<exists>orgId. payload_org payload = Inr (Some orgId) \<and> is_uuid orgId")
    case True
    then show ?thesis
      using assms m by (auto simp: audit_row_def consume_def audit_handler_def withTenant_def insert_audit_def audit_put_def
          list_ex_key split: option.splits)
  next
    case False
    then show ?thesis
      using assms m by (auto simp: audit_row_def consume_def audit_handler_def withTenant_def split: option.splits sum.splits)
  qed
next
  case False
  then show ?thesis
    by (auto simp: audit_row_def consume_def split: option.splits sum.splits event_error.splits)
qed

lemma consume_all_audit:
  "snd (consume_all zuuid ''cloudmesh.>'' audit_handler ms d) = fold audit_put (List.map_filter (audit_row zuuid) ms) d"
proof (induction ms arbitrary: d)
  case (Cons m ms)
  show ?case
  proof (cases "subject_matches ''cloudmesh.>'' (msg_subject m)")
    case True
    from consume_audit [OF True, of zuuid d] show ?thesis
      using Cons.IH True by (auto simp: map_filter_simps split_beta Let_def split: option.splits)
  next
    case False
    then have "audit_row zuuid m = None" by (simp add: audit_row_def)
    with False Cons.IH show ?thesis by (simp add: map_filter_simps)
  qed
qed (simp add: map_filter_simps)

lemma fold_audit_put:
  "fold audit_put rs d = d\<lparr>audit_log := audit_log d @ distinct_by al_eventId (map al_eventId (audit_log d)) rs\<rparr>"
proof (induction rs arbitrary: d)
  case (Cons r rs)
  show ?case
  proof (cases "al_eventId r \<in> al_eventId ` set (audit_log d)")
    case True
    with Cons.IH [of d] show ?thesis by (simp add: audit_put_def)
  next
    case False
    have "distinct_by al_eventId (map al_eventId (audit_log d) @ [al_eventId r]) rs =
        distinct_by al_eventId (al_eventId r # map al_eventId (audit_log d)) rs"
      by (rule distinct_by_cong) simp
    with False Cons.IH [of "audit_put r d"] show ?thesis by (simp add: audit_put_def)
  qed
qed simp

lemma distinct_by_distinct:
  "distinct (map f (distinct_by f seen xs)) \<and> set (map f (distinct_by f seen xs)) = f ` set xs - set seen
    \<and> set (distinct_by f seen xs) \<subseteq> set xs"
proof (induction xs arbitrary: seen)
  case (Cons x xs)
  from Cons.IH [of seen] Cons.IH [of "f x # seen"] show ?case by (auto simp: image_iff)
qed simp

lemma audit_run:
  assumes "distinct (map al_eventId (audit_log d))"
  obtains rows where "snd (consume_all zuuid ''cloudmesh.>'' audit_handler ms d) = d\<lparr>audit_log := audit_log d @ rows\<rparr>"
    "distinct (map al_eventId (audit_log d @ rows))"
    "set (map al_eventId (audit_log d @ rows)) =
       set (map al_eventId (audit_log d)) \<union> {al_eventId r | r. \<exists>m \<in> set ms. audit_row zuuid m = Some r}"
    "\<forall>r \<in> set rows. \<exists>m \<in> set ms. audit_row zuuid m = Some r"
proof -
  let ?rs = "List.map_filter (audit_row zuuid) ms"
  let ?rows = "distinct_by al_eventId (map al_eventId (audit_log d)) ?rs"
  have rs: "set ?rs = {r. \<exists>m \<in> set ms. audit_row zuuid m = Some r}"
    by (force simp: List.map_filter_def)
  show ?thesis
  proof (rule that [of ?rows])
    show "snd (consume_all zuuid ''cloudmesh.>'' audit_handler ms d) = d\<lparr>audit_log := audit_log d @ ?rows\<rparr>"
      by (simp add: consume_all_audit fold_audit_put)
    note new = distinct_by_distinct [of al_eventId "map al_eventId (audit_log d)" ?rs]
    then show "distinct (map al_eventId (audit_log d @ ?rows))" using assms by auto
    show "set (map al_eventId (audit_log d @ ?rows)) =
        set (map al_eventId (audit_log d)) \<union> {al_eventId r | r. \<exists>m \<in> set ms. audit_row zuuid m = Some r}"
      using new by (simp add: rs image_Collect)
    show "\<forall>r \<in> set ?rows. \<exists>m \<in> set ms. audit_row zuuid m = Some r" using new rs by blast
  qed
qed

lemma audit_ack:
  assumes "audit_row zuuid m = Some r"
  shows "fst (consume zuuid audit_handler m d) = Ack"
proof -
  from assms have "subject_matches ''cloudmesh.>'' (msg_subject m)" by (auto simp: audit_row_def split: if_splits)
  from consume_audit [OF this, of zuuid d] assms show ?thesis by simp
qed

text \<open>
  C21. The audit log is exactly once over at-least-once delivery: whatever messages JetStream delivers to
  the audit consumer, in whatever order and however often, the log only grows, never holds two rows for
  one event, holds a row for every event delivered that names a tenant, and every new row is the one some
  delivered message asked for; no other table changes. Every such delivery is acknowledged, repeated
  ones included, so it is not redelivered.
\<close>

theorem audit_exactly_once:
  assumes "distinct (map al_eventId (audit_log d))"
  shows "\<exists>rows. snd (consume_all zuuid ''cloudmesh.>'' audit_handler ms d) = d\<lparr>audit_log := audit_log d @ rows\<rparr>
    \<and> distinct (map al_eventId (audit_log d @ rows))
    \<and> set (map al_eventId (audit_log d @ rows)) =
        set (map al_eventId (audit_log d)) \<union> {al_eventId r | r. \<exists>m \<in> set ms. audit_row zuuid m = Some r}
    \<and> (\<forall>r \<in> set rows. \<exists>m \<in> set ms. audit_row zuuid m = Some r)
    \<and> (\<forall>m r d'. audit_row zuuid m = Some r \<longrightarrow> fst (consume zuuid audit_handler m d') = Ack)"
proof -
  have "\<forall>m r d'. audit_row zuuid m = Some r \<longrightarrow> fst (consume zuuid audit_handler m d') = Ack"
    by (simp add: audit_ack)
  moreover obtain rows where "snd (consume_all zuuid ''cloudmesh.>'' audit_handler ms d) = d\<lparr>audit_log := audit_log d @ rows\<rparr>"
    "distinct (map al_eventId (audit_log d @ rows))"
    "set (map al_eventId (audit_log d @ rows)) =
       set (map al_eventId (audit_log d)) \<union> {al_eventId r | r. \<exists>m \<in> set ms. audit_row zuuid m = Some r}"
    "\<forall>r \<in> set rows. \<exists>m \<in> set ms. audit_row zuuid m = Some r"
    by (rule audit_run [OF assms])
  ultimately show ?thesis by (intro exI [of _ rows] conjI)
qed

definition demo_message :: "string \<Rightarrow> message" where
  "demo_message i = \<lparr>msg_subject = ''cloudmesh.job.failed'', msg_id = i,
     msg_data = Some (envelope_json i ''job.failed'' ''t'' (JObj [(''orgId'', JStr demo_org)]))\<rparr>"

definition demo_row :: "string \<Rightarrow> AuditLog" where
  "demo_row i = \<lparr>al_orgId = demo_org, al_eventId = i, al_eventType = ''job.failed'', al_payload = JObj [(''orgId'', JStr demo_org)]\<rparr>"

lemma audit_row_demo: "i \<in> {''e1'', ''e2''} \<Longrightarrow> audit_row zuuid (demo_message i) = Some (demo_row i)"
  by (auto simp: audit_row_def demo_message_def demo_row_def subject_matches_def parseEvent_def eventEnvelopeSchema_def
      envelope_json_def z_object_def z_string_def map_filter_simps prop_lookup_def PAYLOAD_SCHEMAS_def payload_org_def
      object_prototype_keys_def, simp_all add: demo_org_def)

theorem audit_exactly_once_witness:
  "set (map al_eventId (audit_log (snd (consume_all (\<lambda>_. True) ''cloudmesh.>'' audit_handler
      [demo_message ''e2'', demo_message ''e1'', demo_message ''e2''] empty_db)))) = {''e1'', ''e2''}"
proof -
  let ?ms = "[demo_message ''e2'', demo_message ''e1'', demo_message ''e2'']"
  have none: "audit_log empty_db = []" by (simp add: empty_db_def)
  have "{al_eventId r | r. \<exists>m \<in> set ?ms. audit_row (\<lambda>_. True) m = Some r} = al_eventId ` {demo_row ''e2'', demo_row ''e1''}"
    by (auto simp: audit_row_demo)
  also have "\<dots> = {''e1'', ''e2''}" by (auto simp: demo_row_def)
  finally have ids: "{al_eventId r | r. \<exists>m \<in> set ?ms. audit_row (\<lambda>_. True) m = Some r} = {''e1'', ''e2''}" .
  obtain rows where "snd (consume_all (\<lambda>_. True) ''cloudmesh.>'' audit_handler ?ms empty_db) = empty_db\<lparr>audit_log := audit_log empty_db @ rows\<rparr>"
    "set (map al_eventId (audit_log empty_db @ rows)) = set (map al_eventId (audit_log empty_db))
       \<union> {al_eventId r | r. \<exists>m \<in> set ?ms. audit_row (\<lambda>_. True) m = Some r}"
    using audit_exactly_once [of empty_db "\<lambda>_. True" ?ms] none by force
  then show ?thesis unfolding ids none by simp
qed

section \<open>From the outbox to the stream\<close>

definition event_message :: "ms \<Rightarrow> OutboxEvent \<Rightarrow> message" where
  "event_message ts e =
     \<lparr>msg_subject = subjectFor (ob_eventType e), msg_id = ob_id e,
      msg_data = Some (envelope_json (ob_id e) (ob_eventType e) (toISOString ts) (ob_payload e))\<rparr>"

definition on_stream :: "message list \<Rightarrow> OutboxEvent \<Rightarrow> bool" where
  "on_stream ms e \<longleftrightarrow> (\<exists>ts. event_message ts e \<in> set ms)"

text \<open>
  What a stream that agrees with the outbox satisfies: every event marked published is on it, and what
  it holds under an event's id is that event.
\<close>

definition stream_ok :: "message list \<Rightarrow> db \<Rightarrow> bool" where
  "stream_ok ms d \<longleftrightarrow> distinct (map ob_id (outbox_events d))
     \<and> (\<forall>e \<in> set (outbox_events d). ob_publishedAt e \<noteq> None \<longrightarrow> on_stream ms e)
     \<and> (\<forall>e \<in> set (outbox_events d). \<forall>m \<in> set ms. msg_id m = ob_id e \<longrightarrow> (\<exists>ts. m = event_message ts e))"

lemma event_message_published [simp]: "event_message ts (e\<lparr>ob_publishedAt := t\<rparr>) = event_message ts e"
  by (simp add: event_message_def)

lemma msg_id_event_message [simp]: "msg_id (event_message ts e) = ob_id e"
  by (simp add: event_message_def)

lemma on_stream_published [simp]: "on_stream ms (e\<lparr>ob_publishedAt := t\<rparr>) = on_stream ms e"
  by (simp add: on_stream_def)

text \<open>
  JetStream as the publisher uses it: publishing adds at most the message it was given, a call that
  returns leaves a message with that id on the stream, and nothing already there is lost.
\<close>

locale event_stream =
  fixes js_publish :: "'w \<Rightarrow> string \<Rightarrow> json \<Rightarrow> string \<Rightarrow> bool \<times> 'w" and stored :: "'w \<Rightarrow> message list"
  assumes adds: "js_publish w subj body i = (b, w') \<Longrightarrow>
      set (stored w') = set (stored w)
      \<or> set (stored w') = insert \<lparr>msg_subject = subj, msg_id = i, msg_data = Some body\<rparr> (set (stored w))"
    and accepted: "js_publish w subj body i = (True, w') \<Longrightarrow> \<exists>m \<in> set (stored w'). msg_id m = i"
begin

lemma publish_step:
  assumes ok: "stream_ok (stored w) d" and e: "e \<in> set (outbox_events d)"
    and run: "NatsEventPublisher_publish js_publish clock w (ob_eventType e) (ob_payload e) (ob_id e) = (b, w')"
  shows "stream_ok (stored w') d \<and> (b \<longrightarrow> stream_ok (stored w') (mark_published (ob_id e) now d))"
proof -
  let ?m = "event_message (clock w) e"
  have js: "js_publish w (msg_subject ?m) (the (msg_data ?m)) (ob_id e) = (b, w')"
    using run by (simp add: NatsEventPublisher_publish_def bus_publish_def event_message_def)
  from adds [OF js] have sub: "set (stored w) \<subseteq> set (stored w')" "set (stored w') \<subseteq> insert ?m (set (stored w))"
    by (auto simp: event_message_def)
  have same: "e' = e" if "e' \<in> set (outbox_events d)" "ob_id e' = ob_id e" for e'
    using ok e that by (auto simp: stream_ok_def distinct_map inj_on_def)
  have held: "\<exists>ts. m = event_message ts e'"
    if "e' \<in> set (outbox_events d)" "m \<in> set (stored w')" "msg_id m = ob_id e'" for m e'
  proof (cases "m = ?m")
    case True
    with that have "e' = e" by (intro same) simp_all
    with True show ?thesis by blast
  next
    case False
    with that sub ok show ?thesis unfolding stream_ok_def by blast
  qed
  have "on_stream (stored w) e' \<Longrightarrow> on_stream (stored w') e'" for e' using sub(1) by (auto simp: on_stream_def)
  with ok held have ok': "stream_ok (stored w') d" unfolding stream_ok_def by blast
  have "stream_ok (stored w') (mark_published (ob_id e) now d)" if b
  proof -
    from that js have "js_publish w (msg_subject ?m) (the (msg_data ?m)) (ob_id e) = (True, w')" by simp
    from accepted [OF this] obtain m where "m \<in> set (stored w')" "msg_id m = ob_id e" by blast
    moreover from this ok' e obtain ts where "m = event_message ts e" unfolding stream_ok_def by blast
    ultimately have "on_stream (stored w') e" by (auto simp: on_stream_def)
    then have "on_stream (stored w') e'" if "e' \<in> set (outbox_events d)" "ob_id e' = ob_id e" for e'
      using same [OF that] by simp
    with ok' show ?thesis by (auto simp: stream_ok_def mark_published_def comp_def if_distrib cong: if_cong)
  qed
  with ok' show ?thesis by blast
qed

lemma publish_all_ok:
  assumes "stream_ok (stored w) d" and "set es \<subseteq> set (outbox_events d)" and "distinct (map ob_id es)"
    and "publish_all (NatsEventPublisher_publish js_publish clock) now es w d = (n, w', d')"
  shows "stream_ok (stored w') d'"
  using assms
proof (induction es arbitrary: w d n)
  case (Cons e es)
  obtain b w1 where pub: "NatsEventPublisher_publish js_publish clock w (ob_eventType e) (ob_payload e) (ob_id e) = (b, w1)"
    by force
  have step: "stream_ok (stored w1) d" "b \<longrightarrow> stream_ok (stored w1) (mark_published (ob_id e) now d)"
    using publish_step [OF Cons.prems(1) _ pub, of now] Cons.prems(2) by auto
  have "set es \<subseteq> set (outbox_events (mark_published (ob_id e) now d))"
    using Cons.prems(2,3) by (force simp: mark_published_def image_iff)
  with step Cons.IH Cons.prems pub show ?case by (auto split: prod.splits bool.splits)
qed simp

lemma pollOutbox_ok:
  assumes "stream_ok (stored w) d"
    and "pollOutbox (NatsEventPublisher_publish js_publish clock) batch now w d = (res, w', d')"
  shows "stream_ok (stored w') d'"
proof -
  have sub: "set (pending_events batch d) \<subseteq> set (outbox_events d)"
    by (auto simp: pending_events_def dest: in_set_takeD)
  have "distinct (map ob_id (sort_key ob_createdAt (filter (\<lambda>e. ob_publishedAt e = None) (outbox_events d))))"
    using assms(1) by (simp add: stream_ok_def distinct_map distinct_map_filter inj_on_def)
  then have "distinct (map ob_id (pending_events batch d))"
    by (simp add: pending_events_def take_map [symmetric])
  with assms publish_all_ok [OF assms(1) sub] show ?thesis by (auto simp: pollOutbox_def Let_def split: prod.splits)
qed

lemma startOutboxPoller_ok:
  assumes "stream_ok (stored w) d"
    and "startOutboxPoller (NatsEventPublisher_publish js_publish clock) ticks w d = (w', d')"
  shows "stream_ok (stored w') d'"
  using assms
proof (induction ticks arbitrary: w d)
  case (Cons now ticks)
  obtain res w1 d1 where poll: "pollOutbox (NatsEventPublisher_publish js_publish clock) 50 now w d = (res, w1, d1)"
    by (metis prod_cases3)
  with Cons.IH [OF pollOutbox_ok [OF Cons.prems(1) poll]] Cons.prems(2) show ?case by simp
qed simp

end

text \<open>The stream with a duplicate window that never closes, and calls that fail where \<open>down\<close> says so.\<close>

definition mem_js_publish :: "(message list \<Rightarrow> bool) \<Rightarrow> message list \<Rightarrow> string \<Rightarrow> json \<Rightarrow> string \<Rightarrow> bool \<times> message list" where
  "mem_js_publish down ms subj body i =
     (if down ms then (False, ms)
      else (True, if list_ex (\<lambda>m. msg_id m = i) ms then ms
                  else ms @ [\<lparr>msg_subject = subj, msg_id = i, msg_data = Some body\<rparr>]))"

interpretation mem_stream: event_stream "mem_js_publish down" "\<lambda>ms. ms"
  by unfold_locales (auto simp: mem_js_publish_def list_ex_iff split: if_splits)

section \<open>What the producers write is what the consumers accept\<close>

definition id_len_ok :: "nat \<Rightarrow> string \<Rightarrow> bool" where
  "id_len_ok n s \<longleftrightarrow> 1 \<le> length s \<and> length s \<le> n"

lemma toISOString_nonempty [simp]: "toISOString ts \<noteq> []"
  by (simp add: toISOString_def Let_def split: prod.splits)

lemma eventEnvelope_round_trip:
  "eventEnvelopeSchema (envelope_json i ty (toISOString ts) p) =
     (if id_len_ok 200 i \<and> id_len_ok 100 ty
      then Some \<lparr>env_eventId = i, env_eventType = ty, env_timestamp = toISOString ts, env_payload = Some p\<rparr> else None)"
  by (simp add: eventEnvelopeSchema_def envelope_json_def z_object_def z_string_def id_len_ok_def map_filter_simps
      Suc_le_eq)

lemma audit_row_event: "audit_row zuuid (event_message ts e) = audit_row zuuid (event_message ts' e)"
proof -
  have "parseEvent zuuid (envelope_json i ty (toISOString ts) p) =
      map_sum id (map_prod (env_timestamp_update (\<lambda>_. toISOString ts)) id)
        (parseEvent zuuid (envelope_json i ty (toISOString ts') p))" for i ty p
    by (cases "prop_lookup (PAYLOAD_SCHEMAS zuuid) ty"; cases "id_len_ok 200 i \<and> id_len_ok 100 ty")
      (auto simp: parseEvent_def eventEnvelope_round_trip split: option.split)
  then show ?thesis
    unfolding audit_row_def event_message_def by (simp split: sum.split prod.split option.split)
qed

lemma audit_row_id: "audit_row zuuid (event_message ts e) = Some r \<Longrightarrow> al_eventId r = ob_id e"
  by (auto simp: audit_row_def event_message_def parseEvent_def eventEnvelope_round_trip
      split: if_splits option.splits sum.splits slot.splits prod.splits)

lemma distinct_key_count:
  "distinct (map f xs) \<Longrightarrow> k \<in> set (map f xs) \<Longrightarrow> length (filter (\<lambda>x. f x = k) xs) = 1"
proof (induction xs)
  case (Cons x xs)
  show ?case
  proof (cases "f x = k")
    case True
    with Cons.prems have "filter (\<lambda>y. f y = k) xs = []" by (auto simp: filter_empty_conv image_iff)
    with True show ?thesis by simp
  next
    case False
    with Cons show ?thesis by auto
  qed
qed simp

text \<open>A call of \<^verbatim>\<open>recordUsage\<close> with the ids and counts a request carries.\<close>

definition usage_params_ok :: "(string \<Rightarrow> bool) \<Rightarrow> RecordUsageParams \<Rightarrow> bool" where
  "usage_params_ok zuuid p \<longleftrightarrow> zuuid (rup_orgId p) \<and> zuuid (rup_apiKeyId p) \<and> is_uuid (rup_orgId p)
     \<and> id_len_ok 200 (rup_model p) \<and> id_len_ok 200 (rup_requestId p)
     \<and> z_count (JNum (promptTokens (rup_usage p))) \<and> z_count (JNum (completionTokens (rup_usage p)))"

lemma usage_payload_parses:
  assumes "usage_params_ok zuuid p" and "0 \<le> cost"
  shows "z_object (usageRecordedSchema zuuid) (Some (usage_payload p cost)) = Some (usage_payload p cost)"
  using assms
  by (simp add: usage_params_ok_def id_len_ok_def z_object_def usageRecordedSchema_def usage_payload_def z_uuid_def
      z_string_def z_nonneg_def map_filter_simps)

lemma usage_event_parses:
  assumes "usage_params_ok zuuid p" and "0 \<le> cost" and "id_len_ok 200 i"
  shows "parseEvent zuuid (envelope_json i ''usage.recorded'' (toISOString ts) (usage_payload p cost)) =
    Inr (\<lparr>env_eventId = i, env_eventType = ''usage.recorded'', env_timestamp = toISOString ts,
          env_payload = Some (usage_payload p cost)\<rparr>, Some (usage_payload p cost))"
proof -
  have ty: "id_len_ok 100 ''usage.recorded''" by (simp add: id_len_ok_def)
  have slot: "prop_lookup (PAYLOAD_SCHEMAS zuuid) ''usage.recorded'' = Own (usageRecordedSchema zuuid)"
    by (simp add: prop_lookup_def PAYLOAD_SCHEMAS_def)
  show ?thesis
    unfolding parseEvent_def eventEnvelope_round_trip
    using ty slot usage_payload_parses [OF assms(1,2)] assms(3) by simp
qed

text \<open>
  C35. The usage event that billing writes to the outbox is accepted by every consumer that reads it: for
  a billable call with well-formed ids the event recorded by \<^verbatim>\<open>recordUsageAndOutbox\<close> parses, with the
  payload unchanged, whenever it is published, and the audit consumer files it under the organisation
  billed; it is never terminated as poison.
\<close>

theorem usage_event_accepted:
  assumes "usage_params_ok zuuid p" and "id_len_ok 200 rowId"
    and "recordUsageAndOutbox rowId p now d = (Inr \<lparr>costUsd = cost, recorded = True\<rparr>, d')"
  shows "\<exists>e. outbox_events d' = outbox_events d @ [e] \<and> ob_id e = rowId
    \<and> (\<exists>envelope. parseEvent zuuid (the (msg_data (event_message ts e))) = Inr (envelope, Some (ob_payload e)))
    \<and> audit_row zuuid (event_message ts e) = Some \<lparr>al_orgId = rup_orgId p, al_eventId = rowId,
          al_eventType = ''usage.recorded'', al_payload = usage_payload p cost\<rparr>"
proof -
  let ?e = "\<lparr>ob_id = rowId, ob_eventType = ''usage.recorded'', ob_payload = usage_payload p cost, ob_publishedAt = None, ob_createdAt = now\<rparr>"
  from assms(1) have org: "is_uuid (rup_orgId p)" "rup_orgId p \<noteq> []"
    and pos: "0 \<le> promptTokens (rup_usage p)" "0 \<le> completionTokens (rup_usage p)"
    by (auto simp: usage_params_ok_def z_count_def is_uuid_def)
  from assms(3) have cost: "computeCostUsd (rup_model p) (rup_usage p) = Some cost"
    by (auto simp: recordUsageAndOutbox_def split: option.splits prod.splits sum.splits)
  then have "outbox_events d' = outbox_events d @ [?e]"
    using assms(3) org by (auto simp: recordUsageAndOutbox_def withTenant_def insert_usage_def writeOutboxEvent_def
        split: if_splits)
  moreover have parse: "\<exists>envelope. parseEvent zuuid (the (msg_data (event_message ts ?e))) = Inr (envelope, Some (usage_payload p cost))
      \<and> env_eventId envelope = rowId \<and> env_eventType envelope = ''usage.recorded''"
    using usage_event_parses [OF assms(1) computeCostUsd_nonneg [OF cost pos] assms(2), of ts]
    by (simp add: event_message_def)
  moreover have "subject_matches ''cloudmesh.>'' (subjectFor ''usage.recorded'')"
    by (simp add: subject_matches_def subjectFor_def)
  moreover have "payload_org (Some (usage_payload p cost)) = Inr (Some (rup_orgId p))"
    using org by (simp add: payload_org_def usage_payload_def)
  ultimately show ?thesis
    using org by (intro exI [of _ ?e]) (auto simp: audit_row_def event_message_def)
qed

theorem usage_event_accepted_witness:
  "\<exists>e cost. outbox_events (snd (recordUsageAndOutbox ''e1'' (demo_usage ''r1'') 0 empty_db)) = [e]
     \<and> audit_row (\<lambda>_. True) (event_message 7 e) = Some \<lparr>al_orgId = demo_org, al_eventId = ''e1'',
         al_eventType = ''usage.recorded'', al_payload = usage_payload (demo_usage ''r1'') cost\<rparr>"
proof -
  have "\<exists>cost d'. recordUsageAndOutbox ''e1'' (demo_usage ''r1'') 0 empty_db = (Inr \<lparr>costUsd = cost, recorded = True\<rparr>, d')"
    using billable_demo_usage [of "''r1''"]
    by (auto simp: billable_def recordUsageAndOutbox_def withTenant_def insert_usage_def empty_db_def)
  then obtain cost d' where run: "recordUsageAndOutbox ''e1'' (demo_usage ''r1'') 0 empty_db = (Inr \<lparr>costUsd = cost, recorded = True\<rparr>, d')"
    by blast
  have "usage_params_ok (\<lambda>_. True) (demo_usage ''r1'')"
    by (simp add: usage_params_ok_def demo_usage_def id_len_ok_def z_count_def math_floor_def)
  moreover have "outbox_events empty_db = []" "rup_orgId (demo_usage ''r1'') = demo_org"
    by (simp_all add: empty_db_def demo_usage_def)
  ultimately show ?thesis
    using usage_event_accepted [OF _ _ run, of "\<lambda>_. True" 7] by (auto simp: id_len_ok_def run)
qed

end
