(* ===== verification/Accounts.thy ===== *)
theory Accounts
  imports ApiKeys "HOL-Library.Countable"
begin

text \<open>
  Accounts and sessions of \<^verbatim>\<open>apps/api\<close>: \<^verbatim>\<open>lib/jwt.ts\<close>, \<^verbatim>\<open>lib/password.ts\<close>, \<^verbatim>\<open>modules/auth\<close> and
  \<^verbatim>\<open>middleware/requireJwt.ts\<close>. \<^verbatim>\<open>jsonwebtoken\<close> and \<^verbatim>\<open>bcryptjs\<close> are parameters, records of the calls the sources
  make, and the locale \<open>credential_libs\<close> states what is documented of them. The lemmas show that a refresh
  token works once, and that registration, login and refresh fit together.
\<close>

section \<open>errors.ts\<close>

definition ForbiddenError :: "string \<Rightarrow> AppError" where
  "ForbiddenError msg = \<lparr>statusCode = 403, message = msg, err_code = ''FORBIDDEN'', headers = []\<rparr>"

definition ConflictError :: "string \<Rightarrow> AppError" where
  "ConflictError msg = \<lparr>statusCode = 409, message = msg, err_code = ''CONFLICT'', headers = []\<rparr>"

definition api_ProviderError :: "string \<Rightarrow> nat \<Rightarrow> AppError" where
  "api_ProviderError msg status = \<lparr>statusCode = status, message = msg, err_code = ''PROVIDER_ERROR'', headers = []\<rparr>"

section \<open>jwt.ts\<close>

text \<open>
  \<open>jwt_sign\<close> takes the claims, the secret, the life time in seconds and the clock; \<open>jwt_verify\<close> (with the
  algorithm fixed to HS256) takes the token, the secret and the clock and gives the claims or an error text.
\<close>

record jwt_lib =
  jwt_sign :: "json \<Rightarrow> string \<Rightarrow> int \<Rightarrow> ms \<Rightarrow> string"
  jwt_verify :: "string \<Rightarrow> string \<Rightarrow> ms \<Rightarrow> (string, json) result"

record jwt_env =
  JWT_SECRET :: string
  JWT_SECRET_PREVIOUS :: "string option"

definition ACCESS_TOKEN_TTL :: int where
  "ACCESS_TOKEN_TTL = 15 * 60"

definition REFRESH_TOKEN_TTL_SECONDS :: int where
  "REFRESH_TOKEN_TTL_SECONDS = 60 * 60 * 24 * 7"

definition signAccessToken :: "jwt_lib \<Rightarrow> jwt_env \<Rightarrow> string \<Rightarrow> string \<Rightarrow> string \<Rightarrow> ms \<Rightarrow> string" where
  "signAccessToken J env sub orgId roleName now =
     jwt_sign J (JObj [(''sub'', JStr sub), (''orgId'', JStr orgId), (''role'', JStr roleName)]) (JWT_SECRET env) ACCESS_TOKEN_TTL now"

definition signRefreshToken :: "jwt_lib \<Rightarrow> jwt_env \<Rightarrow> string \<Rightarrow> string \<Rightarrow> string \<Rightarrow> ms \<Rightarrow> string" where
  "signRefreshToken J env sub orgId jti now =
     jwt_sign J (JObj [(''sub'', JStr sub), (''orgId'', JStr orgId), (''jti'', JStr jti)]) (JWT_SECRET env) REFRESH_TOKEN_TTL_SECONDS now"

datatype InvalidTokenError = InvalidTokenError string

definition verifyWithRotation :: "jwt_lib \<Rightarrow> jwt_env \<Rightarrow> string \<Rightarrow> ms \<Rightarrow> (InvalidTokenError, json) result" where
  "verifyWithRotation J env token now =
     (case jwt_verify J token (JWT_SECRET env) now of
        Inr payload \<Rightarrow> Inr payload
      | Inl firstErr \<Rightarrow>
          (case JWT_SECRET_PREVIOUS env of
             None \<Rightarrow> Inl (InvalidTokenError firstErr)
           | Some previous \<Rightarrow>
               if previous = [] then Inl (InvalidTokenError firstErr)
               else (case jwt_verify J token previous now of
                       Inr payload \<Rightarrow> Inr payload
                     | Inl _ \<Rightarrow> Inl (InvalidTokenError firstErr))))"

text \<open>The casts of the two callers check nothing: a missing claim reads as \<^verbatim>\<open>undefined\<close>.\<close>

definition claim :: "json \<Rightarrow> string \<Rightarrow> string option" where
  "claim payload k = as_string (jget payload k)"

record AccessTokenPayload =
  at_sub :: "string option"
  at_orgId :: "string option"
  at_role :: "string option"

definition verifyAccessToken :: "jwt_lib \<Rightarrow> jwt_env \<Rightarrow> string \<Rightarrow> ms \<Rightarrow> (InvalidTokenError, AccessTokenPayload) result" where
  "verifyAccessToken J env token now =
     map_sum id (\<lambda>p. \<lparr>at_sub = claim p ''sub'', at_orgId = claim p ''orgId'', at_role = claim p ''role''\<rparr>) (verifyWithRotation J env token now)"

record RefreshTokenPayload =
  rt_sub :: "string option"
  rt_orgId :: "string option"
  rt_jti :: "string option"

definition verifyRefreshToken :: "jwt_lib \<Rightarrow> jwt_env \<Rightarrow> string \<Rightarrow> ms \<Rightarrow> (InvalidTokenError, RefreshTokenPayload) result" where
  "verifyRefreshToken J env token now =
     map_sum id (\<lambda>p. \<lparr>rt_sub = claim p ''sub'', rt_orgId = claim p ''orgId'', rt_jti = claim p ''jti''\<rparr>) (verifyWithRotation J env token now)"

section \<open>password.ts\<close>

record bcrypt_lib =
  bc_hash :: "string \<Rightarrow> nat \<Rightarrow> string \<Rightarrow> string"
  bc_compare :: "string \<Rightarrow> string \<Rightarrow> bool"

definition MIN_LENGTH :: nat where
  "MIN_LENGTH = 8"

definition MAX_LENGTH :: nat where
  "MAX_LENGTH = 72"

definition validatePasswordStrength :: "string \<Rightarrow> string option" where
  "validatePasswordStrength password =
     (if length password < MIN_LENGTH then Some ''Password must be at least 8 characters''
      else if length password > MAX_LENGTH then Some ''Password must be at most 72 characters''
      else None)"

text \<open>The salt bcrypt draws is an argument.\<close>

definition hashPassword :: "bcrypt_lib \<Rightarrow> nat \<Rightarrow> string \<Rightarrow> string \<Rightarrow> string" where
  "hashPassword B cost salt password = bc_hash B password cost salt"

definition verifyPasswordConstantTime :: "bcrypt_lib \<Rightarrow> string \<Rightarrow> string option \<Rightarrow> bool" where
  "verifyPasswordConstantTime B password hash =
     (case hash of None \<Rightarrow> False | Some h \<Rightarrow> if h = [] then False else bc_compare B password h)"

section \<open>auth/service.ts\<close>

definition REFRESH_TTL_SECONDS :: int where
  "REFRESH_TTL_SECONDS = 60 * 60 * 24 * 7"

definition refreshKey :: "string \<Rightarrow> string" where
  "refreshKey jti = ''refresh:'' @ jti"

record TokenPair =
  tp_accessToken :: string
  tp_refreshToken :: string

fun show_role :: "UserRole \<Rightarrow> string" where
  "show_role OWNER = ''OWNER''"
| "show_role ADMIN = ''ADMIN''"
| "show_role MEMBER = ''MEMBER''"

definition issueTokenPair ::
    "('s, 'm) redis_scheme \<Rightarrow> jwt_lib \<Rightarrow> jwt_env \<Rightarrow> string \<Rightarrow> string \<Rightarrow> string \<Rightarrow> string \<Rightarrow> ms \<Rightarrow> 's \<Rightarrow> TokenPair \<times> 's" where
  "issueTokenPair R J env jti userId orgId roleName t s =
     (\<lparr>tp_accessToken = signAccessToken J env userId orgId roleName t, tp_refreshToken = signRefreshToken J env userId orgId jti t\<rparr>,
      r_set R (refreshKey jti) (SText userId) (REFRESH_TTL_SECONDS * 1000) t s)"

definition new_org_flags :: json where
  "new_org_flags =
     JObj [(''semantic_cache'', JBool False), (''streaming'', JBool False), (''rate_limit_rpm'', JNum 60), (''allowed_models'', JArr []),
           (''request_dedup'', JBool False)]"

definition find_user :: "string \<Rightarrow> db \<Rightarrow> UserRow option" where
  "find_user email d = find (\<lambda>u. usr_email u = email) (users d)"

text \<open>The ids of the two new rows are arguments.\<close>

definition register ::
    "bcrypt_lib \<Rightarrow> nat \<Rightarrow> string \<Rightarrow> string \<Rightarrow> string \<Rightarrow> string \<Rightarrow> string \<Rightarrow> string \<Rightarrow> db \<Rightarrow> (AppError, string \<times> string) result \<times> db" where
  "register B cost salt orgId userId orgName email password d =
     (case validatePasswordStrength password of
        Some strengthError \<Rightarrow> (Inl (ValidationError strengthError), d)
      | None \<Rightarrow>
          (case find_user email d of
             Some _ \<Rightarrow> (Inl (ConflictError ''Email is already registered''), d)
           | None \<Rightarrow>
               (Inr (orgId, userId),
                d\<lparr>organizations := organizations d @
                     [\<lparr>org_id = orgId, org_name = orgName, org_plan = FREE_PLAN, org_stripeCustomerId = None, org_budgetOverrideUsd = None,
                       org_featureFlags = new_org_flags\<rparr>],
                  users := users d @
                     [\<lparr>usr_id = userId, usr_email = email, usr_passwordHash = hashPassword B cost salt password, usr_role = OWNER,
                       usr_orgId = orgId\<rparr>]\<rparr>)))"

definition login ::
    "('s, 'm) redis_scheme \<Rightarrow> jwt_lib \<Rightarrow> jwt_env \<Rightarrow> bcrypt_lib \<Rightarrow> string \<Rightarrow> string \<Rightarrow> string \<Rightarrow> ms \<Rightarrow> 's \<times> db
      \<Rightarrow> (AppError, TokenPair \<times> UserRow) result \<times> 's" where
  "login R J env B jti email password t = (\<lambda>(s, d).
     let user = find_user email d; valid = verifyPasswordConstantTime B password (map_option usr_passwordHash user)
     in case user of
          None \<Rightarrow> (Inl (UnauthorizedError ''Invalid email or password''), s)
        | Some u \<Rightarrow>
            if \<not> valid then (Inl (UnauthorizedError ''Invalid email or password''), s)
            else
              (let (tokens, s') = issueTokenPair R J env jti (usr_id u) (usr_orgId u) (show_role (usr_role u)) t s
               in (Inr (tokens, u), s')))"

definition claim_text :: "string option \<Rightarrow> string" where
  "claim_text c = (case c of None \<Rightarrow> ''undefined'' | Some x \<Rightarrow> x)"

definition refresh ::
    "('s, 'm) redis_scheme \<Rightarrow> jwt_lib \<Rightarrow> jwt_env \<Rightarrow> string \<Rightarrow> string \<Rightarrow> ms \<Rightarrow> 's \<times> db \<Rightarrow> (AppError, TokenPair) result \<times> 's" where
  "refresh R J env newJti refreshToken t = (\<lambda>(s, d).
     case verifyRefreshToken J env refreshToken t of
       Inl _ \<Rightarrow> (Inl (UnauthorizedError ''Invalid or expired refresh token''), s)
     | Inr payload \<Rightarrow>
         (let key = refreshKey (claim_text (rt_jti payload)) in
          case r_get R key t s of
            Some (SText stored) \<Rightarrow>
              (if stored = [] \<or> Some stored \<noteq> rt_sub payload then (Inl (UnauthorizedError ''Refresh token has been revoked''), s)
               else
                 (let s1 = r_del R key t s in
                  case find (\<lambda>u. usr_id u = stored) (users d) of
                    None \<Rightarrow> (Inl (UnauthorizedError ''Account no longer exists''), s1)
                  | Some u \<Rightarrow>
                      (let (tokens, s2) = issueTokenPair R J env newJti (usr_id u) (usr_orgId u) (show_role (usr_role u)) t s1
                       in (Inr tokens, s2))))
          | _ \<Rightarrow> (Inl (UnauthorizedError ''Refresh token has been revoked''), s)))"

definition logout :: "('s, 'm) redis_scheme \<Rightarrow> jwt_lib \<Rightarrow> jwt_env \<Rightarrow> string \<Rightarrow> ms \<Rightarrow> 's \<Rightarrow> 's" where
  "logout R J env refreshToken t s =
     (case verifyRefreshToken J env refreshToken t of
        Inl _ \<Rightarrow> s
      | Inr payload \<Rightarrow> r_del R (refreshKey (claim_text (rt_jti payload))) t s)"

section \<open>requireJwt.ts\<close>

definition requireJwt :: "jwt_lib \<Rightarrow> jwt_env \<Rightarrow> string option \<Rightarrow> ms \<Rightarrow> (AppError, AccessTokenPayload) result" where
  "requireJwt J env header now =
     (case extractToken header of
        None \<Rightarrow> Inl (UnauthorizedError ''Missing or malformed Authorization header'')
      | Some token \<Rightarrow>
          (case verifyAccessToken J env token now of
             Inl _ \<Rightarrow> Inl (UnauthorizedError ''Invalid or expired token'')
           | Inr user \<Rightarrow> Inr user))"

section \<open>auth/schemas.ts and auth/routes.ts\<close>

text \<open>
  \<open>zemail\<close> is zod's notion of an e-mail address, \<open>issue\<close> the text of its first complaint about a body. A
  reply is its status, body and what it does to the refresh cookie.
\<close>

definition z_email :: "(string \<Rightarrow> bool) \<Rightarrow> json option \<Rightarrow> string option" where
  "z_email zemail v =
     (case as_string v of
        None \<Rightarrow> None
      | Some raw \<Rightarrow> (let e = toLowerCase (trim raw) in if zemail e \<and> length e \<le> 320 then Some e else None))"

definition z_password :: "json option \<Rightarrow> string option" where
  "z_password v = (case as_string v of None \<Rightarrow> None | Some p \<Rightarrow> if 1 \<le> length p \<and> length p \<le> 1000 then Some p else None)"

definition z_orgName :: "json option \<Rightarrow> string option" where
  "z_orgName v = (case as_string v of None \<Rightarrow> None | Some raw \<Rightarrow> (let n = trim raw in if 1 \<le> length n \<and> length n \<le> 200 then Some n else None))"

definition registerSchema :: "(string \<Rightarrow> bool) \<Rightarrow> json \<Rightarrow> (string \<times> string \<times> string) option" where
  "registerSchema zemail body =
     (case (z_orgName (jget body ''orgName''), z_email zemail (jget body ''email''), z_password (jget body ''password'')) of
        (Some n, Some e, Some p) \<Rightarrow> Some (n, e, p) | _ \<Rightarrow> None)"

definition loginSchema :: "(string \<Rightarrow> bool) \<Rightarrow> json \<Rightarrow> (string \<times> string) option" where
  "loginSchema zemail body =
     (case (z_email zemail (jget body ''email''), z_password (jget body ''password'')) of (Some e, Some p) \<Rightarrow> Some (e, p) | _ \<Rightarrow> None)"

datatype cookie_op = KeepCookie | SetCookie string | ClearCookie

record reply =
  rep_status :: nat
  rep_body :: json
  rep_cookie :: cookie_op

definition register_route ::
    "(string \<Rightarrow> bool) \<Rightarrow> (json \<Rightarrow> string) \<Rightarrow> bcrypt_lib \<Rightarrow> nat \<Rightarrow> string \<Rightarrow> string \<Rightarrow> string \<Rightarrow> json \<Rightarrow> db \<Rightarrow> (AppError, reply) result \<times> db" where
  "register_route zemail issue B cost salt orgId userId body d =
     (case registerSchema zemail body of
        None \<Rightarrow> (Inl (ValidationError (issue body)), d)
      | Some (orgName, email, password) \<Rightarrow>
          (case register B cost salt orgId userId orgName email password d of
             (Inl e, d') \<Rightarrow> (Inl e, d')
           | (Inr (oid, uid), d') \<Rightarrow>
               (Inr \<lparr>rep_status = 201, rep_body = JObj [(''orgId'', JStr oid), (''userId'', JStr uid)], rep_cookie = KeepCookie\<rparr>, d')))"

definition login_route ::
    "('s, 'm) redis_scheme \<Rightarrow> jwt_lib \<Rightarrow> jwt_env \<Rightarrow> bcrypt_lib \<Rightarrow> (string \<Rightarrow> bool) \<Rightarrow> (json \<Rightarrow> string) \<Rightarrow> string \<Rightarrow> json \<Rightarrow> ms \<Rightarrow> 's \<times> db
      \<Rightarrow> (AppError, reply) result \<times> 's" where
  "login_route R J env B zemail issue jti body t st =
     (case loginSchema zemail body of
        None \<Rightarrow> (Inl (ValidationError (issue body)), fst st)
      | Some (email, password) \<Rightarrow>
          (case login R J env B jti email password t st of
             (Inl e, s') \<Rightarrow> (Inl e, s')
           | (Inr (tokens, u), s') \<Rightarrow>
               (Inr \<lparr>rep_status = 200,
                     rep_body = JObj [(''accessToken'', JStr (tp_accessToken tokens)),
                       (''user'', JObj [(''id'', JStr (usr_id u)), (''email'', JStr (usr_email u)), (''role'', JStr (show_role (usr_role u))),
                                        (''orgId'', JStr (usr_orgId u))])],
                     rep_cookie = SetCookie (tp_refreshToken tokens)\<rparr>, s')))"

definition refresh_route ::
    "('s, 'm) redis_scheme \<Rightarrow> jwt_lib \<Rightarrow> jwt_env \<Rightarrow> string \<Rightarrow> string option \<Rightarrow> ms \<Rightarrow> 's \<times> db \<Rightarrow> (AppError, reply) result \<times> 's" where
  "refresh_route R J env newJti cookie t st =
     (case cookie of
        Some token \<Rightarrow>
          (if token = []
           then (Inr \<lparr>rep_status = 401, rep_body = JObj [(''error'', JStr ''Missing refresh token'')], rep_cookie = KeepCookie\<rparr>, fst st)
           else
             (case refresh R J env newJti token t st of
                (Inl e, s') \<Rightarrow> (Inl e, s')
              | (Inr tokens, s') \<Rightarrow>
                  (Inr \<lparr>rep_status = 200, rep_body = JObj [(''accessToken'', JStr (tp_accessToken tokens))],
                        rep_cookie = SetCookie (tp_refreshToken tokens)\<rparr>, s')))
      | None \<Rightarrow> (Inr \<lparr>rep_status = 401, rep_body = JObj [(''error'', JStr ''Missing refresh token'')], rep_cookie = KeepCookie\<rparr>, fst st))"

definition logout_route :: "('s, 'm) redis_scheme \<Rightarrow> jwt_lib \<Rightarrow> jwt_env \<Rightarrow> string option \<Rightarrow> ms \<Rightarrow> 's \<Rightarrow> reply \<times> 's" where
  "logout_route R J env cookie t s =
     (\<lparr>rep_status = 204, rep_body = JNull, rep_cookie = ClearCookie\<rparr>,
      case cookie of None \<Rightarrow> s | Some token \<Rightarrow> if token = [] then s else logout R J env token t s)"

section \<open>A refresh token works once\<close>

text \<open>The calls that touch sessions, with the id the server would draw for a new token.\<close>

datatype session_op =
    Login string string string
  | Refresh string string
  | Logout string

definition session_step ::
    "('s, 'm) redis_scheme \<Rightarrow> jwt_lib \<Rightarrow> jwt_env \<Rightarrow> bcrypt_lib \<Rightarrow> session_op \<times> ms \<Rightarrow> 's \<times> db \<Rightarrow> 's \<times> db" where
  "session_step R J env B = (\<lambda>(opn, t) st.
     (case opn of
        Login jti email password \<Rightarrow> snd (login R J env B jti email password t st)
      | Refresh jti token \<Rightarrow> snd (refresh R J env jti token t st)
      | Logout token \<Rightarrow> logout R J env token t (fst st), snd st))"

fun new_jti :: "session_op \<Rightarrow> string option" where
  "new_jti (Login jti _ _) = Some jti"
| "new_jti (Refresh jti _) = Some jti"
| "new_jti (Logout _) = None"

text \<open>
  What is documented of the two libraries. A token signed with a secret verifies under it until its life
  time, counted in whole seconds, is over, and not after that; the claims it verifies to are those it carries
  (the registered claims \<^verbatim>\<open>iat\<close> and \<^verbatim>\<open>exp\<close> are added), whatever secret or time; it is a word without spaces.
  bcrypt accepts the password a hash was made of.
\<close>

locale credential_libs =
  fixes J :: jwt_lib and B :: bcrypt_lib
  assumes verify_sign: "t' div 1000 < t div 1000 + ttl \<Longrightarrow>
      \<exists>p. jwt_verify J (jwt_sign J c secret ttl t) secret t' = Inr p \<and> (\<forall>k. k \<notin> {''iat'', ''exp''} \<longrightarrow> jget p k = jget c k)"
    and verify_expired: "t div 1000 + ttl \<le> t' div 1000 \<Longrightarrow> \<exists>m. jwt_verify J (jwt_sign J c secret ttl t) secret' t' = Inl m"
    and verify_payload: "jwt_verify J token secret t = Inr p \<Longrightarrow> jwt_verify J token secret' t' = Inr p' \<Longrightarrow> p' = p"
    and token_shape: "trim (jwt_sign J c secret ttl t) = jwt_sign J c secret ttl t \<and> jwt_sign J c secret ttl t \<noteq> []"
    and compare_hash: "bc_compare B password (bc_hash B password cost salt) \<and> bc_hash B password cost salt \<noteq> []"
begin

lemma rotation_payload:
  assumes "verifyWithRotation J env token t = Inr p" and "verifyWithRotation J env' token t' = Inr p'"
  shows "p' = p"
proof -
  have "\<exists>secret. jwt_verify J token secret t = Inr p" if "verifyWithRotation J env token t = Inr p" for env t p
    using that by (auto simp: verifyWithRotation_def split: sum.splits option.splits if_splits)
  with assms obtain a b where "jwt_verify J token a t = Inr p" "jwt_verify J token b t' = Inr p'" by meson
  then show ?thesis by (rule verify_payload)
qed

lemma refresh_payload:
  "verifyRefreshToken J env token t = Inr p \<Longrightarrow> verifyRefreshToken J env' token t' = Inr p' \<Longrightarrow> p' = p"
  using rotation_payload [of env token t _ env' t']
  by (cases "verifyWithRotation J env token t"; cases "verifyWithRotation J env' token t'") (auto simp: verifyRefreshToken_def)

lemma rotation_signed:
  assumes "t' div 1000 < t div 1000 + ttl"
  shows "\<exists>p. verifyWithRotation J env (jwt_sign J c (JWT_SECRET env) ttl t) t' = Inr p \<and> (\<forall>k. k \<notin> {''iat'', ''exp''} \<longrightarrow> jget p k = jget c k)"
proof -
  obtain p where p: "jwt_verify J (jwt_sign J c (JWT_SECRET env) ttl t) (JWT_SECRET env) t' = Inr p"
    "\<forall>k. k \<notin> {''iat'', ''exp''} \<longrightarrow> jget p k = jget c k"
    using verify_sign [OF assms] by blast
  then show ?thesis by (intro exI [of _ p]) (simp add: verifyWithRotation_def)
qed

lemma access_token_verifies:
  assumes "t' div 1000 < t div 1000 + ACCESS_TOKEN_TTL"
  shows "verifyAccessToken J env (signAccessToken J env sub orgId roleName t) t' =
    Inr \<lparr>at_sub = Some sub, at_orgId = Some orgId, at_role = Some roleName\<rparr>"
proof -
  let ?c = "JObj [(''sub'', JStr sub), (''orgId'', JStr orgId), (''role'', JStr roleName)]"
  obtain p where p: "verifyWithRotation J env (signAccessToken J env sub orgId roleName t) t' = Inr p"
    "\<forall>k. k \<notin> {''iat'', ''exp''} \<longrightarrow> jget p k = jget ?c k"
    using rotation_signed [OF assms, of env ?c] unfolding signAccessToken_def by blast
  have "jget p k = jget ?c k" if "k \<in> {''sub'', ''orgId'', ''role''}" for k
    using p(2) that by (elim insertE) auto
  then show ?thesis by (simp add: verifyAccessToken_def claim_def p(1))
qed

lemma refresh_token_verifies:
  assumes "t' div 1000 < t div 1000 + REFRESH_TOKEN_TTL_SECONDS"
  shows "verifyRefreshToken J env (signRefreshToken J env sub orgId jti t) t' =
    Inr \<lparr>rt_sub = Some sub, rt_orgId = Some orgId, rt_jti = Some jti\<rparr>"
proof -
  let ?c = "JObj [(''sub'', JStr sub), (''orgId'', JStr orgId), (''jti'', JStr jti)]"
  obtain p where p: "verifyWithRotation J env (signRefreshToken J env sub orgId jti t) t' = Inr p"
    "\<forall>k. k \<notin> {''iat'', ''exp''} \<longrightarrow> jget p k = jget ?c k"
    using rotation_signed [OF assms, of env ?c] unfolding signRefreshToken_def by blast
  have "jget p k = jget ?c k" if "k \<in> {''sub'', ''orgId'', ''jti''}" for k
    using p(2) that by (elim insertE) auto
  then show ?thesis by (simp add: verifyRefreshToken_def claim_def p(1))
qed

lemma requireJwt_accepts:
  assumes "t' div 1000 < t div 1000 + ACCESS_TOKEN_TTL"
  shows "requireJwt J env (Some (''Bearer '' @ signAccessToken J env sub orgId roleName t)) t' =
    Inr \<lparr>at_sub = Some sub, at_orgId = Some orgId, at_role = Some roleName\<rparr>"
  using access_token_verifies [OF assms] token_shape
  by (simp add: requireJwt_def extractToken_def signAccessToken_def)

lemma requireJwt_expires:
  assumes "t div 1000 + ACCESS_TOKEN_TTL \<le> t' div 1000"
  shows "requireJwt J env (Some (''Bearer '' @ signAccessToken J env sub orgId roleName t)) t' =
    Inl (UnauthorizedError ''Invalid or expired token'')"
proof -
  let ?token = "signAccessToken J env sub orgId roleName t"
  have no: "\<exists>m. jwt_verify J ?token secret t' = Inl m" for secret
    unfolding signAccessToken_def by (rule verify_expired [OF assms])
  have "\<exists>e. verifyWithRotation J env ?token t' = Inl e"
    using no [of "JWT_SECRET env"] no [of "the (JWT_SECRET_PREVIOUS env)"]
    by (auto simp: verifyWithRotation_def split: option.split)
  moreover have "trim ?token = ?token \<and> ?token \<noteq> []" unfolding signAccessToken_def by (rule token_shape)
  ultimately show ?thesis by (auto simp: requireJwt_def extractToken_def verifyAccessToken_def)
qed

end

lemma refreshKey_inject [simp]: "refreshKey a = refreshKey b \<longleftrightarrow> a = b"
  by (simp add: refreshKey_def)

lemma refresh_refused:
  "r_read R (refreshKey (claim_text (rt_jti p))) t s = None \<Longrightarrow> verifyRefreshToken J env token t = Inr p \<Longrightarrow>
    refresh R J env newJti token t (s, d) = (Inl (UnauthorizedError ''Refresh token has been revoked''), s)"
  by (simp add: refresh_def r_get_def Let_def)

context redis_service
begin

lemma issue_absent:
  "t \<le> t' \<Longrightarrow> j \<noteq> jti \<Longrightarrow> r_read R (refreshKey jti) t s = None \<Longrightarrow>
    r_read R (refreshKey jti) t' (snd (issueTokenPair R J env j u o' ro t s)) = None"
  using persist [of t t' "refreshKey jti" s] by (auto simp: issueTokenPair_def read_set)

lemma del_absent:
  "t \<le> t' \<Longrightarrow> k' = k \<or> r_read R k t s = None \<Longrightarrow> r_read R k t' (r_del R k' t s) = None"
  using persist [of t t' k s] by (auto simp: read_del)

lemma none_persists: "t \<le> t' \<Longrightarrow> r_read R k t s = None \<Longrightarrow> r_read R k t' s = None"
  using persist [of t t' k s] by auto

lemma refresh_absent:
  assumes "t \<le> t'" and "j \<noteq> jti" and "r_read R (refreshKey jti) t s = None"
  shows "r_read R (refreshKey jti) t' (snd (refresh R J env j token t (s, d))) = None"
  using assms none_persists [OF assms(1,3)] del_absent [of t t' _ "refreshKey jti" s]
    del_absent [of t t _ "refreshKey jti" s] issue_absent [OF assms(1,2)]
  by (auto simp: refresh_def Let_def split_beta split: sum.splits option.splits sval.splits)

lemma session_step_absent:
  assumes "t \<le> t'" and "new_jti opn \<noteq> Some jti" and "r_read R (refreshKey jti) t s = None"
  shows "r_read R (refreshKey jti) t' (fst (session_step R J env B (opn, t) (s, d))) = None"
proof (cases opn)
  case (Login j email password)
  with assms show ?thesis
    using issue_absent [OF assms(1) _ assms(3), of j] none_persists [OF assms(1,3)]
    by (auto simp: session_step_def login_def Let_def split_beta split: option.splits)
next
  case (Refresh j token)
  with assms refresh_absent [OF assms(1) _ assms(3), of j] show ?thesis by (simp add: session_step_def)
next
  case (Logout token)
  with assms none_persists [OF assms(1,3)] del_absent [OF assms(1)] show ?thesis
    by (auto simp: session_step_def logout_def split: sum.splits)
qed

lemma session_run_absent:
  assumes "r_read R (refreshKey jti) t s = None" and "sorted (t # map snd ops)"
    and "\<forall>x \<in> set ops. new_jti (fst x) \<noteq> Some jti" and "\<forall>x \<in> set ops. snd x \<le> t'" and "t \<le> t'"
  shows "r_read R (refreshKey jti) t' (fst (fold (session_step R J env B) ops (s, d))) = None"
  using assms
proof (induction ops arbitrary: s d t)
  case Nil
  then show ?case using none_persists by simp
next
  case (Cons x ops)
  obtain opn t1 where x: "x = (opn, t1)" by (cases x)
  obtain s1 d1 where step: "session_step R J env B x (s, d) = (s1, d1)" by force
  have "r_read R (refreshKey jti) t1 s = None" using Cons.prems x none_persists [of t t1] by simp
  then have "r_read R (refreshKey jti) t1 s1 = None"
    using session_step_absent [of t1 t1 opn jti s J env B d] Cons.prems(3) step x by simp
  with Cons.IH [of t1 s1 d1] Cons.prems x step show ?case by simp
qed

end

text \<open>
  C4. A refresh token works once: after a call of \<^verbatim>\<open>refresh\<close> that accepted it, or after a logout with it,
  every later \<^verbatim>\<open>refresh\<close> with that token is refused with 401, whatever logins, refreshes and logouts of
  anyone happen in between and whichever secrets are in use, as long as the ids drawn for new tokens are
  not the old token's.
\<close>

theorem refresh_token_single_use:
  assumes "redis_service R" and "credential_libs J B"
    and "verifyRefreshToken J env token t = Inr p"
    and "opn = Logout token \<or> opn = Refresh j token \<and> (\<exists>pair. fst (refresh R J env j token t (s, d)) = Inr pair)"
    and "sorted (t # map snd ops @ [t'])"
    and "\<forall>x \<in> set ((opn, t) # ops). new_jti (fst x) \<noteq> Some (claim_text (rt_jti p))"
  shows "\<exists>m. fst (refresh R J env' newJti token t' (fold (session_step R J env B) ((opn, t) # ops) (s, d))) = Inl (UnauthorizedError m)"
proof -
  let ?key = "refreshKey (claim_text (rt_jti p))"
  obtain s1 d1 where step: "session_step R J env B (opn, t) (s, d) = (s1, d1)" by force
  have gone: "r_read R ?key t (r_del R ?key t s) = None"
    using redis_service.del_absent [OF assms(1), of t t] by blast
  have "r_read R ?key t s1 = None"
    using assms(4)
  proof
    assume "opn = Logout token"
    with step gone assms(3) show ?thesis by (auto simp: session_step_def logout_def)
  next
    assume r: "opn = Refresh j token \<and> (\<exists>pair. fst (refresh R J env j token t (s, d)) = Inr pair)"
    with assms(6) have "j \<noteq> claim_text (rt_jti p)" by simp
    from redis_service.issue_absent [OF assms(1) order_refl this gone] r step assms(3) show ?thesis
      by (auto simp: session_step_def refresh_def Let_def split_beta split: option.splits sval.splits if_splits)
  qed
  moreover have times: "sorted (t # map snd ops)" "\<forall>x \<in> set ops. snd x \<le> t'" "t \<le> t'"
    using assms(5) by (auto simp: sorted_append)
  ultimately have no: "r_read R ?key t' (fst (fold (session_step R J env B) ops (s1, d1))) = None"
    using assms(6) by (intro redis_service.session_run_absent [OF assms(1)]) auto
  obtain s2 d2 where end': "fold (session_step R J env B) ((opn, t) # ops) (s, d) = (s2, d2)" by force
  with step no have none: "r_read R ?key t' s2 = None" by simp
  show ?thesis
  proof (cases "verifyRefreshToken J env' token t'")
    case (Inl e)
    then have "fst (refresh R J env' newJti token t' (s2, d2)) = Inl (UnauthorizedError ''Invalid or expired refresh token'')"
      by (simp add: refresh_def)
    then show ?thesis unfolding end' by blast
  next
    case (Inr p')
    with credential_libs.refresh_payload [OF assms(2,3)] have "p' = p" by blast
    with Inr refresh_refused [OF none] have
      "fst (refresh R J env' newJti token t' (s2, d2)) = Inl (UnauthorizedError ''Refresh token has been revoked'')" by simp
    then show ?thesis unfolding end' by blast
  qed
qed

section \<open>Libraries that behave as documented\<close>

text \<open>A token is a word whose length encodes the claims, the secret and the end of its life.\<close>

instance json :: countable by countable_datatype

definition mem_sign :: "json \<Rightarrow> string \<Rightarrow> int \<Rightarrow> ms \<Rightarrow> string" where
  "mem_sign c secret ttl t = replicate (Suc (to_nat (c, secret, t div 1000 + ttl))) (CHR ''x'')"

definition mem_verify :: "string \<Rightarrow> string \<Rightarrow> ms \<Rightarrow> (string, json) result" where
  "mem_verify token secret t =
     (let (c, secret', expiry) = (from_nat (length token - 1) :: json \<times> string \<times> int)
      in if secret' = secret \<and> t div 1000 < expiry then Inr c else Inl ''invalid token'')"

definition mem_jwt :: jwt_lib where
  "mem_jwt = \<lparr>jwt_sign = mem_sign, jwt_verify = mem_verify\<rparr>"

definition mem_bcrypt :: bcrypt_lib where
  "mem_bcrypt = \<lparr>bc_hash = (\<lambda>password cost salt. CHR ''#'' # password), bc_compare = (\<lambda>password hash. hash = CHR ''#'' # password)\<rparr>"

interpretation mem_creds: credential_libs mem_jwt mem_bcrypt
proof unfold_locales
  show "trim (jwt_sign mem_jwt c secret ttl t) = jwt_sign mem_jwt c secret ttl t \<and> jwt_sign mem_jwt c secret ttl t \<noteq> []"
    for c secret ttl t
  proof -
    have "trim (replicate (Suc n) (CHR ''x'')) = replicate (Suc n) (CHR ''x'')" for n
      by (rule trim_id) (simp_all add: is_space_def last_replicate del: replicate_Suc)
    then show ?thesis by (simp add: mem_jwt_def mem_sign_def)
  qed
qed (auto simp: mem_jwt_def mem_sign_def mem_verify_def mem_bcrypt_def split: prod.splits if_splits)

theorem refresh_token_single_use_witness:
  "let R = mem_redis; env = \<lparr>JWT_SECRET = ''k'', JWT_SECRET_PREVIOUS = None\<rparr>; token = signRefreshToken mem_jwt env ''u'' ''o'' ''j1'' 0
   in \<exists>m. fst (refresh R mem_jwt env ''j3'' token 2000 (fold (session_step R mem_jwt env mem_bcrypt)
        [(Logout token, 1000), (Login ''j2'' ''e'' ''p'', 1500)] (mem_empty, empty_db))) = Inl (UnauthorizedError m)"
proof -
  let ?env = "\<lparr>JWT_SECRET = ''k'', JWT_SECRET_PREVIOUS = None\<rparr>"
  let ?token = "signRefreshToken mem_jwt ?env ''u'' ''o'' ''j1'' 0"
  have "verifyRefreshToken mem_jwt ?env ?token 1000 = Inr \<lparr>rt_sub = Some ''u'', rt_orgId = Some ''o'', rt_jti = Some ''j1''\<rparr>"
    by (rule mem_creds.refresh_token_verifies) (simp add: REFRESH_TOKEN_TTL_SECONDS_def)
  from refresh_token_single_use [where opn = "Logout ?token" and ops = "[(Login ''j2'' ''e'' ''p'', 1500)]" and t' = 2000,
      OF mem.redis_service_axioms mem_creds.credential_libs_axioms this, of _ mem_empty empty_db "?env" "''j3''"]
  show ?thesis unfolding Let_def by (simp add: claim_text_def del: fold.simps)
qed

section \<open>Registration, login, refresh\<close>

lemma find_append: "find P (xs @ ys) = (case find P xs of None \<Rightarrow> find P ys | Some x \<Rightarrow> Some x)"
  by (induction xs) auto



text \<open>
  The two kinds of token are told apart by nothing but their use: a refresh token is a valid bearer token,
  one that shows no role.
\<close>

lemma refresh_token_admits:
  assumes "credential_libs J B" and "t' div 1000 < t div 1000 + REFRESH_TOKEN_TTL_SECONDS"
  shows "\<exists>p. verifyAccessToken J env (signRefreshToken J env sub orgId jti t) t' = Inr p \<and> at_orgId p = Some orgId"
  using credential_libs.refresh_token_verifies [OF assms, of env sub orgId jti]
  by (cases "verifyWithRotation J env (signRefreshToken J env sub orgId jti t) t'")
    (auto simp: verifyAccessToken_def verifyRefreshToken_def)

end
