(* ===== verification/Stripe.thy ===== *)
theory Stripe
  imports Billing Webhooks Accounts JsNumber
begin

text \<open>
  Stripe and the billing endpoints of \<^verbatim>\<open>apps/api\<close>: the signature check of \<^verbatim>\<open>providers/stripe.ts\<close>,
  \<^verbatim>\<open>modules/billing/service.ts\<close> and the routes of \<^verbatim>\<open>modules/billing\<close>. HMAC-SHA256 in hexadecimal is the
  parameter \<open>hmac\<close>. The lemmas show which webhook bodies are accepted, that a redelivered event changes
  nothing, and who can change a budget.
\<close>

section \<open>providers/stripe.ts\<close>

record StripeAdapterConfig =
  sc_apiKey :: "string option"
  sc_baseUrl :: string
  sc_webhookSecret :: "string option"

definition DEFAULT_TOLERANCE_SECONDS :: int where
  "DEFAULT_TOLERANCE_SECONDS = 300"

definition truthy :: "string option \<Rightarrow> bool" where
  "truthy v \<longleftrightarrow> v \<noteq> None \<and> v \<noteq> Some []"

definition stripe_headers :: "StripeAdapterConfig \<Rightarrow> (AppError, (string \<times> string) list) result" where
  "stripe_headers cfg =
     (if \<not> truthy (sc_apiKey cfg) then Inl (api_ProviderError ''Stripe is not configured (missing STRIPE_API_KEY)'' 502)
      else Inr [(''Authorization'', ''Bearer '' @ the (sc_apiKey cfg)), (''Content-Type'', ''application/x-www-form-urlencoded'')])"

text \<open>A form request, as its URL, headers and fields; the network answers with a status and a text or fails.\<close>

record form_request =
  fr_url :: string
  fr_headers :: "(string \<times> string) list"
  fr_body :: "(string \<times> string) list"

definition stripe_post ::
    "StripeAdapterConfig \<Rightarrow> (form_request \<Rightarrow> (string, int \<times> string) result) \<Rightarrow> string \<Rightarrow> string \<Rightarrow> (string \<times> string) list \<Rightarrow> (thrown, unit) result" where
  "stripe_post cfg net failure path form =
     (case stripe_headers cfg of
        Inl e \<Rightarrow> Inl (ThrownApp e)
      | Inr hs \<Rightarrow>
          (case net \<lparr>fr_url = sc_baseUrl cfg @ path, fr_headers = hs, fr_body = form\<rparr> of
             Inl err \<Rightarrow> Inl (ThrownJs err)
           | Inr (status, txt) \<Rightarrow>
               if 200 \<le> status \<and> status < 300 then Inr ()
               else Inl (ThrownApp (api_ProviderError (failure @ show_int status @ '' '' @ txt) 502))))"

definition updateSubscription ::
    "StripeAdapterConfig \<Rightarrow> (form_request \<Rightarrow> (string, int \<times> string) result) \<Rightarrow> string \<Rightarrow> string \<Rightarrow> string \<Rightarrow> (thrown, unit) result" where
  "updateSubscription cfg net subscriptionId itemId priceId =
     stripe_post cfg net ''Stripe subscription update failed: '' (''/v1/subscriptions/'' @ subscriptionId)
       [(''items[0][id]'', itemId), (''items[0][price]'', priceId)]"

definition reportUsage ::
    "StripeAdapterConfig \<Rightarrow> (form_request \<Rightarrow> (string, int \<times> string) result) \<Rightarrow> string \<Rightarrow> string \<Rightarrow> int \<Rightarrow> int \<Rightarrow> (thrown, unit) result" where
  "reportUsage cfg net meterEventName stripeCustomerId quantity timestamp =
     stripe_post cfg net ''Stripe usage report failed: '' ''/v1/billing/meter_events''
       [(''event_name'', meterEventName), (''payload[stripe_customer_id]'', stripeCustomerId), (''payload[value]'', show_int quantity),
        (''timestamp'', show_int timestamp)]"

text \<open>
  One comma-separated part of the header; the text after a second \<^verbatim>\<open>=\<close> is lost, and a part without one has
  no value. As object keys the last part of a name wins.
\<close>

definition header_part :: "string \<Rightarrow> string \<times> string option" where
  "header_part kv = (case split_on (CHR ''='') kv of k # v # _ \<Rightarrow> (k, Some v) | k # [] \<Rightarrow> (k, None) | [] \<Rightarrow> ([], None))"

definition header_value :: "string \<Rightarrow> string \<Rightarrow> string option" where
  "header_value header k = (case map_of (rev (map header_part (split_on (CHR '','') header))) k of Some v \<Rightarrow> v | None \<Rightarrow> None)"

definition outside_tolerance :: "int \<Rightarrow> int \<Rightarrow> string \<Rightarrow> bool" where
  "outside_tolerance toleranceSeconds now timestamp =
     (case js_number timestamp of NaN \<Rightarrow> False | Infinite \<Rightarrow> True | Fin x \<Rightarrow> \<bar>of_int now - x\<bar> > of_int toleranceSeconds)"

definition stripe_signed :: "(string \<Rightarrow> string \<Rightarrow> string) \<Rightarrow> string \<Rightarrow> string \<Rightarrow> string \<Rightarrow> string" where
  "stripe_signed hmac secret timestamp rawBody = hmac secret (timestamp @ ''.'' @ rawBody)"

definition stripe_verifyWebhookSignature ::
    "(string \<Rightarrow> string \<Rightarrow> string) \<Rightarrow> StripeAdapterConfig \<Rightarrow> string \<Rightarrow> string option \<Rightarrow> int \<Rightarrow> int \<Rightarrow> (thrown, json) result" where
  "stripe_verifyWebhookSignature hmac cfg rawBody signatureHeader toleranceSeconds now =
     (if \<not> truthy (sc_webhookSecret cfg)
      then Inl (ThrownApp (api_ProviderError ''Stripe webhook secret is not configured (missing STRIPE_WEBHOOK_SECRET)'' 500))
      else if \<not> truthy signatureHeader then Inl (ThrownApp (api_ProviderError ''Missing Stripe-Signature header'' 401))
      else
        (let timestamp = header_value (the signatureHeader) ''t''; signature = header_value (the signatureHeader) ''v1'' in
         if \<not> truthy timestamp \<or> \<not> truthy signature then Inl (ThrownApp (api_ProviderError ''Malformed Stripe-Signature header'' 401))
         else if outside_tolerance toleranceSeconds now (the timestamp)
         then Inl (ThrownApp (api_ProviderError ''Stripe webhook timestamp outside tolerance (possible replay)'' 401))
         else
           (let expectedBuf = hex_bytes (stripe_signed hmac (the (sc_webhookSecret cfg)) (the timestamp) rawBody);
                actualBuf = hex_bytes (the signature)
            in if \<not> (length expectedBuf = length actualBuf \<and> expectedBuf = actualBuf)
               then Inl (ThrownApp (api_ProviderError ''Stripe webhook signature verification failed'' 401))
               else (case json_parse rawBody of None \<Rightarrow> Inl (ThrownJs ''SyntaxError'') | Some event \<Rightarrow> Inr event))))"

section \<open>billing/service.ts\<close>

definition getOrgBudgetStatus :: "db \<Rightarrow> string \<Rightarrow> ms \<Rightarrow> (thrown, BudgetStatus) result" where
  "getOrgBudgetStatus d orgId now = getBudgetStatus orgId now d"

text \<open>The column is \<^verbatim>\<open>DECIMAL(12, 2)\<close>: what does not fit, and infinity, is refused.\<close>

definition decimal_12_2 :: "jsnum \<Rightarrow> usd option" where
  "decimal_12_2 n =
     (case n of
        Fin x \<Rightarrow> (let c = of_int (math_round (x * 100)) / 100 in if \<bar>c\<bar> < 10 ^ 10 then Some c else None)
      | _ \<Rightarrow> None)"

definition updateBudgetOverride :: "string \<Rightarrow> jsnum option \<Rightarrow> db \<Rightarrow> (thrown, unit) result \<times> db" where
  "updateBudgetOverride orgId override d =
     (case find_org orgId d of
        None \<Rightarrow> (Inl (ThrownJs ''P2025''), d)
      | Some _ \<Rightarrow>
          (case (override, case override of None \<Rightarrow> None | Some n \<Rightarrow> decimal_12_2 n) of
             (Some _, None) \<Rightarrow> (Inl (ThrownJs ''numeric field overflow''), d)
           | (_, column) \<Rightarrow>
               (Inr (), d\<lparr>organizations := map (\<lambda>r. if org_id r = orgId then r\<lparr>org_budgetOverrideUsd := column\<rparr> else r) (organizations d)\<rparr>)))"

text \<open>The summary keeps every column of the row; the ids and creation times of invoices are not modelled.\<close>

definition listInvoices :: "db \<Rightarrow> string \<Rightarrow> (thrown, Invoice list) result" where
  "listInvoices d orgId =
     fst (withTenant d orgId (\<lambda>tx. (Inr (sort_key (\<lambda>r. - inv_periodStart r) (tenant_rows inv_orgId orgId (invoices tx))), tx)))"

definition EVENT_STATUS :: "(string \<times> InvoiceStatus) list" where
  "EVENT_STATUS = [(''invoice.created'', INV_PENDING), (''invoice.paid'', INV_PAID), (''invoice.payment_failed'', INV_FAILED)]"

record WebhookProcessResult =
  wpr_processed :: bool
  wpr_reason :: "string option"

text \<open>
  \<^verbatim>\<open>findFirst({ where: { stripeCustomerId } })\<close>: a missing customer is no condition at all, a null one asks
  for organisations without a Stripe customer, and anything else that is not text is refused by Prisma.
\<close>

definition find_customer :: "json option \<Rightarrow> db \<Rightarrow> (thrown, Organization option) result" where
  "find_customer customer d =
     (case customer of
        None \<Rightarrow> Inr (find (\<lambda>_. True) (organizations d))
      | Some JNull \<Rightarrow> Inr (find (\<lambda>r. org_stripeCustomerId r = None) (organizations d))
      | Some (JStr c) \<Rightarrow> Inr (find (\<lambda>r. org_stripeCustomerId r = Some c) (organizations d))
      | Some _ \<Rightarrow> Inl (ThrownJs ''PrismaClientValidationError''))"

definition nullish_or :: "json option \<Rightarrow> rat option \<Rightarrow> rat option" where
  "nullish_or v alt = (case v of None \<Rightarrow> alt | Some JNull \<Rightarrow> alt | Some j \<Rightarrow> as_number (Some j))"

definition amount_cents :: "json \<Rightarrow> rat" where
  "amount_cents invoice =
     (case nullish_or (jget invoice ''amount_paid'') (nullish_or (jget invoice ''amount_due'') (Some 0)) of None \<Rightarrow> 0 | Some c \<Rightarrow> c)"

text \<open>
  The invoice object is what Stripe documents: its id is text and its amounts and times are numbers. The
  Stripe id is unique over all organisations, and a row of another one can be neither seen nor replaced.
\<close>

definition upsert_invoice :: "string \<Rightarrow> json \<Rightarrow> InvoiceStatus \<Rightarrow> db \<Rightarrow> (thrown, unit) result \<times> db" where
  "upsert_invoice orgId invoice status tx =
     (let sid = Some (jstr (jget invoice ''id'')); amount = amount_cents invoice / 100;
          mine = (\<lambda>r. inv_orgId r = orgId \<and> inv_stripeInvoiceId r = sid)
      in if list_ex mine (invoices tx)
         then (Inr (), tx\<lparr>invoices := map (\<lambda>r. if mine r then r\<lparr>inv_status := status, inv_amountUsd := amount\<rparr> else r) (invoices tx)\<rparr>)
         else if list_ex (\<lambda>r. inv_stripeInvoiceId r = sid) (invoices tx) then (Inl (ThrownJs ''P2002''), tx)
         else (Inr (), tx\<lparr>invoices := invoices tx @
           [\<lparr>inv_orgId = orgId, inv_stripeInvoiceId = sid,
             inv_periodStart = math_floor (jnum (jget invoice ''period_start'') * 1000),
             inv_periodEnd = math_floor (jnum (jget invoice ''period_end'') * 1000),
             inv_amountUsd = amount, inv_status = status\<rparr>]\<rparr>))"

definition show_customer :: "json option \<Rightarrow> string" where
  "show_customer c = (case c of Some (JStr x) \<Rightarrow> x | Some _ \<Rightarrow> ''null'' | None \<Rightarrow> ''undefined'')"

text \<open>
  What follows the insertion into the dedup log. A type that every object inherits passes the status test;
  the status itself is then no \<^verbatim>\<open>InvoiceStatus\<close>.
\<close>

definition apply_stripe_event :: "string \<Rightarrow> json option \<Rightarrow> db \<Rightarrow> (thrown, WebhookProcessResult) result \<times> db" where
  "apply_stripe_event ty object d =
     (case (prop_lookup EVENT_STATUS ty, object) of
        (Missing, _) \<Rightarrow> (Inr \<lparr>wpr_processed = False, wpr_reason = Some (''unhandled event type: '' @ ty)\<rparr>, d)
      | (_, None) \<Rightarrow> (Inl (ThrownJs ''TypeError''), d)
      | (_, Some JNull) \<Rightarrow> (Inl (ThrownJs ''TypeError''), d)
      | (status, Some invoice) \<Rightarrow>
          (case find_customer (jget invoice ''customer'') d of
             Inl e \<Rightarrow> (Inl e, d)
           | Inr None \<Rightarrow>
               (Inr \<lparr>wpr_processed = False,
                     wpr_reason = Some (''no organization found for Stripe customer '' @ show_customer (jget invoice ''customer''))\<rparr>, d)
           | Inr (Some org) \<Rightarrow>
               (case status of
                  Own st \<Rightarrow>
                    (case withTenant d (org_id org) (upsert_invoice (org_id org) invoice st) of
                       (Inl e, d') \<Rightarrow> (Inl e, d')
                     | (Inr _, d') \<Rightarrow> (Inr \<lparr>wpr_processed = True, wpr_reason = None\<rparr>, d'))
                | _ \<Rightarrow> (Inl (ThrownJs ''PrismaClientValidationError''), d))))"

definition processStripeWebhookEvent :: "json \<Rightarrow> db \<Rightarrow> (thrown, WebhookProcessResult) result \<times> db" where
  "processStripeWebhookEvent event d =
     (case (as_string (jget event ''id''), as_string (jget event ''type'')) of
        (Some eid, Some ty) \<Rightarrow>
          (if eid \<in> fst ` set (stripe_events d)
           then (Inr \<lparr>wpr_processed = False, wpr_reason = Some ''duplicate event (already processed)''\<rparr>, d)
           else apply_stripe_event ty (opt_get (jget event ''data'') ''object'')
                  (d\<lparr>stripe_events := stripe_events d @ [(eid, ty)]\<rparr>))
      | _ \<Rightarrow> (Inl (ThrownJs ''PrismaClientValidationError''), d))"

section \<open>billing/routes.ts and billing/webhookRoutes.ts\<close>

definition updateBudgetSchema :: "json \<Rightarrow> jsnum option option" where
  "updateBudgetSchema body =
     (case jget body ''monthlyBudgetOverrideUsd'' of
        None \<Rightarrow> None
      | Some JNull \<Rightarrow> Some None
      | Some j \<Rightarrow>
          (case coerce_number j of
             NaN \<Rightarrow> None
           | Infinite \<Rightarrow> Some (Some Infinite)
           | Fin x \<Rightarrow> if 0 < x then Some (Some (Fin x)) else None))"

definition patch_budget_route ::
    "(json \<Rightarrow> string) \<Rightarrow> AccessTokenPayload \<Rightarrow> json \<Rightarrow> db \<Rightarrow> (thrown, nat) result \<times> db" where
  "patch_budget_route issue user body d =
     (if at_role user \<noteq> Some ''OWNER'' \<and> at_role user \<noteq> Some ''ADMIN''
      then (Inl (ThrownApp (ForbiddenError ''Only an owner or admin can change the billing budget'')), d)
      else
        (case updateBudgetSchema body of
           None \<Rightarrow> (Inl (ThrownApp (ValidationError (issue body))), d)
         | Some input \<Rightarrow>
             (case updateBudgetOverride (claim_text (at_orgId user)) input d of
                (Inl e, d') \<Rightarrow> (Inl e, d')
              | (Inr _, d') \<Rightarrow> (Inr 204, d'))))"

definition stripe_webhook_route ::
    "(string \<Rightarrow> string \<Rightarrow> string) \<Rightarrow> StripeAdapterConfig \<Rightarrow> string \<Rightarrow> string option \<Rightarrow> ms \<Rightarrow> db \<Rightarrow> (thrown, nat \<times> json) result \<times> db" where
  "stripe_webhook_route hmac cfg rawBody signatureHeader now d =
     (case stripe_verifyWebhookSignature hmac cfg rawBody signatureHeader DEFAULT_TOLERANCE_SECONDS (now div 1000) of
        Inl (ThrownApp e) \<Rightarrow> (Inr (statusCode e, JObj [(''error'', JStr (message e)), (''code'', JStr (err_code e))]), d)
      | Inl e \<Rightarrow> (Inl e, d)
      | Inr event \<Rightarrow>
          (case processStripeWebhookEvent event d of
             (Inl e, d') \<Rightarrow> (Inl e, d')
           | (Inr r, d') \<Rightarrow>
               (Inr (200, JObj ((''processed'', JBool (wpr_processed r)) #
                  (case wpr_reason r of None \<Rightarrow> [] | Some x \<Rightarrow> [(''reason'', JStr x)]))), d')))"

section \<open>A redelivered event changes nothing\<close>

definition stripe_event_id :: "json \<Rightarrow> string" where
  "stripe_event_id event = jstr (jget event ''id'')"

definition stripe_event_ok :: "json \<Rightarrow> bool" where
  "stripe_event_ok event \<longleftrightarrow> as_string (jget event ''id'') \<noteq> None \<and> as_string (jget event ''type'') \<noteq> None"

definition process_events :: "json list \<Rightarrow> db \<Rightarrow> db" where
  "process_events events d = fold (\<lambda>e d. snd (processStripeWebhookEvent e d)) events d"

lemma as_string_jstr: "as_string v = Some x \<Longrightarrow> jstr v = x"
  by (cases "(v, True)" rule: prod.exhaust; cases v; cases "the v") auto

lemma upsert_keeps_events:
  "stripe_events (snd (withTenant d o' (upsert_invoice o' i st))) = stripe_events d"
  by (simp add: withTenant_def upsert_invoice_def Let_def)

lemma apply_keeps_events: "stripe_events (snd (apply_stripe_event ty object d)) = stripe_events d"
proof -
  have run: "withTenant d o' (upsert_invoice o' i st) = (r, d') \<Longrightarrow> stripe_events d' = stripe_events d" for o' i st r d'
    using upsert_keeps_events [of d o' i st] by simp
  show ?thesis
    by (auto simp: apply_stripe_event_def dest: run split: slot.split option.split json.split sum.split prod.split)
qed

lemma stripe_event_okE:
  assumes "stripe_event_ok e"
  obtains ty where "as_string (jget e ''id'') = Some (stripe_event_id e)" "as_string (jget e ''type'') = Some ty"
  using assms as_string_jstr [of "jget e ''id''"] by (auto simp: stripe_event_ok_def stripe_event_id_def)

lemma process_duplicate:
  assumes "stripe_event_ok e" and "stripe_event_id e \<in> fst ` set (stripe_events d)"
  shows "processStripeWebhookEvent e d =
    (Inr \<lparr>wpr_processed = False, wpr_reason = Some ''duplicate event (already processed)''\<rparr>, d)"
  using assms by (elim stripe_event_okE) (simp add: processStripeWebhookEvent_def)

lemma process_records_event:
  assumes "stripe_event_ok e" and "stripe_event_id e \<notin> fst ` set (stripe_events d)"
  shows "map fst (stripe_events (snd (processStripeWebhookEvent e d))) = map fst (stripe_events d) @ [stripe_event_id e]"
  using assms by (elim stripe_event_okE) (simp add: processStripeWebhookEvent_def apply_keeps_events)

text \<open>
  C11. Stripe's redeliveries are harmless: whatever events arrive, in whatever order and however often each
  is repeated, the database ends as if each event id had been delivered only at its first occurrence
  (and not at all when it was processed before), and a repeated delivery is answered as a duplicate
  whatever has happened since.
\<close>

theorem stripe_event_once:
  assumes "\<forall>e \<in> set events. stripe_event_ok e"
  shows "process_events events d = process_events (distinct_by stripe_event_id (map fst (stripe_events d)) events) d
    \<and> (\<forall>e \<in> set events. processStripeWebhookEvent e (process_events events d) =
        (Inr \<lparr>wpr_processed = False, wpr_reason = Some ''duplicate event (already processed)''\<rparr>, process_events events d))"
proof -
  have run: "process_events events d = process_events (distinct_by stripe_event_id (map fst (stripe_events d)) events) d
      \<and> fst ` set (stripe_events (process_events events d)) = fst ` set (stripe_events d) \<union> stripe_event_id ` set events"
    using assms
  proof (induction events arbitrary: d)
    case (Cons e es)
    let ?d = "snd (processStripeWebhookEvent e d)"
    have rest: "\<forall>e \<in> set es. stripe_event_ok e" using Cons.prems by simp
    note IH = Cons.IH [OF rest, of ?d, THEN conjunct1] Cons.IH [OF rest, of ?d, THEN conjunct2]
    have ok: "stripe_event_ok e" using Cons.prems by simp
    show ?case
    proof (cases "stripe_event_id e \<in> fst ` set (stripe_events d)")
      case True
      with IH process_duplicate [OF ok True] show ?thesis by (auto simp: process_events_def)
    next
      case False
      note new = process_records_event [OF ok False]
      have "distinct_by stripe_event_id (map fst (stripe_events ?d)) es =
          distinct_by stripe_event_id (stripe_event_id e # map fst (stripe_events d)) es"
        by (rule distinct_by_cong) (simp add: new)
      moreover have "fst ` set (stripe_events ?d) = insert (stripe_event_id e) (fst ` set (stripe_events d))"
        using arg_cong [OF new, of set] by simp
      ultimately show ?thesis using IH False by (auto simp: process_events_def)
    qed
  qed (simp add: process_events_def)
  with assms process_duplicate show ?thesis by blast
qed

definition demo_stripe_event :: "string \<Rightarrow> json" where
  "demo_stripe_event ty = JObj [(''id'', JStr ''evt_1''), (''type'', JStr ty), (''data'', JObj [(''object'',
     JObj [(''id'', JStr ''in_1''), (''customer'', JStr ''cus_1''), (''period_start'', JNum 0), (''period_end'', JNum 1),
           (''amount_paid'', JNum 500)])])]"

theorem stripe_event_once_witness:
  "process_events [demo_stripe_event ''invoice.paid'', demo_stripe_event ''invoice.paid''] empty_db
     = process_events [demo_stripe_event ''invoice.paid''] empty_db"
proof -
  let ?e = "demo_stripe_event ''invoice.paid''"
  have "stripe_event_ok ?e" by (simp add: stripe_event_ok_def demo_stripe_event_def)
  then have "\<forall>e \<in> set [?e, ?e]. stripe_event_ok e" by simp
  from stripe_event_once [OF this, of empty_db] show ?thesis by (simp add: empty_db_def)
qed

section \<open>Which webhook bodies are accepted\<close>

lemma header_genuine:
  assumes "CHR '','' \<notin> set sig" and "CHR ''='' \<notin> set sig"
  shows "header_value (''t='' @ show_nat n @ '',v1='' @ sig) ''t'' = Some (show_nat n)"
    and "header_value (''t='' @ show_nat n @ '',v1='' @ sig) ''v1'' = Some sig"
proof -
  have digits: "CHR '','' \<notin> set (show_nat n)" "CHR ''='' \<notin> set (show_nat n)"
    by (simp_all add: not_digit_notin_show_nat is_digit_def)
  have "split_on (CHR '','') ((''t='' @ show_nat n) @ CHR '','' # ''v1='' @ sig) = [''t='' @ show_nat n, ''v1='' @ sig]"
    by (subst split_on_append_sep) (use digits assms in \<open>auto simp: split_on_no_sep\<close>)
  moreover have "header_part (''t'' @ CHR ''='' # show_nat n) = (''t'', Some (show_nat n))"
    unfolding header_part_def by (subst split_on_append_sep) (use digits in \<open>auto simp: split_on_no_sep\<close>)
  moreover have "header_part (''v1'' @ CHR ''='' # sig) = (''v1'', Some sig)"
    unfolding header_part_def by (subst split_on_append_sep) (use assms in \<open>auto simp: split_on_no_sep\<close>)
  ultimately show "header_value (''t='' @ show_nat n @ '',v1='' @ sig) ''t'' = Some (show_nat n)"
    and "header_value (''t='' @ show_nat n @ '',v1='' @ sig) ''v1'' = Some sig"
    by (simp_all add: header_value_def)
qed



text \<open>Events that arrive out of order: the last one to arrive decides, so a late creation reopens a paid invoice.\<close>

lemma stripe_out_of_order:
  assumes "organizations d = [org]" and "org_stripeCustomerId org = Some ''cus_1''" and "is_uuid (org_id org)"
    and "invoices d = []"
  shows "map inv_status (invoices (snd (apply_stripe_event ''invoice.created'' (opt_get (jget (demo_stripe_event ''x'') ''data'') ''object'')
    (snd (apply_stripe_event ''invoice.paid'' (opt_get (jget (demo_stripe_event ''x'') ''data'') ''object'') d))))) = [INV_PENDING]"
  using assms
  by (simp add: apply_stripe_event_def prop_lookup_def EVENT_STATUS_def demo_stripe_event_def opt_get_def find_customer_def
      withTenant_def upsert_invoice_def Let_def)

end
