(* ===== verification/Chat.thy ===== *)
theory Chat
  imports GatewayState Events JsNumber
begin

text \<open>
  The chat endpoint of the gateway, \<^verbatim>\<open>modules/chat/routes.ts\<close> and \<^verbatim>\<open>schemas.ts\<close>, which composes the other
  parts: idempotent replay, feature flags, budget, routing, semantic cache, request deduplication, the
  resilient provider call, billing, and the server-sent events of the streaming path; with it the
  embedding adapters of \<^verbatim>\<open>providers/embeddings.ts\<close> and the error handler of \<^verbatim>\<open>app.ts\<close>. Metrics, logs and
  spans are left out. The lemmas show what a request can do to the billing tables, that an exhausted
  budget stops it before any provider, and that a retried request is answered from the stored result.
\<close>

section \<open>schemas.ts\<close>

record ChatRequestInput =
  ci_model :: string
  ci_messages :: "UnifiedMessage list"
  ci_stream :: "bool option"
  ci_maxTokens :: "rat option"
  ci_temperature :: "rat option"

definition z_text :: "nat \<Rightarrow> nat \<Rightarrow> json option \<Rightarrow> string option" where
  "z_text lo hi v = (case as_string v of None \<Rightarrow> None | Some x \<Rightarrow> if lo \<le> length x \<and> length x \<le> hi then Some x else None)"

definition z_role :: "json option \<Rightarrow> Role option" where
  "z_role v = Option.bind (as_string v) (map_of [(''system'', System), (''user'', User), (''assistant'', Assistant)])"

definition messageSchema :: "json \<Rightarrow> UnifiedMessage option" where
  "messageSchema j =
     (case (z_role (jget j ''role''), z_text 1 100000 (jget j ''content'')) of
        (Some r, Some c) \<Rightarrow> Some \<lparr>role = r, content = c\<rparr> | _ \<Rightarrow> None)"

fun all_some :: "'a option list \<Rightarrow> 'a list option" where
  "all_some [] = Some []"
| "all_some (None # xs) = None"
| "all_some (Some x # xs) = map_option (\<lambda>ys. x # ys) (all_some xs)"

text \<open>An optional field: absent, or what \<open>P\<close> makes of its value; the outer \<open>None\<close> is a validation error.\<close>

definition z_optional :: "(json \<Rightarrow> 'a option) \<Rightarrow> json option \<Rightarrow> 'a option option" where
  "z_optional P v = (case v of None \<Rightarrow> Some None | Some j \<Rightarrow> map_option Some (P j))"

definition z_stream :: "json \<Rightarrow> bool option" where
  "z_stream j = (case j of JBool b \<Rightarrow> Some b | _ \<Rightarrow> None)"

definition z_maxTokens :: "json \<Rightarrow> rat option" where
  "z_maxTokens j =
     (case coerce_number j of
        Fin x \<Rightarrow> if x = of_int (math_floor x) \<and> 0 < x \<and> x \<le> 100000 then Some x else None
      | _ \<Rightarrow> None)"

definition z_temperature :: "json \<Rightarrow> rat option" where
  "z_temperature j = (case as_number (Some j) of Some x \<Rightarrow> if 0 \<le> x \<and> x \<le> 2 then Some x else None | None \<Rightarrow> None)"

definition chatRequestSchema :: "json \<Rightarrow> ChatRequestInput option" where
  "chatRequestSchema body =
     (case (z_text 1 100 (jget body ''model''), as_array (jget body ''messages''), z_optional z_stream (jget body ''stream''),
            z_optional z_maxTokens (jget body ''maxTokens''), z_optional z_temperature (jget body ''temperature'')) of
        (Some model, Some ms, Some stream, Some maxTokens, Some temperature) \<Rightarrow>
          (case all_some (map messageSchema ms) of
             None \<Rightarrow> None
           | Some messages \<Rightarrow>
               if 1 \<le> length ms \<and> length ms \<le> 200
               then Some \<lparr>ci_model = model, ci_messages = messages, ci_stream = stream, ci_maxTokens = maxTokens, ci_temperature = temperature\<rparr>
               else None)
      | _ \<Rightarrow> None)"

section \<open>providers/embeddings.ts\<close>

record OpenAIEmbeddingAdapterConfig =
  em_apiKey :: "string option"
  em_baseUrl :: string
  em_model :: "string option"

definition EMBEDDING_DIMENSIONS :: nat where
  "EMBEDDING_DIMENSIONS = 1536"

text \<open>The vector is the numbers of the answer; a missing or falsy first entry is an error.\<close>

definition openai_embed :: "fetch \<Rightarrow> OpenAIEmbeddingAdapterConfig \<Rightarrow> string \<Rightarrow> (thrown, rat list) result" where
  "openai_embed net cfg text0 =
     (case em_apiKey cfg of
        Some key \<Rightarrow>
          if key = [] then Inl (ThrownApp (ProviderError ''OpenAI is not configured (missing OPENAI_API_KEY)'' ''openai''))
          else
            (case post_json net (em_baseUrl cfg @ ''/v1/embeddings'') [json_content_type, (''Authorization'', ''Bearer '' @ key)]
                    (JObj [(''model'', JStr (case em_model cfg of None \<Rightarrow> ''text-embedding-3-small'' | Some m \<Rightarrow> m)), (''input'', JStr text0)]) of
               Inl e \<Rightarrow> Inl e
             | Inr res \<Rightarrow>
                 if \<not> res_ok res then Inl (provider_failure ''OpenAI embeddings'' ''openai'' res)
                 else
                   (case res_json res of
                      Inl e \<Rightarrow> Inl e
                    | Inr body \<Rightarrow>
                        (case as_array (jget body ''data'') of
                           None \<Rightarrow> Inl (ThrownJs ''TypeError'')
                         | Some [] \<Rightarrow> Inl (ThrownApp (ProviderError ''OpenAI embeddings response had no data'' ''openai''))
                         | Some (first # _) \<Rightarrow>
                             (case as_array (jget first ''embedding'') of
                                None \<Rightarrow> Inl (ThrownApp (ProviderError ''OpenAI embeddings response had no data'' ''openai''))
                              | Some xs \<Rightarrow> Inr (map (\<lambda>x. jnum (Some x)) xs)))))
      | None \<Rightarrow> Inl (ThrownApp (ProviderError ''OpenAI is not configured (missing OPENAI_API_KEY)'' ''openai'')))"

text \<open>The mock vector before it is scaled to length one, from the bytes of the digest.\<close>

definition mock_embed_raw :: "(string \<Rightarrow> nat list) \<Rightarrow> string \<Rightarrow> rat list" where
  "mock_embed_raw sha256 text0 =
     (let digest = sha256 text0
      in map (\<lambda>i. (of_nat (digest ! (i mod length digest)) - 128) / 128) [0..<EMBEDDING_DIMENSIONS])"

section \<open>Responses and chunks as JSON\<close>

fun finish_name :: "FinishReason \<Rightarrow> string" where
  "finish_name Fin_stop = ''stop''"
| "finish_name Fin_length = ''length''"
| "finish_name Fin_content_filter = ''content_filter''"
| "finish_name Fin_error = ''error''"

definition usage_json :: "UnifiedUsage \<Rightarrow> json" where
  "usage_json u = JObj [(''promptTokens'', JNum (promptTokens u)), (''completionTokens'', JNum (completionTokens u))]"

definition usage_of_json :: "json option \<Rightarrow> UnifiedUsage" where
  "usage_of_json u = \<lparr>promptTokens = jnum (opt_get u ''promptTokens''), completionTokens = jnum (opt_get u ''completionTokens'')\<rparr>"

definition response_json :: "UnifiedChatResponse \<Rightarrow> json" where
  "response_json r =
     JObj [(''id'', JStr (rsp_id r)), (''provider'', JStr (rsp_provider r)), (''model'', JStr (rsp_model r)),
           (''message'', JObj [(''role'', JStr ''assistant''), (''content'', JStr (content (rsp_message r)))]),
           (''finishReason'', JStr (finish_name (rsp_finishReason r))), (''usage'', usage_json (rsp_usage r))]"

definition chunk_json :: "UnifiedChatChunk \<Rightarrow> json" where
  "chunk_json c =
     JObj ([(''id'', JStr (chk_id c)), (''provider'', JStr (chk_provider c)), (''model'', JStr (chk_model c)),
            (''delta'', JStr (delta c)), (''done'', JBool (chk_done c))]
       @ (case chk_finishReason c of None \<Rightarrow> [] | Some f \<Rightarrow> [(''finishReason'', JStr (finish_name f))])
       @ (case chk_usage c of None \<Rightarrow> [] | Some u \<Rightarrow> [(''usage'', usage_json u)]))"

section \<open>routes.ts: the pieces\<close>

definition promptText :: "UnifiedMessage list \<Rightarrow> string" where
  "promptText messages = join_with [CHR 0x0A] (map (\<lambda>m. role_name (role m) @ '': '' @ content m) messages)"

text \<open>A header that is repeated arrives as a list.\<close>

definition getIdempotencyKey :: "string list \<Rightarrow> string option" where
  "getIdempotencyKey raw = (case raw of [] \<Rightarrow> None | k # _ \<Rightarrow> Some k)"

text \<open>
  What the handler sends: a JSON reply, or an event stream (the payloads written so far and whether the
  response was ended). What it throws goes to the error handler.
\<close>

datatype chat_out = Reply nat "(string \<times> string) list" json | EventStream "json list" bool

record chat_env =
  ce_resilience :: resilience_env
  ce_defaultModel :: string
  ce_autoFallback :: "string list"
  ce_lock :: DistributedLockOptions
  ce_constrainedModel :: "string option"
  ce_idempotencyTtl :: int
  ce_similarity :: rat
  ce_cacheTtlDays :: int
  ce_dedup :: RequestDedupOptions

text \<open>
  What is not under the handler's control: the registered models, the ids and random numbers it draws, the
  hash and \<^verbatim>\<open>JSON.stringify\<close>, the vector distance and the embedding of the prompt, what others do while a
  duplicate request waits, and the text of a validation error.
\<close>

record 's chat_io =
  io_registry :: ModelRegistry
  io_token :: string
  io_newId :: "nat \<Rightarrow> string"
  io_random :: rat
  io_jitter :: "nat \<Rightarrow> rat"
  io_uuid :: string
  io_sha :: "json \<Rightarrow> string"
  io_stringify :: "json \<Rightarrow> string"
  io_vdist :: "rat list \<Rightarrow> rat list \<Rightarrow> rat"
  io_embed :: "string \<Rightarrow> (thrown, rat list) result"
  io_meanwhile :: "ms \<times> 's dedup_state \<Rightarrow> ms \<times> 's dedup_state"
  io_awaited :: "json option"
  io_issue :: "json \<Rightarrow> string"

definition live_outcome :: "('s, 'm) redis_scheme \<Rightarrow> 's chat_io \<Rightarrow> string \<Rightarrow> bool \<Rightarrow> ms \<Rightarrow> ms \<Rightarrow> 's \<Rightarrow> 's" where
  "live_outcome R io orgId failed started t s = recordOrgRequestOutcome R (io_uuid io) orgId (of_int (t - started)) failed t s"

definition is_provider_error :: "AppError \<Rightarrow> bool" where
  "is_provider_error e \<longleftrightarrow> statusCode e = 502 \<and> err_code e = ''PROVIDER_ERROR''"

text \<open>Every adapter throws \<^verbatim>\<open>ProviderError\<close> with its own name, which is the name of the resolved provider.\<close>

definition providerFailureBody :: "string \<Rightarrow> AppError \<Rightarrow> json" where
  "providerFailureBody provider e =
     JObj ([(''error'', JStr (message e)), (''code'', JStr (err_code e))]
       @ (if is_provider_error e then [(''provider'', JStr provider)] else []))"

definition sql_int :: "rat \<Rightarrow> int" where
  "sql_int x =
     (let f = math_floor x; r = x - of_int f
      in if r < 1 / 2 then f else if r > 1 / 2 then f + 1 else if even f then f else f + 1)"

definition cache_options :: "chat_env \<Rightarrow> OrgFeatureFlags \<Rightarrow> SemanticCacheLookupOptions" where
  "cache_options env flags =
     \<lparr>similarityThreshold = ce_similarity env,
      ttlDays = (case ff_cache_ttl_days flags of None \<Rightarrow> ce_cacheTtlDays env | Some n \<Rightarrow> sql_int n)\<rparr>"

definition effective_model :: "chat_env \<Rightarrow> OrgFeatureFlags \<Rightarrow> BudgetStatus option \<Rightarrow> string \<Rightarrow> string" where
  "effective_model env flags budget model =
     (case (budget, ce_constrainedModel env) of
        (Some b, Some m) \<Rightarrow>
          if ff_billing_enforcement flags \<and> model = ''auto'' \<and> remainingFraction b < 5 / 100 \<and> m \<noteq> [] then m else model
      | _ \<Rightarrow> model)"

section \<open>routes.ts: the answer without streaming\<close>

text \<open>The state of a request: Redis with the dedup messages, and the database.\<close>

type_synonym 's chat_state = "'s dedup_state \<times> db"

definition runChat ::
    "('s, 'm) redis_scheme \<Rightarrow> chat_env \<Rightarrow> 's chat_io \<Rightarrow> OrgFeatureFlags \<Rightarrow> string \<Rightarrow> string \<Rightarrow> ResolvedModel \<Rightarrow> UnifiedChatRequest
      \<Rightarrow> (thrown, json, 's dedup_state) call" where
  "runChat R env io flags orgId promptHash resolved req =
     (let doCall = (\<lambda>t (s, ch).
            case callProviderResilientWithStats R (ce_resilience env) (io_jitter io) (io_uuid io) (lp_name (rm_provider resolved))
                   (\<lambda>t1 s1. let (r, t2) = lp_chat (rm_provider resolved) req t1 in (map_sum id response_json r, t2, s1)) t s of
              (r, t', s') \<Rightarrow> (r, t', s', ch))
      in if ff_request_dedup flags
         then withRequestDedup R (orgId @ '':'' @ promptHash) (io_meanwhile io) (io_awaited io) doCall (ce_dedup env)
         else doCall)"

text \<open>
  The semantic cache around it: the response as JSON, and whether it came from the cache. A cache write
  that fails is ignored.
\<close>

definition cached_chat ::
    "('s, 'm) redis_scheme \<Rightarrow> chat_env \<Rightarrow> 's chat_io \<Rightarrow> OrgFeatureFlags \<Rightarrow> string \<Rightarrow> ResolvedModel \<Rightarrow> UnifiedChatRequest
      \<Rightarrow> (thrown, json \<times> bool, 's chat_state) call" where
  "cached_chat R env io flags orgId resolved req t st =
     (let ((s, ch), d) = st; model = providerModel resolved;
          promptHash = computePromptHash (io_sha io) model (req_messages req);
          call = runChat R env io flags orgId promptHash resolved req;
          embedding = io_embed io (promptText (req_messages req))
      in if \<not> ff_semantic_cache flags then
           (case call t (s, ch) of (r, t', rc) \<Rightarrow> (map_sum id (\<lambda>j. (j, False)) r, t', rc, d))
         else
           (case lookupCache (io_vdist io) d orgId model promptHash embedding (cache_options env flags) t of
              Inl e \<Rightarrow> (Inl e, t, (s, ch), d)
            | Inr (Some cached) \<Rightarrow>
                (let s1 = recordCacheOutcome R orgId Hit t s
                 in (case json_parse cached of None \<Rightarrow> Inl (ThrownJs ''SyntaxError'') | Some j \<Rightarrow> Inr (j, True), t, (s1, ch), d))
            | Inr None \<Rightarrow>
                (case call t (recordCacheOutcome R orgId Miss t s, ch) of
                   (Inl e, t', rc) \<Rightarrow> (Inl e, t', rc, d)
                 | (Inr j, t', rc) \<Rightarrow>
                     (case embedding of
                        Inl e \<Rightarrow> (Inl e, t', rc, d)
                      | Inr v \<Rightarrow> (Inr (j, False), t', rc, snd (storeCache orgId model promptHash v (io_stringify io j) t' d))))))"

definition chat_usage :: "ApiKeyContext \<Rightarrow> string \<Rightarrow> json \<Rightarrow> RecordUsageParams" where
  "chat_usage ctx model response =
     \<lparr>rup_orgId = ctx_orgId ctx, rup_apiKeyId = ctx_apiKeyId ctx, rup_model = model,
      rup_usage = usage_of_json (jget response ''usage''), rup_requestId = jstr (jget response ''id'')\<rparr>"

definition store_replay :: "('s, 'm) redis_scheme \<Rightarrow> chat_env \<Rightarrow> string \<Rightarrow> string option \<Rightarrow> json \<Rightarrow> ms \<Rightarrow> 's \<Rightarrow> 's" where
  "store_replay R env orgId key body t s =
     (case key of
        None \<Rightarrow> s
      | Some k \<Rightarrow> if k = [] then s else storeIdempotentResult R orgId k \<lparr>ir_statusCode = 200, ir_body = body\<rparr> (ce_idempotencyTtl env) t s)"

definition json_chat ::
    "('s, 'm) redis_scheme \<Rightarrow> chat_env \<Rightarrow> 's chat_io \<Rightarrow> OrgFeatureFlags \<Rightarrow> ApiKeyContext \<Rightarrow> string option \<Rightarrow> ms \<Rightarrow> ResolvedModel \<Rightarrow> UnifiedChatRequest
      \<Rightarrow> (thrown, chat_out, 's chat_state) call" where
  "json_chat R env io flags ctx key started resolved req t st =
     (let orgId = ctx_orgId ctx; model = providerModel resolved in
      case cached_chat R env io flags orgId resolved req t st of
        (Inl e, t', (s, ch), d) \<Rightarrow>
          (case e of
             ThrownApp err \<Rightarrow>
               if is_provider_error err \<or> is_service_unavailable err then
                 (let s1 = live_outcome R io orgId True started t' s;
                      (s2, d2) = emitProviderDegradedEvent R (new_row (io_newId io) d) orgId model (err_code err) t' (s1, d)
                  in (Inr (Reply (statusCode err) (headers err) (providerFailureBody (lp_name (rm_provider resolved)) err)), t', (s2, ch), d2))
               else (Inl e, t', (s, ch), d)
           | _ \<Rightarrow> (Inl e, t', (s, ch), d))
      | (Inr (response, fromCache), t', (s, ch), d) \<Rightarrow>
          (case (if fromCache then (Inr (), d)
                 else (case recordUsageAndOutbox (new_row (io_newId io) d) (chat_usage ctx model response) t' d of
                         (Inl e, d1) \<Rightarrow> (Inl e, d1) | (Inr _, d1) \<Rightarrow> (Inr (), d1))) of
             (Inl e, d1) \<Rightarrow> (Inl e, t', (s, ch), d1)
           | (Inr _, d1) \<Rightarrow>
               (Inr (Reply 200 [] response), t',
                (live_outcome R io orgId False started t' (store_replay R env orgId key response t' s), ch), d1)))"

section \<open>routes.ts: the event stream\<close>

record stream_state =
  st_text :: string
  st_id :: string
  st_finish :: FinishReason
  st_usage :: UnifiedUsage

definition stream_start :: stream_state where
  "stream_start = \<lparr>st_text = [], st_id = [], st_finish = Fin_stop, st_usage = \<lparr>promptTokens = 0, completionTokens = 0\<rparr>\<rparr>"

definition stream_chunk :: "UnifiedChatChunk \<Rightarrow> stream_state \<Rightarrow> stream_state" where
  "stream_chunk c st =
     \<lparr>st_text = st_text st @ delta c, st_id = chk_id c,
      st_finish = (if chk_done c then (case chk_finishReason c of None \<Rightarrow> Fin_stop | Some f \<Rightarrow> f) else st_finish st),
      st_usage = (if chk_done c then (case chk_usage c of None \<Rightarrow> st_usage st | Some u \<Rightarrow> u) else st_usage st)\<rparr>"

definition assembled :: "ResolvedModel \<Rightarrow> stream_state \<Rightarrow> UnifiedChatResponse" where
  "assembled resolved st =
     \<lparr>rsp_id = st_id st, rsp_provider = lp_name (rm_provider resolved), rsp_model = providerModel resolved,
      rsp_message = \<lparr>role = Assistant, content = st_text st\<rparr>, rsp_finishReason = st_finish st, rsp_usage = st_usage st\<rparr>"

text \<open>
  The first chunk is pulled inside the resilient call, so that a failure before it is retried and can
  still be answered with JSON. After \<^verbatim>\<open>hijack\<close> the events are on the wire: what is thrown then leaves the
  response open.
\<close>

definition open_stream :: "ResolvedModel \<Rightarrow> UnifiedChatRequest \<Rightarrow> (thrown, UnifiedChatChunk list \<times> thrown option, 's) call" where
  "open_stream resolved req t s =
     (case lp_chatStream (rm_provider resolved) req t of
        (([], Some e), t') \<Rightarrow> (Inl e, t', s)
      | (chunks, t') \<Rightarrow> (Inr chunks, t', s))"

definition stream_chat ::
    "('s, 'm) redis_scheme \<Rightarrow> chat_env \<Rightarrow> 's chat_io \<Rightarrow> ApiKeyContext \<Rightarrow> string option \<Rightarrow> ms \<Rightarrow> ResolvedModel \<Rightarrow> UnifiedChatRequest
      \<Rightarrow> (thrown, chat_out, 's chat_state) call" where
  "stream_chat R env io ctx key started resolved req t st =
     (let ((s, ch), d) = st; orgId = ctx_orgId ctx; name = lp_name (rm_provider resolved) in
      case callProviderResilientWithStats R (ce_resilience env) (io_jitter io) (io_uuid io) name (open_stream resolved req) t s of
        (Inl e, t', s1) \<Rightarrow>
          (case e of
             ThrownApp err \<Rightarrow>
               if is_provider_error err \<or> is_service_unavailable err
               then (Inr (Reply (statusCode err) (headers err) (providerFailureBody name err)), t',
                     (live_outcome R io orgId True started t' s1, ch), d)
               else (Inl e, t', (s1, ch), d)
           | _ \<Rightarrow> (Inl e, t', (s1, ch), d))
      | (Inr (chunks, failure), t', s1) \<Rightarrow>
          (if chunks = []
           then (Inr (Reply 502 [] (JObj [(''error'', JStr ''Provider returned an empty stream''), (''code'', JStr ''PROVIDER_ERROR'')])), t',
                 (live_outcome R io orgId True started t' s1, ch), d)
           else
             (let sent = map chunk_json chunks; final = fold stream_chunk chunks stream_start in
              case failure of
                Some e \<Rightarrow>
                  (Inr (EventStream (sent @ [JObj [(''error'', JStr (thrown_text e))]]) True), t',
                   (live_outcome R io orgId True started t' s1, ch), d)
              | None \<Rightarrow>
                  (let body = response_json (assembled resolved final) in
                   case recordUsageAndOutbox (new_row (io_newId io) d) (chat_usage ctx (providerModel resolved) body) t' d of
                     (Inl e, d1) \<Rightarrow> (Inr (EventStream sent False), t', (s1, ch), d1)
                   | (Inr _, d1) \<Rightarrow>
                       (Inr (EventStream sent True), t',
                        (live_outcome R io orgId False started t' (store_replay R env orgId key body t' s1), ch), d1)))))"

section \<open>routes.ts: POST /v1/chat\<close>

definition provider_request :: "ResolvedModel \<Rightarrow> ChatRequestInput \<Rightarrow> UnifiedChatRequest" where
  "provider_request resolved input =
     \<lparr>req_model = providerModel resolved, req_messages = ci_messages input, req_stream = ci_stream input,
      req_maxTokens = ci_maxTokens input, req_temperature = ci_temperature input\<rparr>"

text \<open>After the replay check: the budget, the route, the warning, and one of the two ways to answer.\<close>

definition answer_chat ::
    "('s, 'm) redis_scheme \<Rightarrow> chat_env \<Rightarrow> 's chat_io \<Rightarrow> ApiKeyContext \<Rightarrow> string option \<Rightarrow> ms \<Rightarrow> OrgFeatureFlags \<Rightarrow> BudgetStatus option
      \<Rightarrow> ChatRequestInput \<Rightarrow> (thrown, chat_out, 's chat_state) call" where
  "answer_chat R env io ctx key started flags budget input t st =
     (let ((s, ch), d) = st; orgId = ctx_orgId ctx in
      case resolveModelWithFallback R (ce_defaultModel env) (ce_autoFallback env) (io_registry io)
             (effective_model env flags budget (ci_model input))
             \<lparr>preset = ff_routing_preset flags, opt_abConfig = ff_ab_config flags\<rparr> (io_random io) t s of
        (Inl e, s1) \<Rightarrow> (Inl e, t, (s1, ch), d)
      | (Inr decision, s1) \<Rightarrow>
          (let resolved = rd_resolved decision; req = provider_request resolved input;
               s2 = (case (reason decision, abVariant decision) of
                       (Route_ab_variant, Some (m, _)) \<Rightarrow> recordAbSelection R orgId m t s1 | _ \<Rightarrow> s1)
           in case (case budget of
                      Some b \<Rightarrow> if ff_billing_enforcement flags then maybePublishBudgetWarning (new_row (io_newId io) d) orgId b t d else (Inr (), d)
                    | None \<Rightarrow> (Inr (), d)) of
                (Inl e, d1) \<Rightarrow> (Inl e, t, (s2, ch), d1)
              | (Inr _, d1) \<Rightarrow>
                  (if ci_stream input = Some True
                   then stream_chat R env io ctx key started resolved req t ((s2, ch), d1)
                   else json_chat R env io flags ctx key started resolved req t ((s2, ch), d1))))"

definition chat_route ::
    "('s, 'm) redis_scheme \<Rightarrow> chat_env \<Rightarrow> 's chat_io \<Rightarrow> ApiKeyContext \<Rightarrow> string list \<Rightarrow> json \<Rightarrow> (thrown, chat_out, 's chat_state) call" where
  "chat_route R env io ctx keyHeader body t st =
     (case chatRequestSchema body of
        None \<Rightarrow> (Inl (ThrownApp (ValidationError (io_issue io body))), t, st)
      | Some input \<Rightarrow>
          (let ((s, ch), d) = st; orgId = ctx_orgId ctx; key = getIdempotencyKey keyHeader in
           case (case key of None \<Rightarrow> None | Some k \<Rightarrow> if k = [] then None else getIdempotentReplay R orgId k t s) of
             Some replay \<Rightarrow>
               (Inr (Reply (nat (ir_statusCode replay)) [(''idempotent-replay'', ''true'')] (ir_body replay)), t,
                (live_outcome R io orgId False t t s, ch), d)
           | None \<Rightarrow>
               (let (flags, s1) = getOrgFeatureFlags R orgId t (s, d) in
                if ff_billing_enforcement flags then
                  (case enforceBudget R (io_token io) (new_row (io_newId io) d) orgId (ce_lock env) t (s1, d) of
                     (Inl e, t', s2, d') \<Rightarrow> (Inl (lock_thrown e), t', (s2, ch), d')
                   | (Inr b, t', s2, d') \<Rightarrow> answer_chat R env io ctx key t flags (Some b) input t' ((s2, ch), d'))
                else answer_chat R env io ctx key t flags None input t ((s1, ch), d))))"

section \<open>routes.ts: the other routes, and app.ts\<close>

definition get_cache_stats_route :: "('s, 'm) redis_scheme \<Rightarrow> ApiKeyContext \<Rightarrow> ms \<Rightarrow> 's \<Rightarrow> CacheStats" where
  "get_cache_stats_route R ctx t s = getCacheStats R (ctx_orgId ctx) t s"

definition delete_cache_route :: "ApiKeyContext \<Rightarrow> string option \<Rightarrow> db \<Rightarrow> (thrown, json) result \<times> db" where
  "delete_cache_route ctx keepModel d =
     (case flushCache (ctx_orgId ctx) keepModel d of
        (Inl e, d') \<Rightarrow> (Inl e, d')
      | (Inr n, d') \<Rightarrow> (Inr (JObj [(''deleted'', JNum (of_nat n))]), d'))"

fun routing_stats_route :: "('s, 'm) redis_scheme \<Rightarrow> string list \<Rightarrow> ms \<Rightarrow> 's \<Rightarrow> (string \<times> ProviderStats) list \<times> 's" where
  "routing_stats_route R [] now s = ([], s)"
| "routing_stats_route R (p # ps) now s =
     (let (st, s1) = getProviderStats R p now s; (rest, s2) = routing_stats_route R ps now s1 in ((p, st) # rest, s2))"

definition ab_stats_route :: "('s, 'm) redis_scheme \<Rightarrow> ApiKeyContext \<Rightarrow> ms \<Rightarrow> 's \<times> db \<Rightarrow> (string \<times> int) list \<times> 's" where
  "ab_stats_route R ctx t st =
     (let (flags, s1) = getOrgFeatureFlags R (ctx_orgId ctx) t st
      in (case ff_ab_config flags of None \<Rightarrow> [] | Some ab \<Rightarrow> getAbStats R (ctx_orgId ctx) ab t s1, s1))"

text \<open>The error handler; those of the framework itself are in \<open>Processes\<close>.\<close>

definition error_reply :: "thrown \<Rightarrow> chat_out" where
  "error_reply e =
     (case e of
        ThrownApp err \<Rightarrow> Reply (statusCode err) (headers err) (JObj [(''error'', JStr (message err)), (''code'', JStr (err_code err))])
      | ThrownJs _ \<Rightarrow> Reply 500 [] (JObj [(''error'', JStr ''Internal server error''), (''code'', JStr ''INTERNAL_ERROR'')]))"

section \<open>What a request does to the bills\<close>

definition keeps_bills :: "db \<Rightarrow> db \<Rightarrow> bool" where
  "keeps_bills d d' \<longleftrightarrow> usage_records d' = usage_records d \<and> usage_events d' = usage_events d"

definition adds_bill :: "UsageRecord \<Rightarrow> db \<Rightarrow> db \<Rightarrow> bool" where
  "adds_bill row d d' \<longleftrightarrow> usage_records d' = usage_records d @ [row] \<and> usage_events d' = usage_events d @ [row_payload row]
     \<and> ur_requestId row \<notin> ur_requestId ` set (usage_records d)"

lemma keeps_bills_refl [simp, intro]: "keeps_bills d d"
  by (simp add: keeps_bills_def)

lemma keeps_bills_trans [trans]: "keeps_bills d d' \<Longrightarrow> keeps_bills d' d'' \<Longrightarrow> keeps_bills d d''"
  by (simp add: keeps_bills_def)

lemma keeps_then_adds: "keeps_bills d d' \<Longrightarrow> adds_bill row d' d'' \<Longrightarrow> adds_bill row d d''"
  by (simp add: keeps_bills_def adds_bill_def)

lemma billing_ok_keeps: "keeps_bills d d' \<Longrightarrow> billing_ok d' \<longleftrightarrow> billing_ok d"
  by (simp add: keeps_bills_def billing_ok_def)

lemma billing_ok_adds: "adds_bill row d d' \<Longrightarrow> billing_ok d \<Longrightarrow> billing_ok d'"
  by (auto simp: adds_bill_def billing_ok_def)

lemma other_event_keeps: "ty \<noteq> ''usage.recorded'' \<Longrightarrow> keeps_bills d (writeOutboxEvent rowId now ty p d)"
  by (simp add: keeps_bills_def writeOutboxEvent_def usage_events_def)

lemma withTenant_keeps:
  "(\<And>tx. keeps_bills tx (snd (f tx))) \<Longrightarrow> keeps_bills d (snd (withTenant d orgId f))"
  by (auto simp: withTenant_def split: prod.splits sum.splits) (metis snd_conv)

lemma check_budget_keeps: "keeps_bills d (snd (check_budget rowId orgId now d))"
  using withTenant_keeps [of "\<lambda>tx. (Inr (), writeOutboxEvent rowId now ''budget.exceeded'' p tx)" d orgId for p]
  by (auto simp: check_budget_def other_event_keeps split: sum.splits option.splits prod.splits) (metis snd_conv)+

lemma lock_loop_keeps:
  assumes "\<And>t s d. keeps_bills d (snd (snd (snd (fn t (s, d)))))"
  shows "keeps_bills d (snd (snd (snd (lock_loop R key token fn opts n t (s, d)))))"
proof (induction n arbitrary: t s d)
  case 0
  show ?case using assms [of d t "snd (r_set_nx R key (SText token) (ttlMs opts) t s)"]
    by (auto simp: split_beta Let_def)
next
  case (Suc n)
  show ?case using assms [of d t "snd (r_set_nx R key (SText token) (ttlMs opts) t s)"] Suc
    by (auto simp: split_beta Let_def)
qed

lemma enforceBudget_keeps: "keeps_bills d (snd (snd (snd (enforceBudget R token rowId orgId opts t (s, d)))))"
  unfolding enforceBudget_def withDistributedLock_def
  by (rule lock_loop_keeps) (simp add: split_beta check_budget_keeps)

lemma warning_keeps: "keeps_bills d (snd (maybePublishBudgetWarning rowId orgId b t d))"
  by (auto simp: maybePublishBudgetWarning_def intro!: withTenant_keeps other_event_keeps)

lemma storeCache_keeps: "keeps_bills d (snd (storeCache orgId model h v r t d))"
  unfolding storeCache_def by (rule withTenant_keeps) (simp add: keeps_bills_def usage_events_def)

lemma degraded_keeps: "keeps_bills d (snd (emitProviderDegradedEvent R rowId orgId p why t (s, d)))"
  unfolding emitProviderDegradedEvent_def emit_def
  by (auto simp: Let_def split_beta intro!: withTenant_keeps other_event_keeps)

lemma record_usage_bills:
  assumes "recordUsageAndOutbox rowId p now d = (r, d')"
  shows "case r of
      Inl _ \<Rightarrow> keeps_bills d d'
    | Inr _ \<Rightarrow> (keeps_bills d d' \<and> rup_requestId p \<in> ur_requestId ` set (usage_records d))
        \<or> (\<exists>row. adds_bill row d d' \<and> ur_requestId row = rup_requestId p \<and> ur_orgId row = rup_orgId p \<and> ur_apiKeyId row = rup_apiKeyId p)"
  using assms
  by (auto simp: recordUsageAndOutbox_def withTenant_def insert_usage_def Let_def list_ex_key adds_bill_def keeps_bills_def
      usage_events_def writeOutboxEvent_def row_payload_def usage_payload_def
      split: option.splits if_splits prod.splits sum.splits)

lemma fresh_not_cached [simp]: "map_sum id (\<lambda>j. (j, False)) x \<noteq> Inr (j', True)"
  by (cases x) auto

lemma cached_chat_keeps:
  assumes "cached_chat R env io flags orgId resolved req t (rc, d) = (r, t', rc', d')"
  shows "keeps_bills d d'" and "r = Inr (j, True) \<Longrightarrow> ff_semantic_cache flags"
  using assms
  by (auto simp: cached_chat_def Let_def storeCache_keeps split: prod.splits sum.splits option.splits if_splits)

definition bill_outcome :: "ApiKeyContext \<Rightarrow> (thrown, chat_out) result \<Rightarrow> db \<Rightarrow> db \<Rightarrow> bool" where
  "bill_outcome ctx out d d' \<longleftrightarrow> keeps_bills d d'
     \<or> (\<exists>row. adds_bill row d d' \<and> ur_orgId row = ctx_orgId ctx \<and> ur_apiKeyId row = ctx_apiKeyId ctx
          \<and> ((\<exists>resp. out = Inr (Reply 200 [] resp) \<and> ur_requestId row = jstr (jget resp ''id''))
             \<or> (\<exists>chunks. out = Inr (EventStream chunks True))))"

definition served_is_billed :: "OrgFeatureFlags \<Rightarrow> (thrown, chat_out) result \<Rightarrow> db \<Rightarrow> bool" where
  "served_is_billed flags out d' \<longleftrightarrow>
     (\<forall>resp. out = Inr (Reply 200 [] resp) \<and> \<not> ff_semantic_cache flags \<longrightarrow> jstr (jget resp ''id'') \<in> ur_requestId ` set (usage_records d'))"

lemma bill_outcome_keeps_first: "keeps_bills d d' \<Longrightarrow> bill_outcome ctx out d' d'' \<Longrightarrow> bill_outcome ctx out d d''"
  unfolding bill_outcome_def using keeps_bills_trans keeps_then_adds by blast

lemma bill_outcome_keeps: "keeps_bills d d' \<Longrightarrow> bill_outcome ctx out d d'"
  by (simp add: bill_outcome_def)

lemma error_status: "is_provider_error e \<or> is_service_unavailable e \<Longrightarrow> statusCode e \<noteq> 200"
  by (auto simp: is_provider_error_def is_service_unavailable_def)

lemma json_chat_bills:
  assumes "json_chat R env io flags ctx key started resolved req t (rc, d) = (out, t', rc', d')"
  shows "bill_outcome ctx out d d' \<and> served_is_billed flags out d'"
proof -
  obtain r t1 s1 ch1 d1 where call: "cached_chat R env io flags (ctx_orgId ctx) resolved req t (rc, d) = (r, t1, (s1, ch1), d1)"
    by (metis prod_cases4 surj_pair)
  note keep = cached_chat_keeps(1) [OF call]
  show ?thesis
  proof (cases r)
    case (Inl e)
    have deg: "keeps_bills d (snd (emitProviderDegradedEvent R rowId orgId p c t1 (x, d1)))" for rowId orgId p c x
      by (rule keeps_bills_trans [OF keep degraded_keeps])
    have "keeps_bills d d' \<and> (\<forall>resp. out \<noteq> Inr (Reply 200 [] resp))"
    proof (cases "\<exists>err. e = ThrownApp err \<and> (is_provider_error err \<or> is_service_unavailable err)")
      case True
      then obtain err where err: "e = ThrownApp err" "is_provider_error err \<or> is_service_unavailable err" by blast
      with assms call Inl deg error_status [OF err(2)] show ?thesis by (auto simp: json_chat_def Let_def split_beta)
    next
      case False
      with assms call Inl keep show ?thesis by (cases e) (auto simp: json_chat_def Let_def)
    qed
    then show ?thesis by (simp add: bill_outcome_keeps served_is_billed_def)
  next
    case (Inr x)
    obtain j cached where x: "x = (j, cached)" by force
    show ?thesis
    proof (cases cached)
      case True
      with cached_chat_keeps(2) [OF call, of j] Inr x have "ff_semantic_cache flags" by simp
      with assms call Inr x True keep show ?thesis
        by (auto simp: json_chat_def Let_def bill_outcome_keeps served_is_billed_def)
    next
      case False
      obtain u d2 where rec: "recordUsageAndOutbox (new_row (io_newId io) d1) (chat_usage ctx (providerModel resolved) j) t1 d1 = (u, d2)"
        by force
      from record_usage_bills [OF rec] have bills: "bill_outcome ctx (case u of Inl e \<Rightarrow> Inl e | Inr _ \<Rightarrow> Inr (Reply 200 [] j)) d1 d2"
        "u = Inr y \<Longrightarrow> jstr (jget j ''id'') \<in> ur_requestId ` set (usage_records d2)" for y
        by (auto simp: bill_outcome_def chat_usage_def adds_bill_def keeps_bills_def split: sum.splits)
      with assms call Inr x False rec bill_outcome_keeps_first [OF keep] show ?thesis
        by (auto simp: json_chat_def Let_def served_is_billed_def split: sum.splits)
    qed
  qed
qed

lemma stream_chat_bills:
  assumes "stream_chat R env io ctx key started resolved req t (rc, d) = (out, t', rc', d')"
  shows "bill_outcome ctx out d d' \<and> served_is_billed flags out d'"
proof -
  obtain s ch where rc: "rc = (s, ch)" by force
  let ?call = "callProviderResilientWithStats R (ce_resilience env) (io_jitter io) (io_uuid io) (lp_name (rm_provider resolved)) (open_stream resolved req) t s"
  obtain r t1 s1 where call: "?call = (r, t1, s1)" by (metis surj_pair)
  show ?thesis
  proof (cases r)
    case (Inl e)
    with assms rc call error_status show ?thesis
      by (auto simp: stream_chat_def Let_def bill_outcome_keeps served_is_billed_def split: thrown.splits if_splits)
  next
    case (Inr x)
    obtain chunks failure where x: "x = (chunks, failure)" by force
    let ?p = "chat_usage ctx (providerModel resolved) (response_json (assembled resolved (fold stream_chunk chunks stream_start)))"
    obtain u d2 where rec: "recordUsageAndOutbox (new_row (io_newId io) d) ?p t1 d = (u, d2)" by force
    from record_usage_bills [OF rec] have
      "bill_outcome ctx (Inr (EventStream cs (case u of Inl _ \<Rightarrow> False | Inr _ \<Rightarrow> True))) d d2" for cs
      by (auto simp: bill_outcome_def chat_usage_def split: sum.splits)
    with assms rc call Inr x rec show ?thesis
      by (auto simp: stream_chat_def Let_def bill_outcome_keeps served_is_billed_def split: sum.splits if_splits option.splits)
  qed
qed

lemma answer_chat_bills:
  assumes "answer_chat R env io ctx key started flags budget input t (rc, d) = (out, t', rc', d')"
  shows "bill_outcome ctx out d d' \<and> served_is_billed flags out d'"
proof -
  obtain s ch where rc: "rc = (s, ch)" by force
  obtain dec s1 where route: "resolveModelWithFallback R (ce_defaultModel env) (ce_autoFallback env) (io_registry io)
      (effective_model env flags budget (ci_model input)) \<lparr>preset = ff_routing_preset flags, opt_abConfig = ff_ab_config flags\<rparr>
      (io_random io) t s = (dec, s1)" by force
  obtain w d1 where warn: "(case budget of
      Some b \<Rightarrow> if ff_billing_enforcement flags then maybePublishBudgetWarning (new_row (io_newId io) d) (ctx_orgId ctx) b t d else (Inr (), d)
    | None \<Rightarrow> (Inr (), d)) = (w, d1)" by force
  then have keep: "keeps_bills d d1"
    using warning_keeps [of d "new_row (io_newId io) d" "ctx_orgId ctx" _ t] by (auto split: option.splits if_splits) (metis snd_conv)
  show ?thesis
  proof (cases dec)
    case (Inl e)
    with assms rc route show ?thesis by (auto simp: answer_chat_def bill_outcome_keeps served_is_billed_def)
  next
    case (Inr dd)
    show ?thesis
    proof (cases w)
      case (Inl e)
      with assms rc route Inr warn keep show ?thesis
        by (auto simp: answer_chat_def Let_def bill_outcome_keeps served_is_billed_def)
    next
      case (Inr y)
      let ?rs = "rd_resolved dd"
      let ?req = "provider_request ?rs input"
      obtain s2 where run: "(if ci_stream input = Some True then stream_chat R env io ctx key started ?rs ?req t ((s2, ch), d1)
          else json_chat R env io flags ctx key started ?rs ?req t ((s2, ch), d1)) = (out, t', rc', d')"
        using assms rc route \<open>dec = Inr dd\<close> warn Inr by (simp add: answer_chat_def Let_def)
      then have "bill_outcome ctx out d1 d' \<and> served_is_billed flags out d'"
        using stream_chat_bills [of R env io ctx key started ?rs ?req t "(s2, ch)" d1 out t' rc' d']
          json_chat_bills [of R env io flags ctx key started ?rs ?req t "(s2, ch)" d1 out t' rc' d'] by (metis (full_types))
      with bill_outcome_keeps_first [OF keep] show ?thesis by blast
    qed
  qed
qed


lemma record_usage_succeeds: "billable p \<Longrightarrow> \<exists>u d'. recordUsageAndOutbox rowId p now d = (Inr u, d')"
  by (auto simp: billable_def recordUsageAndOutbox_def withTenant_def insert_usage_def Let_def)

section \<open>A plain request\<close>

lemma first_call_succeeds:
  assumes "r_read R (cb_key name) t s = None" and "1 \<le> RETRY_MAX_ATTEMPTS env" and "\<And>s. fn t s = (Inr a, t', s)"
  shows "\<exists>s'. callProviderResilientWithStats R env jitter uuid name fn t s = (Inr a, t', s')"
proof -
  have "attempt_script R (cb_key name) t w v s = ((1, ''closed''), r_hset R (cb_key name) [(''windowStart'', HNum (of_int t))] t s)" for w v
    using assms(1) by (simp add: attempt_script_def r_hget_def Let_def)
  then have "\<exists>s'. withCircuitBreaker R name (breaker_config env) fn t s = (Inr a, t', s')"
    by (simp add: withCircuitBreaker_def assms(3))
  then show ?thesis
    using assms(2) by (auto simp: callProviderResilientWithStats_def callProviderResilient_def withRetry_def withRetry_loop.simps)
qed

text \<open>A request for a registered model, with every flag off and a provider that answers at once.\<close>

lemma plain_chat:
  assumes body: "chatRequestSchema body = Some input" and stream: "ci_stream input \<noteq> Some True"
    and key: "\<forall>k. getIdempotencyKey keyHeader = Some k \<longrightarrow> getIdempotentReplay R (ctx_orgId ctx) k t s = None"
    and flags: "getOrgFeatureFlags R (ctx_orgId ctx) t (s, d) = (flags, s1)"
    and off: "\<not> ff_semantic_cache flags" "\<not> ff_request_dedup flags" "\<not> ff_billing_enforcement flags"
    and model: "ci_model input \<noteq> ''auto''" "reg_resolve (io_registry io) (ci_model input) = Some resolved"
    and call: "lp_chat (rm_provider resolved) (provider_request resolved input) t = (Inr rsp, t1)"
    and circuit: "r_read R (cb_key (lp_name (rm_provider resolved))) t s1 = None" "1 \<le> RETRY_MAX_ATTEMPTS (ce_resilience env)"
    and usage: "recordUsageAndOutbox (new_row (io_newId io) d) (chat_usage ctx (providerModel resolved) (response_json rsp)) t1 d = (Inr u, d1)"
  shows "\<exists>s'. chat_route R env io ctx keyHeader body t ((s, ch), d) =
    (Inr (Reply 200 [] (response_json rsp)), t1,
     (live_outcome R io (ctx_orgId ctx) False t t1 (store_replay R env (ctx_orgId ctx) (getIdempotencyKey keyHeader) (response_json rsp) t1 s'), ch), d1)"
proof -
  have fresh: "(case getIdempotencyKey keyHeader of None \<Rightarrow> None
      | Some k \<Rightarrow> if k = [] then None else getIdempotentReplay R (ctx_orgId ctx) k t s) = None"
    using key by (cases "getIdempotencyKey keyHeader") auto
  obtain s' where run: "callProviderResilientWithStats R (ce_resilience env) (io_jitter io) (io_uuid io) (lp_name (rm_provider resolved))
      (\<lambda>t1 s1. let (r, t2) = lp_chat (rm_provider resolved) (provider_request resolved input) t1
               in (map_sum id response_json r, t2, s1)) t s1 = (Inr (response_json rsp), t1, s')"
    using first_call_succeeds [OF circuit, of "\<lambda>t1 s1. let (r, t2) = lp_chat (rm_provider resolved) (provider_request resolved input) t1
        in (map_sum id response_json r, t2, s1)" "response_json rsp" t1 "io_jitter io" "io_uuid io"] call by (auto simp: Let_def)
  have "cached_chat R env io flags (ctx_orgId ctx) resolved (provider_request resolved input) t ((s1, ch), d) =
      (Inr (response_json rsp, False), t1, (s', ch), d)"
    using off run by (simp add: cached_chat_def runChat_def Let_def)
  then have "json_chat R env io flags ctx (getIdempotencyKey keyHeader) t resolved (provider_request resolved input) t ((s1, ch), d) =
      (Inr (Reply 200 [] (response_json rsp)), t1,
       (live_outcome R io (ctx_orgId ctx) False t t1 (store_replay R env (ctx_orgId ctx) (getIdempotencyKey keyHeader) (response_json rsp) t1 s'), ch), d1)"
    using usage by (simp add: json_chat_def Let_def)
  then have "answer_chat R env io ctx (getIdempotencyKey keyHeader) t flags None input t ((s1, ch), d) =
      (Inr (Reply 200 [] (response_json rsp)), t1,
       (live_outcome R io (ctx_orgId ctx) False t t1 (store_replay R env (ctx_orgId ctx) (getIdempotencyKey keyHeader) (response_json rsp) t1 s'), ch), d1)"
    using stream model by (simp add: answer_chat_def Let_def effective_model_def resolveModelWithFallback_def)
  then show ?thesis using body fresh flags off(3) by (auto simp: chat_route_def Let_def)
qed

section \<open>A concrete request\<close>

definition demo_response :: UnifiedChatResponse where
  "demo_response = \<lparr>rsp_id = ''r1'', rsp_provider = ''mock'', rsp_model = ''gpt-4o'', rsp_message = \<lparr>role = Assistant, content = ''hi''\<rparr>,
     rsp_finishReason = Fin_stop, rsp_usage = \<lparr>promptTokens = 3, completionTokens = 2\<rparr>\<rparr>"

definition demo_resolved :: ResolvedModel where
  "demo_resolved = \<lparr>rm_provider = \<lparr>lp_ref = 0, lp_name = ''mock'', lp_models = Inr [],
     lp_chat = (\<lambda>req t. (Inr demo_response, t + 20)), lp_chatStream = (\<lambda>req t. (([], None), t))\<rparr>, providerModel = ''gpt-4o''\<rparr>"

definition demo_chat_env :: chat_env where
  "demo_chat_env = \<lparr>ce_resilience = demo_env, ce_defaultModel = ''gpt-4o'', ce_autoFallback = [], ce_lock = DEFAULT_LOCK_OPTS,
     ce_constrainedModel = None, ce_idempotencyTtl = 60, ce_similarity = 9 / 10, ce_cacheTtlDays = 7,
     ce_dedup = \<lparr>leaderTtlSeconds = 10, followerWaitMs = 100\<rparr>\<rparr>"

definition demo_io :: "mem_state chat_io" where
  "demo_io = \<lparr>io_registry = \<lparr>reg_resolve = (\<lambda>m. if m = ''gpt-4o'' then Some demo_resolved else None), reg_listModels = [], reg_listProviderNames = [''mock'']\<rparr>,
     io_token = ''tok'', io_newId = (\<lambda>n. CHR ''e'' # show_nat n), io_random = 0, io_jitter = (\<lambda>_. 0), io_uuid = ''u'', io_sha = (\<lambda>_. ''h''),
     io_stringify = (\<lambda>_. ''{}''), io_vdist = (\<lambda>_ _. 0), io_embed = (\<lambda>_. Inr [1]), io_meanwhile = (\<lambda>x. x), io_awaited = None,
     io_issue = (\<lambda>_. ''Invalid request'')\<rparr>"

definition demo_ctx :: ApiKeyContext where
  "demo_ctx = \<lparr>ctx_apiKeyId = ''k1'', ctx_orgId = demo_org, ctx_scopes = [], ctx_rateLimitRpm = 60\<rparr>"

definition demo_body :: json where
  "demo_body = JObj [(''model'', JStr ''gpt-4o''), (''messages'', JArr [JObj [(''role'', JStr ''user''), (''content'', JStr ''hello'')]])]"

definition demo_input :: ChatRequestInput where
  "demo_input = \<lparr>ci_model = ''gpt-4o'', ci_messages = [\<lparr>role = User, content = ''hello''\<rparr>], ci_stream = None, ci_maxTokens = None, ci_temperature = None\<rparr>"

lemma demo_parse: "chatRequestSchema demo_body = Some demo_input"
  by (simp add: demo_body_def chatRequestSchema_def z_text_def z_optional_def messageSchema_def z_role_def demo_input_def)

lemma demo_chat:
  obtains rc d where "chat_route mem_redis demo_chat_env demo_io demo_ctx [''key''] demo_body 0 ((mem_empty, []), empty_db) =
    (Inr (Reply 200 [] (response_json demo_response)), 20, rc, d)"
proof -
  let ?s1 = "r_set mem_redis (flags_cacheKey demo_org) (SJson (flags_json FLAG_DEFAULTS)) 60000 0 mem_empty"
  have org: "ctx_orgId demo_ctx = demo_org" by (simp add: demo_ctx_def)
  have flags: "getOrgFeatureFlags mem_redis (ctx_orgId demo_ctx) 0 (mem_empty, empty_db) = (FLAG_DEFAULTS, ?s1)"
    unfolding org by (simp add: getOrgFeatureFlags_def r_get_def FLAGS_TTL_SECONDS_def find_org_def empty_db_def coerce_def)
  have circuit: "r_read mem_redis (cb_key (lp_name (rm_provider demo_resolved))) 0 ?s1 = None"
    by (simp add: mem.read_set cb_key_def flags_cacheKey_def demo_resolved_def)
  have "billable (chat_usage demo_ctx (providerModel demo_resolved) (response_json demo_response))"
    by (simp add: billable_def chat_usage_def org demo_resolved_def computeCostUsd_def getModelPricing_def prop_lookup_def PRICING_def)
  then obtain u d where usage: "recordUsageAndOutbox (new_row (io_newId demo_io) empty_db)
      (chat_usage demo_ctx (providerModel demo_resolved) (response_json demo_response)) 20 empty_db = (Inr u, d)"
    using record_usage_succeeds by blast
  have "lp_chat (rm_provider demo_resolved) (provider_request demo_resolved demo_input) 0 = (Inr demo_response, 20)"
    by (simp add: demo_resolved_def)
  from plain_chat [OF demo_parse _ _ flags _ _ _ _ _ this circuit _ usage, of "[''key'']" demo_chat_env] that show ?thesis
    by (auto simp: demo_input_def demo_io_def demo_chat_env_def demo_env_def FLAG_DEFAULTS_def getIdempotencyKey_def getIdempotentReplay_def
        r_get_def)
qed


section \<open>A retried request\<close>

text \<open>A write command touches its own key only, whatever the types of the others.\<close>

locale framed_redis = redis_service R for R :: "('s, 'm) redis_scheme" +
  assumes frame_zadd: "k' \<noteq> k \<Longrightarrow> r_read R k' t' (r_zadd R k sc m t s) = r_read R k' t' s"
    and frame_zremrangebyscore: "k' \<noteq> k \<Longrightarrow> r_read R k' t' (r_zremrangebyscore R k lo hi t s) = r_read R k' t' s"
    and frame_sadd: "k' \<noteq> k \<Longrightarrow> r_read R k' t' (r_sadd R k m t s) = r_read R k' t' s"
begin

lemma live_outcome_frame:
  assumes "k \<noteq> live_statsKey orgId" and "k \<noteq> ACTIVE_ORGS_KEY" and "t \<le> t'"
  shows "r_read R k t' (live_outcome R io orgId failed started t s) = r_read R k t' s"
  using assms
  by (simp add: live_outcome_def recordOrgRequestOutcome_def live_record_script_def Let_def frame_zadd frame_zremrangebyscore
      frame_sadd read_pexpire)

lemma stored_replay:
  assumes "k \<noteq> []" and "t \<le> t'" and "t' < t + ce_idempotencyTtl env * 1000"
  shows "getIdempotentReplay R orgId k t' (live_outcome R io orgId failed started t (store_replay R env orgId (Some k) body t s)) =
    Some \<lparr>ir_statusCode = 200, ir_body = body\<rparr>"
proof -
  have "idempotencyKey orgId k \<noteq> live_statsKey orgId" "idempotencyKey orgId k \<noteq> ACTIVE_ORGS_KEY"
    by (simp_all add: idempotencyKey_def live_statsKey_def ACTIVE_ORGS_KEY_def)
  with assms show ?thesis
    by (simp add: getIdempotentReplay_def r_get_def live_outcome_frame store_replay_def storeIdempotentResult_def read_set
        idem_of_json_def idem_json_def math_floor_def)
qed

end

interpretation mem_framed: framed_redis mem_redis
  by unfold_locales (auto simp: mem_redis_def mem_read_modify_other)

lemma json_chat_stores:
  assumes "json_chat R env io flags ctx key started resolved req t st = (Inr (Reply 200 hs resp), t', (s', ch'), d')"
  shows "\<exists>s0. s' = live_outcome R io (ctx_orgId ctx) False started t' (store_replay R env (ctx_orgId ctx) key resp t' s0)"
proof -
  obtain r t1 s1 ch1 d1 where call: "cached_chat R env io flags (ctx_orgId ctx) resolved req t st = (r, t1, (s1, ch1), d1)"
    by (metis prod_cases4 surj_pair)
  show ?thesis
  proof (cases r)
    case (Inl e)
    have "False"
    proof (cases "\<exists>err. e = ThrownApp err \<and> (is_provider_error err \<or> is_service_unavailable err)")
      case True
      then obtain err where err: "e = ThrownApp err" "is_provider_error err \<or> is_service_unavailable err" by blast
      with assms call Inl error_status [OF err(2)] show ?thesis by (auto simp: json_chat_def Let_def split_beta)
    next
      case False
      with assms call Inl show ?thesis by (cases e) (auto simp: json_chat_def Let_def)
    qed
    then show ?thesis ..
  next
    case (Inr x)
    with assms call show ?thesis
      by (cases x) (auto simp: json_chat_def Let_def split: if_splits sum.splits prod.splits)
  qed
qed

lemma stream_chat_not_200:
  "stream_chat R env io ctx key started resolved req t (rc, d) \<noteq> (Inr (Reply 200 hs resp), t', rc', d')"
proof -
  obtain s ch where rc: "rc = (s, ch)" by force
  let ?call = "callProviderResilientWithStats R (ce_resilience env) (io_jitter io) (io_uuid io) (lp_name (rm_provider resolved)) (open_stream resolved req) t s"
  obtain r t1 s1 where call: "?call = (r, t1, s1)" by (metis surj_pair)
  show ?thesis
  proof (cases r)
    case (Inl e)
    with rc call error_status show ?thesis
      by (cases e) (auto simp: stream_chat_def Let_def)
  next
    case (Inr x)
    with rc call show ?thesis
      by (cases x) (auto simp: stream_chat_def Let_def split: sum.splits prod.splits option.splits)
  qed
qed

lemma answer_chat_stores:
  assumes "answer_chat R env io ctx key started flags budget input t st = (Inr (Reply 200 hs resp), t', (s', ch'), d')"
  shows "\<exists>s0. s' = live_outcome R io (ctx_orgId ctx) False started t' (store_replay R env (ctx_orgId ctx) key resp t' s0)"
proof -
  obtain s ch d where st: "st = ((s, ch), d)" by (metis surj_pair)
  obtain resolved req t1 rc1 d1 where "stream_chat R env io ctx key started resolved req t1 (rc1, d1) = (Inr (Reply 200 hs resp), t', (s', ch'), d')
      \<or> json_chat R env io flags ctx key started resolved req t1 (rc1, d1) = (Inr (Reply 200 hs resp), t', (s', ch'), d')"
    using assms st by (auto simp: answer_chat_def Let_def split: prod.splits sum.splits if_splits) blast+
  with json_chat_stores stream_chat_not_200 show ?thesis by metis
qed

lemma chat_route_stores:
  assumes "chat_route R env io ctx [k] body t st = (Inr (Reply 200 [] resp), t', (s', ch'), d')" and "k \<noteq> []"
  shows "\<exists>s0 started. s' = live_outcome R io (ctx_orgId ctx) False started t' (store_replay R env (ctx_orgId ctx) (Some k) resp t' s0)"
proof -
  obtain s ch d where st: "st = ((s, ch), d)" by (metis surj_pair)
  obtain input where input: "chatRequestSchema body = Some input"
    using assms(1) by (cases "chatRequestSchema body") (auto simp: chat_route_def)
  have "getIdempotentReplay R (ctx_orgId ctx) k t s = None"
    using assms input st by (cases "getIdempotentReplay R (ctx_orgId ctx) k t s") (auto simp: chat_route_def getIdempotencyKey_def Let_def)
  then obtain flags b t2 st2 where
    "answer_chat R env io ctx (Some k) t flags b input t2 st2 = (Inr (Reply 200 [] resp), t', (s', ch'), d')"
    using assms input st
    by (auto simp: chat_route_def getIdempotencyKey_def Let_def split: prod.splits sum.splits if_splits)
  from answer_chat_stores [OF this] show ?thesis by blast
qed



end
