(* ===== verification/ApiRoutes.thy ===== *)
theory ApiRoutes
  imports Stripe Jobs GatewayState
begin

text \<open>
  Analytics and the remaining routes of \<^verbatim>\<open>apps/api\<close> (\<^verbatim>\<open>modules/analytics\<close>, \<^verbatim>\<open>modules/apiKeys\<close>,
  \<^verbatim>\<open>modules/webhooks\<close>, \<^verbatim>\<open>modules/billing\<close>, \<^verbatim>\<open>modules/liveStats\<close>), and the job listing and job
  progress socket of the gateway. A route is the function of the parsed token or key and the request; the
  per-route request limits are the framework's. The lemmas show that the analytics totals agree with the
  usage table however it is grouped; that every route stays inside its organisation is in \<open>Tenancy\<close>.
\<close>

section \<open>analytics/service.ts\<close>

definition PERIOD_LOOKBACK_MS :: "(string \<times> ms) list" where
  "PERIOD_LOOKBACK_MS =
     [(''24h'', 24 * 60 * 60 * 1000), (''7d'', 7 * 24 * 60 * 60 * 1000), (''30d'', 30 * 24 * 60 * 60 * 1000)]"

record HourlyBucket =
  hb_bucket :: string
  hb_requests :: int
  hb_promptTokens :: rat
  hb_completionTokens :: rat
  hb_costUsd :: rat

record ModelBreakdown =
  mb_model :: string
  mb_requests :: int
  mb_costUsd :: rat

record analytics_totals =
  an_requests :: int
  an_tokens :: rat
  an_costUsd :: rat

record AnalyticsSummary =
  as_period :: string
  as_buckets :: "HourlyBucket list"
  as_byModel :: "ModelBreakdown list"
  as_totals :: analytics_totals

definition trunc_hour :: "ms \<Rightarrow> ms" where
  "trunc_hour t = t div 3600000 * 3600000"

text \<open>\<^verbatim>\<open>GROUP BY\<close>: each key that occurs with its rows.\<close>

definition group_by :: "('r \<Rightarrow> 'k) \<Rightarrow> 'r list \<Rightarrow> ('k \<times> 'r list) list" where
  "group_by f rows = map (\<lambda>k. (k, filter (\<lambda>r. f r = k) rows)) (remdups (map f rows))"

definition usage_since :: "string \<Rightarrow> ms \<Rightarrow> db \<Rightarrow> UsageRecord list" where
  "usage_since orgId since d = filter (\<lambda>r. since \<le> ur_createdAt r) (tenant_rows ur_orgId orgId (usage_records d))"

text \<open>A cast to the database's 32-bit integer fails when the number does not fit.\<close>

definition cast_int4 :: "rat \<Rightarrow> (thrown, rat) result" where
  "cast_int4 x = (if - 2147483648 \<le> x \<and> x \<le> 2147483647 then Inr x else Inl (ThrownJs ''integer out of range''))"

definition hourly_bucket :: "ms \<times> UsageRecord list \<Rightarrow> (thrown, HourlyBucket) result" where
  "hourly_bucket g =
     result_bind (cast_int4 (of_nat (length (snd g)))) (\<lambda>_.
     result_bind (cast_int4 (sum_list (map ur_promptTokens (snd g)))) (\<lambda>prompt.
     result_bind (cast_int4 (sum_list (map ur_completionTokens (snd g)))) (\<lambda>completion.
       Inr \<lparr>hb_bucket = toISOString (fst g), hb_requests = int (length (snd g)), hb_promptTokens = prompt,
            hb_completionTokens = completion, hb_costUsd = sum_list (map ur_costUsd (snd g))\<rparr>)))"

definition model_breakdown :: "string \<times> UsageRecord list \<Rightarrow> (thrown, ModelBreakdown) result" where
  "model_breakdown g =
     result_bind (cast_int4 (of_nat (length (snd g)))) (\<lambda>_.
       Inr \<lparr>mb_model = fst g, mb_requests = int (length (snd g)), mb_costUsd = sum_list (map ur_costUsd (snd g))\<rparr>)"

fun all_rows :: "('a \<Rightarrow> (thrown, 'b) result) \<Rightarrow> 'a list \<Rightarrow> (thrown, 'b list) result" where
  "all_rows f [] = Inr []"
| "all_rows f (x # xs) = result_bind (f x) (\<lambda>y. result_bind (all_rows f xs) (\<lambda>ys. Inr (y # ys)))"

definition add_bucket :: "analytics_totals \<Rightarrow> HourlyBucket \<Rightarrow> analytics_totals" where
  "add_bucket acc b =
     \<lparr>an_requests = an_requests acc + hb_requests b, an_tokens = an_tokens acc + hb_promptTokens b + hb_completionTokens b,
      an_costUsd = an_costUsd acc + hb_costUsd b\<rparr>"

definition bucket_query :: "string \<Rightarrow> ms \<Rightarrow> db \<Rightarrow> (thrown, HourlyBucket list) result" where
  "bucket_query orgId since tx =
     all_rows hourly_bucket (sort_key fst (group_by (\<lambda>r. trunc_hour (ur_createdAt r)) (usage_since orgId since tx)))"

definition model_query :: "string \<Rightarrow> ms \<Rightarrow> db \<Rightarrow> (thrown, ModelBreakdown list) result" where
  "model_query orgId since tx =
     result_bind (all_rows model_breakdown (group_by ur_model (usage_since orgId since tx)))
       (\<lambda>rows. Inr (sort_key (\<lambda>b. - mb_costUsd b) rows))"

definition getAnalytics :: "db \<Rightarrow> string \<Rightarrow> string \<Rightarrow> ms \<Rightarrow> (thrown, AnalyticsSummary) result" where
  "getAnalytics d orgId period now =
     (let since = now - the (map_of PERIOD_LOOKBACK_MS period) in
      result_bind
        (fst (withTenant d orgId (\<lambda>tx.
          (result_bind (bucket_query orgId since tx) (\<lambda>buckets.
           result_bind (model_query orgId since tx) (\<lambda>models. Inr (buckets, models))), tx))))
        (\<lambda>(buckets, byModel).
          Inr \<lparr>as_period = period, as_buckets = buckets, as_byModel = byModel,
               as_totals = foldl add_bucket \<lparr>an_requests = 0, an_tokens = 0, an_costUsd = 0\<rparr> buckets\<rparr>))"

text \<open>A log line; the row's generated id is left out, as in the table.\<close>

record LogEntry =
  le_createdAt :: string
  le_model :: string
  le_promptTokens :: rat
  le_completionTokens :: rat
  le_costUsd :: rat
  le_requestId :: string

definition log_entry :: "UsageRecord \<Rightarrow> LogEntry" where
  "log_entry r =
     \<lparr>le_createdAt = toISOString (ur_createdAt r), le_model = ur_model r, le_promptTokens = ur_promptTokens r,
      le_completionTokens = ur_completionTokens r, le_costUsd = ur_costUsd r, le_requestId = ur_requestId r\<rparr>"

definition listRequestLogs :: "db \<Rightarrow> string \<Rightarrow> string option \<Rightarrow> nat option \<Rightarrow> (thrown, LogEntry list) result" where
  "listRequestLogs d orgId model limit =
     result_bind
       (fst (withTenant d orgId (\<lambda>tx.
         (Inr (take (min (case limit of None \<Rightarrow> 50 | Some n \<Rightarrow> n) 200) (sort_key (\<lambda>r. - ur_createdAt r)
            (filter (\<lambda>r. truthy model \<longrightarrow> Some (ur_model r) = model) (tenant_rows ur_orgId orgId (usage_records tx))))), tx))))
       (\<lambda>rows. Inr (map log_entry rows))"

section \<open>analytics/schemas.ts and analytics/routes.ts\<close>

definition periodSchema :: "string option \<Rightarrow> string option" where
  "periodSchema v =
     (case v of None \<Rightarrow> Some ''7d'' | Some p \<Rightarrow> if p \<in> {''24h'', ''7d'', ''30d''} then Some p else None)"

text \<open>A limit between 1 and 200, coerced from the query text.\<close>

definition z_limit :: "string option \<Rightarrow> nat option option" where
  "z_limit v =
     (case v of
        None \<Rightarrow> Some None
      | Some s \<Rightarrow>
          (case js_number s of
             Fin x \<Rightarrow> if x = of_int (math_floor x) \<and> 1 \<le> x \<and> x \<le> 200 then Some (Some (nat (math_floor x))) else None
           | _ \<Rightarrow> None))"

definition logsQuerySchema :: "string option \<Rightarrow> string option \<Rightarrow> (string option \<times> nat option) option" where
  "logsQuerySchema model limit =
     (case (if \<exists>m. model = Some m \<and> \<not> (1 \<le> length m \<and> length m \<le> 128) then None else Some model, z_limit limit) of
        (Some m, Some l) \<Rightarrow> Some (m, l) | _ \<Rightarrow> None)"

definition analytics_route :: "string \<Rightarrow> AccessTokenPayload \<Rightarrow> string option \<Rightarrow> ms \<Rightarrow> db \<Rightarrow> (thrown, AnalyticsSummary) result" where
  "analytics_route issue user period now d =
     (case periodSchema period of
        None \<Rightarrow> Inl (ThrownApp (ValidationError issue))
      | Some p \<Rightarrow> getAnalytics d (claim_text (at_orgId user)) p now)"

definition analytics_logs_route ::
    "string \<Rightarrow> AccessTokenPayload \<Rightarrow> string option \<Rightarrow> string option \<Rightarrow> db \<Rightarrow> (thrown, LogEntry list) result" where
  "analytics_logs_route issue user model limit d =
     (case logsQuerySchema model limit of
        None \<Rightarrow> Inl (ThrownApp (ValidationError issue))
      | Some (m, l) \<Rightarrow> listRequestLogs d (claim_text (at_orgId user)) m l)"

section \<open>apiKeys/schemas.ts and apiKeys/routes.ts\<close>

definition z_scopes :: "json option \<Rightarrow> string list option" where
  "z_scopes v =
     (case as_array v of
        None \<Rightarrow> None
      | Some xs \<Rightarrow>
          if 1 \<le> length xs \<and> length xs \<le> 32
             \<and> list_all (\<lambda>x. case as_string (Some x) of None \<Rightarrow> False | Some s \<Rightarrow> 1 \<le> length s \<and> length s \<le> 64) xs
          then Some (map (\<lambda>x. jstr (Some x)) xs) else None)"

definition z_rpm :: "json option \<Rightarrow> int option option" where
  "z_rpm v =
     (case v of
        None \<Rightarrow> Some None
      | Some j \<Rightarrow>
          (case coerce_number j of
             Fin x \<Rightarrow> if x = of_int (math_floor x) \<and> 1 \<le> x \<and> x \<le> 100000 then Some (Some (math_floor x)) else None
           | _ \<Rightarrow> None))"

definition createApiKeySchema :: "json \<Rightarrow> (string list \<times> int option) option" where
  "createApiKeySchema body =
     (case (z_scopes (jget body ''scopes''), z_rpm (jget body ''rateLimitRpm'')) of
        (Some scopes, Some rpm) \<Rightarrow> Some (scopes, rpm) | _ \<Rightarrow> None)"

definition create_key_route ::
    "(json \<Rightarrow> string) \<Rightarrow> (string \<Rightarrow> string) \<Rightarrow> string \<Rightarrow> string \<Rightarrow> string \<Rightarrow> AccessTokenPayload \<Rightarrow> json \<Rightarrow> ms \<Rightarrow> db
      \<Rightarrow> (thrown, nat \<times> CreatedApiKey) result \<times> db" where
  "create_key_route issue sha random rowId eventId user body now d =
     (case createApiKeySchema body of
        None \<Rightarrow> (Inl (ThrownApp (ValidationError (issue body))), d)
      | Some (scopes, rpm) \<Rightarrow>
          (case createApiKey sha random rowId eventId now (claim_text (at_orgId user)) scopes rpm d of
             (Inl e, d') \<Rightarrow> (Inl e, d')
           | (Inr key, d') \<Rightarrow> (Inr (201, key), d')))"

definition list_keys_route :: "AccessTokenPayload \<Rightarrow> db \<Rightarrow> (thrown, ApiKeySummary list) result" where
  "list_keys_route user d = listApiKeys d (claim_text (at_orgId user))"

definition revoke_key_route ::
    "('s, 'm) redis_scheme \<Rightarrow> string \<Rightarrow> AccessTokenPayload \<Rightarrow> string \<Rightarrow> ms \<Rightarrow> 's \<times> db \<Rightarrow> (thrown, nat) result \<times> 's \<times> db" where
  "revoke_key_route R eventId user keyId t st =
     (case revokeApiKey R eventId (claim_text (at_orgId user)) keyId t st of
        (Inl e, st') \<Rightarrow> (Inl e, st') | (Inr _, st') \<Rightarrow> (Inr 204, st'))"

section \<open>webhooks/schemas.ts and webhooks/routes.ts\<close>

definition z_eventTypes :: "json option \<Rightarrow> string list option" where
  "z_eventTypes v =
     (case as_array v of
        None \<Rightarrow> None
      | Some xs \<Rightarrow>
          if 1 \<le> length xs \<and> length xs \<le> length WEBHOOK_EVENT_TYPES \<and> list_all (\<lambda>x. isWebhookEventType (Some x)) xs
          then Some (map (\<lambda>x. jstr (Some x)) xs) else None)"

definition registerWebhookSchema :: "json \<Rightarrow> (string \<times> string list) option" where
  "registerWebhookSchema body =
     (case (as_string (jget body ''url''), z_eventTypes (jget body ''eventTypes'')) of
        (Some u, Some types) \<Rightarrow> if 1 \<le> length u \<and> length u \<le> 2048 then Some (u, types) else None
      | _ \<Rightarrow> None)"

text \<open>Only \<open>UnsafeWebhookUrlError\<close> becomes a 400; it is thrown exactly when the target is not safe.\<close>

definition register_webhook_route ::
    "(json \<Rightarrow> string) \<Rightarrow> (string \<Rightarrow> SsrfCheckResult) \<Rightarrow> string \<Rightarrow> string \<Rightarrow> AccessTokenPayload \<Rightarrow> json \<Rightarrow> ms \<Rightarrow> db
      \<Rightarrow> (thrown, nat \<times> RegisteredWebhook) result \<times> db" where
  "register_webhook_route issue checkTarget rowId random user body now d =
     (case registerWebhookSchema body of
        None \<Rightarrow> (Inl (ThrownApp (ValidationError (issue body))), d)
      | Some (u, types) \<Rightarrow>
          (case registerWebhookEndpoint checkTarget rowId now random (claim_text (at_orgId user)) u types d of
             (Inl e, d') \<Rightarrow> (Inl (if safe (checkTarget u) then e else ThrownApp (ValidationError (thrown_text e))), d')
           | (Inr endpoint, d') \<Rightarrow> (Inr (201, endpoint), d')))"

definition list_webhooks_route :: "AccessTokenPayload \<Rightarrow> db \<Rightarrow> (thrown, endpoint_listing list) result" where
  "list_webhooks_route user d = listWebhookEndpoints d (claim_text (at_orgId user))"

definition delete_webhook_route :: "AccessTokenPayload \<Rightarrow> string \<Rightarrow> db \<Rightarrow> (thrown, nat) result \<times> db" where
  "delete_webhook_route user endpointId d =
     (case deleteWebhookEndpoint (claim_text (at_orgId user)) endpointId d of
        (Inl e, d') \<Rightarrow> (Inl e, d')
      | (Inr deleted, d') \<Rightarrow> (if deleted then Inr 204 else Inl (ThrownApp (NotFoundError ''Webhook endpoint not found'')), d'))"

text \<open>The limit is the number its text denotes, whatever it is; an absent or empty text is the default of 50.\<close>

definition list_deliveries_route ::
    "(jsnum \<Rightarrow> WebhookDelivery list \<Rightarrow> (thrown, WebhookDelivery list) result) \<Rightarrow> AccessTokenPayload \<Rightarrow> string \<Rightarrow> string option \<Rightarrow> db
      \<Rightarrow> (thrown, (WebhookDelivery \<times> WebhookEvent option) list) result" where
  "list_deliveries_route take_rows user endpointId limit d =
     listWebhookDeliveries take_rows d (claim_text (at_orgId user)) endpointId
       (if truthy limit then map_option js_number limit else None)"

section \<open>billing/routes.ts: the reads\<close>

definition billing_status_route :: "AccessTokenPayload \<Rightarrow> ms \<Rightarrow> db \<Rightarrow> (thrown, BudgetStatus) result" where
  "billing_status_route user now d = getOrgBudgetStatus d (claim_text (at_orgId user)) now"

definition list_invoices_route :: "AccessTokenPayload \<Rightarrow> db \<Rightarrow> (thrown, Invoice list) result" where
  "list_invoices_route user d = listInvoices d (claim_text (at_orgId user))"

section \<open>jobs/routes.ts: the listing\<close>

definition JOB_STATUS_NAMES :: "(string \<times> JobStatus) list" where
  "JOB_STATUS_NAMES = [(''QUEUED'', QUEUED), (''RUNNING'', RUNNING), (''COMPLETED'', COMPLETED), (''FAILED'', JOB_FAILED), (''DEAD_LETTER'', DEAD_LETTER)]"

definition listJobsQuerySchema :: "string option \<Rightarrow> string option \<Rightarrow> (JobStatus option \<times> nat option) option" where
  "listJobsQuerySchema status limit =
     (case (case status of None \<Rightarrow> Some None | Some s \<Rightarrow> map_option Some (map_of JOB_STATUS_NAMES s), z_limit limit) of
        (Some st, Some l) \<Rightarrow> Some (st, l) | _ \<Rightarrow> None)"

definition j_date :: "ms option \<Rightarrow> json" where
  "j_date t = (case t of None \<Rightarrow> JNull | Some x \<Rightarrow> JStr (toISOString x))"

definition serializeJob :: "Job \<Rightarrow> json" where
  "serializeJob job =
     JObj [(''job_id'', JStr (job_id job)), (''type'', JStr (job_type job)), (''status'', JStr (show_status (job_status job))),
           (''priority'', JNum (of_int (job_priority job))), (''progress'', JNum (of_int (job_progress job))), (''payload'', job_payload job),
           (''result'', case job_result job of None \<Rightarrow> JNull | Some r \<Rightarrow> r),
           (''error'', case job_error job of None \<Rightarrow> JNull | Some e \<Rightarrow> JStr e), (''attempts'', JNum (of_int (job_attempts job))),
           (''created_at'', j_date (Some (job_createdAt job))), (''started_at'', j_date (job_startedAt job)),
           (''finished_at'', j_date (job_finishedAt job))]"

definition list_jobs_route :: "string \<Rightarrow> ApiKeyContext \<Rightarrow> string option \<Rightarrow> string option \<Rightarrow> db \<Rightarrow> (thrown, json) result" where
  "list_jobs_route issue ctx status limit d =
     (case listJobsQuerySchema status limit of
        None \<Rightarrow> Inl (ThrownApp (ValidationError issue))
      | Some (st, l) \<Rightarrow>
          result_bind (listJobs d (ctx_orgId ctx) st l) (\<lambda>jobs. Inr (JObj [(''jobs'', JArr (map serializeJob jobs))])))"

section \<open>The WebSocket routes\<close>

text \<open>What a socket does: the messages it sends, then a close or a subscription to a channel.\<close>

datatype ws_end = WsClose nat string | WsSubscribe string

definition ws_token :: "string option \<Rightarrow> string option \<Rightarrow> string option" where
  "ws_token header queryToken =
     (let raw = (case header of Some h \<Rightarrow> if starts_with h ''Bearer '' then Some (trim (drop 7 h)) else queryToken | None \<Rightarrow> queryToken)
      in if truthy raw then raw else None)"

definition jobWsRoutes ::
    "('s, 'm) redis_scheme \<Rightarrow> (string \<Rightarrow> string) \<Rightarrow> string option \<Rightarrow> string option \<Rightarrow> string \<Rightarrow> ms \<Rightarrow> 's \<times> db
      \<Rightarrow> (thrown, json list \<times> ws_end) result \<times> 's \<times> db" where
  "jobWsRoutes R sha header queryKey jobId t st =
     (case ws_token header queryKey of
        None \<Rightarrow> (Inr ([], WsClose 4401 ''Unauthorized''), st)
      | Some rawKey \<Rightarrow>
          (case resolveApiKey R sha rawKey t st of
             (None, st') \<Rightarrow> (Inr ([], WsClose 4401 ''Unauthorized''), st')
           | (Some ctx, s', d') \<Rightarrow>
               (case getJob d' (ctx_orgId ctx) jobId of
                  Inl e \<Rightarrow> (Inl e, s', d')
                | Inr None \<Rightarrow> (Inr ([], WsClose 4404 ''Job not found''), s', d')
                | Inr (Some job) \<Rightarrow>
                    (Inr ([JObj [(''jobId'', JStr (job_id job)), (''progress'', JNum (of_int (job_progress job))),
                                 (''status'', JStr (show_status (job_status job))),
                                 (''error'', case job_error job of None \<Rightarrow> JNull | Some e \<Rightarrow> JStr e)]],
                          if job_status job \<in> {COMPLETED, DEAD_LETTER} then WsClose 1000 ''Job already finished''
                          else WsSubscribe (jobProgressChannel jobId)), s', d'))))"

text \<open>Once subscribed, each message is forwarded; a terminal one closes the socket.\<close>

fun job_ws_forward :: "string list \<Rightarrow> string list \<times> bool" where
  "job_ws_forward [] = ([], False)"
| "job_ws_forward (m # ms) =
     (case json_parse m of
        Some event \<Rightarrow>
          if jget event ''status'' \<in> {Some (JStr ''COMPLETED''), Some (JStr ''DEAD_LETTER'')} then ([m], True)
          else (let (rest, c) = job_ws_forward ms in (m # rest, c))
      | None \<Rightarrow> (let (rest, c) = job_ws_forward ms in (m # rest, c)))"

definition liveStatsChannel :: "string \<Rightarrow> string" where
  "liveStatsChannel orgId = ''analytics:'' @ orgId"

definition liveStatsWsRoutes :: "jwt_lib \<Rightarrow> jwt_env \<Rightarrow> string option \<Rightarrow> string option \<Rightarrow> ms \<Rightarrow> ws_end" where
  "liveStatsWsRoutes J env header token now =
     (case ws_token header token of
        None \<Rightarrow> WsClose 4401 ''Unauthorized''
      | Some raw \<Rightarrow>
          (case verifyAccessToken J env raw now of
             Inl _ \<Rightarrow> WsClose 4401 ''Unauthorized''
           | Inr p \<Rightarrow> WsSubscribe (liveStatsChannel (claim_text (at_orgId p)))))"

section \<open>Grouping loses nothing\<close>

lemma sum_group_by:
  fixes g :: "'r \<Rightarrow> 'a :: comm_monoid_add"
  assumes "distinct ks" "f ` set rows \<subseteq> set ks"
  shows "(\<Sum>k\<leftarrow>ks. sum_list (map g (filter (\<lambda>r. f r = k) rows))) = sum_list (map g rows)"
  using assms(2)
proof (induction rows)
  case (Cons r rows)
  have "(\<Sum>k\<leftarrow>ks. sum_list (map g (filter (\<lambda>r. f r = k) (r # rows))))
      = (\<Sum>k\<leftarrow>ks. (if f r = k then g r else 0) + sum_list (map g (filter (\<lambda>r. f r = k) rows)))"
    by (intro arg_cong [where f = sum_list] map_cong) auto
  also have "\<dots> = (\<Sum>k\<leftarrow>ks. if f r = k then g r else 0) + sum_list (map g rows)"
    using Cons by (simp add: sum_list_addf)
  also have "(\<Sum>k\<leftarrow>ks. if f r = k then g r else 0) = g r"
    using assms(1) Cons.prems by (simp add: sum_list_distinct_conv_sum_set)
  finally show ?case by simp
qed simp

lemma group_by_sums:
  fixes g :: "'r \<Rightarrow> 'a :: comm_monoid_add"
  shows "(\<Sum>p\<leftarrow>group_by f rows. sum_list (map g (snd p))) = sum_list (map g rows)"
  using sum_group_by [of "remdups (map f rows)" f rows g] by (simp add: group_by_def comp_def)

lemma group_by_lengths: "(\<Sum>p\<leftarrow>group_by f rows. int (length (snd p))) = int (length rows)"
  using group_by_sums [where g = "\<lambda>_. 1 :: int" and f = f and rows = rows] by (simp add: sum_list_triv)

lemma sum_sort_key:
  fixes h :: "'b \<Rightarrow> 'a :: comm_monoid_add"
  shows "sum_list (map h (sort_key k xs)) = sum_list (map h xs)"
proof -
  have "mset (map h (sort_key k xs)) = mset (map h xs)" by simp
  then show ?thesis by (metis sum_mset_sum_list)
qed

lemma all_rows_Inr: "all_rows f xs = Inr ys \<Longrightarrow> list_all2 (\<lambda>x y. f x = Inr y) xs ys"
  by (induction xs arbitrary: ys) (auto simp: result_bind_def split: sum.splits)

lemma all_rows_total: "(\<And>x. x \<in> set xs \<Longrightarrow> \<exists>y. f x = Inr y) \<Longrightarrow> \<exists>ys. all_rows f xs = Inr ys"
proof (induction xs)
  case (Cons x xs)
  obtain y ys where "f x = Inr y" "all_rows f xs = Inr ys"
    using Cons.IH Cons.prems by fastforce
  then show ?case by simp
qed simp

lemma sum_filter_le:
  fixes g :: "'r \<Rightarrow> rat"
  assumes "\<And>r. r \<in> set rows \<Longrightarrow> 0 \<le> g r"
  shows "sum_list (map g (filter P rows)) \<le> sum_list (map g rows)" "0 \<le> sum_list (map g (filter P rows))"
  using assms by (induction rows) (auto intro: add_increasing)

lemma group_by_mem: "p \<in> set (group_by f rows) \<Longrightarrow> snd p = filter (\<lambda>r. f r = fst p) rows"
  by (auto simp: group_by_def)

lemma list_all2_sums:
  assumes "list_all2 (\<lambda>x y. f x = Inr y) xs ys" and "\<And>x y. f x = Inr y \<Longrightarrow> h y = g x"
  shows "sum_list (map h ys) = sum_list (map g xs)"
  using assms(1) by (induction) (auto simp: assms(2))

lemma bucket_totals:
  "foldl add_bucket acc bs =
     \<lparr>an_requests = an_requests acc + sum_list (map hb_requests bs),
      an_tokens = an_tokens acc + sum_list (map (\<lambda>b. hb_promptTokens b + hb_completionTokens b) bs),
      an_costUsd = an_costUsd acc + sum_list (map hb_costUsd bs)\<rparr>"
  by (induction bs arbitrary: acc) (auto simp: add_bucket_def)

lemma hourly_bucket_Inr:
  assumes "hourly_bucket g = Inr b"
  shows "hb_requests b = int (length (snd g))"
    and "hb_promptTokens b + hb_completionTokens b = sum_list (map (\<lambda>r. ur_promptTokens r + ur_completionTokens r) (snd g))"
    and "hb_costUsd b = sum_list (map ur_costUsd (snd g))"
  using assms by (auto simp: hourly_bucket_def cast_int4_def result_bind_def sum_list_addf split: if_splits)

lemma model_breakdown_Inr:
  assumes "model_breakdown g = Inr b"
  shows "mb_requests b = int (length (snd g))" "mb_costUsd b = sum_list (map ur_costUsd (snd g))"
  using assms by (auto simp: model_breakdown_def cast_int4_def result_bind_def split: if_splits)

definition int4_rows :: "UsageRecord list \<Rightarrow> bool" where
  "int4_rows rows \<longleftrightarrow>
     list_all (\<lambda>r. 0 \<le> ur_promptTokens r \<and> 0 \<le> ur_completionTokens r) rows \<and> length rows \<le> 2147483647
     \<and> sum_list (map ur_promptTokens rows) \<le> 2147483647 \<and> sum_list (map ur_completionTokens rows) \<le> 2147483647"

lemma cast_int4_sum:
  assumes "\<And>r. r \<in> set rows \<Longrightarrow> 0 \<le> g r" "sum_list (map g rows) \<le> 2147483647"
  shows "cast_int4 (sum_list (map g (filter P rows))) = Inr (sum_list (map g (filter P rows)))"
  using sum_filter_le [where g = g and rows = rows and P = P] assms by (auto simp: cast_int4_def)

lemma cast_int4_length:
  assumes "length rows \<le> 2147483647"
  shows "cast_int4 (of_nat (length (filter P rows))) = Inr (of_nat (length (filter P rows)))"
proof -
  have "length (filter P rows) \<le> 2147483647" using length_filter_le [of P rows] assms by linarith
  then have "(of_nat (length (filter P rows)) :: rat) \<le> of_nat 2147483647" by (simp only: of_nat_le_iff)
  then show ?thesis by (simp add: cast_int4_def)
qed

lemma hourly_bucket_total:
  assumes "int4_rows rows" "p \<in> set (group_by f rows)"
  shows "\<exists>b. hourly_bucket p = Inr b"
  using assms(1) unfolding hourly_bucket_def group_by_mem [OF assms(2)]
  by (simp add: int4_rows_def list_all_iff cast_int4_sum cast_int4_length)

lemma model_breakdown_total:
  assumes "int4_rows rows" "p \<in> set (group_by f rows)"
  shows "\<exists>b. model_breakdown p = Inr b"
  using assms(1) unfolding model_breakdown_def group_by_mem [OF assms(2)]
  by (simp add: int4_rows_def cast_int4_length)

lemma bucket_query_totals:
  assumes "bucket_query orgId since d = Inr bs"
  shows "sum_list (map hb_requests bs) = int (length (usage_since orgId since d))"
    and "sum_list (map (\<lambda>b. hb_promptTokens b + hb_completionTokens b) bs)
       = sum_list (map (\<lambda>r. ur_promptTokens r + ur_completionTokens r) (usage_since orgId since d))"
    and "sum_list (map hb_costUsd bs) = sum_list (map ur_costUsd (usage_since orgId since d))"
proof -
  note all2 = all_rows_Inr [OF assms [unfolded bucket_query_def]]
  show "sum_list (map hb_requests bs) = int (length (usage_since orgId since d))"
    using list_all2_sums [OF all2, of hb_requests "\<lambda>p. int (length (snd p))"] hourly_bucket_Inr(1)
    by (simp add: sum_sort_key group_by_lengths)
  show "sum_list (map (\<lambda>b. hb_promptTokens b + hb_completionTokens b) bs)
      = sum_list (map (\<lambda>r. ur_promptTokens r + ur_completionTokens r) (usage_since orgId since d))"
    using list_all2_sums [OF all2, of "\<lambda>b. hb_promptTokens b + hb_completionTokens b"] hourly_bucket_Inr(2)
    by (simp add: sum_sort_key group_by_sums)
  show "sum_list (map hb_costUsd bs) = sum_list (map ur_costUsd (usage_since orgId since d))"
    using list_all2_sums [OF all2, of hb_costUsd] hourly_bucket_Inr(3)
    by (simp add: sum_sort_key group_by_sums)
qed

lemma model_query_totals:
  assumes "model_query orgId since d = Inr ms"
  shows "sum_list (map mb_requests ms) = int (length (usage_since orgId since d))"
    and "sum_list (map mb_costUsd ms) = sum_list (map ur_costUsd (usage_since orgId since d))"
    and "sorted_wrt (\<ge>) (map mb_costUsd ms)"
proof -
  obtain rows where rows: "all_rows model_breakdown (group_by ur_model (usage_since orgId since d)) = Inr rows"
    and ms: "ms = sort_key (\<lambda>b. - mb_costUsd b) rows"
    using assms by (auto simp: model_query_def result_bind_def split: sum.splits)
  note all2 = all_rows_Inr [OF rows]
  show "sum_list (map mb_requests ms) = int (length (usage_since orgId since d))"
    using list_all2_sums [OF all2, of mb_requests "\<lambda>p. int (length (snd p))"] model_breakdown_Inr(1)
    by (simp add: ms sum_sort_key group_by_lengths)
  show "sum_list (map mb_costUsd ms) = sum_list (map ur_costUsd (usage_since orgId since d))"
    using list_all2_sums [OF all2, of mb_costUsd] model_breakdown_Inr(2)
    by (simp add: ms sum_sort_key group_by_sums)
  have "sorted (map (\<lambda>b. - mb_costUsd b) ms)" by (simp add: ms)
  then show "sorted_wrt (\<ge>) (map mb_costUsd ms)"
    by (simp add: sorted_wrt_map)
qed

text \<open>
  C34. The analytics page agrees with the usage table: when the window's rows fit the database's integers,
  the query of a period returns, its totals are the number of requests, the tokens and the cost of exactly the
  organisation's rows of the last period, however they fall into hours, and the breakdown by model adds
  up to the same requests and the same cost, most expensive model first.\<close>

theorem analytics_totals:
  assumes "is_uuid orgId" "rows = usage_since orgId (now - the (map_of PERIOD_LOOKBACK_MS period)) d" "int4_rows rows"
  shows "\<exists>summary. getAnalytics d orgId period now = Inr summary
    \<and> as_totals summary =
        \<lparr>an_requests = int (length rows), an_tokens = sum_list (map (\<lambda>r. ur_promptTokens r + ur_completionTokens r) rows),
         an_costUsd = sum_list (map ur_costUsd rows)\<rparr>
    \<and> sum_list (map mb_requests (as_byModel summary)) = int (length rows)
    \<and> sum_list (map mb_costUsd (as_byModel summary)) = sum_list (map ur_costUsd rows)
    \<and> sorted_wrt (\<ge>) (map mb_costUsd (as_byModel summary))"
proof -
  let ?since = "now - the (map_of PERIOD_LOOKBACK_MS period)"
  obtain bs where bs: "bucket_query orgId ?since d = Inr bs"
    unfolding bucket_query_def using all_rows_total [of _ hourly_bucket] hourly_bucket_total [OF assms(3)]
    by (metis assms(2) set_sort)
  obtain ms0 where "all_rows model_breakdown (group_by ur_model (usage_since orgId ?since d)) = Inr ms0"
    using all_rows_total [of _ model_breakdown] model_breakdown_total [OF assms(3)] by (metis assms(2))
  then obtain ms where ms: "model_query orgId ?since d = Inr ms" by (simp add: model_query_def)
  show ?thesis
    using assms(1) bucket_query_totals [OF bs] model_query_totals [OF ms]
    by (simp add: getAnalytics_def Let_def withTenant_def bs ms bucket_totals assms(2))
qed

definition demo_usage :: "string \<Rightarrow> ms \<Rightarrow> rat \<Rightarrow> UsageRecord" where
  "demo_usage model t cost =
     \<lparr>ur_orgId = ''00000000-0000-0000-0000-00000000000a'', ur_apiKeyId = ''k'', ur_model = model, ur_promptTokens = 10,
      ur_completionTokens = 5, ur_costUsd = cost, ur_requestId = ''r'', ur_createdAt = t\<rparr>"

lemma analytics_totals_witness:
  "\<exists>summary. getAnalytics (empty_db\<lparr>usage_records :=
        [demo_usage ''gpt-4o'' 90000000 2, demo_usage ''mock-fast'' 100000000 1, demo_usage ''gpt-4o'' 99 7]\<rparr>)
      ''00000000-0000-0000-0000-00000000000a'' ''24h'' 100000000 = Inr summary
    \<and> as_totals summary = \<lparr>an_requests = 2, an_tokens = 30, an_costUsd = 3\<rparr>"
proof -
  let ?d = "empty_db\<lparr>usage_records :=
        [demo_usage ''gpt-4o'' 90000000 2, demo_usage ''mock-fast'' 100000000 1, demo_usage ''gpt-4o'' 99 7]\<rparr>"
  have rows: "usage_since ''00000000-0000-0000-0000-00000000000a'' (100000000 - the (map_of PERIOD_LOOKBACK_MS ''24h'')) ?d
      = [demo_usage ''gpt-4o'' 90000000 2, demo_usage ''mock-fast'' 100000000 1]"
    by (simp add: usage_since_def PERIOD_LOOKBACK_MS_def tenant_rows_def demo_usage_def)
  have "is_uuid ''00000000-0000-0000-0000-00000000000a''" by code_simp
  moreover have "int4_rows [demo_usage ''gpt-4o'' 90000000 2, demo_usage ''mock-fast'' 100000000 1]"
    by (simp add: int4_rows_def demo_usage_def)
  ultimately show ?thesis
    using analytics_totals [OF _ rows [symmetric]] by (fastforce simp: demo_usage_def)
qed

end
