(* ===== verification/JsonText.thy ===== *)
theory JsonText
  imports Json
begin

text \<open>
  \<^verbatim>\<open>JSON.stringify\<close> without indentation, for the values the program sends, and the frame that
  \<^verbatim>\<open>writeSSE\<close> of \<^verbatim>\<open>apps/gateway/src/modules/chat/routes.ts\<close> puts around it. A number is printed
  with its decimal digits, at most twenty after the point; JavaScript's exponents for very large and very
  small numbers are not modelled. The lemmas show that \<^verbatim>\<open>JSON.parse\<close> reads back what is printed, and that
  a printed value is one line.
\<close>

section \<open>JSON.stringify\<close>

definition hex_char :: "nat \<Rightarrow> char" where
  "hex_char v = (if v < 10 then char_of (48 + v) else char_of (87 + v))"

definition escape_char :: "char \<Rightarrow> string" where
  "escape_char c =
     (let n = (of_char c :: nat) in
      if n = 34 then [CHR 0x5C, CHR 0x22] else if n = 92 then [CHR 0x5C, CHR 0x5C]
      else if n = 8 then [CHR 0x5C, CHR ''b''] else if n = 12 then [CHR 0x5C, CHR ''f'']
      else if n = 10 then [CHR 0x5C, CHR ''n''] else if n = 13 then [CHR 0x5C, CHR ''r'']
      else if n = 9 then [CHR 0x5C, CHR ''t'']
      else if n < 32 then [CHR 0x5C, CHR ''u'', CHR ''0'', CHR ''0'', hex_char (n div 16), hex_char (n mod 16)]
      else [c])"

definition quote_text :: "string \<Rightarrow> string" where
  "quote_text s = CHR 0x22 # concat (map escape_char s) @ [CHR 0x22]"

fun frac_digits :: "nat \<Rightarrow> rat \<Rightarrow> string" where
  "frac_digits 0 r = []"
| "frac_digits (Suc k) r =
     (if r = 0 then [] else digit_char (nat \<lfloor>10 * r\<rfloor>) # frac_digits k (10 * r - of_int \<lfloor>10 * r\<rfloor>))"

definition number_text :: "rat \<Rightarrow> string" where
  "number_text x =
     (let a = \<bar>x\<bar>; f = frac_digits 20 (a - of_int \<lfloor>a\<rfloor>)
      in (if x < 0 then ''-'' else []) @ show_nat (nat \<lfloor>a\<rfloor>) @ (if f = [] then [] else CHR ''.'' # f))"

fun elements_text :: "string list \<Rightarrow> string" where
  "elements_text [] = '']''"
| "elements_text [t] = t @ '']''"
| "elements_text (t # u # ts) = t @ CHR '','' # elements_text (u # ts)"

fun members_text :: "(string \<times> string) list \<Rightarrow> string" where
  "members_text [] = ''}''"
| "members_text [(k, t)] = quote_text k @ CHR '':'' # t @ ''}''"
| "members_text ((k, t) # m # ms) = quote_text k @ CHR '':'' # t @ CHR '','' # members_text (m # ms)"

fun json_stringify :: "json \<Rightarrow> string" where
  "json_stringify JNull = ''null''"
| "json_stringify (JBool b) = (if b then ''true'' else ''false'')"
| "json_stringify (JNum x) = number_text x"
| "json_stringify (JStr s) = quote_text s"
| "json_stringify (JArr vs) = CHR ''['' # elements_text (map json_stringify vs)"
| "json_stringify (JObj kvs) = CHR ''{'' # members_text (map (\<lambda>(k, v). (k, json_stringify v)) kvs)"

text \<open>The values that are printed exactly: numbers of at most twenty decimals, objects without repeated keys.\<close>

fun json_printable :: "json \<Rightarrow> bool" where
  "json_printable (JNum x) \<longleftrightarrow> of_int \<lfloor>x * 10 ^ 20\<rfloor> = x * 10 ^ 20"
| "json_printable (JArr vs) \<longleftrightarrow> list_all json_printable vs"
| "json_printable (JObj kvs) \<longleftrightarrow> distinct (map fst kvs) \<and> list_all (\<lambda>(k, v). json_printable v) kvs"
| "json_printable _ \<longleftrightarrow> True"

section \<open>Strings\<close>

lemma hex_char_facts:
  assumes "v < 16"
  shows "hex_value (hex_char v) = Some v" "(of_char (hex_char v) :: nat) \<ge> 48" "(of_char (hex_char v) :: nat) \<noteq> 92"
  using assms by (auto simp: hex_char_def hex_value_def Let_def)

lemma escaped_chars:
  "char_of (34 :: nat) = CHR 0x22" "char_of (92 :: nat) = CHR 0x5C" "char_of (8 :: nat) = CHR 0x08" "char_of (12 :: nat) = CHR 0x0C"
  "char_of (10 :: nat) = CHR 0x0A" "char_of (13 :: nat) = CHR 0x0D" "char_of (9 :: nat) = CHR 0x09"
  by code_simp+

lemma string_body_escape:
  "json_string_body (escape_char c @ rest) = map_option (\<lambda>(s, r). (c # s, r)) (json_string_body rest)"
proof -
  have c: "c = char_of (of_char c :: nat)" by simp
  define n where "n = (of_char c :: nat)"
  consider "n = 34" | "n = 92" | "n = 8" | "n = 12" | "n = 10" | "n = 13" | "n = 9"
    | (control) "n < 32" "n \<notin> {8, 9, 10, 12, 13}" | (plain) "32 \<le> n" "n \<noteq> 34" "n \<noteq> 92"
    by fastforce
  then show ?thesis
  proof cases
    case control
    have hd: "hex_value (CHR ''0'') = Some 0" by (simp add: hex_value_def)
    have "escape_char c = [CHR 0x5C, CHR ''u'', CHR ''0'', CHR ''0'', hex_char (n div 16), hex_char (n mod 16)]"
      using control by (auto simp: escape_char_def n_def Let_def)
    moreover have "n div 16 < 16" "n mod 16 < 16" using control by auto
    moreover have "char_of (16 * (n div 16) + n mod 16) = c" by (simp add: n_def)
    ultimately show ?thesis by (simp add: hd hex_char_facts Let_def)
  next
    case plain
    then have "escape_char c = [c]" by (simp add: escape_char_def n_def [symmetric] Let_def)
    with plain show ?thesis by (simp add: n_def [symmetric] Let_def)
  qed (use c in \<open>simp_all add: escape_char_def n_def [symmetric] Let_def escaped_chars\<close>)
qed

lemma string_body_quote: "json_string_body (concat (map escape_char s) @ CHR 0x22 # rest) = Some (s, rest)"
  by (induction s) (simp_all add: string_body_escape)

lemma escape_char_printable: "x \<in> set (escape_char c) \<Longrightarrow> 32 \<le> (of_char x :: nat)"
  using hex_char_facts(2) [of "of_char c div 16"] hex_char_facts(2) [of "of_char c mod 16"]
    less_mult_imp_div_less [of "of_char c" 16 16]
  by (auto simp: escape_char_def Let_def split: if_splits)

lemma quote_text_printable: "x \<in> set (quote_text s) \<Longrightarrow> 32 \<le> (of_char x :: nat)"
  by (auto simp: quote_text_def dest: escape_char_printable)

section \<open>Numbers\<close>

lemma read_nat_append: "read_nat (xs @ ys) = read_nat xs * 10 ^ length ys + read_nat ys"
proof -
  let ?f = "\<lambda>n c. 10 * n + digit_value c"
  have "foldl ?f k ys = k * 10 ^ length ys + foldl ?f 0 ys" for k
  proof (induction ys arbitrary: k)
    case (Cons y ys)
    have "foldl ?f k (y # ys) = (10 * k + digit_value y) * 10 ^ length ys + foldl ?f 0 ys"
      using Cons.IH [of "10 * k + digit_value y"] by (simp only: foldl_Cons)
    also have "\<dots> = k * 10 ^ length (y # ys) + (digit_value y * 10 ^ length ys + foldl ?f 0 ys)"
      by (simp only: list.size power_Suc power_add add_mult_distrib) simp
    also have "digit_value y * 10 ^ length ys + foldl ?f 0 ys = foldl ?f (digit_value y) ys"
      using Cons.IH [of "digit_value y"] by (rule sym)
    finally show ?case by (simp only: foldl_Cons mult_0_right add_0)
  qed simp
  then show ?thesis unfolding read_nat_def foldl_append .
qed

lemma frac_digits_digits: "0 \<le> r \<Longrightarrow> r < 1 \<Longrightarrow> c \<in> set (frac_digits k r) \<Longrightarrow> is_digit c"
proof (induction k arbitrary: r)
  case (Suc k)
  have d: "nat \<lfloor>10 * r\<rfloor> < 10" using Suc.prems by (simp add: nat_less_iff floor_less_iff)
  have r: "0 \<le> 10 * r - of_int \<lfloor>10 * r\<rfloor>" "10 * r - of_int \<lfloor>10 * r\<rfloor> < 1" by linarith+
  show ?case using Suc.IH [OF r] Suc.prems(3) d by (auto split: if_splits)
qed simp

lemma frac_digits_value:
  assumes "0 \<le> r" "r < 1" "of_int \<lfloor>r * 10 ^ k\<rfloor> = r * 10 ^ k"
  shows "of_nat (read_nat (frac_digits k r)) / 10 ^ length (frac_digits k r) = r"
  using assms
proof (induction k arbitrary: r)
  case 0
  have "\<lfloor>r\<rfloor> = 0" using "0.prems" by (intro floor_unique) auto
  with "0.prems" show ?case by (simp add: read_nat_def)
next
  case (Suc k)
  show ?case
  proof (cases "r = 0")
    case False
    let ?d = "\<lfloor>10 * r\<rfloor>"
    let ?r = "10 * r - of_int ?d"
    have r: "0 \<le> ?r" "?r < 1" by linarith+
    have d: "0 \<le> ?d" "nat ?d < 10" using Suc.prems by (auto simp: nat_less_iff floor_less_iff)
    obtain m where m: "r * 10 ^ Suc k = of_int m" using Suc.prems(3) by metis
    have "?r * 10 ^ k = r * 10 ^ Suc k - of_int ?d * 10 ^ k" by (simp add: algebra_simps)
    then have "?r * 10 ^ k = of_int (m - ?d * 10 ^ k)" by (simp only: m of_int_diff of_int_mult of_int_power of_int_numeral)
    then have "of_int \<lfloor>?r * 10 ^ k\<rfloor> = ?r * 10 ^ k" by (simp only: floor_of_int)
    then have IH: "of_nat (read_nat (frac_digits k ?r)) = ?r * 10 ^ length (frac_digits k ?r)"
      using Suc.IH [OF r] by (simp add: divide_eq_eq)
    have "read_nat (digit_char (nat ?d) # frac_digits k ?r)
        = nat ?d * 10 ^ length (frac_digits k ?r) + read_nat (frac_digits k ?r)"
      using read_nat_append [of "[digit_char (nat ?d)]" "frac_digits k ?r"] d by (simp add: read_nat_def)
    then have "(of_nat (read_nat (digit_char (nat ?d) # frac_digits k ?r)) :: rat)
        = (of_int ?d + ?r) * 10 ^ length (frac_digits k ?r)"
      using IH d by (simp add: algebra_simps)
    with False show ?thesis by (simp add: field_simps)
  qed (simp add: read_nat_def)
qed

lemma read_nat_Nil: "read_nat [] = 0"
  by (simp add: read_nat_def)

text \<open>What follows a value inside a text.\<close>

definition ends_value :: "string \<Rightarrow> bool" where
  "ends_value rest \<longleftrightarrow> rest = [] \<or> hd rest \<in> {CHR '','', CHR '']'', CHR ''}''}"

lemma ends_value_simps [simp]:
  "ends_value []" "ends_value (CHR '','' # r)" "ends_value (CHR '']'' # r)" "ends_value (CHR ''}'' # r)"
  by (simp_all add: ends_value_def)

lemma ends_valueD:
  assumes "ends_value rest"
  shows "takeWhile is_digit rest = []" "dropWhile is_digit rest = rest" "json_exponent rest = Some (0, rest)"
    "rest \<noteq> [] \<Longrightarrow> hd rest \<noteq> CHR ''.''"
  using assms by (cases rest; auto simp: ends_value_def is_digit_def json_exponent_def)+

lemma hd_show_nat: "1 < length (show_nat n) \<Longrightarrow> hd (show_nat n) \<noteq> CHR ''0''"
proof (induction n rule: show_nat.induct)
  case (1 n)
  show ?case
  proof (cases "n < 10")
    case True
    with "1.prems" show ?thesis by (simp add: show_nat.simps [of n])
  next
    case False
    have "hd (show_nat m) \<noteq> CHR ''0''" if "0 < m" "m < 10" for m
    proof
      assume "hd (show_nat m) = CHR ''0''"
      then have "digit_value (digit_char m) = digit_value (CHR ''0'')" using that by (simp add: show_nat.simps [of m])
      then show False using that by (simp add: digit_value_def [of "CHR ''0''"])
    qed
    moreover have "1 < length (show_nat (n div 10))" if "\<not> n div 10 < 10"
      using that by (subst show_nat.simps) (cases "show_nat (n div 10 div 10)", auto)
    ultimately have "hd (show_nat (n div 10)) \<noteq> CHR ''0''"
      using 1 False by (cases "n div 10 < 10") auto
    with False show ?thesis by (subst show_nat.simps) simp
  qed
qed

lemma json_digits_append:
  "(\<And>c. c \<in> set ds \<Longrightarrow> is_digit c) \<Longrightarrow> takeWhile is_digit rest = [] \<Longrightarrow> dropWhile is_digit rest = rest \<Longrightarrow>
    json_digits (ds @ rest) = (ds, rest)"
  by (simp add: json_digits_def takeWhile_append dropWhile_append)

lemma json_number_parts:
  assumes "i \<noteq> []" "\<not> (1 < length i \<and> hd i = CHR ''0'')" "\<And>c. c \<in> set i \<Longrightarrow> is_digit c"
    and "\<And>c. c \<in> set f \<Longrightarrow> is_digit c" "ends_value rest"
  defines "t \<equiv> i @ (if f = [] then [] else CHR ''.'' # f) @ rest"
  shows "json_number t = Some (of_nat (read_nat (i @ f)) * pow10 (- int (length f)), rest)"
    and "json_number (CHR ''-'' # t) = Some (- (of_nat (read_nat (i @ f)) * pow10 (- int (length f))), rest)"
proof -
  note rest = ends_valueD [OF assms(5)]
  obtain c0 cs0 where c0: "i = c0 # cs0" using assms(1) by (cases i) auto
  then have "is_digit c0" using assms(3) by auto
  then have "c0 \<noteq> CHR ''-''" by (auto simp: is_digit_def)
  then have sign: "(case t of c # cs \<Rightarrow> (if c = CHR ''-'' then (True, cs) else (False, t)) | [] \<Rightarrow> (False, t)) = (False, t)"
    by (simp add: t_def c0)
  have dot: "\<not> is_digit (CHR ''.'')" by (simp add: is_digit_def)
  have i: "json_digits t = (i, (if f = [] then [] else CHR ''.'' # f) @ rest)"
    unfolding t_def by (rule json_digits_append [OF assms(3)]) (auto simp: rest dot)
  have f: "json_digits (f @ rest) = (f, rest)"
    by (rule json_digits_append [OF assms(4)]) (auto simp: rest)
  have frac: "(case rest of c # cs \<Rightarrow> (if c = CHR ''.'' then json_digits cs else ([], rest)) | [] \<Rightarrow> ([], rest)) = ([], rest)"
    using rest(4) by (cases rest) auto
  have "json_number t = Some (of_nat (read_nat (i @ f)) * pow10 (- int (length f)), rest)
      \<and> json_number (CHR ''-'' # t) = Some (- (of_nat (read_nat (i @ f)) * pow10 (- int (length f))), rest)"
  proof (cases "f = []")
    case True
    then show ?thesis
      using assms(1,2) rest(3,4) i by (cases rest) (simp_all add: json_number_def sign Let_def frac)
  next
    case False
    then show ?thesis
      using assms(1,2) rest(3) i f by (simp add: json_number_def sign Let_def)
  qed
  then show "json_number t = Some (of_nat (read_nat (i @ f)) * pow10 (- int (length f)), rest)"
    and "json_number (CHR ''-'' # t) = Some (- (of_nat (read_nat (i @ f)) * pow10 (- int (length f))), rest)" by blast+
qed

lemma json_number_text:
  assumes "of_int \<lfloor>x * 10 ^ 20\<rfloor> = x * 10 ^ 20" "ends_value rest"
  shows "json_number (number_text x @ rest) = Some (x, rest)"
proof -
  define r where "r = \<bar>x\<bar> - of_int \<lfloor>\<bar>x\<bar>\<rfloor>"
  define f where "f = frac_digits 20 r"
  define i where "i = show_nat (nat \<lfloor>\<bar>x\<bar>\<rfloor>)"
  have r: "0 \<le> r" "r < 1" unfolding r_def by linarith+
  obtain m where "x * 10 ^ 20 = of_int m" using assms(1) by metis
  then have "\<bar>x\<bar> * 10 ^ 20 = of_int \<bar>m\<bar>" by (metis abs_mult abs_numeral of_int_abs power_abs)
  then have "r * 10 ^ 20 = of_int (\<bar>m\<bar> - \<lfloor>\<bar>x\<bar>\<rfloor> * 10 ^ 20)"
    by (simp only: r_def left_diff_distrib of_int_diff of_int_mult of_int_power of_int_numeral)
  then have "of_int \<lfloor>r * 10 ^ 20\<rfloor> = r * 10 ^ 20" by (simp only: floor_of_int)
  then have f: "of_nat (read_nat f) / 10 ^ length f = r" unfolding f_def by (rule frac_digits_value [OF r])
  have "(of_nat (nat \<lfloor>\<bar>x\<bar>\<rfloor>) :: rat) = of_int \<lfloor>\<bar>x\<bar>\<rfloor>" by simp
  then have decoded: "of_nat (read_nat (i @ f)) * pow10 (- int (length f)) = \<bar>x\<bar>"
    using f by (cases "f = []") (simp_all add: read_nat_append i_def pow10_def field_simps r_def read_nat_Nil)
  have digits: "\<And>c. c \<in> set i \<Longrightarrow> is_digit c" "\<And>c. c \<in> set f \<Longrightarrow> is_digit c"
    using frac_digits_digits [OF r] show_nat_digits unfolding f_def i_def by blast+
  have lead: "i \<noteq> []" "\<not> (1 < length i \<and> hd i = CHR ''0'')" using hd_show_nat by (auto simp: i_def)
  have "number_text x = (if x < 0 then ''-'' else []) @ i @ (if f = [] then [] else CHR ''.'' # f)"
    by (simp add: number_text_def Let_def f_def r_def i_def)
  then show ?thesis
    using json_number_parts [OF lead digits assms(2)] decoded by simp
qed

section \<open>JSON.parse reads what JSON.stringify prints\<close>

lemma number_text_head: "\<exists>c cs. number_text x = c # cs \<and> (c = CHR ''-'' \<or> is_digit c)"
proof -
  obtain c cs where "show_nat (nat \<lfloor>\<bar>x\<bar>\<rfloor>) = c # cs" by (cases "show_nat (nat \<lfloor>\<bar>x\<bar>\<rfloor>)") auto
  then show ?thesis
    using show_nat_digits [of c "nat \<lfloor>\<bar>x\<bar>\<rfloor>"] by (auto simp: number_text_def Let_def)
qed

lemma json_value_number:
  assumes "of_int \<lfloor>x * 10 ^ 20\<rfloor> = x * 10 ^ 20" "ends_value rest"
  shows "json_value (Suc n) (number_text x @ rest) = Some (JNum x, rest)"
proof -
  obtain c cs where c: "number_text x = c # cs" "c = CHR ''-'' \<or> is_digit c" using number_text_head by blast
  then have "\<not> json_space c" "c \<noteq> CHR ''{''" "c \<noteq> CHR ''[''" "c \<noteq> CHR 0x22" "c \<noteq> CHR ''t''" "c \<noteq> CHR ''f''" "c \<noteq> CHR ''n''"
    by (auto simp: json_space_def is_digit_def)
  then show ?thesis
    using json_number_text [OF assms] c(1) by simp
qed

lemma quote_text_head: "quote_text s = CHR 0x22 # concat (map escape_char s) @ [CHR 0x22]"
  by (fact quote_text_def)

lemma not_space_heads [simp]:
  "\<not> json_space (CHR 0x22)" "\<not> json_space (CHR '','')" "\<not> json_space (CHR '':'')" "\<not> json_space (CHR '']'')"
  "\<not> json_space (CHR ''}'')" "\<not> json_space (CHR ''{'')" "\<not> json_space (CHR ''['')"
  by (simp_all add: json_space_def)

lemma obj_put_fresh: "k \<notin> fst ` set acc \<Longrightarrow> obj_put k v acc = acc @ [(k, v)]"
  by (induction acc) auto

definition reads_back :: "json \<Rightarrow> bool" where
  "reads_back v \<longleftrightarrow> (\<forall>n rest. length (json_stringify v) < n \<longrightarrow> ends_value rest \<longrightarrow>
     json_value n (json_stringify v @ rest) = Some (v, rest))"

lemma reads_backD:
  "reads_back v \<Longrightarrow> length (json_stringify v) < n \<Longrightarrow> ends_value rest \<Longrightarrow> json_value n (json_stringify v @ rest) = Some (v, rest)"
  by (simp add: reads_back_def)

lemma elements_read_back:
  assumes "vs \<noteq> []" "\<And>v. v \<in> set vs \<Longrightarrow> reads_back v" "length (elements_text (map json_stringify vs)) < n"
  shows "json_elements n acc (elements_text (map json_stringify vs) @ rest) = Some (acc @ vs, rest)"
  using assms
proof (induction vs arbitrary: n acc)
  case (Cons v vs)
  then obtain k where k: "n = Suc k" by (cases n) auto
  show ?case
  proof (cases vs)
    case Nil
    then have "json_value k (json_stringify v @ CHR '']'' # rest) = Some (v, CHR '']'' # rest)"
      using Cons.prems k by (intro reads_backD) auto
    with Nil k show ?thesis by simp
  next
    case (Cons w ws)
    let ?rest = "elements_text (map json_stringify vs) @ rest"
    have "json_value k (json_stringify v @ CHR '','' # ?rest) = Some (v, CHR '','' # ?rest)"
      using Cons.prems k Cons by (intro reads_backD) auto
    moreover have "json_elements k (acc @ [v]) ?rest = Some ((acc @ [v]) @ vs, rest)"
      using Cons.prems k Cons by (intro Cons.IH) auto
    ultimately show ?thesis using k Cons by simp
  qed
qed simp

lemma members_read_back:
  assumes "kvs \<noteq> []" "\<And>k v. (k, v) \<in> set kvs \<Longrightarrow> reads_back v" "distinct (map fst (acc @ kvs))"
    and "length (members_text (map (\<lambda>(k, v). (k, json_stringify v)) kvs)) < n"
  shows "json_members n acc (members_text (map (\<lambda>(k, v). (k, json_stringify v)) kvs) @ rest) = Some (acc @ kvs, rest)"
  using assms
proof (induction kvs arbitrary: n acc)
  case (Cons kv kvs)
  obtain key v where kv: "kv = (key, v)" by force
  obtain m where m: "n = Suc m" using Cons.prems by (cases n) auto
  have rb: "reads_back v" using Cons.prems(2) kv by auto
  have fresh: "obj_put key v acc = acc @ [(key, v)]" using Cons.prems(3) kv by (intro obj_put_fresh) auto
  show ?case
  proof (cases kvs)
    case Nil
    then have "json_value m (json_stringify v @ CHR ''}'' # rest) = Some (v, CHR ''}'' # rest)"
      using Cons.prems(4) m kv by (intro reads_backD [OF rb]) auto
    with Nil m kv show ?thesis by (simp add: quote_text_def string_body_quote fresh)
  next
    case (Cons w ws)
    obtain key' v' where w: "w = (key', v')" by force
    let ?rest = "members_text (map (\<lambda>(k, v). (k, json_stringify v)) kvs) @ rest"
    have "json_value m (json_stringify v @ CHR '','' # ?rest) = Some (v, CHR '','' # ?rest)"
      using Cons.prems(4) m kv Cons by (intro reads_backD [OF rb]) (auto simp: w)
    moreover have "json_members m (acc @ [(key, v)]) ?rest = Some ((acc @ [(key, v)]) @ kvs, rest)"
      using Cons.prems m kv Cons by (intro Cons.IH) (auto simp: w)
    ultimately show ?thesis
      using m kv Cons w by (simp add: quote_text_def string_body_quote fresh)
  qed
qed simp

lemma stringify_head:
  obtains c cs where "json_stringify v = c # cs" "\<not> json_space c" "c \<noteq> CHR '']''" "\<not> is_space c"
proof -
  have "\<exists>c cs. json_stringify v = c # cs \<and> \<not> json_space c \<and> c \<noteq> CHR '']'' \<and> \<not> is_space c"
  proof (cases v)
    case (JNum x)
    then show ?thesis using number_text_head [of x] by (auto simp: json_space_def is_space_def is_digit_def)
  qed (auto simp: quote_text_def json_space_def is_space_def)
  then show ?thesis using that by blast
qed

lemma elements_text_head:
  assumes "vs \<noteq> []"
  obtains c cs where "elements_text (map json_stringify vs) = c # cs" "\<not> json_space c" "c \<noteq> CHR '']''"
proof -
  obtain v ws where vs: "vs = v # ws" using assms by (cases vs) auto
  obtain c cs where "json_stringify v = c # cs" "\<not> json_space c" "c \<noteq> CHR '']''" by (rule stringify_head)
  then show ?thesis using that vs by (cases ws) auto
qed

lemma printable_reads_back: "json_printable v \<Longrightarrow> reads_back v"
proof (induction v)
  case JNull
  then show ?case by (auto simp: reads_back_def less_Suc_eq_0_disj gr0_conv_Suc numeral_eq_Suc json_space_def elim!: less_natE)
next
  case (JBool b)
  then show ?case by (auto simp: reads_back_def json_space_def elim!: less_natE)
next
  case (JNum x)
  then show ?case by (auto simp: reads_back_def json_value_number simp del: json_value.simps elim!: less_natE)
next
  case (JStr s)
  then show ?case by (auto simp: reads_back_def quote_text_def string_body_quote elim!: less_natE)
next
  case (JArr vs)
  have "json_value n (json_stringify (JArr vs) @ rest) = Some (JArr vs, rest)"
    if n: "length (json_stringify (JArr vs)) < n" for n rest
  proof (cases "vs = []")
    case False
    obtain m where m: "n = Suc m" using n by (cases n) auto
    have "json_elements m [] (elements_text (map json_stringify vs) @ rest) = Some ([] @ vs, rest)"
      using False JArr n m by (intro elements_read_back) (auto simp: list_all_iff)
    moreover obtain c cs where "elements_text (map json_stringify vs) = c # cs" "\<not> json_space c" "c \<noteq> CHR '']''"
      using False by (rule elements_text_head)
    ultimately show ?thesis using m by simp
  qed (use n in \<open>auto elim!: less_natE\<close>)
  then show ?case by (simp add: reads_back_def)
next
  case (JObj kvs)
  have "json_value n (json_stringify (JObj kvs) @ rest) = Some (JObj kvs, rest)"
    if n: "length (json_stringify (JObj kvs)) < n" for n rest
  proof (cases "kvs = []")
    case False
    obtain m where m: "n = Suc m" using n by (cases n) auto
    have "json_members m [] (members_text (map (\<lambda>(k, v). (k, json_stringify v)) kvs) @ rest) = Some ([] @ kvs, rest)"
      using False JObj n m by (intro members_read_back) (fastforce simp: list_all_iff)+
    moreover obtain k v ws where "kvs = (k, v) # ws" using False by (cases kvs) auto
    ultimately show ?thesis using m by (cases ws) (auto simp: quote_text_def)
  qed (use n in \<open>auto elim!: less_natE\<close>)
  then show ?case by (simp add: reads_back_def)
qed

lemma json_text_round_trip: "json_printable v \<Longrightarrow> json_parse (json_stringify v) = Some v"
  using reads_backD [OF printable_reads_back, of v "2 * length (json_stringify v) + 2" "[]"]
  by (simp add: json_parse_def)

section \<open>One line\<close>

lemma number_text_printable: "x \<in> set (number_text y) \<Longrightarrow> 32 \<le> (of_char x :: nat)"
proof -
  have "0 \<le> \<bar>y\<bar> - of_int \<lfloor>\<bar>y\<bar>\<rfloor>" "\<bar>y\<bar> - of_int \<lfloor>\<bar>y\<bar>\<rfloor> < 1" by linarith+
  note f = frac_digits_digits [OF this]
  have "32 \<le> (of_char x :: nat)" if "is_digit x" using that by (simp add: is_digit_def)
  then show "x \<in> set (number_text y) \<Longrightarrow> 32 \<le> (of_char x :: nat)"
    using f [of x 20] show_nat_digits [of x "nat \<lfloor>\<bar>y\<bar>\<rfloor>"] by (auto simp: number_text_def Let_def split: if_splits)
qed

lemma elements_text_printable:
  "(\<And>t. t \<in> set ts \<Longrightarrow> \<forall>x \<in> set t. 32 \<le> (of_char x :: nat)) \<Longrightarrow> x \<in> set (elements_text ts) \<Longrightarrow> 32 \<le> (of_char x :: nat)"
  by (induction ts rule: elements_text.induct) auto

lemma members_text_printable:
  "(\<And>k t. (k, t) \<in> set ms \<Longrightarrow> \<forall>x \<in> set t. 32 \<le> (of_char x :: nat)) \<Longrightarrow> x \<in> set (members_text ms) \<Longrightarrow> 32 \<le> (of_char x :: nat)"
  by (induction ms rule: members_text.induct) (auto dest: quote_text_printable)

lemma stringify_printable: "x \<in> set (json_stringify v) \<Longrightarrow> 32 \<le> (of_char x :: nat)"
proof (induction v arbitrary: x)
  case (JArr vs)
  then show ?case using elements_text_printable [of "map json_stringify vs" x] by auto
next
  case (JObj kvs)
  then show ?case using members_text_printable [of "map (\<lambda>(k, v). (k, json_stringify v)) kvs" x] by fastforce
qed (auto dest: number_text_printable quote_text_printable split: if_splits)

section \<open>writeSSE\<close>

definition writeSSE :: "json \<Rightarrow> string" where
  "writeSSE payload = ''data: '' @ json_stringify payload @ [CHR 0x0A, CHR 0x0A]"

end
