(* ===== verification/Sdk.thy ===== *)
theory Sdk
  imports Chat JsonText Jobs
begin

text \<open>
  The client library \<^verbatim>\<open>packages/sdk\<close>: its errors, the request loop with its retries, the chat, models and
  jobs calls, and the reader of event streams. The network is a parameter: from a request, the time and a
  state of the world it yields a failure or a response, the time then and the new state. The lemmas show how
  often a request is tried and with which outcome, that a client that is rate limited is admitted when it
  comes back, and that the stream reader recovers what the gateway's stream carries.
\<close>

section \<open>errors.ts\<close>

datatype error_class =
    Cls_CloudMeshError
  | Cls_AuthenticationError
  | Cls_InvalidRequestError
  | Cls_BudgetExceededError
  | Cls_NotFoundError
  | Cls_RateLimitError
  | Cls_ServiceError
  | Cls_ConnectionError

record CloudMeshError =
  se_class :: error_class
  se_message :: string
  se_status :: nat
  se_code :: string
  se_requestId :: "string option"
  se_retryAfterSeconds :: "rat option"

definition ConnectionError :: "string \<Rightarrow> CloudMeshError" where
  "ConnectionError msg =
     \<lparr>se_class = Cls_ConnectionError, se_message = msg, se_status = 0, se_code = ''CONNECTION_ERROR'', se_requestId = None,
      se_retryAfterSeconds = None\<rparr>"

text \<open>The texts of an error body are strings.\<close>

definition text_or :: "string \<Rightarrow> json option \<Rightarrow> string" where
  "text_or alt v = (case as_string v of None \<Rightarrow> alt | Some s \<Rightarrow> s)"

definition errorFromResponse :: "nat \<Rightarrow> json option \<Rightarrow> rat option \<Rightarrow> string option \<Rightarrow> CloudMeshError" where
  "errorFromResponse status body retryAfterSeconds requestId =
     (let cls =
            (if status = 400 then Cls_InvalidRequestError else if status = 401 then Cls_AuthenticationError
             else if status = 402 then Cls_BudgetExceededError else if status = 404 then Cls_NotFoundError
             else if status = 429 then Cls_RateLimitError
             else if status \<ge> 500 then Cls_ServiceError else Cls_CloudMeshError)
      in \<lparr>se_class = cls, se_message = text_or (''Request failed with status '' @ show_nat status) (opt_get body ''error''),
          se_status = status, se_code = text_or ''UNKNOWN'' (opt_get body ''code''), se_requestId = requestId,
          se_retryAfterSeconds = (if cls = Cls_RateLimitError then retryAfterSeconds else None)\<rparr>)"

section \<open>client.ts: the request loop\<close>

definition DEFAULT_BASE_URL :: string where
  "DEFAULT_BASE_URL = ''http://localhost:3001''"

definition DEFAULT_MAX_RETRIES :: int where
  "DEFAULT_MAX_RETRIES = 2"

definition SDK_VERSION :: string where
  "SDK_VERSION = ''0.1.0''"

record ClientOptions =
  co_apiKey :: string
  co_baseUrl :: "string option"
  co_maxRetries :: "int option"

record CloudMesh =
  cm_apiKey :: string
  cm_baseUrl :: string
  cm_maxRetries :: int

definition strip_slashes :: "string \<Rightarrow> string" where
  "strip_slashes u = rev (dropWhile (\<lambda>c. c = CHR ''/'') (rev u))"

definition new_client :: "ClientOptions \<Rightarrow> (string, CloudMesh) result" where
  "new_client options =
     (if co_apiKey options = [] then Inl ''CloudMesh: apiKey is required.''
      else Inr \<lparr>cm_apiKey = co_apiKey options,
                cm_baseUrl = strip_slashes (case co_baseUrl options of None \<Rightarrow> DEFAULT_BASE_URL | Some u \<Rightarrow> u),
                cm_maxRetries = (case co_maxRetries options of None \<Rightarrow> DEFAULT_MAX_RETRIES | Some n \<Rightarrow> n)\<rparr>)"

text \<open>
  A response has its headers and, unless it has no body, the chunks of its text and the failure that cuts
  them short, if any. A failed request says whether the caller's own signal was aborted.
\<close>

record sdk_response =
  sr_status :: nat
  sr_headers :: "(string \<times> string) list"
  sr_body :: "(string list \<times> string option) option"

datatype fetched = Unreached string bool | Answered sdk_response

type_synonym 'w network = "HttpRequest \<Rightarrow> ms \<Rightarrow> 'w \<Rightarrow> fetched \<times> ms \<times> 'w"

definition header_get :: "sdk_response \<Rightarrow> string \<Rightarrow> string option" where
  "header_get res name = map_of (map (\<lambda>(k, v). (toLowerCase k, v)) (sr_headers res)) name"

definition response_json_body :: "sdk_response \<Rightarrow> json option" where
  "response_json_body res =
     (case sr_body res of
        Some (chunks, None) \<Rightarrow> json_parse (concat chunks)
      | _ \<Rightarrow> None)"

definition authHeaders :: "CloudMesh \<Rightarrow> (string \<times> string) list" where
  "authHeaders cm = [(''authorization'', ''Bearer '' @ cm_apiKey cm), (''user-agent'', ''cloudmesh-sdk-js/'' @ SDK_VERSION)]"

text \<open>\<^verbatim>\<open>setTimeout\<close> fires after one millisecond when the delay is below that or does not fit 31 bits.\<close>

definition sleep :: "int \<Rightarrow> int" where
  "sleep delay = (if delay < 1 \<or> 2147483647 < delay then 1 else delay)"

definition retry_header :: "sdk_response \<Rightarrow> rat option" where
  "retry_header res =
     (case header_get res ''retry-after'' of
        None \<Rightarrow> None
      | Some h \<Rightarrow> if h = [] then None else (case js_number h of Fin x \<Rightarrow> Some x | _ \<Rightarrow> None))"

definition backoffMs :: "CloudMeshError \<Rightarrow> nat \<Rightarrow> int" where
  "backoffMs e attempt =
     (case (se_class e, se_retryAfterSeconds e) of
        (Cls_RateLimitError, Some x) \<Rightarrow> math_ceil (x * 1000)
      | _ \<Rightarrow> 2 ^ attempt * 250)"

text \<open>What one attempt comes to: a response, an error that ends the request, or an error to retry after a delay.\<close>

datatype attempt_outcome = Deliver sdk_response | GiveUp CloudMeshError | Again CloudMeshError int

definition judge :: "nat \<Rightarrow> fetched \<Rightarrow> attempt_outcome" where
  "judge attempt f =
     (case f of
        Unreached msg aborted \<Rightarrow>
          if aborted then GiveUp (ConnectionError ''Request aborted by caller.'')
          else Again (ConnectionError msg) (2 ^ attempt * 250)
      | Answered res \<Rightarrow>
          if 200 \<le> sr_status res \<and> sr_status res \<le> 299 then Deliver res
          else
            (let e = errorFromResponse (sr_status res) (response_json_body res) (retry_header res) (header_get res ''x-request-id'')
             in if sr_status res = 429 \<or> sr_status res \<ge> 500 then Again e (backoffMs e attempt) else GiveUp e))"

fun request_loop ::
    "'w network \<Rightarrow> HttpRequest \<Rightarrow> nat \<Rightarrow> nat \<Rightarrow> ms \<Rightarrow> 'w \<Rightarrow> (CloudMeshError, sdk_response) result \<times> ms \<times> 'w" where
  "request_loop net req attempt left t w =
     (case net req t w of
        (f, t1, w1) \<Rightarrow>
          (case judge attempt f of
             Deliver res \<Rightarrow> (Inr res, t1, w1)
           | GiveUp e \<Rightarrow> (Inl e, t1, w1)
           | Again e delay \<Rightarrow>
               (case left of
                  0 \<Rightarrow> (Inl e, t1, w1)
                | Suc n \<Rightarrow> request_loop net req (Suc attempt) n (t1 + sleep delay) w1)))"

declare request_loop.simps [simp del]

record RequestOptions =
  ro_method :: string
  ro_path :: string
  ro_body :: "json option"
  ro_headers :: "(string \<times> string) list"

definition http_request :: "CloudMesh \<Rightarrow> RequestOptions \<Rightarrow> HttpRequest" where
  "http_request cm options =
     \<lparr>url = cm_baseUrl cm @ ro_path options, http_method = ro_method options,
      http_headers = authHeaders cm @ (if ro_body options = None then [] else [(''content-type'', ''application/json'')]) @ ro_headers options,
      http_body = ro_body options\<rparr>"

definition request :: "'w network \<Rightarrow> CloudMesh \<Rightarrow> RequestOptions \<Rightarrow> ms \<Rightarrow> 'w \<Rightarrow> (CloudMeshError, sdk_response) result \<times> ms \<times> 'w" where
  "request net cm options t w =
     (if cm_maxRetries cm < 0 then (Inl (ConnectionError ''Request failed.''), t, w)
      else request_loop net (http_request cm options) 0 (nat (cm_maxRetries cm)) t w)"

section \<open>client.ts: chat, models and jobs\<close>

text \<open>What a call can throw: an error of the library, or what JavaScript throws on an answer that is no JSON.\<close>

datatype sdk_thrown = SdkError CloudMeshError | SdkJs string

definition request_json :: "'w network \<Rightarrow> CloudMesh \<Rightarrow> RequestOptions \<Rightarrow> ms \<Rightarrow> 'w \<Rightarrow> (sdk_thrown, json) result \<times> ms \<times> 'w" where
  "request_json net cm options t w =
     (case request net cm options t w of
        (Inl e, t', w') \<Rightarrow> (Inl (SdkError e), t', w')
      | (Inr res, t', w') \<Rightarrow>
          (case response_json_body res of None \<Rightarrow> Inl (SdkJs ''SyntaxError'') | Some j \<Rightarrow> Inr j, t', w'))"

record ChatParams =
  cp_model :: string
  cp_messages :: "UnifiedMessage list"
  cp_maxTokens :: "rat option"
  cp_temperature :: "rat option"
  cp_idempotencyKey :: "string option"

definition chat_body :: "ChatParams \<Rightarrow> bool \<Rightarrow> json" where
  "chat_body params stream =
     JObj ([(''model'', JStr (cp_model params)), (''messages'', JArr (map Providers.message_json (cp_messages params)))]
       @ jopt ''maxTokens'' (map_option JNum (cp_maxTokens params)) @ jopt ''temperature'' (map_option JNum (cp_temperature params))
       @ [(''stream'', JBool stream)])"

definition key_header :: "ChatParams \<Rightarrow> (string \<times> string) list" where
  "key_header params =
     (case cp_idempotencyKey params of Some k \<Rightarrow> if k = [] then [] else [(''idempotency-key'', k)] | None \<Rightarrow> [])"

definition tokens_of :: "json \<Rightarrow> string \<Rightarrow> rat" where
  "tokens_of raw k = (case as_number (opt_get (jget raw ''usage'') k) of None \<Rightarrow> 0 | Some n \<Rightarrow> n)"

text \<open>The gateway answers a chat with an object whose token counts, where present, are numbers.\<close>

definition with_totals :: "json \<Rightarrow> (sdk_thrown, json) result" where
  "with_totals raw =
     (let promptTokens = tokens_of raw ''promptTokens''; completionTokens = tokens_of raw ''completionTokens'';
          usage = JObj [(''promptTokens'', JNum promptTokens), (''completionTokens'', JNum completionTokens),
                        (''totalTokens'', JNum (promptTokens + completionTokens))]
      in case raw of
           JNull \<Rightarrow> Inl (SdkJs ''TypeError'')
         | JObj kvs \<Rightarrow> Inr (JObj (obj_put ''usage'' usage kvs))
         | _ \<Rightarrow> Inr (JObj [(''usage'', usage)]))"

definition chat_create :: "'w network \<Rightarrow> CloudMesh \<Rightarrow> ChatParams \<Rightarrow> ms \<Rightarrow> 'w \<Rightarrow> (sdk_thrown, json) result \<times> ms \<times> 'w" where
  "chat_create net cm params t w =
     (case request_json net cm
             \<lparr>ro_method = ''POST'', ro_path = ''/v1/chat'', ro_body = Some (chat_body params False), ro_headers = key_header params\<rparr> t w of
        (r, t', w') \<Rightarrow> (result_bind r with_totals, t', w'))"

text \<open>\<^verbatim>\<open>res.models ?? []\<close>; a property of \<^verbatim>\<open>null\<close> throws.\<close>

definition list_or_empty :: "string \<Rightarrow> json \<Rightarrow> (sdk_thrown, json) result" where
  "list_or_empty k res =
     (if res = JNull then Inl (SdkJs ''TypeError'')
      else case jget res k of None \<Rightarrow> Inr (JArr []) | Some JNull \<Rightarrow> Inr (JArr []) | Some v \<Rightarrow> Inr v)"

definition plain_request :: "string \<Rightarrow> string \<Rightarrow> json option \<Rightarrow> RequestOptions" where
  "plain_request m path body = \<lparr>ro_method = m, ro_path = path, ro_body = body, ro_headers = []\<rparr>"

definition models_list :: "'w network \<Rightarrow> CloudMesh \<Rightarrow> ms \<Rightarrow> 'w \<Rightarrow> (sdk_thrown, json) result \<times> ms \<times> 'w" where
  "models_list net cm t w =
     (case request_json net cm (plain_request ''GET'' ''/v1/models'' None) t w of
        (r, t', w') \<Rightarrow> (result_bind r (list_or_empty ''models''), t', w'))"

text \<open>
  \<^verbatim>\<open>encodeURIComponent\<close>: letters, digits and a few marks stay, every other character becomes the
  percent-encoded bytes of its UTF-8 form (one byte below 128, two for the other characters of the model).
\<close>

definition is_unreserved :: "char \<Rightarrow> bool" where
  "is_unreserved c \<longleftrightarrow>
     (let n = (of_char c :: nat) in
      (48 \<le> n \<and> n \<le> 57) \<or> (65 \<le> n \<and> n \<le> 90) \<or> (97 \<le> n \<and> n \<le> 122) \<or> c \<in> set ''-_.!~*()'' \<or> n = 39)"

definition upper_hex :: "nat \<Rightarrow> char" where
  "upper_hex v = (if v < 10 then char_of (48 + v) else char_of (55 + v))"

definition percent :: "nat \<Rightarrow> string" where
  "percent n = [CHR ''%'', upper_hex (n div 16), upper_hex (n mod 16)]"

definition encodeURIComponent :: "string \<Rightarrow> string" where
  "encodeURIComponent s =
     concat (map (\<lambda>c. let n = (of_char c :: nat) in
       if is_unreserved c then [c] else if n < 128 then percent n
       else percent (192 + n div 64) @ percent (128 + n mod 64)) s)"

definition jobs_create :: "'w network \<Rightarrow> CloudMesh \<Rightarrow> string \<Rightarrow> json option \<Rightarrow> string option \<Rightarrow> ms \<Rightarrow> 'w \<Rightarrow> (sdk_thrown, json) result \<times> ms \<times> 'w" where
  "jobs_create net cm ty payload priority =
     request_json net cm (plain_request ''POST'' ''/v1/jobs''
       (Some (JObj ((''type'', JStr ty) # jopt ''payload'' payload @ jopt ''priority'' (map_option JStr priority)))))"

definition jobs_get :: "'w network \<Rightarrow> CloudMesh \<Rightarrow> string \<Rightarrow> ms \<Rightarrow> 'w \<Rightarrow> (sdk_thrown, json) result \<times> ms \<times> 'w" where
  "jobs_get net cm ident = request_json net cm (plain_request ''GET'' (''/v1/jobs/'' @ encodeURIComponent ident) None)"

definition list_suffix :: "JobStatus option \<Rightarrow> int option \<Rightarrow> string" where
  "list_suffix status limit =
     (let params = (case status of None \<Rightarrow> [] | Some st \<Rightarrow> [''status='' @ show_status st])
                 @ (case limit of None \<Rightarrow> [] | Some n \<Rightarrow> [''limit='' @ show_int n])
      in if params = [] then [] else CHR ''?'' # join_with ''&'' params)"

definition jobs_list :: "'w network \<Rightarrow> CloudMesh \<Rightarrow> JobStatus option \<Rightarrow> int option \<Rightarrow> ms \<Rightarrow> 'w \<Rightarrow> (sdk_thrown, json) result \<times> ms \<times> 'w" where
  "jobs_list net cm status limit t w =
     (case request_json net cm (plain_request ''GET'' (''/v1/jobs'' @ list_suffix status limit) None) t w of
        (r, t', w') \<Rightarrow> (result_bind r (list_or_empty ''jobs''), t', w'))"

definition jobs_replay :: "'w network \<Rightarrow> CloudMesh \<Rightarrow> string \<Rightarrow> ms \<Rightarrow> 'w \<Rightarrow> (sdk_thrown, json) result \<times> ms \<times> 'w" where
  "jobs_replay net cm ident =
     request_json net cm (plain_request ''POST'' (''/v1/jobs/'' @ encodeURIComponent ident @ ''/replay'') None)"

section \<open>client.ts: the event stream\<close>

record ChatChunk =
  ck_text :: string
  ck_model :: "string option"
  ck_provider :: "string option"

text \<open>\<^verbatim>\<open>s.split("\n\n")\<close>.\<close>

definition nl :: char where
  "nl = CHR 0x0A"

fun cons_piece :: "char \<Rightarrow> string list \<Rightarrow> string list" where
  "cons_piece c [] = [[c]]"
| "cons_piece c (p # ps) = (c # p) # ps"

fun split_blank :: "string \<Rightarrow> string list" where
  "split_blank [] = [[]]"
| "split_blank [c] = [[c]]"
| "split_blank (c # d # cs) = (if c = nl \<and> d = nl then [] # split_blank cs else cons_piece c (split_blank (d # cs)))"

datatype frame_outcome = Skip | Emit ChatChunk | Stop

definition chunk_of :: "json \<Rightarrow> frame_outcome" where
  "chunk_of parsed =
     (case as_string (jget parsed ''delta'') of
        Some text0 \<Rightarrow>
          if text0 = [] then Skip
          else Emit \<lparr>ck_text = text0, ck_model = as_string (jget parsed ''model''), ck_provider = as_string (jget parsed ''provider'')\<rparr>
      | None \<Rightarrow> Skip)"

definition read_frame :: "string \<Rightarrow> frame_outcome" where
  "read_frame frame =
     (case find (\<lambda>l. starts_with l ''data:'') (split_on nl frame) of
        None \<Rightarrow> Skip
      | Some line \<Rightarrow>
          (let payload = trim (drop 5 line)
           in if payload = ''[DONE]'' then Stop
              else if payload = [] then Skip
              else (case json_parse payload of None \<Rightarrow> Skip | Some parsed \<Rightarrow> chunk_of parsed)))"

text \<open>What a list of frames yields, and whether it ends the stream.\<close>

fun read_frames :: "string list \<Rightarrow> ChatChunk list \<times> bool" where
  "read_frames [] = ([], False)"
| "read_frames (f # fs) =
     (case read_frame f of
        Stop \<Rightarrow> ([], True)
      | Skip \<Rightarrow> read_frames fs
      | Emit c \<Rightarrow> (case read_frames fs of (cs, stop) \<Rightarrow> (c # cs, stop)))"

fun read_stream :: "string \<Rightarrow> string list \<Rightarrow> string option \<Rightarrow> ChatChunk list \<times> sdk_thrown option" where
  "read_stream buffer [] failure = ([], map_option SdkJs failure)"
| "read_stream buffer (v # vs) failure =
     (let frames = split_blank (buffer @ v) in
      case read_frames (butlast frames) of
        (cs, True) \<Rightarrow> (cs, None)
      | (cs, False) \<Rightarrow> (case read_stream (last frames) vs failure of (later, e) \<Rightarrow> (cs @ later, e)))"

definition chat_stream :: "'w network \<Rightarrow> CloudMesh \<Rightarrow> ChatParams \<Rightarrow> ms \<Rightarrow> 'w \<Rightarrow> (ChatChunk list \<times> sdk_thrown option) \<times> ms \<times> 'w" where
  "chat_stream net cm params t w =
     (case request net cm
             \<lparr>ro_method = ''POST'', ro_path = ''/v1/chat'', ro_body = Some (chat_body params True),
              ro_headers = (''accept'', ''text/event-stream'') # key_header params\<rparr> t w of
        (Inl e, t', w') \<Rightarrow> (([], Some (SdkError e)), t', w')
      | (Inr res, t', w') \<Rightarrow>
          (case sr_body res of
             None \<Rightarrow> ([], Some (SdkError (ConnectionError ''Server returned no response body for a streaming request.'')))
           | Some (chunks, failure) \<Rightarrow> read_stream [] chunks failure, t', w'))"

section \<open>The stream does not depend on its chunks\<close>

lemma cons_piece_nonempty [simp]: "cons_piece c ps \<noteq> []"
  by (cases ps) auto

lemma split_blank_nonempty [simp]: "split_blank s \<noteq> []"
  by (induction s rule: split_blank.induct) auto

lemma split_blank_single: "split_blank s = [p] \<Longrightarrow> p = s"
proof (induction s arbitrary: p rule: split_blank.induct)
  case (3 c d cs)
  then show ?case by (cases "split_blank (d # cs)") (auto split: if_splits)
qed auto

lemma split_blank_append:
  "split_blank (x @ y) = butlast (split_blank x) @ split_blank (last (split_blank x) @ y)"
proof (induction x rule: split_blank.induct)
  case (3 c d cs)
  show ?case
  proof (cases "c = nl \<and> d = nl")
    case True
    with 3 show ?thesis by simp
  next
    case False
    then have step: "split_blank (c # d # zs) = cons_piece c (split_blank (d # zs))" for zs by auto
    obtain q qs where q: "split_blank (d # cs) = q # qs" by (cases "split_blank (d # cs)") auto
    show ?thesis
    proof (cases "qs = []")
      case True
      then have "q = d # cs" using q split_blank_single by blast
      with True q show ?thesis by (simp add: step del: split_blank.simps(3))
    next
      case rest: False
      have "split_blank (c # d # cs @ y) = cons_piece c (split_blank ((d # cs) @ y))" using step by simp
      also have "\<dots> = cons_piece c (butlast (q # qs) @ split_blank (last (q # qs) @ y))"
        using 3(2) [OF False] q by simp
      finally show ?thesis using rest q by (simp add: step del: split_blank.simps(3))
    qed
  qed
qed simp_all

lemma split_blank_last: "split_blank (last (split_blank s)) = [last (split_blank s)]"
  using split_blank_append [of s "[]"] by (metis append_Nil2 append_butlast_last_id same_append_eq split_blank_nonempty)

lemma read_frames_append:
  "read_frames (xs @ ys) =
     (case read_frames xs of
        (cs, True) \<Rightarrow> (cs, True)
      | (cs, False) \<Rightarrow> (case read_frames ys of (ds, stop) \<Rightarrow> (cs @ ds, stop)))"
  by (induction xs) (auto split: frame_outcome.splits prod.splits bool.splits)

lemma read_stream_text:
  "split_blank b = [b] \<Longrightarrow> read_stream b chunks None = (fst (read_frames (butlast (split_blank (b @ concat chunks)))), None)"
proof (induction chunks arbitrary: b)
  case (Cons v vs)
  let ?l = "last (split_blank (b @ v))"
  have IH: "read_stream ?l vs None = (fst (read_frames (butlast (split_blank (?l @ concat vs)))), None)"
    by (rule Cons.IH [OF split_blank_last])
  have "butlast (split_blank (b @ concat (v # vs))) =
      butlast (split_blank (b @ v)) @ butlast (split_blank (?l @ concat vs))"
    using split_blank_append [of "b @ v" "concat vs"] by (simp add: butlast_append)
  then show ?case
    using IH by (simp add: Let_def read_frames_append split: prod.split bool.split)
qed simp

section \<open>What the gateway writes is what the client reads\<close>

text \<open>The text on the wire.\<close>

fun wire_text :: "chat_out \<Rightarrow> string" where
  "wire_text (Reply status hs body) = json_stringify body"
| "wire_text (EventStream events ended) =
     concat (map writeSSE events) @ (if ended then ''data: [DONE]'' @ [nl, nl] else [])"

lemma split_blank_frame: "nl \<notin> set l \<Longrightarrow> split_blank (l @ nl # nl # rest) = l # split_blank rest"
proof (induction l rule: split_blank.induct)
  case (2 c)
  then show ?case by (auto split: if_splits)
qed auto

lemma nl_notin_stringify: "nl \<notin> set (json_stringify v)"
  using stringify_printable [of nl v] by (auto simp: nl_def)

lemma split_blank_no_newline: "nl \<notin> set s \<Longrightarrow> split_blank s = [s]"
  by (induction s rule: split_blank.induct) auto

lemma split_blank_events:
  "split_blank (concat (map writeSSE ps) @ rest) = map (\<lambda>p. ''data: '' @ json_stringify p) ps @ split_blank rest"
proof (induction ps)
  case (Cons p ps)
  have no_nl: "nl \<notin> set (''data: '' @ json_stringify p)" using nl_notin_stringify by (auto simp: nl_def)
  have eq: "concat (map writeSSE (p # ps)) @ rest = (''data: '' @ json_stringify p) @ nl # nl # (concat (map writeSSE ps) @ rest)"
    by (simp add: writeSSE_def nl_def)
  show ?case unfolding eq split_blank_frame [OF no_nl] Cons by simp
qed simp

lemma members_text_nonempty [simp]: "members_text ms \<noteq> []"
  by (induction ms rule: members_text.induct) (auto simp: quote_text_def)

lemma members_text_last: "ms \<noteq> [] \<Longrightarrow> last (members_text ms) = CHR ''}''"
  by (induction ms rule: members_text.induct) auto

lemma read_frame_object:
  assumes "json_printable (JObj kvs)"
  shows "read_frame (''data: '' @ json_stringify (JObj kvs)) = chunk_of (JObj kvs)"
proof -
  let ?t = "json_stringify (JObj kvs)"
  have no_nl: "nl \<notin> set (''data: '' @ ?t)" using nl_notin_stringify [of "JObj kvs"] by (auto simp: nl_def)
  have "last ?t = CHR ''}''"
    using members_text_last by (cases kvs) auto
  then have "trim ?t = ?t" by (intro trim_id) (auto simp: is_space_def)
  moreover have "trim (CHR '' '' # ?t) = trim ?t" by (rule trim_space_Cons) (simp add: is_space_def)
  ultimately have "trim (drop 5 (''data: '' @ ?t)) = ?t" by simp
  moreover have "find (\<lambda>l. starts_with l ''data:'') (split_on nl (''data: '' @ ?t)) = Some (''data: '' @ ?t)"
    unfolding split_on_no_sep [OF no_nl] by simp
  moreover have "json_parse ?t = Some (JObj kvs)" by (rule json_text_round_trip [OF assms])
  ultimately show ?thesis by (simp add: read_frame_def Let_def)
qed

definition sdk_chunk :: "UnifiedChatChunk \<Rightarrow> ChatChunk" where
  "sdk_chunk c = \<lparr>ck_text = delta c, ck_model = Some (chk_model c), ck_provider = Some (chk_provider c)\<rparr>"

lemma chunk_of_chunk_json: "chunk_of (chunk_json c) = (if delta c = [] then Skip else Emit (sdk_chunk c))"
  by (simp add: chunk_of_def chunk_json_def sdk_chunk_def)

lemma read_frames_events:
  assumes "\<And>c. c \<in> set cs \<Longrightarrow> json_printable (chunk_json c)"
  shows "read_frames (map (\<lambda>p. ''data: '' @ json_stringify p) (map chunk_json cs) @ fs) =
    (case read_frames fs of (ds, stop) \<Rightarrow> (map sdk_chunk (filter (\<lambda>c. delta c \<noteq> []) cs) @ ds, stop))"
  using assms
proof (induction cs)
  case (Cons c cs)
  obtain kvs where kvs: "chunk_json c = JObj kvs" by (simp add: chunk_json_def)
  then have "read_frame (''data: '' @ json_stringify (chunk_json c)) = chunk_of (chunk_json c)"
    using read_frame_object [of kvs] Cons.prems [of c] by (metis list.set_intros(1))
  then show ?case using Cons by (simp add: chunk_of_chunk_json split: prod.split)
qed (simp split: prod.split)

lemma read_frame_done: "read_frame ''data: [DONE]'' = Stop"
  by (simp add: read_frame_def nl_def Let_def trim_def is_space_def)

lemma printable_error: "read_frame (''data: '' @ json_stringify (JObj [(''error'', JStr m)])) = Skip"
  using read_frame_object [of "[(''error'', JStr m)]"] by (simp add: chunk_of_def)

text \<open>
  C30. The client's reader inverts the gateway's writer: however the network cuts the text of an event stream
  into chunks, \<^verbatim>\<open>chat.stream\<close> yields, in order, the increments of the chunks the gateway sent that
  carry text, with their model and provider, and nothing else. That holds for a stream that was ended and for
  one that was left open, and the event with which the gateway reports a failure in mid-stream leaves no
  trace: the client sees a shorter stream that ends normally.\<close>

theorem sdk_stream_round_trip:
  assumes "\<forall>c \<in> set cs. json_printable (chunk_json c)" and "errors \<in> {[], [JObj [(''error'', JStr msg)]]}"
    and "concat chunks = wire_text (EventStream (map chunk_json cs @ errors) ended)"
  shows "read_stream [] chunks None = (map sdk_chunk (filter (\<lambda>c. delta c \<noteq> []) cs), None)"
proof -
  let ?f = "\<lambda>p. ''data: '' @ json_stringify p"
  let ?tail = "if ended then [''data: [DONE]'', []] else [[]]"
  have "split_blank (if ended then ''data: [DONE]'' @ [nl, nl] else []) = ?tail"
    using split_blank_frame [of "''data: [DONE]''" "[]"] by (simp add: nl_def)
  then have "split_blank (concat chunks) = map ?f (map chunk_json cs) @ map ?f errors @ ?tail"
    unfolding assms(3) wire_text.simps split_blank_events by simp
  moreover define fs where "fs = map ?f errors @ butlast ?tail"
  ultimately have frames: "butlast (split_blank (concat chunks)) = map ?f (map chunk_json cs) @ fs"
    by (simp add: butlast_append)
  have "fst (read_frames fs) = []"
    using assms(2) printable_error [of msg] read_frame_done unfolding fs_def by auto
  then obtain stop where "read_frames fs = ([], stop)" by (cases "read_frames fs") auto
  then have "fst (read_frames (butlast (split_blank (concat chunks)))) = map sdk_chunk (filter (\<lambda>c. delta c \<noteq> []) cs)"
    unfolding frames using read_frames_events [of cs fs] assms(1) by simp
  then show ?thesis using read_stream_text [of "[]" chunks] by simp
qed

text \<open>A replayed answer is JSON, not an event stream: a streaming client with an idempotency key reads nothing from it.\<close>

lemma sdk_stream_of_replay_empty:
  assumes "concat chunks = wire_text (Reply status hs body)"
  shows "read_stream [] chunks None = ([], None)"
proof -
  have "split_blank (json_stringify body) = [json_stringify body]"
    by (rule split_blank_no_newline [OF nl_notin_stringify])
  with assms show ?thesis by (simp add: read_stream_text)
qed

definition demo_chunk :: "string \<Rightarrow> bool \<Rightarrow> UnifiedChatChunk" where
  "demo_chunk d fin =
     \<lparr>chk_id = ''c1'', chk_provider = ''mock'', chk_model = ''mock-echo'', delta = d, chk_done = fin,
      chk_finishReason = (if fin then Some Fin_stop else None),
      chk_usage = (if fin then Some \<lparr>promptTokens = 3, completionTokens = 2\<rparr> else None)\<rparr>"

lemma demo_chunk_printable: "json_printable (chunk_json (demo_chunk d fin))"
  by (simp add: chunk_json_def demo_chunk_def usage_json_def)

definition demo_wire :: string where
  "demo_wire = wire_text (EventStream (map chunk_json [demo_chunk ''Hi'' False, demo_chunk [] True] @ []) True)"

lemma cut_text: "concat [take a w, take b (drop a w), drop b (drop a w)] = w"
  unfolding concat.simps append_Nil2 append_take_drop_id ..

theorem sdk_stream_round_trip_witness:
  "read_stream [] [take 9 demo_wire, take 30 (drop 9 demo_wire), drop 30 (drop 9 demo_wire)] None =
     ([\<lparr>ck_text = ''Hi'', ck_model = Some ''mock-echo'', ck_provider = Some ''mock''\<rparr>], None)"
proof -
  have "map sdk_chunk (filter (\<lambda>c. delta c \<noteq> []) [demo_chunk ''Hi'' False, demo_chunk [] True]) =
      [\<lparr>ck_text = ''Hi'', ck_model = Some ''mock-echo'', ck_provider = Some ''mock''\<rparr>]"
    by (simp add: demo_chunk_def sdk_chunk_def)
  moreover have "\<forall>c \<in> set [demo_chunk ''Hi'' False, demo_chunk [] True]. json_printable (chunk_json c)"
    using demo_chunk_printable by (simp del: json_printable.simps)
  moreover have cut: "concat [take 9 demo_wire, take 30 (drop 9 demo_wire), drop 30 (drop 9 demo_wire)] =
      wire_text (EventStream (map chunk_json [demo_chunk ''Hi'' False, demo_chunk [] True] @ []) True)"
    by (rule trans [OF cut_text demo_wire_def])
  moreover have "[] \<in> {[], [JObj [(''error'', JStr [])]]}" by simp
  ultimately show ?thesis using sdk_stream_round_trip [OF _ _ cut, where msg = "[]"] by (simp only:)
qed

section \<open>How often a request is tried\<close>

text \<open>The time and world in which attempt \<open>k\<close> (from attempt \<open>a\<close> on) is made, and what it comes to.\<close>

fun before_attempt :: "'w network \<Rightarrow> HttpRequest \<Rightarrow> nat \<Rightarrow> nat \<Rightarrow> ms \<Rightarrow> 'w \<Rightarrow> ms \<times> 'w" where
  "before_attempt net req a 0 t w = (t, w)"
| "before_attempt net req a (Suc k) t w =
     (case net req t w of
        (f, t1, w1) \<Rightarrow>
          (case judge a f of
             Again e delay \<Rightarrow> before_attempt net req (Suc a) k (t1 + sleep delay) w1
           | _ \<Rightarrow> (t1, w1)))"

definition attempt_at :: "'w network \<Rightarrow> HttpRequest \<Rightarrow> nat \<Rightarrow> nat \<Rightarrow> ms \<Rightarrow> 'w \<Rightarrow> attempt_outcome \<times> ms \<times> 'w" where
  "attempt_at net req a k t w =
     (case before_attempt net req a k t w of (t0, w0) \<Rightarrow> (case net req t0 w0 of (f, t1, w1) \<Rightarrow> (judge (a + k) f, t1, w1)))"

fun outcome_result :: "attempt_outcome \<Rightarrow> (CloudMeshError, sdk_response) result" where
  "outcome_result (Deliver res) = Inr res"
| "outcome_result (GiveUp e) = Inl e"
| "outcome_result (Again e delay) = Inl e"

fun is_again :: "attempt_outcome \<Rightarrow> bool" where
  "is_again (Again e delay) = True"
| "is_again _ = False"

lemma attempt_at_0: "attempt_at net req a 0 t w = (case net req t w of (f, t1, w1) \<Rightarrow> (judge a f, t1, w1))"
  by (simp add: attempt_at_def)

lemma attempt_at_Suc:
  "net req t w = (f, t1, w1) \<Longrightarrow> judge a f = Again e delay \<Longrightarrow>
    attempt_at net req a (Suc k) t w = attempt_at net req (Suc a) k (t1 + sleep delay) w1"
  by (simp add: attempt_at_def)

lemma request_loop_attempts:
  "\<exists>n \<le> left. (\<forall>k < n. is_again (fst (attempt_at net req a k t w)))
    \<and> (n < left \<longrightarrow> \<not> is_again (fst (attempt_at net req a n t w)))
    \<and> request_loop net req a left t w =
        (outcome_result (fst (attempt_at net req a n t w)), snd (attempt_at net req a n t w))"
proof (induction left arbitrary: a t w)
  case 0
  obtain f t1 w1 where "net req t w = (f, t1, w1)" by (metis prod_cases3)
  then show ?case
    by (cases "judge a f") (simp_all add: request_loop.simps attempt_at_0)
next
  case (Suc left)
  obtain f t1 w1 where net: "net req t w = (f, t1, w1)" by (metis prod_cases3)
  show ?case
  proof (cases "judge a f")
    case (Again e delay)
    from Suc [of "Suc a" "t1 + sleep delay" w1] obtain n where n: "n \<le> left"
      "\<forall>k < n. is_again (fst (attempt_at net req (Suc a) k (t1 + sleep delay) w1))"
      "n < left \<longrightarrow> \<not> is_again (fst (attempt_at net req (Suc a) n (t1 + sleep delay) w1))"
      "request_loop net req (Suc a) left (t1 + sleep delay) w1 =
        (outcome_result (fst (attempt_at net req (Suc a) n (t1 + sleep delay) w1)),
         snd (attempt_at net req (Suc a) n (t1 + sleep delay) w1))" by blast
    have shift: "attempt_at net req a (Suc k) t w = attempt_at net req (Suc a) k (t1 + sleep delay) w1" for k
      using net Again by (rule attempt_at_Suc)
    have "is_again (fst (attempt_at net req a k t w))" if "k < Suc n" for k
      using that n(2) net Again by (cases k) (simp_all add: shift attempt_at_0)
    moreover have "request_loop net req a (Suc left) t w = request_loop net req (Suc a) left (t1 + sleep delay) w1"
      using net Again by (simp add: request_loop.simps [of net req a "Suc left"])
    ultimately show ?thesis using n(1,3,4) by (intro exI [of _ "Suc n"]) (simp add: shift)
  qed (use net in \<open>auto simp: attempt_at_0 request_loop.simps intro!: exI [of _ 0]\<close>)
qed

lemma judge_again:
  "judge a f = Again e delay \<Longrightarrow>
    (\<exists>msg. f = Unreached msg False) \<or> (\<exists>res. f = Answered res \<and> (sr_status res = 429 \<or> 500 \<le> sr_status res))"
  by (auto simp: judge_def Let_def split: fetched.splits if_splits)

text \<open>
  A request ends: the client makes at most one attempt more than its retries. It stops at the first
  attempt that delivers a response, is refused for good or is aborted by the caller, and its result is that
  response or error; when every attempt is to be retried the result is the last error. Only attempts
  that did not reach the server, or were answered with 429 or a 5xx status, are retried.\<close>

theorem sdk_request_attempts:
  assumes "0 \<le> cm_maxRetries cm"
  shows "\<exists>n. int n \<le> cm_maxRetries cm
    \<and> (\<forall>k < n. is_again (fst (attempt_at net (http_request cm options) 0 k t w)))
    \<and> (int n < cm_maxRetries cm \<longrightarrow> \<not> is_again (fst (attempt_at net (http_request cm options) 0 n t w)))
    \<and> request net cm options t w =
        (outcome_result (fst (attempt_at net (http_request cm options) 0 n t w)), snd (attempt_at net (http_request cm options) 0 n t w))
    \<and> (\<forall>a f. is_again (judge a f) \<longrightarrow>
         (\<exists>msg. f = Unreached msg False) \<or> (\<exists>res. f = Answered res \<and> (sr_status res = 429 \<or> 500 \<le> sr_status res)))"
proof -
  obtain n where n: "n \<le> nat (cm_maxRetries cm)"
    "\<forall>k < n. is_again (fst (attempt_at net (http_request cm options) 0 k t w))"
    "n < nat (cm_maxRetries cm) \<longrightarrow> \<not> is_again (fst (attempt_at net (http_request cm options) 0 n t w))"
    "request_loop net (http_request cm options) 0 (nat (cm_maxRetries cm)) t w =
      (outcome_result (fst (attempt_at net (http_request cm options) 0 n t w)), snd (attempt_at net (http_request cm options) 0 n t w))"
    using request_loop_attempts [of "nat (cm_maxRetries cm)" net "http_request cm options" 0 t w] by blast
  have "is_again (judge a f) \<Longrightarrow>
      (\<exists>msg. f = Unreached msg False) \<or> (\<exists>res. f = Answered res \<and> (sr_status res = 429 \<or> 500 \<le> sr_status res))" for a f
    using judge_again [of a f] by (cases "judge a f") auto
  with n assms show ?thesis by (intro exI [of _ n]) (simp add: request_def)
qed

definition busy_net :: "nat network" where
  "busy_net req t calls = (Answered \<lparr>sr_status = 503, sr_headers = [], sr_body = None\<rparr>, t + 1, calls + 1)"

definition demo_client :: CloudMesh where
  "demo_client = \<lparr>cm_apiKey = ''cm_live_x'', cm_baseUrl = ''http://gw'', cm_maxRetries = 1\<rparr>"

theorem sdk_request_attempts_witness:
  "\<exists>e. request busy_net demo_client (plain_request ''GET'' ''/v1/models'' None) 0 0 = (Inl e, 252, 2) \<and> se_status e = 503"
proof -
  let ?req = "http_request demo_client (plain_request ''GET'' ''/v1/models'' None)"
  have max: "cm_maxRetries demo_client = 1" by (simp add: demo_client_def)
  have judged: "\<exists>e. judge a (Answered \<lparr>sr_status = 503, sr_headers = [], sr_body = None\<rparr>) = Again e (2 ^ a * 250) \<and> se_status e = 503" for a
    by (simp add: judge_def Let_def backoffMs_def errorFromResponse_def)
  have again: "is_again (fst (attempt_at busy_net ?req 0 0 0 0))"
    using judged [of 0] by (auto simp: attempt_at_0 busy_net_def)
  obtain e0 e1 where e: "judge 0 (Answered \<lparr>sr_status = 503, sr_headers = [], sr_body = None\<rparr>) = Again e0 250"
    "judge 1 (Answered \<lparr>sr_status = 503, sr_headers = [], sr_body = None\<rparr>) = Again e1 500" "se_status e1 = 503"
    using judged [of 0] judged [of 1] by auto
  obtain n where n: "int n \<le> 1" "int n < 1 \<longrightarrow> \<not> is_again (fst (attempt_at busy_net ?req 0 n 0 0))"
    "request busy_net demo_client (plain_request ''GET'' ''/v1/models'' None) 0 0 =
      (outcome_result (fst (attempt_at busy_net ?req 0 n 0 0)), snd (attempt_at busy_net ?req 0 n 0 0))"
    using sdk_request_attempts [of demo_client busy_net "plain_request ''GET'' ''/v1/models'' None" 0 0] unfolding max by auto
  have "n = 1" using n(1,2) again by (cases n) auto
  then show ?thesis
    using n(3) e by (simp add: attempt_at_def busy_net_def sleep_def)
qed

section \<open>A rate-limited client comes back at the right time\<close>

text \<open>
  The gateway's guard as a network: the request reaches it after \<open>a\<close> milliseconds, an error is built \<open>b\<close>
  later and the answer arrives \<open>c\<close> later. A request the guard lets through is answered with \<open>served\<close>.
\<close>

fun reply_response :: "chat_out \<Rightarrow> sdk_response" where
  "reply_response (Reply status hs body) = \<lparr>sr_status = status, sr_headers = hs, sr_body = Some ([json_stringify body], None)\<rparr>"
| "reply_response (EventStream events ended) =
     \<lparr>sr_status = 200, sr_headers = [], sr_body = Some ([wire_text (EventStream events ended)], None)\<rparr>"

definition guarded_gateway ::
    "('s, 'm) redis_scheme \<Rightarrow> string \<Rightarrow> ApiKeyContext \<Rightarrow> nat \<Rightarrow> nat \<Rightarrow> nat \<Rightarrow> chat_out \<Rightarrow> ('s \<times> db) network" where
  "guarded_gateway R rowId ctx a b c served req t st =
     (case requireRateLimit R rowId ctx (t + int a) (t + int a + int b) st of
        (Inl e, st') \<Rightarrow> (Answered (reply_response (error_reply (ThrownApp e))), t + int a + int b + int c, st')
      | (Inr _, st') \<Rightarrow> (Answered (reply_response served), t + int a + int b + int c, st'))"

lemma lower_retry_after: "toLowerCase ''Retry-After'' = ''retry-after''"
  by code_simp

lemma retry_header_of_limit:
  "retry_header (reply_response (error_reply (ThrownApp (RateLimitError x)))) = Some (of_int (max 1 (math_ceil x)))"
proof -
  have "header_get (reply_response (error_reply (ThrownApp (RateLimitError x)))) ''retry-after'' = Some (show_nat (nat (max 1 (math_ceil x))))"
    by (simp add: header_get_def error_reply_def RateLimitError_def retry_after_def show_int_def lower_retry_after)
  then show ?thesis by (simp add: retry_header_def js_number_show_nat)
qed

lemma judge_limited:
  "judge k (Answered (reply_response (error_reply (ThrownApp (RateLimitError x))))) =
    Again (errorFromResponse 429 (Some (JObj [(''error'', JStr ''Rate limit exceeded''), (''code'', JStr ''RATE_LIMITED'')]))
             (Some (of_int (max 1 (math_ceil x)))) None) (max 1 (math_ceil x) * 1000)"
proof -
  let ?res = "reply_response (error_reply (ThrownApp (RateLimitError x)))"
  have "json_parse (json_stringify (JObj [(''error'', JStr ''Rate limit exceeded''), (''code'', JStr ''RATE_LIMITED'')])) =
      Some (JObj [(''error'', JStr ''Rate limit exceeded''), (''code'', JStr ''RATE_LIMITED'')])"
    by (rule json_text_round_trip) simp
  then have "response_json_body ?res = Some (JObj [(''error'', JStr ''Rate limit exceeded''), (''code'', JStr ''RATE_LIMITED'')])"
    by (simp add: response_json_body_def error_reply_def RateLimitError_def del: json_stringify.simps)
  moreover have "header_get ?res ''x-request-id'' = None" "sr_status ?res = 429"
    by (simp_all add: header_get_def error_reply_def RateLimitError_def retry_after_def lower_retry_after)
  moreover have "math_ceil (of_int (max 1 (math_ceil x)) * 1000) = max 1 (math_ceil x) * 1000"
    unfolding math_ceil_def by (metis ceiling_of_int of_int_mult of_int_numeral)
  ultimately show ?thesis
    by (simp add: judge_def retry_header_of_limit backoffMs_def errorFromResponse_def Let_def del: of_int_max)
qed

lemma bucket_same_reads:
  assumes "\<And>t'. u \<le> t' \<Longrightarrow> r_read R (tokenBucket_key i) t' s' = r_read R (tokenBucket_key i) t' s" and "u \<le> t"
  shows "bucket_ok R cfg i t s' = bucket_ok R cfg i t s" and "bucket_tokens R cfg i t s' = bucket_tokens R cfg i t s"
  using assms by (simp_all add: bucket_ok_def bucket_tokens_def)

lemma rate_config_simps:
  "tb_capacity (rate_config ctx) = of_int (ctx_rateLimitRpm ctx)" "tb_refillPerSecond (rate_config ctx) = of_int (ctx_rateLimitRpm ctx) / 60"
  "tb_cost (rate_config ctx) = 1"
  by (simp_all add: rate_config_def tb_cost_def)

context redis_service
begin

text \<open>The event of a refusal leaves the bucket alone.\<close>

lemma limited_event_keeps_bucket:
  assumes "t2 \<le> t'"
  shows "r_read R (tokenBucket_key i) t' (fst (emitRateLimitedEvent R rowId orgId k x t2 (s, d))) = r_read R (tokenBucket_key i) t' s"
proof -
  have "fst (emitRateLimitedEvent R rowId orgId k x t2 (s, d)) =
      snd (r_set_nx R (rateLimitedSlot orgId) (SText ''1'') (RATE_LIMITED_DEDUPE_SECONDS * 1000) t2 s)"
    by (simp add: emitRateLimitedEvent_def claimDedupeSlot_def split_beta Let_def)
  moreover have "tokenBucket_key i \<noteq> rateLimitedSlot orgId" by (simp add: tokenBucket_key_def rateLimitedSlot_def)
  ultimately show ?thesis using assms by (simp only: read_set_nx) simp
qed

lemma refused_then_admitted:
  assumes cfgs: "\<And>i. bucket_config (cfgs i)" "cfgs (ctx_apiKeyId ctx) = rate_config ctx" and rpm: "1 \<le> ctx_rateLimitRpm ctx"
    and ok: "\<And>i. bucket_ok R (cfgs i) i t s" and times: "t \<le> t2" "t2 \<le> t3" "resetAt (fst (tokenBucket R (ctx_apiKeyId ctx) (rate_config ctx) t s)) \<le> of_int t3"
    and s1: "s1 = snd (tokenBucket R (ctx_apiKeyId ctx) (rate_config ctx) t s)"
  shows "allowed (fst (tokenBucket R (ctx_apiKeyId ctx) (rate_config ctx) t3 (fst (emitRateLimitedEvent R rowId orgId k x t2 (s1, d)))))"
proof -
  let ?i = "ctx_apiKeyId ctx" and ?c = "rate_config ctx"
  let ?s2 = "fst (emitRateLimitedEvent R rowId orgId k x t2 (s1, d))"
  have traffic: "token_bucket_traffic R cfgs"
    using cfgs(1) redis_service_axioms by (simp add: token_bucket_traffic_def token_bucket_traffic_axioms_def)
  have adm: "allowed (fst (tokenBucket R ?i ?c t3 s1))"
    using token_bucket_traffic.admitted_from_resetAt [OF traffic, of t s ?i t3] ok times rpm
    by (simp add: cfgs(2) rate_config_simps s1)
  have "bucket_ok R ?c ?i t s1"
    using bucket_ok_step [where cfgs = cfgs and i = ?i and q = ?i, OF ok cfgs(1)] by (simp add: s1 cfgs(2))
  then have ok1: "bucket_ok R ?c ?i t3 s1" by (rule bucket_ok_later) (use times in linarith)
  have cfg: "bucket_config ?c" using cfgs(1) [of ?i] by (simp add: cfgs(2))
  have ok2: "bucket_ok R ?c ?i t3 ?s2"
    using bucket_same_reads(1) [OF limited_event_keeps_bucket times(2)] ok1 by (simp only:)
  have tokens: "bucket_tokens R ?c ?i t3 ?s2 = bucket_tokens R ?c ?i t3 s1"
    by (rule bucket_same_reads(2) [OF limited_event_keeps_bucket times(2)])
  show ?thesis
    using adm tokenBucket_script_run(1) [OF ok1 cfg] tokenBucket_script_run(1) [OF ok2 cfg] tokens by (simp only:)
qed

lemma resetAt_within_a_minute:
  assumes cfg: "bucket_config (rate_config ctx)" and rpm: "1 \<le> ctx_rateLimitRpm ctx" and ok: "bucket_ok R (rate_config ctx) i t s"
  shows "resetAt (fst (tokenBucket R i (rate_config ctx) t s)) \<le> of_int t + 60000"
proof -
  let ?T = "bucket_tokens R (rate_config ctx) i t s"
  have "0 \<le> ?T" using bucket_tokens_bounds(1) [OF ok cfg] .
  then have "0 \<le> tokens_after (rate_config ctx) ?T" by (simp add: tokens_after_def rate_config_simps)
  then have "max 0 (1 - tokens_after (rate_config ctx) ?T) \<le> 1" by simp
  moreover have "1 / (of_int (ctx_rateLimitRpm ctx) / 60) \<le> (60 :: rat)" using rpm by (simp add: field_simps)
  ultimately have "max 0 (1 - tokens_after (rate_config ctx) ?T) / (of_int (ctx_rateLimitRpm ctx) / 60) \<le> 60"
    using rpm by (simp add: field_simps)
  then show ?thesis
    using tokenBucket_script_run(2) [OF ok cfg] by (simp add: rate_config_simps)
qed

end

lemma requireRateLimit_cases:
  assumes "(result, s1) = tokenBucket R (ctx_apiKeyId ctx) (rate_config ctx) t s"
  shows "requireRateLimit R rowId ctx t t2 (s, d) =
    (if allowed result then (Inr (), s1, d)
     else (Inl (RateLimitError ((resetAt result - of_int t2) / 1000)),
           emitRateLimitedEvent R rowId (ctx_orgId ctx) (ctx_apiKeyId ctx) ((resetAt result - of_int t2) / 1000) t2 (s1, d)))"
  using assms [symmetric] by (simp add: requireRateLimit_def Let_def)

lemma gateway_serves:
  assumes "allowed (fst (tokenBucket R (ctx_apiKeyId ctx) (rate_config ctx) (t + int a) s))"
  shows "\<exists>st'. guarded_gateway R rowId ctx a b c served req t (s, d) =
    (Answered (reply_response served), t + int a + int b + int c, st')"
proof -
  obtain result s1 where tb: "(result, s1) = tokenBucket R (ctx_apiKeyId ctx) (rate_config ctx) (t + int a) s"
    by (metis surj_pair)
  then show ?thesis
    using assms requireRateLimit_cases [OF tb, of rowId "t + int a + int b" d] by (simp add: guarded_gateway_def flip: tb)
qed

lemma judge_served:
  "200 \<le> sr_status res \<Longrightarrow> sr_status res \<le> 299 \<Longrightarrow> judge k (Answered res) = Deliver res"
  by (simp add: judge_def)

text \<open>
  C16. A client that is rate limited comes back at the right time. When the gateway's guard lets a request
  through, the client gets its answer. When the guard refuses it with 429, the client waits as long as
  the Retry-After header says and its next attempt is let through, whatever the latencies and however
  full the bucket was, as long as no other request uses the key in between: the request succeeds
  with at most one retry and a wait of at most a minute.\<close>

theorem sdk_honours_retry_after:
  assumes "redis_service R" and "\<forall>i. bucket_config (cfgs i)" and "cfgs (ctx_apiKeyId ctx) = rate_config ctx"
    and "\<forall>i. bucket_ok R (cfgs i) i (t + int a) s" and "1 \<le> ctx_rateLimitRpm ctx" and "1 \<le> cm_maxRetries cm"
    and "200 \<le> sr_status (reply_response served)" and "sr_status (reply_response served) \<le> 299"
  shows "\<exists>t' st'. request (guarded_gateway R rowId ctx a b c served) cm options t (s, d) = (Inr (reply_response served), t', st')
    \<and> t' \<le> t + 2 * (int a + int b + int c) + 60000"
proof -
  let ?net = "guarded_gateway R rowId ctx a b c served" and ?req = "http_request cm options"
  let ?ta = "t + int a" and ?t2 = "t + int a + int b" and ?t3 = "t + int a + int b + int c"
  obtain result s1 where tb: "(result, s1) = tokenBucket R (ctx_apiKeyId ctx) (rate_config ctx) ?ta s"
    by (metis surj_pair)
  obtain left where left: "nat (cm_maxRetries cm) = Suc left" using assms(6) by (cases "nat (cm_maxRetries cm)") auto
  have loop: "request ?net cm options t (s, d) = request_loop ?net ?req 0 (Suc left) t (s, d)"
    using assms(6) left by (simp add: request_def)
  show ?thesis
  proof (cases "allowed result")
    case True
    then obtain st' where "?net ?req t (s, d) = (Answered (reply_response served), ?t3, st')"
      using gateway_serves [of R ctx t a s] by (metis fst_conv tb)
    then show ?thesis
      using judge_served [OF assms(7,8)] by (simp add: loop request_loop.simps)
  next
    case False
    define x where "x = (resetAt result - of_int ?t2) / 1000"
    define N where "N = max 1 (math_ceil x)"
    define st1 where "st1 = emitRateLimitedEvent R rowId (ctx_orgId ctx) (ctx_apiKeyId ctx) x ?t2 (s1, d)"
    have ok: "bucket_ok R (rate_config ctx) (ctx_apiKeyId ctx) ?ta s" and cfg: "bucket_config (rate_config ctx)"
      using assms(2-4) by metis+
    have "resetAt result \<le> of_int ?ta + 60000"
      using redis_service.resetAt_within_a_minute [OF assms(1) cfg assms(5) ok] by (simp flip: tb)
    then have "x \<le> 60" by (simp add: x_def)
    then have N: "1 \<le> N" "N \<le> 60" "x \<le> of_int N" by (auto simp: N_def math_ceil_def ceiling_le_iff) linarith
    have first: "?net ?req t (s, d) = (Answered (reply_response (error_reply (ThrownApp (RateLimitError x)))), ?t3, st1)"
      using False requireRateLimit_cases [OF tb, of rowId ?t2 d] by (simp add: guarded_gateway_def x_def st1_def)
    have "sleep (N * 1000) = N * 1000" using N by (simp add: sleep_def)
    then have again: "request ?net cm options t (s, d) = request_loop ?net ?req 1 left (?t3 + N * 1000) st1"
      by (simp add: loop request_loop.simps [of ?net ?req 0] first judge_limited N_def)
    have "resetAt result \<le> of_int ?t2 + of_int (N * 1000)" using N(3) by (simp add: x_def field_simps)
    also have "\<dots> \<le> of_int (?t3 + N * 1000 + int a)" by simp
    finally have reset: "resetAt (fst (tokenBucket R (ctx_apiKeyId ctx) (rate_config ctx) ?ta s)) \<le> of_int (?t3 + N * 1000 + int a)"
      by (simp flip: tb)
    have "allowed (fst (tokenBucket R (ctx_apiKeyId ctx) (rate_config ctx) (?t3 + N * 1000 + int a) (fst st1)))"
      unfolding st1_def
      by (rule redis_service.refused_then_admitted [where cfgs = cfgs, OF assms(1) _ assms(3,5) _ _ _ reset])
        (use assms(2,4) N tb [symmetric] in simp_all)
    then obtain st' where "?net ?req (?t3 + N * 1000) st1 = (Answered (reply_response served), ?t3 + N * 1000 + int a + int b + int c, st')"
      using gateway_serves [of R ctx "?t3 + N * 1000" a "fst st1" rowId b c served ?req "snd st1"] by auto
    then show ?thesis
      using judge_served [OF assms(7,8)] N(2) by (simp add: again request_loop.simps)
  qed
qed

definition slow_ctx :: ApiKeyContext where
  "slow_ctx = demo_ctx\<lparr>ctx_rateLimitRpm := 1\<rparr>"

theorem sdk_honours_retry_after_witness:
  "\<exists>t' st'. request (guarded_gateway mem_redis ''e1'' slow_ctx 5 1 5 (Reply 200 [] (JBool True))) demo_client
       (plain_request ''GET'' ''/v1/models'' None) 1000
       (snd (tokenBucket mem_redis (ctx_apiKeyId slow_ctx) (rate_config slow_ctx) 0 mem_empty), empty_db)
     = (Inr (reply_response (Reply 200 [] (JBool True))), t', st') \<and> t' \<le> 61022"
proof -
  let ?s = "snd (tokenBucket mem_redis (ctx_apiKeyId slow_ctx) (rate_config slow_ctx) 0 mem_empty)"
  have rpm: "ctx_rateLimitRpm slow_ctx = 1" by (simp add: slow_ctx_def)
  have cfg: "bucket_config (rate_config slow_ctx)" by (simp add: bucket_config_def rate_config_simps rpm)
  have "bucket_ok mem_redis (rate_config slow_ctx) i 0 ?s" for i
    using mem.bucket_ok_step [where cfgs = "\<lambda>_. rate_config slow_ctx", OF _ cfg] by simp
  then have ok: "bucket_ok mem_redis (rate_config slow_ctx) i (1000 + int 5) ?s" for i
    by (rule mem.bucket_ok_later) simp
  have "\<exists>t' st'. request (guarded_gateway mem_redis ''e1'' slow_ctx 5 1 5 (Reply 200 [] (JBool True))) demo_client
       (plain_request ''GET'' ''/v1/models'' None) 1000 (?s, empty_db)
     = (Inr (reply_response (Reply 200 [] (JBool True))), t', st') \<and> t' \<le> 1000 + 2 * (int 5 + int 1 + int 5) + 60000"
    by (rule sdk_honours_retry_after [where cfgs = "\<lambda>_. rate_config slow_ctx"])
      (use ok cfg rpm mem.redis_service_axioms in \<open>simp_all add: demo_client_def\<close>)
  then show ?thesis by simp
qed

section \<open>Job identifiers\<close>

text \<open>
  The gateway calls the identifier of a job \<^verbatim>\<open>job_id\<close>; the client's \<^verbatim>\<open>Job\<close> type and its documentation read
  \<^verbatim>\<open>id\<close>, which no answer carries.
\<close>

lemma sdk_job_without_id: "jget (created_json job) ''id'' = None" "jget (created_json job) ''job_id'' = Some (JStr (cj_id job))"
  by (simp_all add: created_json_def)

end
