(* ===== verification/Dashboard.thy ===== *)
theory Dashboard
  imports Accounts JsonText "HOL-Library.AList"
begin

text \<open>
  The server side of \<^verbatim>\<open>apps/dashboard\<close>: the encrypted session cookie (\<^verbatim>\<open>lib/sessionCrypto.ts\<close>,
  \<^verbatim>\<open>lib/session.ts\<close>), the calls to \<^verbatim>\<open>apps/api\<close> with their refresh (\<^verbatim>\<open>lib/apiClient.ts\<close>) and the
  route handlers under \<^verbatim>\<open>app/api\<close>. AES-256-GCM and SHA-256 are parameters; text and bytes are the same
  here (characters of eight bits). The lemmas show that a session survives its cookie and only the server's own
  cookies are read, and that an expired access token is renewed behind the browser's back.
\<close>

section \<open>Buffer: base64url\<close>

definition b64_alphabet :: string where
  "b64_alphabet = ''ABCDEFGHIJKLMNOPQRSTUVWXYZabcdefghijklmnopqrstuvwxyz0123456789-_''"

definition b64_char :: "nat \<Rightarrow> char" where
  "b64_char v = b64_alphabet ! v"

text \<open>Decoding takes both alphabets and skips every other character.\<close>

definition b64_value :: "char \<Rightarrow> nat option" where
  "b64_value c =
     (let n = (of_char c :: nat) in
      if 65 \<le> n \<and> n \<le> 90 then Some (n - 65) else if 97 \<le> n \<and> n \<le> 122 then Some (n - 71)
      else if 48 \<le> n \<and> n \<le> 57 then Some (n + 4)
      else if n = 45 \<or> n = 43 then Some 62 else if n = 95 \<or> n = 47 then Some 63 else None)"

fun sextets :: "nat list \<Rightarrow> nat list" where
  "sextets (a # b # c # rest) =
     a div 4 # (a mod 4 * 16 + b div 16) # (b mod 16 * 4 + c div 64) # c mod 64 # sextets rest"
| "sextets [a, b] = [a div 4, a mod 4 * 16 + b div 16, b mod 16 * 4]"
| "sextets [a] = [a div 4, a mod 4 * 16]"
| "sextets [] = []"

fun octets :: "nat list \<Rightarrow> nat list" where
  "octets (p # q # r # s # rest) =
     (p * 4 + q div 16) # (q mod 16 * 16 + r div 4) # (r mod 4 * 64 + s) # octets rest"
| "octets [p, q, r] = [p * 4 + q div 16, q mod 16 * 16 + r div 4]"
| "octets [p, q] = [p * 4 + q div 16]"
| "octets _ = []"

definition base64url_encode :: "string \<Rightarrow> string" where
  "base64url_encode bytes = map b64_char (sextets (map of_char bytes))"

definition base64url_decode :: "string \<Rightarrow> string" where
  "base64url_decode s = map char_of (octets (List.map_filter b64_value s))"

lemma less_64_cases:
  assumes "v < (64 :: nat)" and "list_all P [0..<64]"
  shows "P v"
  using assms by (auto simp: list_all_iff)

lemma upto_64: "[0..<64] = map nat [0..63]"
  by (simp add: upt_rec upto_rec1)

lemma b64_value_char: "v < 64 \<Longrightarrow> b64_value (b64_char v) = Some v"
  by (erule less_64_cases) (simp add: upto_64 upto_rec1 b64_char_def b64_alphabet_def b64_value_def)

lemma b64_char_not_dot: "v < 64 \<Longrightarrow> b64_char v \<noteq> CHR ''.''"
  using b64_value_char [of v] by (auto simp: b64_value_def)

lemma sextets_bound: "\<forall>a \<in> set bs. a < 256 \<Longrightarrow> v \<in> set (sextets bs) \<Longrightarrow> v < 64"
proof (induction bs rule: sextets.induct)
  case (1 a b c rest)
  then have "a div 4 < 64" "b div 16 < 16" "c div 64 < 4" by (auto simp: less_mult_imp_div_less)
  moreover have "a mod 4 < 4" "b mod 16 < 16" "c mod 64 < 64" by simp_all
  ultimately show ?case using 1 by auto
next
  case (2 a b)
  then have "a div 4 < 64" "b div 16 < 16" by (auto simp: less_mult_imp_div_less)
  moreover have "a mod 4 < 4" "b mod 16 < 16" by simp_all
  ultimately show ?case using 2 by auto
next
  case (3 a)
  then have "a div 4 < 64" by (auto simp: less_mult_imp_div_less)
  moreover have "a mod 4 < 4" by simp_all
  ultimately show ?case using 3 by auto
qed simp

lemma octet_parts:
  fixes a b c :: nat
  assumes "b < 256" "c < 256"
  shows "a div 4 * 4 + (a mod 4 * 16 + b div 16) div 16 = a"
    and "(a mod 4 * 16 + b div 16) mod 16 * 16 + (b mod 16 * 4 + c div 64) div 4 = b"
    and "(b mod 16 * 4 + c div 64) mod 4 * 64 + c mod 64 = c"
proof -
  have b: "b div 16 < 16" and c: "c div 64 < 4" using assms by (auto simp: less_mult_imp_div_less)
  then have "(a mod 4 * 16 + b div 16) div 16 = a mod 4" "(a mod 4 * 16 + b div 16) mod 16 = b div 16"
    "(b mod 16 * 4 + c div 64) div 4 = b mod 16" "(b mod 16 * 4 + c div 64) mod 4 = c div 64" by simp_all
  then show "a div 4 * 4 + (a mod 4 * 16 + b div 16) div 16 = a"
    "(a mod 4 * 16 + b div 16) mod 16 * 16 + (b mod 16 * 4 + c div 64) div 4 = b"
    "(b mod 16 * 4 + c div 64) mod 4 * 64 + c mod 64 = c" by simp_all
qed

lemma octets_sextets: "\<forall>a \<in> set bs. a < 256 \<Longrightarrow> octets (sextets bs) = bs"
proof (induction bs rule: sextets.induct)
  case (1 a b c rest)
  then have "b < 256" "c < 256" by auto
  from octet_parts [OF this] 1 show ?case by simp
next
  case (2 a b)
  then have "b < 256" by simp
  from octet_parts [OF this, of 0] show ?case by simp
next
  case (3 a)
  show ?case using octet_parts(1) [of 0 0 a] by simp
qed simp

lemma char_code_less: "(of_char c :: nat) < 256"
  by simp

lemma base64url_round_trip: "base64url_decode (base64url_encode bytes) = bytes"
proof -
  let ?codes = "map of_char bytes :: nat list"
  have codes: "\<forall>a \<in> set ?codes. a < 256" by auto
  then have "\<forall>v \<in> set (sextets ?codes). b64_value (b64_char v) = Some v"
    using sextets_bound b64_value_char by blast
  moreover have "\<forall>v \<in> set vs. b64_value (b64_char v) = Some v \<Longrightarrow> List.map_filter b64_value (map b64_char vs) = vs" for vs
    by (induction vs) (simp_all add: List.map_filter_simps)
  ultimately have "List.map_filter b64_value (map b64_char (sextets ?codes)) = sextets ?codes" by blast
  then show ?thesis
    using octets_sextets [OF codes] by (simp add: base64url_decode_def base64url_encode_def comp_def)
qed

lemma base64url_no_dot: "CHR ''.'' \<notin> set (base64url_encode bytes)"
  using sextets_bound [of "map of_char bytes"] b64_char_not_dot by (fastforce simp: base64url_encode_def)

section \<open>sessionCrypto.ts\<close>

text \<open>
  \<open>gcm_seal\<close> takes key, nonce and plaintext and gives ciphertext and tag; \<open>gcm_open\<close> takes key, nonce,
  ciphertext and tag and gives the plaintext or nothing. \<open>sha256\<close> is the hash.
\<close>

record gcm_lib =
  gcm_seal :: "string \<Rightarrow> string \<Rightarrow> string \<Rightarrow> string \<times> string"
  gcm_open :: "string \<Rightarrow> string \<Rightarrow> string \<Rightarrow> string \<Rightarrow> string option"
  sha256 :: "string \<Rightarrow> string"

definition IV_LENGTH :: nat where
  "IV_LENGTH = 12"

definition AUTH_TAG_LENGTH :: nat where
  "AUTH_TAG_LENGTH = 16"

definition VERSION :: string where
  "VERSION = ''v1''"

definition getKey :: "gcm_lib \<Rightarrow> string option \<Rightarrow> (string, string) result" where
  "getKey G SESSION_SECRET =
     (case SESSION_SECRET of
        None \<Rightarrow> Inl ''SESSION_SECRET must be set to at least 32 characters to encrypt the dashboard session cookie.''
      | Some secret \<Rightarrow>
          if length secret < 32
          then Inl ''SESSION_SECRET must be set to at least 32 characters to encrypt the dashboard session cookie.''
          else Inr (sha256 G secret))"

text \<open>The nonce drawn for the cookie is an argument.\<close>

definition encryptSession :: "gcm_lib \<Rightarrow> string option \<Rightarrow> string \<Rightarrow> string \<Rightarrow> (string, string) result" where
  "encryptSession G SESSION_SECRET iv plaintext =
     (case getKey G SESSION_SECRET of
        Inl e \<Rightarrow> Inl e
      | Inr key \<Rightarrow>
          (let (ciphertext, authTag) = gcm_seal G key iv plaintext
           in Inr (join_with ''.'' [VERSION, base64url_encode iv, base64url_encode authTag, base64url_encode ciphertext])))"

definition decryptSession :: "gcm_lib \<Rightarrow> string option \<Rightarrow> string \<Rightarrow> string option" where
  "decryptSession G SESSION_SECRET token =
     (case split_on (CHR ''.'') token of
        [version, ivB64, authTagB64, ciphertextB64] \<Rightarrow>
          if version \<noteq> VERSION then None
          else
            (let iv = base64url_decode ivB64; authTag = base64url_decode authTagB64; ciphertext = base64url_decode ciphertextB64
             in if length iv \<noteq> IV_LENGTH \<or> length authTag \<noteq> AUTH_TAG_LENGTH then None
                else (case getKey G SESSION_SECRET of Inl e \<Rightarrow> None | Inr key \<Rightarrow> gcm_open G key iv ciphertext authTag))
      | _ \<Rightarrow> None)"

section \<open>session.ts\<close>

text \<open>The casts check nothing: a member that is missing reads as \<^verbatim>\<open>undefined\<close>. The members of a session are texts.\<close>

record Session =
  ses_accessToken :: "string option"
  ses_refreshToken :: "string option"
  ses_user :: "json option"

definition session_json :: "Session \<Rightarrow> json" where
  "session_json s =
     JObj (jopt ''accessToken'' (map_option JStr (ses_accessToken s)) @ jopt ''refreshToken'' (map_option JStr (ses_refreshToken s))
       @ jopt ''user'' (ses_user s))"

definition session_of :: "json \<Rightarrow> Session" where
  "session_of v =
     \<lparr>ses_accessToken = as_string (jget v ''accessToken''), ses_refreshToken = as_string (jget v ''refreshToken''),
      ses_user = jget v ''user''\<rparr>"

definition falsy :: "json \<Rightarrow> bool" where
  "falsy v \<longleftrightarrow> v \<in> {JNull, JBool False, JNum 0, JStr []}"

record session_cookie =
  sc_value :: string
  sc_httpOnly :: bool
  sc_secure :: bool
  sc_sameSite :: string
  sc_path :: string
  sc_maxAge :: int

text \<open>What the dashboard's process knows, and the browser's cookie jar.\<close>

record dash_env =
  de_gcm :: gcm_lib
  de_SESSION_SECRET :: "string option"
  de_production :: bool
  de_CLOUDMESH_API_URL :: "string option"
  de_CLOUDMESH_GATEWAY_URL :: "string option"

type_synonym jar = "session_cookie option"

text \<open>A caller that tests the result for truth treats a falsy value like no session.\<close>

definition getSession :: "dash_env \<Rightarrow> jar \<Rightarrow> Session option" where
  "getSession E jar =
     (case jar of
        None \<Rightarrow> None
      | Some c \<Rightarrow>
          if sc_value c = [] then None
          else
            (case decryptSession (de_gcm E) (de_SESSION_SECRET E) (sc_value c) of
               None \<Rightarrow> None
             | Some plaintext \<Rightarrow>
                 if plaintext = [] then None
                 else (case json_parse plaintext of None \<Rightarrow> None | Some v \<Rightarrow> if falsy v then None else Some (session_of v))))"

definition setSession :: "dash_env \<Rightarrow> string \<Rightarrow> Session \<Rightarrow> jar \<Rightarrow> (string, jar) result" where
  "setSession E iv session jar =
     map_sum id (\<lambda>v. Some \<lparr>sc_value = v, sc_httpOnly = True, sc_secure = de_production E, sc_sameSite = ''lax'', sc_path = ''/'',
                          sc_maxAge = 60 * 60 * 24 * 7\<rparr>)
       (encryptSession (de_gcm E) (de_SESSION_SECRET E) iv (json_stringify (session_json session)))"

definition clearSession :: "jar \<Rightarrow> jar" where
  "clearSession jar = None"

section \<open>env.ts and apiClient.ts\<close>

definition API_BASE_URL :: "dash_env \<Rightarrow> string" where
  "API_BASE_URL E = (case de_CLOUDMESH_API_URL E of None \<Rightarrow> ''http://localhost:3000'' | Some u \<Rightarrow> u)"

definition GATEWAY_BASE_URL :: "dash_env \<Rightarrow> string" where
  "GATEWAY_BASE_URL E = (case de_CLOUDMESH_GATEWAY_URL E of None \<Rightarrow> ''http://localhost:3001'' | Some u \<Rightarrow> u)"

definition REFRESH_COOKIE :: string where
  "REFRESH_COOKIE = ''cm_refresh_token''"

text \<open>
  A request and a response with texts as bodies. \<^verbatim>\<open>fetch\<close> is a parameter: from a request, the time and a
  state of the world it gives a response or fails, the time then and the new state.
\<close>

record api_request =
  aq_url :: string
  aq_method :: string
  aq_headers :: "(string \<times> string) list"
  aq_body :: "string option"

record api_response =
  as_status :: nat
  as_contentType :: "string option"
  as_setCookie :: "string list"
  as_body :: string

type_synonym 'w api_net = "api_request \<Rightarrow> ms \<Rightarrow> 'w \<Rightarrow> (string, api_response) result \<times> ms \<times> 'w"

definition as_ok :: "api_response \<Rightarrow> bool" where
  "as_ok res \<longleftrightarrow> 200 \<le> as_status res \<and> as_status res \<le> 299"

record request_init =
  ri_method :: string
  ri_headers :: "(string \<times> string) list"
  ri_body :: "string option"

definition plain_init :: request_init where
  "plain_init = \<lparr>ri_method = ''GET'', ri_headers = [], ri_body = None\<rparr>"

definition callApi :: "dash_env \<Rightarrow> 'w api_net \<Rightarrow> Session \<Rightarrow> string \<Rightarrow> request_init \<Rightarrow> ms \<Rightarrow> 'w \<Rightarrow> (string, api_response) result \<times> ms \<times> 'w" where
  "callApi E net session path init =
     net \<lparr>aq_url = API_BASE_URL E @ path, aq_method = ri_method init,
          aq_headers = AList.update ''authorization'' (''Bearer '' @ claim_text (ses_accessToken session)) (ri_headers init),
          aq_body = ri_body init\<rparr>"

definition extractCookieValue :: "api_response \<Rightarrow> string \<Rightarrow> string option" where
  "extractCookieValue res name =
     (case find (\<lambda>c. starts_with c (name @ ''='')) (as_setCookie res) of
        None \<Rightarrow> None
      | Some raw \<Rightarrow>
          (case split_on (CHR ''='') (hd (split_on (CHR '';'') raw)) of
             _ # v # _ \<Rightarrow> Some v
           | _ \<Rightarrow> None))"

definition cookie_request :: "dash_env \<Rightarrow> string \<Rightarrow> Session \<Rightarrow> api_request" where
  "cookie_request E path session =
     \<lparr>aq_url = API_BASE_URL E @ path, aq_method = ''POST'',
      aq_headers = [(''cookie'', REFRESH_COOKIE @ ''='' @ claim_text (ses_refreshToken session))], aq_body = None\<rparr>"

definition refreshSession :: "dash_env \<Rightarrow> 'w api_net \<Rightarrow> Session \<Rightarrow> ms \<Rightarrow> 'w \<Rightarrow> (string, Session option) result \<times> ms \<times> 'w" where
  "refreshSession E net session t w =
     (case net (cookie_request E ''/auth/refresh'' session) t w of
        (Inl e, t', w') \<Rightarrow> (Inl e, t', w')
      | (Inr res, t', w') \<Rightarrow>
          (if \<not> as_ok res then Inr None
           else
             (case extractCookieValue res REFRESH_COOKIE of
                None \<Rightarrow> Inr None
              | Some newRefreshToken \<Rightarrow>
                  if newRefreshToken = [] then Inr None
                  else
                    (case json_parse (as_body res) of
                       None \<Rightarrow> Inl ''SyntaxError''
                     | Some JNull \<Rightarrow> Inl ''TypeError''
                     | Some body \<Rightarrow>
                         Inr (Some \<lparr>ses_accessToken = as_string (jget body ''accessToken''), ses_refreshToken = Some newRefreshToken,
                                    ses_user = ses_user session\<rparr>))),
           t', w'))"

datatype page_outcome = Redirected string | PageFailed string | PageData json

definition fetchOrRedirect :: "dash_env \<Rightarrow> 'w api_net \<Rightarrow> Session \<Rightarrow> string \<Rightarrow> ms \<Rightarrow> 'w \<Rightarrow> page_outcome \<times> ms \<times> 'w" where
  "fetchOrRedirect E net session path t w =
     (case callApi E net session path plain_init t w of
        (Inl e, t', w') \<Rightarrow> (PageFailed e, t', w')
      | (Inr res, t', w') \<Rightarrow>
          (if as_status res = 401 then Redirected ''/login''
           else if \<not> as_ok res then PageFailed (''apps/api returned '' @ show_nat (as_status res) @ '' for '' @ path)
           else (case json_parse (as_body res) of None \<Rightarrow> PageFailed ''SyntaxError'' | Some v \<Rightarrow> PageData v), t', w'))"

text \<open>\<open>onRefreshed\<close> acts on a state of the caller's, here the cookie jar.\<close>

definition callApiWithRefresh ::
    "dash_env \<Rightarrow> 'w api_net \<Rightarrow> Session \<Rightarrow> string \<Rightarrow> request_init \<Rightarrow> (Session \<Rightarrow> 'j \<Rightarrow> (string, 'j) result) \<Rightarrow> 'j \<Rightarrow> ms \<Rightarrow> 'w
      \<Rightarrow> (string, api_response) result \<times> 'j \<times> ms \<times> 'w" where
  "callApiWithRefresh E net session path init onRefreshed j t w =
     (case callApi E net session path init t w of
        (Inl e, t1, w1) \<Rightarrow> (Inl e, j, t1, w1)
      | (Inr res, t1, w1) \<Rightarrow>
          if as_status res \<noteq> 401 then (Inr res, j, t1, w1)
          else
            (case refreshSession E net session t1 w1 of
               (Inl e, t2, w2) \<Rightarrow> (Inl e, j, t2, w2)
             | (Inr None, t2, w2) \<Rightarrow> (Inr res, j, t2, w2)
             | (Inr (Some refreshed), t2, w2) \<Rightarrow>
                 (case onRefreshed refreshed j of
                    Inl e \<Rightarrow> (Inl e, j, t2, w2)
                  | Inr j' \<Rightarrow> (case callApi E net refreshed path init t2 w2 of (r, t3, w3) \<Rightarrow> (r, j', t3, w3)))))"

section \<open>The route handlers under app/api\<close>

text \<open>What a handler answers; a handler that throws is answered with status 500 by the framework.\<close>

record page_response =
  pr_status :: nat
  pr_contentType :: string
  pr_body :: string

definition json_page :: "nat \<Rightarrow> json \<Rightarrow> page_response" where
  "json_page status v = \<lparr>pr_status = status, pr_contentType = ''application/json'', pr_body = json_stringify v\<rparr>"

definition passed_on :: "api_response \<Rightarrow> page_response" where
  "passed_on res =
     \<lparr>pr_status = as_status res, pr_contentType = (case as_contentType res of None \<Rightarrow> ''application/json'' | Some c \<Rightarrow> c),
      pr_body = as_body res\<rparr>"

record proxy_request =
  pq_method :: string
  pq_path :: "string list"
  pq_search :: string
  pq_text :: string

definition proxy_init :: "proxy_request \<Rightarrow> request_init" where
  "proxy_init q =
     (let hasBody = pq_method q \<noteq> ''GET'' \<and> pq_method q \<noteq> ''DELETE''
      in \<lparr>ri_method = pq_method q, ri_headers = (if hasBody then [(''content-type'', ''application/json'')] else []),
          ri_body = (if hasBody then Some (pq_text q) else None)\<rparr>)"

definition handle ::
    "dash_env \<Rightarrow> 'w api_net \<Rightarrow> string \<Rightarrow> proxy_request \<Rightarrow> jar \<Rightarrow> ms \<Rightarrow> 'w \<Rightarrow> (string, page_response) result \<times> jar \<times> ms \<times> 'w" where
  "handle E net iv q jar t w =
     (case getSession E jar of
        None \<Rightarrow> (Inr (json_page 401 (JObj [(''error'', JStr ''Not authenticated'')])), jar, t, w)
      | Some session \<Rightarrow>
          (case callApiWithRefresh E net session (CHR ''/'' # join_with ''/'' (pq_path q) @ pq_search q) (proxy_init q) (setSession E iv) jar t w of
             (r, jar', t', w') \<Rightarrow> (map_sum id passed_on r, jar', t', w')))"

text \<open>\<open>None\<close> is a body that is no JSON.\<close>

definition login_POST ::
    "dash_env \<Rightarrow> 'w api_net \<Rightarrow> string \<Rightarrow> json option \<Rightarrow> jar \<Rightarrow> ms \<Rightarrow> 'w \<Rightarrow> (string, page_response) result \<times> jar \<times> ms \<times> 'w" where
  "login_POST E net iv request_body jar t w =
     (case request_body of
        None \<Rightarrow> (Inl ''SyntaxError'', jar, t, w)
      | Some JNull \<Rightarrow> (Inl ''TypeError'', jar, t, w)
      | Some body \<Rightarrow>
          (case net \<lparr>aq_url = API_BASE_URL E @ ''/auth/login'', aq_method = ''POST'', aq_headers = [(''content-type'', ''application/json'')],
                    aq_body = Some (json_stringify (JObj (jopt ''email'' (jget body ''email'') @ jopt ''password'' (jget body ''password''))))\<rparr> t w of
             (Inl e, t', w') \<Rightarrow> (Inl e, jar, t', w')
           | (Inr res, t', w') \<Rightarrow>
               if \<not> as_ok res then
                 (case (case json_parse (as_body res) of None \<Rightarrow> JObj [] | Some v \<Rightarrow> v) of
                    JNull \<Rightarrow> (Inl ''TypeError'', jar, t', w')
                  | b \<Rightarrow>
                      (Inr (json_page (as_status res)
                         (JObj [(''error'', case jget b ''error'' of None \<Rightarrow> JStr ''Login failed'' | Some JNull \<Rightarrow> JStr ''Login failed'' | Some v \<Rightarrow> v)])),
                       jar, t', w'))
               else
                 (let refreshToken = extractCookieValue res REFRESH_COOKIE in
                  if refreshToken = None \<or> refreshToken = Some [] then
                    (Inr (json_page 502 (JObj [(''error'', JStr ''Login succeeded but no refresh token was issued'')])), jar, t', w')
                  else
                    (case json_parse (as_body res) of
                       None \<Rightarrow> (Inl ''SyntaxError'', jar, t', w')
                     | Some JNull \<Rightarrow> (Inl ''TypeError'', jar, t', w')
                     | Some b \<Rightarrow>
                         (case setSession E iv \<lparr>ses_accessToken = as_string (jget b ''accessToken''), ses_refreshToken = refreshToken,
                                                ses_user = jget b ''user''\<rparr> jar of
                            Inl e \<Rightarrow> (Inl e, jar, t', w')
                          | Inr jar' \<Rightarrow> (Inr (json_page 200 (JObj [(''ok'', JBool True)])), jar', t', w'))))))"

definition logout_POST :: "dash_env \<Rightarrow> 'w api_net \<Rightarrow> jar \<Rightarrow> ms \<Rightarrow> 'w \<Rightarrow> page_response \<times> jar \<times> ms \<times> 'w" where
  "logout_POST E net jar t w =
     (case (case getSession E jar of
              None \<Rightarrow> (t, w)
            | Some session \<Rightarrow> snd (net (cookie_request E ''/auth/logout'' session) t w)) of
        (t', w') \<Rightarrow> (json_page 200 (JObj [(''ok'', JBool True)]), clearSession jar, t', w'))"

definition playground_POST ::
    "dash_env \<Rightarrow> 'w api_net \<Rightarrow> string option \<Rightarrow> string \<Rightarrow> ms \<Rightarrow> 'w \<Rightarrow> (string, page_response) result \<times> ms \<times> 'w" where
  "playground_POST E net apiKey body t w =
     (if apiKey = None \<or> apiKey = Some []
      then (Inr (json_page 401 (JObj [(''error'', JStr ''Missing API key'')])), t, w)
      else
        (case net \<lparr>aq_url = GATEWAY_BASE_URL E @ ''/v1/chat'', aq_method = ''POST'',
                  aq_headers = [(''authorization'', ''Bearer '' @ the apiKey), (''content-type'', ''application/json'')], aq_body = Some body\<rparr> t w of
           (r, t', w') \<Rightarrow> (map_sum id passed_on r, t', w')))"

section \<open>Only the server's own cookies are read\<close>

text \<open>
  What is documented of AES-GCM: the tag has sixteen bytes, what was sealed opens under the same key and nonce,
  and a ciphertext opens only when its tag is the one sealing gives (the tag is recomputed and compared).
\<close>

locale aead =
  fixes G :: gcm_lib
  assumes tag_length: "length (snd (gcm_seal G key iv p)) = AUTH_TAG_LENGTH"
    and open_seal: "gcm_open G key iv (fst (gcm_seal G key iv p)) (snd (gcm_seal G key iv p)) = Some p"
    and open_sealed: "gcm_open G key iv c tag = Some p \<Longrightarrow> gcm_seal G key iv p = (c, tag)"
begin

lemma decrypt_encrypt:
  assumes "length iv = IV_LENGTH" and "encryptSession G secret iv p = Inr token"
  shows "decryptSession G secret token = Some p" and "token \<noteq> []"
proof -
  obtain key where key: "getKey G secret = Inr key" using assms(2) by (auto simp: encryptSession_def split: sum.splits)
  obtain c tag where seal: "gcm_seal G key iv p = (c, tag)" by force
  have token: "token = join_with ''.'' [VERSION, base64url_encode iv, base64url_encode tag, base64url_encode c]"
    using assms(2) by (simp add: encryptSession_def key seal)
  have "split_on (CHR ''.'') token = [VERSION, base64url_encode iv, base64url_encode tag, base64url_encode c]"
    unfolding token by (rule split_on_join_with) (auto simp: VERSION_def base64url_no_dot)
  then show "decryptSession G secret token = Some p"
    using tag_length [of key iv p] open_seal [of key iv p] assms(1) by (simp add: decryptSession_def base64url_round_trip key seal)
  show "token \<noteq> []" by (simp add: token VERSION_def)
qed

lemma decrypt_sealed:
  assumes "decryptSession G secret token = Some p"
  shows "\<exists>key a b c. split_on (CHR ''.'') token = [VERSION, a, b, c] \<and> length (base64url_decode a) = IV_LENGTH
    \<and> getKey G secret = Inr key \<and> gcm_seal G key (base64url_decode a) p = (base64url_decode c, base64url_decode b)"
  using assms open_sealed by (auto simp: decryptSession_def Let_def split: list.splits if_splits sum.splits)

end

definition session_printable :: "Session \<Rightarrow> bool" where
  "session_printable s \<longleftrightarrow> (case ses_user s of None \<Rightarrow> True | Some u \<Rightarrow> json_printable u)"

lemma session_json_round_trip:
  assumes "session_printable s"
  shows "json_parse (json_stringify (session_json s)) = Some (session_json s)" and "session_of (session_json s) = s"
proof -
  have "json_printable (session_json s)"
    using assms by (auto simp: session_json_def session_printable_def jopt_def split: option.split)
  then show "json_parse (json_stringify (session_json s)) = Some (session_json s)" by (rule json_text_round_trip)
  show "session_of (session_json s) = s"
    by (cases s) (auto simp: session_json_def session_of_def jopt_def split: option.split)
qed

lemma setSession_get:
  assumes "aead (de_gcm E)" and "length iv = IV_LENGTH" and "session_printable s" and "setSession E iv s jar = Inr jar'"
  shows "getSession E jar' = Some s"
proof -
  obtain token where token: "encryptSession (de_gcm E) (de_SESSION_SECRET E) iv (json_stringify (session_json s)) = Inr token"
    using assms(4) by (auto simp: setSession_def map_sum_def split: sum.splits)
  note opened = aead.decrypt_encrypt [OF assms(1,2) token]
  have text_ok: "json_stringify (session_json s) \<noteq> []" by (simp add: session_json_def)
  have "\<not> falsy (session_json s)" by (simp add: falsy_def session_json_def)
  then show ?thesis
    using assms(4) token opened text_ok session_json_round_trip [OF assms(3)] by (auto simp: setSession_def getSession_def)
qed

lemma setSession_ok:
  "getKey (de_gcm E) (de_SESSION_SECRET E) = Inr key \<Longrightarrow> \<exists>c. setSession E iv s jar = Inr (Some c)"
  by (simp add: setSession_def encryptSession_def split_beta)

text \<open>
  C28. The session cookie is a sealed box: what \<^verbatim>\<open>setSession\<close> writes is what \<^verbatim>\<open>getSession\<close> reads back;
  every cookie from which a session is read has the four parts of version v1, holds the very ciphertext and
  tag that sealing some text under the server's key gives, and the session is that text's JSON; and a
  secret that is missing or shorter than 32 characters makes writing fail, while reading treats every
  cookie as no session.\<close>

theorem session_cookie_sealed:
  assumes "aead (de_gcm E)"
  shows "(length iv = IV_LENGTH \<longrightarrow> session_printable s \<longrightarrow> setSession E iv s jar = Inr jar' \<longrightarrow> getSession E jar' = Some s)
    \<and> (getSession E (Some c) = Some s' \<longrightarrow>
        (\<exists>key iv_text tag_text text_text plaintext v. split_on (CHR ''.'') (sc_value c) = [VERSION, iv_text, tag_text, text_text]
          \<and> getKey (de_gcm E) (de_SESSION_SECRET E) = Inr key \<and> length (base64url_decode iv_text) = IV_LENGTH
          \<and> gcm_seal (de_gcm E) key (base64url_decode iv_text) plaintext = (base64url_decode text_text, base64url_decode tag_text)
          \<and> json_parse plaintext = Some v \<and> s' = session_of v))
    \<and> (case_option True (\<lambda>secret. length secret < 32) (de_SESSION_SECRET E) \<longrightarrow>
        (\<exists>e. setSession E iv s jar = Inl e) \<and> getSession E jar = None)"
proof (intro conjI impI)
  assume "length iv = IV_LENGTH" "session_printable s" "setSession E iv s jar = Inr jar'"
  then show "getSession E jar' = Some s" by (rule setSession_get [OF assms])
next
  assume "getSession E (Some c) = Some s'"
  then obtain plaintext v where p: "decryptSession (de_gcm E) (de_SESSION_SECRET E) (sc_value c) = Some plaintext"
    "json_parse plaintext = Some v" "s' = session_of v"
    by (auto simp: getSession_def split: if_splits option.splits)
  from aead.decrypt_sealed [OF assms p(1)] p(2,3)
  show "\<exists>key iv_text tag_text text_text plaintext v. split_on (CHR ''.'') (sc_value c) = [VERSION, iv_text, tag_text, text_text]
          \<and> getKey (de_gcm E) (de_SESSION_SECRET E) = Inr key \<and> length (base64url_decode iv_text) = IV_LENGTH
          \<and> gcm_seal (de_gcm E) key (base64url_decode iv_text) plaintext = (base64url_decode text_text, base64url_decode tag_text)
          \<and> json_parse plaintext = Some v \<and> s' = session_of v" by blast
next
  assume "case_option True (\<lambda>secret. length secret < 32) (de_SESSION_SECRET E)"
  then obtain m where m: "getKey (de_gcm E) (de_SESSION_SECRET E) = Inl m" by (auto simp: getKey_def split: option.splits)
  then show "\<exists>e. setSession E iv s jar = Inl e" by (simp add: setSession_def encryptSession_def)
  have "decryptSession (de_gcm E) (de_SESSION_SECRET E) token = None" for token
    by (simp add: decryptSession_def m Let_def split: list.split)
  then show "getSession E jar = None" by (simp add: getSession_def split: option.split)
qed

text \<open>A box whose tag shows key, nonce and text. (The tag of a real cipher hides them.)\<close>

definition mem_tag :: "string \<Rightarrow> string \<Rightarrow> string \<Rightarrow> string" where
  "mem_tag key iv c = take AUTH_TAG_LENGTH (key @ iv @ c @ replicate AUTH_TAG_LENGTH (CHR ''x''))"

definition mem_gcm :: gcm_lib where
  "mem_gcm = \<lparr>gcm_seal = (\<lambda>key iv p. (rev p, mem_tag key iv (rev p))),
     gcm_open = (\<lambda>key iv c tag. if tag = mem_tag key iv c then Some (rev c) else None), sha256 = rev\<rparr>"

interpretation mem_aead: aead mem_gcm
  by unfold_locales (auto simp: mem_gcm_def mem_tag_def split: if_splits)

definition demo_dash :: dash_env where
  "demo_dash = \<lparr>de_gcm = mem_gcm, de_SESSION_SECRET = Some (replicate 32 (CHR ''k'')), de_production = True,
     de_CLOUDMESH_API_URL = None, de_CLOUDMESH_GATEWAY_URL = None\<rparr>"

definition demo_session :: Session where
  "demo_session = \<lparr>ses_accessToken = Some ''a'', ses_refreshToken = Some ''r'', ses_user = Some (JObj [(''id'', JStr ''u1'')])\<rparr>"

theorem session_cookie_sealed_witness:
  "\<exists>c. setSession demo_dash (replicate 12 (CHR ''i'')) demo_session None = Inr (Some c) \<and> getSession demo_dash (Some c) = Some demo_session"
proof -
  have key: "\<exists>key. getKey (de_gcm demo_dash) (de_SESSION_SECRET demo_dash) = Inr key" by (simp add: demo_dash_def getKey_def)
  then obtain c where c: "setSession demo_dash (replicate 12 (CHR ''i'')) demo_session None = Inr (Some c)"
    using setSession_ok by blast
  have "aead (de_gcm demo_dash)" using mem_aead.aead_axioms by (simp add: demo_dash_def)
  from session_cookie_sealed [OF this, of "replicate 12 (CHR ''i'')" demo_session None "Some c" c demo_session] c show ?thesis
    by (simp add: IV_LENGTH_def session_printable_def demo_session_def)
qed

section \<open>An expired access token is renewed behind the browser's back\<close>

text \<open>
  \<^verbatim>\<open>apps/api\<close> as the network: each call is handled on arrival and answered \<open>lat\<close> milliseconds later. The
  path \<^verbatim>\<open>/auth/refresh\<close> is the refresh route; every other path stands behind \<^verbatim>\<open>requireJwt\<close> and is answered
  by \<open>served\<close> from the identity it found and the request. The cookie texts are those of the framework.
\<close>

definition cookie_of :: "api_request \<Rightarrow> string option" where
  "cookie_of req =
     (case map_of (aq_headers req) ''cookie'' of
        None \<Rightarrow> None
      | Some h \<Rightarrow> if starts_with h (REFRESH_COOKIE @ ''='') then Some (drop (Suc (length REFRESH_COOKIE)) h) else None)"

fun set_cookie_texts :: "cookie_op \<Rightarrow> string list" where
  "set_cookie_texts KeepCookie = []"
| "set_cookie_texts (SetCookie v) = [REFRESH_COOKIE @ ''='' @ v @ ''; Max-Age=604800; Path=/auth; HttpOnly; SameSite=Strict'']"
| "set_cookie_texts ClearCookie = [REFRESH_COOKIE @ ''=; Path=/auth; Expires=Thu, 01 Jan 1970 00:00:00 GMT'']"

definition json_answer :: "nat \<Rightarrow> string list \<Rightarrow> json \<Rightarrow> api_response" where
  "json_answer status cookies v =
     \<lparr>as_status = status, as_contentType = Some ''application/json'', as_setCookie = cookies, as_body = json_stringify v\<rparr>"

definition error_answer :: "AppError \<Rightarrow> api_response" where
  "error_answer e = json_answer (statusCode e) [] (JObj [(''error'', JStr (message e)), (''code'', JStr (err_code e))])"

definition api_server ::
    "dash_env \<Rightarrow> ('s, 'm) redis_scheme \<Rightarrow> jwt_lib \<Rightarrow> jwt_env \<Rightarrow> string \<Rightarrow> nat \<Rightarrow> (AccessTokenPayload \<Rightarrow> api_request \<Rightarrow> api_response)
      \<Rightarrow> ('s \<times> db) api_net" where
  "api_server E R J env newJti lat served req t st =
     (if aq_url req = API_BASE_URL E @ ''/auth/refresh'' then
        (case refresh_route R J env newJti (cookie_of req) t st of
           (Inl e, s') \<Rightarrow> (Inr (error_answer e), t + int lat, s', snd st)
         | (Inr rep, s') \<Rightarrow> (Inr (json_answer (rep_status rep) (set_cookie_texts (rep_cookie rep)) (rep_body rep)), t + int lat, s', snd st))
      else
        (case requireJwt J env (map_of (aq_headers req) ''authorization'') t of
           Inl e \<Rightarrow> (Inr (error_answer e), t + int lat, st)
         | Inr user \<Rightarrow> (Inr (served user req), t + int lat, st)))"

text \<open>A token has no character that means something in a cookie.\<close>

locale jwt_cookie = credential_libs +
  assumes token_chars: "set (jwt_sign J c secret ttl t) \<inter> {CHR '';'', CHR ''=''} = {}"
begin

lemma refresh_cookie_read_back:
  "extractCookieValue (json_answer status (set_cookie_texts (SetCookie (signRefreshToken J env sub orgId jti t))) v) REFRESH_COOKIE
    = Some (signRefreshToken J env sub orgId jti t)"
proof -
  let ?tok = "signRefreshToken J env sub orgId jti t"
  let ?raw = "(REFRESH_COOKIE @ CHR ''='' # ?tok) @ CHR '';'' # '' Max-Age=604800; Path=/auth; HttpOnly; SameSite=Strict''"
  have tok: "CHR '';'' \<notin> set ?tok" "CHR ''='' \<notin> set ?tok" using token_chars unfolding signRefreshToken_def by auto
  have name: "CHR '';'' \<notin> set REFRESH_COOKIE" "CHR ''='' \<notin> set REFRESH_COOKIE" by (simp_all add: REFRESH_COOKIE_def)
  have "split_on (CHR '';'') ?raw = (REFRESH_COOKIE @ CHR ''='' # ?tok) # split_on (CHR '';'') '' Max-Age=604800; Path=/auth; HttpOnly; SameSite=Strict''"
    by (rule split_on_append_sep) (use tok name in auto)
  then have "hd (split_on (CHR '';'') ?raw) = REFRESH_COOKIE @ CHR ''='' # ?tok" by simp
  moreover have "split_on (CHR ''='') (REFRESH_COOKIE @ CHR ''='' # ?tok) = [REFRESH_COOKIE, ?tok]"
    using split_on_append_sep [OF name(2)] split_on_no_sep [OF tok(2)] by simp
  moreover have "prefix (REFRESH_COOKIE @ ''='') ?raw" by simp
  moreover have "as_setCookie (json_answer status (set_cookie_texts (SetCookie ?tok)) v) = [?raw]" by (simp add: json_answer_def)
  ultimately show ?thesis unfolding extractCookieValue_def by simp
qed

end

lemma cookie_of_request:
  "cookie_of (cookie_request E path session) = Some (claim_text (ses_refreshToken session))"
  by (simp add: cookie_of_def cookie_request_def REFRESH_COOKIE_def)

lemma api_protected:
  assumes "aq_url req \<noteq> API_BASE_URL E @ ''/auth/refresh''"
  shows "api_server E R J env newJti lat served req t st =
    (case requireJwt J env (map_of (aq_headers req) ''authorization'') t of
       Inl e \<Rightarrow> (Inr (error_answer e), t + int lat, st) | Inr user \<Rightarrow> (Inr (served user req), t + int lat, st))"
  using assms by (simp add: api_server_def)

definition bearer_request :: "dash_env \<Rightarrow> string \<Rightarrow> string \<Rightarrow> request_init \<Rightarrow> api_request" where
  "bearer_request E path token init =
     \<lparr>aq_url = API_BASE_URL E @ path, aq_method = ri_method init,
      aq_headers = AList.update ''authorization'' (''Bearer '' @ token) (ri_headers init), aq_body = ri_body init\<rparr>"

lemma callApi_protected:
  assumes "path \<noteq> ''/auth/refresh''" and "ses_accessToken session = Some token"
  shows "callApi E (api_server E R J env newJti lat served) session path init t st =
    (case requireJwt J env (Some (''Bearer '' @ token)) t of
       Inl e \<Rightarrow> (Inr (error_answer e), t + int lat, st) | Inr user \<Rightarrow> (Inr (served user (bearer_request E path token init)), t + int lat, st))"
proof -
  let ?req = "bearer_request E path token init"
  have call: "callApi E net session path init = net ?req" for net :: "('s \<times> db) api_net"
    by (simp add: callApi_def bearer_request_def claim_text_def assms(2))
  have other: "aq_url ?req \<noteq> API_BASE_URL E @ ''/auth/refresh''" using assms(1) by (simp add: bearer_request_def)
  have "map_of (aq_headers ?req) ''authorization'' = Some (''Bearer '' @ token)"
    by (simp add: bearer_request_def update_conv)
  then show ?thesis unfolding call api_protected [OF other] by (simp only:)
qed

context jwt_cookie
begin

lemma refreshSession_answered:
  assumes "ses_refreshToken session = Some token" and "token \<noteq> []"
    and "refresh R J env newJti token t (s, d) = (Inr \<lparr>tp_accessToken = access, tp_refreshToken = signRefreshToken J env sub orgId jti t'\<rparr>, s')"
  shows "refreshSession E (api_server E R J env newJti lat served) session t (s, d) =
    (Inr (Some \<lparr>ses_accessToken = Some access, ses_refreshToken = Some (signRefreshToken J env sub orgId jti t'), ses_user = ses_user session\<rparr>),
     t + int lat, s', d)"
proof -
  let ?refresh = "signRefreshToken J env sub orgId jti t'"
  let ?body = "JObj [(''accessToken'', JStr access)]"
  let ?res = "json_answer 200 (set_cookie_texts (SetCookie ?refresh)) ?body"
  have "refresh_route R J env newJti (Some token) t (s, d) =
      (Inr \<lparr>rep_status = 200, rep_body = ?body, rep_cookie = SetCookie ?refresh\<rparr>, s')"
    using assms(2,3) by (simp add: refresh_route_def)
  moreover have "aq_url (cookie_request E ''/auth/refresh'' session) = API_BASE_URL E @ ''/auth/refresh''"
    by (simp add: cookie_request_def)
  ultimately have answer: "api_server E R J env newJti lat served (cookie_request E ''/auth/refresh'' session) t (s, d) = (Inr ?res, t + int lat, s', d)"
    using assms(1) by (simp add: api_server_def cookie_of_request claim_text_def)
  have "json_parse (as_body ?res) = Some ?body"
    unfolding json_answer_def by (simp del: json_stringify.simps add: json_text_round_trip)
  moreover have "?refresh \<noteq> []" using token_shape unfolding signRefreshToken_def by blast
  moreover have "as_ok ?res" by (simp add: as_ok_def json_answer_def)
  ultimately show ?thesis by (simp add: refreshSession_def answer refresh_cookie_read_back del: set_cookie_texts.simps)
qed

end

definition mem_served :: "AccessTokenPayload \<Rightarrow> api_request \<Rightarrow> api_response" where
  "mem_served user req = json_answer 200 [] (JObj [(''org'', JStr (claim_text (at_orgId user)))])"

text \<open>
  C15. An expired access token is renewed behind the browser's back. When the session in the cookie has an
  access token whose quarter of an hour is over and a refresh token that is still good, a call through the
  proxy is answered as if the user had just logged in: \<^verbatim>\<open>apps/api\<close> refuses the first attempt, the
  dashboard buys a new pair with one refresh and the repeated call runs under the account's current identity
  and role. The new cookie holds the rotated pair, so later calls need no refresh, and the old refresh token is
  dead.\<close>

theorem dashboard_renews_session:
  assumes "redis_service R" and "jwt_cookie J B" and "aead (de_gcm E)"
    and "length iv = IV_LENGTH" and "getKey (de_gcm E) (de_SESSION_SECRET E) = Inr key"
    and "getSession E jar = Some \<lparr>ses_accessToken = Some (signAccessToken J env uid oid ro issued),
        ses_refreshToken = Some (signRefreshToken J env uid oid jti issued), ses_user = Some user\<rparr>" and "json_printable user"
    and "issued div 1000 + ACCESS_TOKEN_TTL \<le> t div 1000" and "(t + int lat) div 1000 < issued div 1000 + REFRESH_TOKEN_TTL_SECONDS"
    and "r_read R (refreshKey jti) (t + int lat) s = Some (RStr (SText uid))" and "uid \<noteq> []"
    and "find (\<lambda>u. usr_id u = uid) (users d) = Some u" and "newJti \<noteq> jti" and "lat \<le> 60000"
    and "path = CHR ''/'' # join_with ''/'' (pq_path q) @ pq_search q" and "path \<noteq> ''/auth/refresh''"
  shows "\<exists>jar' s'. handle E (api_server E R J env newJti lat served) iv q jar t (s, d) =
      (Inr (passed_on (served \<lparr>at_sub = Some uid, at_orgId = Some (usr_orgId u), at_role = Some (show_role (usr_role u))\<rparr>
         (bearer_request E path (signAccessToken J env uid (usr_orgId u) (show_role (usr_role u)) (t + int lat)) (proxy_init q)))),
       jar', t + 3 * int lat, s', d)
    \<and> getSession E jar' = Some \<lparr>ses_accessToken = Some (signAccessToken J env uid (usr_orgId u) (show_role (usr_role u)) (t + int lat)),
        ses_refreshToken = Some (signRefreshToken J env uid (usr_orgId u) newJti (t + int lat)), ses_user = Some user\<rparr>
    \<and> r_read R (refreshKey jti) (t + 3 * int lat) s' = None
    \<and> r_read R (refreshKey newJti) (t + 3 * int lat) s' = Some (RStr (SText uid))"
proof -
  have libs: "credential_libs J B" using assms(2) by (simp add: jwt_cookie_def)
  let ?net = "api_server E R J env newJti lat served" and ?tr = "t + int lat" and ?role = "show_role (usr_role u)"
  let ?old = "\<lparr>ses_accessToken = Some (signAccessToken J env uid oid ro issued),
        ses_refreshToken = Some (signRefreshToken J env uid oid jti issued), ses_user = Some user\<rparr>"
  let ?access = "signAccessToken J env uid (usr_orgId u) ?role ?tr" and ?refresh = "signRefreshToken J env uid (usr_orgId u) newJti ?tr"
  let ?new = "\<lparr>ses_accessToken = Some ?access, ses_refreshToken = Some ?refresh, ses_user = Some user\<rparr>"
  define s' where "s' = r_set R (refreshKey newJti) (SText uid) (REFRESH_TTL_SECONDS * 1000) ?tr (r_del R (refreshKey jti) ?tr s)"
  have uid: "usr_id u = uid" using assms(12) by (auto simp: find_Some_iff)
  have first: "callApi E ?net ?old path (proxy_init q) t (s, d) =
      (Inr (error_answer (UnauthorizedError ''Invalid or expired token'')), ?tr, s, d)"
    using credential_libs.requireJwt_expires [OF libs assms(8), of env uid oid ro]
    by (simp add: callApi_protected [OF assms(16)])
  have verified: "verifyRefreshToken J env (signRefreshToken J env uid oid jti issued) ?tr = Inr \<lparr>rt_sub = Some uid, rt_orgId = Some oid, rt_jti = Some jti\<rparr>"
    by (rule credential_libs.refresh_token_verifies [OF libs assms(9)])
  have "refresh R J env newJti (signRefreshToken J env uid oid jti issued) ?tr (s, d) =
      (Inr \<lparr>tp_accessToken = ?access, tp_refreshToken = ?refresh\<rparr>, s')"
    using assms(10,11,12) uid by (simp add: refresh_def verified claim_text_def r_get_def issueTokenPair_def s'_def Let_def)
  from jwt_cookie.refreshSession_answered [OF assms(2), of ?old _ R env newJti ?tr s d ?access uid "usr_orgId u" newJti ?tr s' E lat served] this
  have refreshed: "refreshSession E ?net ?old ?tr (s, d) = (Inr (Some ?new), ?tr + int lat, s', d)"
    using credential_libs.token_shape [OF libs] unfolding signRefreshToken_def by simp
  have "(t + int lat + int lat) div 1000 \<le> (t + int lat + 60 * 1000) div 1000"
    using assms(14) by (intro zdiv_mono1) auto
  then have "(t + int lat + int lat) div 1000 < ?tr div 1000 + ACCESS_TOKEN_TTL"
    by (simp add: ACCESS_TOKEN_TTL_def)
  then have again: "callApi E ?net ?new path (proxy_init q) (?tr + int lat) (s', d) =
      (Inr (served \<lparr>at_sub = Some uid, at_orgId = Some (usr_orgId u), at_role = Some ?role\<rparr> (bearer_request E path ?access (proxy_init q))),
       t + 3 * int lat, s', d)"
    using credential_libs.requireJwt_accepts [OF libs] by (simp add: callApi_protected [OF assms(16)])
  have gone: "r_read R (refreshKey jti) ?tr (r_del R (refreshKey jti) ?tr s) = None"
    by (rule redis_service.del_absent [OF assms(1)]) simp_all
  obtain c where c: "setSession E iv ?new jar = Inr (Some c)" using setSession_ok [OF assms(5)] by blast
  have "handle E ?net iv q jar t (s, d) =
      (Inr (passed_on (served \<lparr>at_sub = Some uid, at_orgId = Some (usr_orgId u), at_role = Some ?role\<rparr> (bearer_request E path ?access (proxy_init q)))),
       Some c, t + 3 * int lat, s', d)"
    using first refreshed again c assms(6)
    by (simp add: handle_def callApiWithRefresh_def flip: assms(15)) (simp add: error_answer_def json_answer_def UnauthorizedError_def)
  moreover have "getSession E (Some c) = Some ?new"
    using setSession_get [OF assms(3,4) _ c] assms(7) by (simp add: session_printable_def)
  moreover have "r_read R (refreshKey jti) (t + 3 * int lat) s' = None"
    unfolding s'_def using redis_service.issue_absent [OF assms(1) _ assms(13) gone] by (simp add: issueTokenPair_def)
  moreover have "r_read R (refreshKey newJti) (t + 3 * int lat) s' = Some (RStr (SText uid))"
    unfolding s'_def using redis_service.read_set [OF assms(1), of ?tr "t + 3 * int lat"] assms(14) by (simp add: REFRESH_TTL_SECONDS_def)
  ultimately show ?thesis by blast
qed

interpretation mem_cookie: jwt_cookie mem_jwt mem_bcrypt
  by unfold_locales (auto simp: mem_jwt_def mem_sign_def)

definition demo_user :: UserRow where
  "demo_user = \<lparr>usr_id = ''u1'', usr_email = ''a@b.c'', usr_passwordHash = [], usr_role = OWNER, usr_orgId = ''o1''\<rparr>"

theorem dashboard_renews_session_witness:
  "let env = \<lparr>JWT_SECRET = ''k'', JWT_SECRET_PREVIOUS = None\<rparr>; iv = replicate 12 (CHR ''i'');
       old = \<lparr>ses_accessToken = Some (signAccessToken mem_jwt env ''u1'' ''o1'' ''OWNER'' 0),
              ses_refreshToken = Some (signRefreshToken mem_jwt env ''u1'' ''o1'' ''j1'' 0), ses_user = Some JNull\<rparr>;
       s = r_set mem_redis (refreshKey ''j1'') (SText ''u1'') (REFRESH_TTL_SECONDS * 1000) 0 mem_empty
   in \<exists>jar jar' r rest. setSession demo_dash iv old None = Inr jar
     \<and> handle demo_dash (api_server demo_dash mem_redis mem_jwt env ''j2'' 1000 mem_served) iv
         \<lparr>pq_method = ''GET'', pq_path = [''billing'', ''status''], pq_search = [], pq_text = []\<rparr> jar 900000
         (s, empty_db\<lparr>users := [demo_user]\<rparr>) = (Inr r, jar', 903000, rest)
     \<and> pr_status r = 200"
proof -
  let ?env = "\<lparr>JWT_SECRET = ''k'', JWT_SECRET_PREVIOUS = None\<rparr>" and ?iv = "replicate 12 (CHR ''i'')"
  let ?old = "\<lparr>ses_accessToken = Some (signAccessToken mem_jwt ?env ''u1'' ''o1'' ''OWNER'' 0),
              ses_refreshToken = Some (signRefreshToken mem_jwt ?env ''u1'' ''o1'' ''j1'' 0), ses_user = Some JNull\<rparr>"
  let ?s = "r_set mem_redis (refreshKey ''j1'') (SText ''u1'') (REFRESH_TTL_SECONDS * 1000) 0 mem_empty"
  let ?q = "\<lparr>pq_method = ''GET'', pq_path = [''billing'', ''status''], pq_search = [], pq_text = []\<rparr>"
  obtain key where key: "getKey (de_gcm demo_dash) (de_SESSION_SECRET demo_dash) = Inr key"
    by (simp add: demo_dash_def getKey_def)
  then obtain c where c: "setSession demo_dash ?iv ?old None = Inr (Some c)" using setSession_ok by blast
  have gcm: "aead (de_gcm demo_dash)" using mem_aead.aead_axioms by (simp add: demo_dash_def)
  have iv: "length ?iv = IV_LENGTH" by (simp add: IV_LENGTH_def)
  have jar: "getSession demo_dash (Some c) = Some ?old"
    by (rule setSession_get [OF gcm iv _ c]) (simp add: session_printable_def)
  have live: "r_read mem_redis (refreshKey ''j1'') (900000 + int 1000) ?s = Some (RStr (SText ''u1''))"
    using mem.read_set [of 0 "900000 + int 1000"] by (simp add: REFRESH_TTL_SECONDS_def)
  obtain r where "\<exists>jar' s'. handle demo_dash (api_server demo_dash mem_redis mem_jwt ?env ''j2'' 1000 mem_served) ?iv ?q (Some c) 900000
      (?s, empty_db\<lparr>users := [demo_user]\<rparr>) = (Inr (passed_on (mem_served r (bearer_request demo_dash (CHR ''/'' # join_with ''/'' (pq_path ?q) @ pq_search ?q) (signAccessToken mem_jwt ?env ''u1'' ''o1'' ''OWNER'' 901000) (proxy_init ?q)))), jar', 903000, s', empty_db\<lparr>users := [demo_user]\<rparr>)"
    using dashboard_renews_session [where ro = "''OWNER''" and issued = 0 and t = 900000 and oid = "''o1''" and newJti = "''j2''" and lat = 1000 and q = ?q
        and served = mem_served and d = "empty_db\<lparr>users := [demo_user]\<rparr>" and u = demo_user,
        OF mem.redis_service_axioms mem_cookie.jwt_cookie_axioms gcm iv key jar _ _ _ live _ _ _ _ refl]
    by (auto simp: ACCESS_TOKEN_TTL_def REFRESH_TOKEN_TTL_SECONDS_def demo_user_def)
  moreover have "pr_status (passed_on (mem_served r q)) = 200" for q by (simp add: passed_on_def mem_served_def json_answer_def)
  ultimately show ?thesis unfolding Let_def using c by blast
qed

end
