(* ===== verification/Config.thy ===== *)
theory Config
  imports Chat Accounts
begin

text \<open>
  The configuration of the two servers: \<^verbatim>\<open>apps/gateway/src/env.ts\<close> and \<^verbatim>\<open>apps/api/src/env.ts\<close>. The process
  environment is a function from names to texts; zod's test for a URL is a parameter. The lemmas show which
  bounds a configuration that passes has: they are the ones the theorems on breakers, locks, caches and
  tokens ask for.
\<close>

section \<open>zod schemas on the environment\<close>

text \<open>A value that is absent (\<^verbatim>\<open>undefined\<close>) takes the default; \<open>None\<close> is a value that does not pass.\<close>

definition env_url :: "(string \<Rightarrow> bool) \<Rightarrow> string option \<Rightarrow> string option" where
  "env_url zurl v = (case v of None \<Rightarrow> None | Some u \<Rightarrow> if zurl u then Some u else None)"

definition env_url_or :: "(string \<Rightarrow> bool) \<Rightarrow> string \<Rightarrow> string option \<Rightarrow> string option" where
  "env_url_or zurl d v = (case v of None \<Rightarrow> Some d | Some u \<Rightarrow> if zurl u then Some u else None)"

definition env_enum :: "string list \<Rightarrow> string \<Rightarrow> string option \<Rightarrow> string option" where
  "env_enum names d v = (case v of None \<Rightarrow> Some d | Some s \<Rightarrow> if s \<in> set names then Some s else None)"

definition env_text_or :: "string \<Rightarrow> string option \<Rightarrow> string option" where
  "env_text_or d v = Some (case v of None \<Rightarrow> d | Some s \<Rightarrow> s)"

definition env_optional :: "string option \<Rightarrow> string option option" where
  "env_optional v = Some v"

text \<open>\<^verbatim>\<open>z.coerce.boolean()\<close>: every text but the empty one is true.\<close>

definition env_bool :: "bool \<Rightarrow> string option \<Rightarrow> bool option" where
  "env_bool d v = Some (case v of None \<Rightarrow> d | Some s \<Rightarrow> s \<noteq> [])"

text \<open>\<^verbatim>\<open>z.coerce.number().int()\<close> takes the safe integers; \<open>lo\<close> is the least one allowed.\<close>

definition MAX_SAFE_INTEGER :: int where
  "MAX_SAFE_INTEGER = 2 ^ 53 - 1"

definition env_int :: "int \<Rightarrow> int \<Rightarrow> string option \<Rightarrow> int option" where
  "env_int lo d v =
     (case v of
        None \<Rightarrow> Some d
      | Some s \<Rightarrow>
          (case js_number s of
             Fin x \<Rightarrow> if of_int \<lfloor>x\<rfloor> = x \<and> \<bar>\<lfloor>x\<rfloor>\<bar> \<le> MAX_SAFE_INTEGER \<and> lo \<le> \<lfloor>x\<rfloor> then Some \<lfloor>x\<rfloor> else None
           | _ \<Rightarrow> None))"

definition env_unit :: "rat \<Rightarrow> string option \<Rightarrow> rat option" where
  "env_unit d v = (case v of None \<Rightarrow> Some d | Some s \<Rightarrow> (case js_number s of Fin x \<Rightarrow> if 0 \<le> x \<and> x \<le> 1 then Some x else None | _ \<Rightarrow> None))"

definition env_list :: "string option \<Rightarrow> string list option" where
  "env_list v = Some (filter (\<lambda>m. m \<noteq> []) (map trim (split_on (CHR '','') (case v of None \<Rightarrow> [] | Some s \<Rightarrow> s))))"

definition issue :: "string \<Rightarrow> 'a option \<Rightarrow> string list" where
  "issue name v = (if v = None then [name] else [])"

section \<open>apps/gateway/src/env.ts\<close>

record GatewayEnv =
  ge_NODE_ENV :: string
  ge_APP_DATABASE_URL :: string
  ge_DATABASE_URL :: string
  ge_REDIS_URL :: string
  ge_PORT :: int
  ge_PUBLIC_BASE_URL :: string
  ge_OPENAI_API_KEY :: "string option"
  ge_OPENAI_BASE_URL :: string
  ge_ANTHROPIC_API_KEY :: "string option"
  ge_ANTHROPIC_BASE_URL :: string
  ge_ANTHROPIC_VERSION :: string
  ge_GEMINI_API_KEY :: "string option"
  ge_GEMINI_BASE_URL :: string
  ge_OLLAMA_BASE_URL :: string
  ge_ENABLE_MOCK_PROVIDER :: bool
  ge_IDEMPOTENCY_TTL_SECONDS :: int
  ge_DEFAULT_MODEL :: string
  ge_AUTO_FALLBACK_MODELS :: "string list"
  ge_CIRCUIT_FAILURE_THRESHOLD :: int
  ge_CIRCUIT_FAILURE_WINDOW_MS :: int
  ge_CIRCUIT_OPEN_DURATION_MS :: int
  ge_RETRY_MAX_ATTEMPTS :: int
  ge_RETRY_BASE_DELAY_MS :: int
  ge_SEMANTIC_CACHE_SIMILARITY_THRESHOLD :: rat
  ge_SEMANTIC_CACHE_TTL_DAYS :: int
  ge_DEDUP_LEADER_TTL_SECONDS :: int
  ge_DEDUP_FOLLOWER_WAIT_MS :: int
  ge_BILLING_LOCK_TTL_MS :: int
  ge_BILLING_LOCK_RETRIES :: int
  ge_BILLING_LOCK_RETRY_DELAY_MS :: int
  ge_BUDGET_CONSTRAINED_MODEL :: "string option"
  ge_OUTBOX_POLL_INTERVAL_MS :: int
  ge_JOB_WORKER_CONCURRENCY :: int
  ge_JOB_LOCK_DURATION_MS :: int
  ge_NATS_URL :: "string option"
  ge_RESEND_API_KEY :: "string option"
  ge_RESEND_BASE_URL :: string
  ge_RESEND_FROM_EMAIL :: string
  ge_CIRCUIT_METRICS_POLL_INTERVAL_MS :: int
  ge_LIVE_STATS_PUBLISH_INTERVAL_MS :: int

text \<open>The names of the variables that do not pass, in the order of the schema; without any the record.\<close>

definition parse_GatewayEnv :: "(string \<Rightarrow> bool) \<Rightarrow> (string \<Rightarrow> string option) \<Rightarrow> (string list, GatewayEnv) result" where
  "parse_GatewayEnv zurl raw =
     (let v_NODE_ENV = env_enum [''development'', ''test'', ''production''] ''development'' (raw ''NODE_ENV'');
          v_APP_DATABASE_URL = env_url zurl (raw ''APP_DATABASE_URL'');
          v_DATABASE_URL = env_url zurl (raw ''DATABASE_URL'');
          v_REDIS_URL = env_url zurl (raw ''REDIS_URL'');
          v_PORT = env_int 1 3001 (raw ''PORT'');
          v_PUBLIC_BASE_URL = env_url_or zurl ''http://localhost:3001'' (raw ''PUBLIC_BASE_URL'');
          v_OPENAI_API_KEY = env_optional (raw ''OPENAI_API_KEY'');
          v_OPENAI_BASE_URL = env_url_or zurl ''https://api.openai.com'' (raw ''OPENAI_BASE_URL'');
          v_ANTHROPIC_API_KEY = env_optional (raw ''ANTHROPIC_API_KEY'');
          v_ANTHROPIC_BASE_URL = env_url_or zurl ''https://api.anthropic.com'' (raw ''ANTHROPIC_BASE_URL'');
          v_ANTHROPIC_VERSION = env_text_or ''2023-06-01'' (raw ''ANTHROPIC_VERSION'');
          v_GEMINI_API_KEY = env_optional (raw ''GEMINI_API_KEY'');
          v_GEMINI_BASE_URL = env_url_or zurl ''https://generativelanguage.googleapis.com'' (raw ''GEMINI_BASE_URL'');
          v_OLLAMA_BASE_URL = env_url_or zurl ''http://localhost:11434'' (raw ''OLLAMA_BASE_URL'');
          v_ENABLE_MOCK_PROVIDER = env_bool False (raw ''ENABLE_MOCK_PROVIDER'');
          v_IDEMPOTENCY_TTL_SECONDS = env_int 1 (60 * 60 * 24) (raw ''IDEMPOTENCY_TTL_SECONDS'');
          v_DEFAULT_MODEL = env_text_or ''gpt-4o-mini'' (raw ''DEFAULT_MODEL'');
          v_AUTO_FALLBACK_MODELS = env_list (raw ''AUTO_FALLBACK_MODELS'');
          v_CIRCUIT_FAILURE_THRESHOLD = env_int 1 5 (raw ''CIRCUIT_FAILURE_THRESHOLD'');
          v_CIRCUIT_FAILURE_WINDOW_MS = env_int 1 60000 (raw ''CIRCUIT_FAILURE_WINDOW_MS'');
          v_CIRCUIT_OPEN_DURATION_MS = env_int 1 30000 (raw ''CIRCUIT_OPEN_DURATION_MS'');
          v_RETRY_MAX_ATTEMPTS = env_int 1 4 (raw ''RETRY_MAX_ATTEMPTS'');
          v_RETRY_BASE_DELAY_MS = env_int 1 1000 (raw ''RETRY_BASE_DELAY_MS'');
          v_SEMANTIC_CACHE_SIMILARITY_THRESHOLD = env_unit (92 / 100) (raw ''SEMANTIC_CACHE_SIMILARITY_THRESHOLD'');
          v_SEMANTIC_CACHE_TTL_DAYS = env_int 1 7 (raw ''SEMANTIC_CACHE_TTL_DAYS'');
          v_DEDUP_LEADER_TTL_SECONDS = env_int 1 30 (raw ''DEDUP_LEADER_TTL_SECONDS'');
          v_DEDUP_FOLLOWER_WAIT_MS = env_int 1 10000 (raw ''DEDUP_FOLLOWER_WAIT_MS'');
          v_BILLING_LOCK_TTL_MS = env_int 1 5000 (raw ''BILLING_LOCK_TTL_MS'');
          v_BILLING_LOCK_RETRIES = env_int 0 3 (raw ''BILLING_LOCK_RETRIES'');
          v_BILLING_LOCK_RETRY_DELAY_MS = env_int 1 50 (raw ''BILLING_LOCK_RETRY_DELAY_MS'');
          v_BUDGET_CONSTRAINED_MODEL = env_optional (raw ''BUDGET_CONSTRAINED_MODEL'');
          v_OUTBOX_POLL_INTERVAL_MS = env_int 1 500 (raw ''OUTBOX_POLL_INTERVAL_MS'');
          v_JOB_WORKER_CONCURRENCY = env_int 1 10 (raw ''JOB_WORKER_CONCURRENCY'');
          v_JOB_LOCK_DURATION_MS = env_int 1 (5 * 60000) (raw ''JOB_LOCK_DURATION_MS'');
          v_NATS_URL = env_optional (raw ''NATS_URL'');
          v_RESEND_API_KEY = env_optional (raw ''RESEND_API_KEY'');
          v_RESEND_BASE_URL = env_url_or zurl ''https://api.resend.com'' (raw ''RESEND_BASE_URL'');
          v_RESEND_FROM_EMAIL = env_text_or ''alerts@cloudmesh.dev'' (raw ''RESEND_FROM_EMAIL'');
          v_CIRCUIT_METRICS_POLL_INTERVAL_MS = env_int 1 5000 (raw ''CIRCUIT_METRICS_POLL_INTERVAL_MS'');
          v_LIVE_STATS_PUBLISH_INTERVAL_MS = env_int 1 5000 (raw ''LIVE_STATS_PUBLISH_INTERVAL_MS'');
          issues = concat [
            issue ''NODE_ENV'' v_NODE_ENV,
            issue ''APP_DATABASE_URL'' v_APP_DATABASE_URL,
            issue ''DATABASE_URL'' v_DATABASE_URL,
            issue ''REDIS_URL'' v_REDIS_URL,
            issue ''PORT'' v_PORT,
            issue ''PUBLIC_BASE_URL'' v_PUBLIC_BASE_URL,
            issue ''OPENAI_API_KEY'' v_OPENAI_API_KEY,
            issue ''OPENAI_BASE_URL'' v_OPENAI_BASE_URL,
            issue ''ANTHROPIC_API_KEY'' v_ANTHROPIC_API_KEY,
            issue ''ANTHROPIC_BASE_URL'' v_ANTHROPIC_BASE_URL,
            issue ''ANTHROPIC_VERSION'' v_ANTHROPIC_VERSION,
            issue ''GEMINI_API_KEY'' v_GEMINI_API_KEY,
            issue ''GEMINI_BASE_URL'' v_GEMINI_BASE_URL,
            issue ''OLLAMA_BASE_URL'' v_OLLAMA_BASE_URL,
            issue ''ENABLE_MOCK_PROVIDER'' v_ENABLE_MOCK_PROVIDER,
            issue ''IDEMPOTENCY_TTL_SECONDS'' v_IDEMPOTENCY_TTL_SECONDS,
            issue ''DEFAULT_MODEL'' v_DEFAULT_MODEL,
            issue ''AUTO_FALLBACK_MODELS'' v_AUTO_FALLBACK_MODELS,
            issue ''CIRCUIT_FAILURE_THRESHOLD'' v_CIRCUIT_FAILURE_THRESHOLD,
            issue ''CIRCUIT_FAILURE_WINDOW_MS'' v_CIRCUIT_FAILURE_WINDOW_MS,
            issue ''CIRCUIT_OPEN_DURATION_MS'' v_CIRCUIT_OPEN_DURATION_MS,
            issue ''RETRY_MAX_ATTEMPTS'' v_RETRY_MAX_ATTEMPTS,
            issue ''RETRY_BASE_DELAY_MS'' v_RETRY_BASE_DELAY_MS,
            issue ''SEMANTIC_CACHE_SIMILARITY_THRESHOLD'' v_SEMANTIC_CACHE_SIMILARITY_THRESHOLD,
            issue ''SEMANTIC_CACHE_TTL_DAYS'' v_SEMANTIC_CACHE_TTL_DAYS,
            issue ''DEDUP_LEADER_TTL_SECONDS'' v_DEDUP_LEADER_TTL_SECONDS,
            issue ''DEDUP_FOLLOWER_WAIT_MS'' v_DEDUP_FOLLOWER_WAIT_MS,
            issue ''BILLING_LOCK_TTL_MS'' v_BILLING_LOCK_TTL_MS,
            issue ''BILLING_LOCK_RETRIES'' v_BILLING_LOCK_RETRIES,
            issue ''BILLING_LOCK_RETRY_DELAY_MS'' v_BILLING_LOCK_RETRY_DELAY_MS,
            issue ''BUDGET_CONSTRAINED_MODEL'' v_BUDGET_CONSTRAINED_MODEL,
            issue ''OUTBOX_POLL_INTERVAL_MS'' v_OUTBOX_POLL_INTERVAL_MS,
            issue ''JOB_WORKER_CONCURRENCY'' v_JOB_WORKER_CONCURRENCY,
            issue ''JOB_LOCK_DURATION_MS'' v_JOB_LOCK_DURATION_MS,
            issue ''NATS_URL'' v_NATS_URL,
            issue ''RESEND_API_KEY'' v_RESEND_API_KEY,
            issue ''RESEND_BASE_URL'' v_RESEND_BASE_URL,
            issue ''RESEND_FROM_EMAIL'' v_RESEND_FROM_EMAIL,
            issue ''CIRCUIT_METRICS_POLL_INTERVAL_MS'' v_CIRCUIT_METRICS_POLL_INTERVAL_MS,
            issue ''LIVE_STATS_PUBLISH_INTERVAL_MS'' v_LIVE_STATS_PUBLISH_INTERVAL_MS]
      in if issues \<noteq> [] then Inl issues
         else Inr \<lparr>ge_NODE_ENV = the v_NODE_ENV,
            ge_APP_DATABASE_URL = the v_APP_DATABASE_URL,
            ge_DATABASE_URL = the v_DATABASE_URL,
            ge_REDIS_URL = the v_REDIS_URL,
            ge_PORT = the v_PORT,
            ge_PUBLIC_BASE_URL = the v_PUBLIC_BASE_URL,
            ge_OPENAI_API_KEY = the v_OPENAI_API_KEY,
            ge_OPENAI_BASE_URL = the v_OPENAI_BASE_URL,
            ge_ANTHROPIC_API_KEY = the v_ANTHROPIC_API_KEY,
            ge_ANTHROPIC_BASE_URL = the v_ANTHROPIC_BASE_URL,
            ge_ANTHROPIC_VERSION = the v_ANTHROPIC_VERSION,
            ge_GEMINI_API_KEY = the v_GEMINI_API_KEY,
            ge_GEMINI_BASE_URL = the v_GEMINI_BASE_URL,
            ge_OLLAMA_BASE_URL = the v_OLLAMA_BASE_URL,
            ge_ENABLE_MOCK_PROVIDER = the v_ENABLE_MOCK_PROVIDER,
            ge_IDEMPOTENCY_TTL_SECONDS = the v_IDEMPOTENCY_TTL_SECONDS,
            ge_DEFAULT_MODEL = the v_DEFAULT_MODEL,
            ge_AUTO_FALLBACK_MODELS = the v_AUTO_FALLBACK_MODELS,
            ge_CIRCUIT_FAILURE_THRESHOLD = the v_CIRCUIT_FAILURE_THRESHOLD,
            ge_CIRCUIT_FAILURE_WINDOW_MS = the v_CIRCUIT_FAILURE_WINDOW_MS,
            ge_CIRCUIT_OPEN_DURATION_MS = the v_CIRCUIT_OPEN_DURATION_MS,
            ge_RETRY_MAX_ATTEMPTS = the v_RETRY_MAX_ATTEMPTS,
            ge_RETRY_BASE_DELAY_MS = the v_RETRY_BASE_DELAY_MS,
            ge_SEMANTIC_CACHE_SIMILARITY_THRESHOLD = the v_SEMANTIC_CACHE_SIMILARITY_THRESHOLD,
            ge_SEMANTIC_CACHE_TTL_DAYS = the v_SEMANTIC_CACHE_TTL_DAYS,
            ge_DEDUP_LEADER_TTL_SECONDS = the v_DEDUP_LEADER_TTL_SECONDS,
            ge_DEDUP_FOLLOWER_WAIT_MS = the v_DEDUP_FOLLOWER_WAIT_MS,
            ge_BILLING_LOCK_TTL_MS = the v_BILLING_LOCK_TTL_MS,
            ge_BILLING_LOCK_RETRIES = the v_BILLING_LOCK_RETRIES,
            ge_BILLING_LOCK_RETRY_DELAY_MS = the v_BILLING_LOCK_RETRY_DELAY_MS,
            ge_BUDGET_CONSTRAINED_MODEL = the v_BUDGET_CONSTRAINED_MODEL,
            ge_OUTBOX_POLL_INTERVAL_MS = the v_OUTBOX_POLL_INTERVAL_MS,
            ge_JOB_WORKER_CONCURRENCY = the v_JOB_WORKER_CONCURRENCY,
            ge_JOB_LOCK_DURATION_MS = the v_JOB_LOCK_DURATION_MS,
            ge_NATS_URL = the v_NATS_URL,
            ge_RESEND_API_KEY = the v_RESEND_API_KEY,
            ge_RESEND_BASE_URL = the v_RESEND_BASE_URL,
            ge_RESEND_FROM_EMAIL = the v_RESEND_FROM_EMAIL,
            ge_CIRCUIT_METRICS_POLL_INTERVAL_MS = the v_CIRCUIT_METRICS_POLL_INTERVAL_MS,
            ge_LIVE_STATS_PUBLISH_INTERVAL_MS = the v_LIVE_STATS_PUBLISH_INTERVAL_MS\<rparr>)"

section \<open>apps/api/src/env.ts\<close>

definition env_secret :: "string option \<Rightarrow> string option" where
  "env_secret v = (case v of None \<Rightarrow> None | Some s \<Rightarrow> if 32 \<le> length s then Some s else None)"

definition env_previous_secret :: "string option \<Rightarrow> string option option" where
  "env_previous_secret v =
     (case v of None \<Rightarrow> Some None | Some s \<Rightarrow> if 32 \<le> length s then Some (Some s) else if s = [] then Some None else None)"

definition env_cost :: "string option \<Rightarrow> int option" where
  "env_cost v = (case env_int 10 12 v of None \<Rightarrow> None | Some n \<Rightarrow> if n \<le> 15 then Some n else None)"

record ApiEnv =
  ae_NODE_ENV :: string
  ae_APP_DATABASE_URL :: string
  ae_DATABASE_URL :: string
  ae_REDIS_URL :: string
  ae_PORT :: int
  ae_JWT_SECRET :: string
  ae_JWT_SECRET_PREVIOUS :: "string option"
  ae_BCRYPT_COST :: int
  ae_STRIPE_API_KEY :: "string option"
  ae_STRIPE_BASE_URL :: string
  ae_STRIPE_WEBHOOK_SECRET :: "string option"

text \<open>The names of the variables that do not pass, in the order of the schema; without any the record.\<close>

definition parse_ApiEnv :: "(string \<Rightarrow> bool) \<Rightarrow> (string \<Rightarrow> string option) \<Rightarrow> (string list, ApiEnv) result" where
  "parse_ApiEnv zurl raw =
     (let v_NODE_ENV = env_enum [''development'', ''test'', ''production''] ''development'' (raw ''NODE_ENV'');
          v_APP_DATABASE_URL = env_url zurl (raw ''APP_DATABASE_URL'');
          v_DATABASE_URL = env_url zurl (raw ''DATABASE_URL'');
          v_REDIS_URL = env_url zurl (raw ''REDIS_URL'');
          v_PORT = env_int 1 3000 (raw ''PORT'');
          v_JWT_SECRET = env_secret (raw ''JWT_SECRET'');
          v_JWT_SECRET_PREVIOUS = env_previous_secret (raw ''JWT_SECRET_PREVIOUS'');
          v_BCRYPT_COST = env_cost (raw ''BCRYPT_COST'');
          v_STRIPE_API_KEY = env_optional (raw ''STRIPE_API_KEY'');
          v_STRIPE_BASE_URL = env_url_or zurl ''https://api.stripe.com'' (raw ''STRIPE_BASE_URL'');
          v_STRIPE_WEBHOOK_SECRET = env_optional (raw ''STRIPE_WEBHOOK_SECRET'');
          issues = concat [
            issue ''NODE_ENV'' v_NODE_ENV,
            issue ''APP_DATABASE_URL'' v_APP_DATABASE_URL,
            issue ''DATABASE_URL'' v_DATABASE_URL,
            issue ''REDIS_URL'' v_REDIS_URL,
            issue ''PORT'' v_PORT,
            issue ''JWT_SECRET'' v_JWT_SECRET,
            issue ''JWT_SECRET_PREVIOUS'' v_JWT_SECRET_PREVIOUS,
            issue ''BCRYPT_COST'' v_BCRYPT_COST,
            issue ''STRIPE_API_KEY'' v_STRIPE_API_KEY,
            issue ''STRIPE_BASE_URL'' v_STRIPE_BASE_URL,
            issue ''STRIPE_WEBHOOK_SECRET'' v_STRIPE_WEBHOOK_SECRET]
      in if issues \<noteq> [] then Inl issues
         else Inr \<lparr>ae_NODE_ENV = the v_NODE_ENV,
            ae_APP_DATABASE_URL = the v_APP_DATABASE_URL,
            ae_DATABASE_URL = the v_DATABASE_URL,
            ae_REDIS_URL = the v_REDIS_URL,
            ae_PORT = the v_PORT,
            ae_JWT_SECRET = the v_JWT_SECRET,
            ae_JWT_SECRET_PREVIOUS = the v_JWT_SECRET_PREVIOUS,
            ae_BCRYPT_COST = the v_BCRYPT_COST,
            ae_STRIPE_API_KEY = the v_STRIPE_API_KEY,
            ae_STRIPE_BASE_URL = the v_STRIPE_BASE_URL,
            ae_STRIPE_WEBHOOK_SECRET = the v_STRIPE_WEBHOOK_SECRET\<rparr>)"

section \<open>What the servers read from it\<close>

definition gateway_chat_env :: "GatewayEnv \<Rightarrow> chat_env" where
  "gateway_chat_env E =
     \<lparr>ce_resilience = \<lparr>RETRY_MAX_ATTEMPTS = ge_RETRY_MAX_ATTEMPTS E, RETRY_BASE_DELAY_MS = of_int (ge_RETRY_BASE_DELAY_MS E),
        CIRCUIT_FAILURE_THRESHOLD = ge_CIRCUIT_FAILURE_THRESHOLD E, CIRCUIT_FAILURE_WINDOW_MS = ge_CIRCUIT_FAILURE_WINDOW_MS E,
        CIRCUIT_OPEN_DURATION_MS = ge_CIRCUIT_OPEN_DURATION_MS E\<rparr>,
      ce_defaultModel = ge_DEFAULT_MODEL E, ce_autoFallback = ge_AUTO_FALLBACK_MODELS E,
      ce_lock = \<lparr>ttlMs = ge_BILLING_LOCK_TTL_MS E, retries = nat (ge_BILLING_LOCK_RETRIES E), retryDelayMs = ge_BILLING_LOCK_RETRY_DELAY_MS E\<rparr>,
      ce_constrainedModel = ge_BUDGET_CONSTRAINED_MODEL E, ce_idempotencyTtl = ge_IDEMPOTENCY_TTL_SECONDS E,
      ce_similarity = ge_SEMANTIC_CACHE_SIMILARITY_THRESHOLD E, ce_cacheTtlDays = ge_SEMANTIC_CACHE_TTL_DAYS E,
      ce_dedup = \<lparr>leaderTtlSeconds = ge_DEDUP_LEADER_TTL_SECONDS E, followerWaitMs = ge_DEDUP_FOLLOWER_WAIT_MS E\<rparr>\<rparr>"

definition api_jwt_env :: "ApiEnv \<Rightarrow> jwt_env" where
  "api_jwt_env E = \<lparr>JWT_SECRET = ae_JWT_SECRET E, JWT_SECRET_PREVIOUS = ae_JWT_SECRET_PREVIOUS E\<rparr>"

section \<open>A configuration that passes is in bounds\<close>

lemma issue_Nil [simp]: "issue name v = [] \<longleftrightarrow> \<not> Option.is_none v"
  by (simp add: issue_def Option.is_none_def)

lemma env_int_least: "env_int lo d v = Some n \<Longrightarrow> lo \<le> d \<Longrightarrow> lo \<le> n"
  by (auto simp: env_int_def split: option.splits jsnum.splits if_splits)

lemma env_int_the: "\<not> Option.is_none (env_int lo d v) \<Longrightarrow> lo \<le> d \<Longrightarrow> lo \<le> the (env_int lo d v)"
  by (cases "env_int lo d v") (auto dest: env_int_least)

lemma env_unit_the: "\<not> Option.is_none (env_unit d v) \<Longrightarrow> 0 \<le> d \<Longrightarrow> d \<le> 1 \<Longrightarrow> 0 \<le> the (env_unit d v) \<and> the (env_unit d v) \<le> 1"
  by (auto simp: env_unit_def Option.is_none_def split: option.splits jsnum.splits if_splits)

lemma env_cost_the: "\<not> Option.is_none (env_cost v) \<Longrightarrow> 10 \<le> the (env_cost v) \<and> the (env_cost v) \<le> 15"
  using env_int_least [of 10 12 v] by (auto simp: env_cost_def Option.is_none_def split: option.splits if_splits)

lemma env_secret_the: "\<not> Option.is_none (env_secret v) \<Longrightarrow> 32 \<le> length (the (env_secret v))"
  by (auto simp: env_secret_def Option.is_none_def split: option.splits if_splits)

lemma env_previous_secret_the: "the (env_previous_secret v) = Some s \<Longrightarrow> \<not> Option.is_none (env_previous_secret v) \<Longrightarrow> 32 \<le> length s"
  by (auto simp: env_previous_secret_def Option.is_none_def split: option.splits if_splits)

lemma env_list_the: "m \<in> set (the (env_list v)) \<Longrightarrow> m \<noteq> []"
  by (auto simp: env_list_def)

definition gateway_env_ok :: "GatewayEnv \<Rightarrow> bool" where
  "gateway_env_ok E \<longleftrightarrow>
     list_all (\<lambda>n. 1 \<le> n)
       [ge_PORT E, ge_IDEMPOTENCY_TTL_SECONDS E, ge_CIRCUIT_FAILURE_THRESHOLD E, ge_CIRCUIT_FAILURE_WINDOW_MS E, ge_CIRCUIT_OPEN_DURATION_MS E,
        ge_RETRY_MAX_ATTEMPTS E, ge_RETRY_BASE_DELAY_MS E, ge_SEMANTIC_CACHE_TTL_DAYS E, ge_DEDUP_LEADER_TTL_SECONDS E, ge_DEDUP_FOLLOWER_WAIT_MS E,
        ge_BILLING_LOCK_TTL_MS E, ge_BILLING_LOCK_RETRY_DELAY_MS E, ge_OUTBOX_POLL_INTERVAL_MS E, ge_JOB_WORKER_CONCURRENCY E,
        ge_JOB_LOCK_DURATION_MS E, ge_CIRCUIT_METRICS_POLL_INTERVAL_MS E, ge_LIVE_STATS_PUBLISH_INTERVAL_MS E]
     \<and> 0 \<le> ge_BILLING_LOCK_RETRIES E
     \<and> 0 \<le> ge_SEMANTIC_CACHE_SIMILARITY_THRESHOLD E \<and> ge_SEMANTIC_CACHE_SIMILARITY_THRESHOLD E \<le> 1
     \<and> (\<forall>m \<in> set (ge_AUTO_FALLBACK_MODELS E). m \<noteq> [])"

lemma parsed_gateway_env:
  assumes "parse_GatewayEnv zurl raw = Inr E"
  shows "gateway_env_ok E \<and> ge_ENABLE_MOCK_PROVIDER E = the (env_bool False (raw ''ENABLE_MOCK_PROVIDER''))"
  using assms unfolding parse_GatewayEnv_def Let_def
  apply (split if_split_asm)
   apply (simp only: not_False_eq_True sum.distinct simp_thms)
  apply (simp only: not_not sum.inject concat.simps append_is_Nil_conv issue_Nil append_Nil2)
  apply (elim conjE)
  apply (drule sym)
  apply hypsubst
  apply (simp add: gateway_env_ok_def env_int_the env_unit_the)
  apply (simp add: env_list_the)
  done

lemmas parsed_gateway_env_ok = parsed_gateway_env [THEN conjunct1]

definition api_env_ok :: "ApiEnv \<Rightarrow> bool" where
  "api_env_ok E \<longleftrightarrow>
     1 \<le> ae_PORT E \<and> 32 \<le> length (ae_JWT_SECRET E) \<and> 10 \<le> ae_BCRYPT_COST E \<and> ae_BCRYPT_COST E \<le> 15
     \<and> (\<forall>s. ae_JWT_SECRET_PREVIOUS E = Some s \<longrightarrow> 32 \<le> length s)"

lemma parsed_api_env_ok: "parse_ApiEnv zurl raw = Inr E \<Longrightarrow> api_env_ok E"
  by (simp add: parse_ApiEnv_def Let_def split: if_splits)
    (drule sym, simp add: api_env_ok_def env_int_the env_cost_the env_secret_the env_previous_secret_the)

lemma if_issues: "k \<in> set xs \<Longrightarrow> \<exists>names. (if xs \<noteq> [] then Inl xs else r) = Inl names \<and> k \<in> set names"
  by auto

lemma missing_named:
  assumes "raw k = None" and "k = ''APP_DATABASE_URL'' \<or> k = ''DATABASE_URL'' \<or> k = ''REDIS_URL''"
  shows "\<exists>names. parse_GatewayEnv zurl raw = Inl names \<and> k \<in> set names"
proof -
  have i: "issue k (env_url zurl (raw k)) = [k]" by (simp add: issue_def env_url_def assms(1))
  from assms(2) i show ?thesis
    unfolding parse_GatewayEnv_def Let_def
    by (elim disjE; intro if_issues) (simp only: concat.simps set_append Un_iff list.set insert_iff simp_thms)+
qed

text \<open>
  C36. The servers start only with a configuration in bounds: what the gateway's chat route is given satisfies
  what its parts ask for (a breaker that needs at least one failure and stays open for some time, at least
  one attempt with a positive delay, a lock, a leader's claim and replays that expire later than at once, a
  similarity between 0 and 1), and the API's signing secrets have 32 characters and its bcrypt cost lies
  between 10 and 15. A missing database or Redis address stops the gateway and is named.\<close>

theorem config_in_bounds:
  shows "(parse_GatewayEnv zurl raw = Inr E \<longrightarrow>
      (let C = gateway_chat_env E; breaker = breaker_config (ce_resilience C) in
         1 \<le> failureThreshold breaker \<and> 1 \<le> failureWindowMs breaker \<and> 1 \<le> openDurationMs breaker
         \<and> 1 \<le> RETRY_MAX_ATTEMPTS (ce_resilience C) \<and> 1 \<le> RETRY_BASE_DELAY_MS (ce_resilience C)
         \<and> 1 \<le> ttlMs (ce_lock C) \<and> 1 \<le> retryDelayMs (ce_lock C) \<and> 1 \<le> leaderTtlSeconds (ce_dedup C) \<and> 1 \<le> followerWaitMs (ce_dedup C)
         \<and> 1 \<le> ce_idempotencyTtl C \<and> 0 \<le> ce_similarity C \<and> ce_similarity C \<le> 1 \<and> 1 \<le> ce_cacheTtlDays C
         \<and> (\<forall>m \<in> set (ce_autoFallback C). m \<noteq> [])))
    \<and> (parse_ApiEnv zurl raw = Inr A \<longrightarrow>
         32 \<le> length (JWT_SECRET (api_jwt_env A)) \<and> (\<forall>s. JWT_SECRET_PREVIOUS (api_jwt_env A) = Some s \<longrightarrow> 32 \<le> length s)
         \<and> 10 \<le> ae_BCRYPT_COST A \<and> ae_BCRYPT_COST A \<le> 15)
    \<and> (\<forall>k \<in> {''APP_DATABASE_URL'', ''DATABASE_URL'', ''REDIS_URL''}. raw k = None \<longrightarrow>
         (\<exists>names. parse_GatewayEnv zurl raw = Inl names \<and> k \<in> set names))"
proof (intro conjI impI)
  assume "parse_GatewayEnv zurl raw = Inr E"
  then have "gateway_env_ok E" by (rule parsed_gateway_env_ok)
  then show "let C = gateway_chat_env E; breaker = breaker_config (ce_resilience C) in
         1 \<le> failureThreshold breaker \<and> 1 \<le> failureWindowMs breaker \<and> 1 \<le> openDurationMs breaker
         \<and> 1 \<le> RETRY_MAX_ATTEMPTS (ce_resilience C) \<and> 1 \<le> RETRY_BASE_DELAY_MS (ce_resilience C)
         \<and> 1 \<le> ttlMs (ce_lock C) \<and> 1 \<le> retryDelayMs (ce_lock C) \<and> 1 \<le> leaderTtlSeconds (ce_dedup C) \<and> 1 \<le> followerWaitMs (ce_dedup C)
         \<and> 1 \<le> ce_idempotencyTtl C \<and> 0 \<le> ce_similarity C \<and> ce_similarity C \<le> 1 \<and> 1 \<le> ce_cacheTtlDays C
         \<and> (\<forall>m \<in> set (ce_autoFallback C). m \<noteq> [])"
    by (simp add: gateway_env_ok_def gateway_chat_env_def breaker_config_def Let_def)
next
  assume "parse_ApiEnv zurl raw = Inr A"
  then have "api_env_ok A" by (rule parsed_api_env_ok)
  then show "32 \<le> length (JWT_SECRET (api_jwt_env A))" "10 \<le> ae_BCRYPT_COST A" "ae_BCRYPT_COST A \<le> 15"
    "\<forall>s. JWT_SECRET_PREVIOUS (api_jwt_env A) = Some s \<longrightarrow> 32 \<le> length s"
    by (auto simp: api_env_ok_def api_jwt_env_def)
next
  show "\<forall>k \<in> {''APP_DATABASE_URL'', ''DATABASE_URL'', ''REDIS_URL''}. raw k = None \<longrightarrow>
         (\<exists>names. parse_GatewayEnv zurl raw = Inl names \<and> k \<in> set names)"
    using missing_named [of raw] by blast
qed

text \<open>A flag that is set to \<^verbatim>\<open>false\<close> is on.\<close>

lemma mock_flag_false_is_true:
  assumes "parse_GatewayEnv zurl raw = Inr E" and "raw ''ENABLE_MOCK_PROVIDER'' = Some ''false''"
  shows "ge_ENABLE_MOCK_PROVIDER E"
  unfolding conjunct2 [OF parsed_gateway_env [OF assms(1)]] assms(2) by (simp add: env_bool_def)

section \<open>An environment with the required variables only\<close>

definition demo_environment :: "string \<Rightarrow> string option" where
  "demo_environment k =
     (if k \<in> {''APP_DATABASE_URL'', ''DATABASE_URL'', ''REDIS_URL''} then Some ''u://h''
      else if k = ''JWT_SECRET'' then Some (replicate 32 (CHR ''s'')) else None)"

lemma demo_gateway: "\<exists>E. parse_GatewayEnv (\<lambda>_. True) demo_environment = Inr E \<and> ge_CIRCUIT_FAILURE_THRESHOLD E = 5"
proof -
  have five: "the (env_int 1 5 (demo_environment ''CIRCUIT_FAILURE_THRESHOLD'')) = 5" by code_simp
  show ?thesis
    unfolding parse_GatewayEnv_def Let_def
    apply (subst if_not_P)
     apply (simp only: not_not concat.simps append_is_Nil_conv issue_Nil append_Nil2)
     apply (intro conjI; code_simp)
    apply (simp only: sum.inject simp_thms GatewayEnv.simps five)
    done
qed

lemma demo_api: "\<exists>A. parse_ApiEnv (\<lambda>_. True) demo_environment = Inr A"
  unfolding parse_ApiEnv_def Let_def
  apply (subst if_not_P)
   apply (simp only: not_not concat.simps append_is_Nil_conv issue_Nil append_Nil2)
   apply (intro conjI; code_simp)
  apply blast
  done

theorem config_in_bounds_witness:
  "\<exists>E A. parse_GatewayEnv (\<lambda>_. True) demo_environment = Inr E \<and> parse_ApiEnv (\<lambda>_. True) demo_environment = Inr A
     \<and> failureThreshold (breaker_config (ce_resilience (gateway_chat_env E))) = 5
     \<and> 1 \<le> ttlMs (ce_lock (gateway_chat_env E)) \<and> 10 \<le> ae_BCRYPT_COST A"
proof -
  obtain E where E: "parse_GatewayEnv (\<lambda>_. True) demo_environment = Inr E" and five: "ge_CIRCUIT_FAILURE_THRESHOLD E = 5"
    using demo_gateway by blast
  obtain A where A: "parse_ApiEnv (\<lambda>_. True) demo_environment = Inr A" using demo_api by blast
  have "failureThreshold (breaker_config (ce_resilience (gateway_chat_env E))) = 5"
    by (simp add: gateway_chat_env_def breaker_config_def five)
  then show ?thesis
    using config_in_bounds [of "\<lambda>_. True" demo_environment E A] E A unfolding Let_def by blast
qed

end
