(* ===== verification/Processes.thy ===== *)
theory Processes
  imports ApiRoutes Chat Accounts JsonText
begin

text \<open>
  What the processes add to the parts they start: the error handlers of the two HTTP servers
  (\<^verbatim>\<open>apps/api/src/app.ts\<close>, \<^verbatim>\<open>apps/gateway/src/app.ts\<close>), the timers of \<^verbatim>\<open>apps/gateway/src/server.ts\<close>, the
  event consumers of \<^verbatim>\<open>apps/gateway/src/consumers.ts\<close> with the mail adapter they are given
  (\<^verbatim>\<open>providers/resend.ts\<close>), and the redelivery of messages that \<^verbatim>\<open>subscribe\<close> configures. The lemmas show that
  live statistics reach only their own organisation, how often a consumer sees a message, and that a mail that
  was not sent is not tried again.
\<close>

section \<open>app.ts: the error handlers\<close>

text \<open>What reaches an error handler: one of the servers' own errors, or another one with its status, if it has one.\<close>

datatype handler_error = OwnError AppError | OtherError "nat option" string

record handled =
  hd_status :: nat
  hd_headers :: "(string \<times> string) list"
  hd_body :: json

definition error_body :: "string \<Rightarrow> string \<Rightarrow> json" where
  "error_body msg code = JObj [(''error'', JStr msg), (''code'', JStr code)]"

definition framework_error :: "nat option \<Rightarrow> string \<Rightarrow> handled" where
  "framework_error status msg =
     (case status of
        Some s \<Rightarrow>
          if 400 \<le> s \<and> s < 500 then \<lparr>hd_status = s, hd_headers = [], hd_body = error_body msg ''BAD_REQUEST''\<rparr>
          else \<lparr>hd_status = 500, hd_headers = [], hd_body = error_body ''Internal server error'' ''INTERNAL_ERROR''\<rparr>
      | None \<Rightarrow> \<lparr>hd_status = 500, hd_headers = [], hd_body = error_body ''Internal server error'' ''INTERNAL_ERROR''\<rparr>)"

definition api_error_handler :: "handler_error \<Rightarrow> handled" where
  "api_error_handler err =
     (case err of
        OwnError e \<Rightarrow> \<lparr>hd_status = statusCode e, hd_headers = [], hd_body = error_body (message e) (err_code e)\<rparr>
      | OtherError status msg \<Rightarrow>
          if status = Some 429 then \<lparr>hd_status = 429, hd_headers = [], hd_body = error_body ''Too many requests'' ''RATE_LIMITED''\<rparr>
          else framework_error status msg)"

definition gateway_error_handler :: "handler_error \<Rightarrow> handled" where
  "gateway_error_handler err =
     (case err of
        OwnError e \<Rightarrow> \<lparr>hd_status = statusCode e, hd_headers = headers e, hd_body = error_body (message e) (err_code e)\<rparr>
      | OtherError status msg \<Rightarrow> framework_error status msg)"

text \<open>A text of an error that is not the server's own reaches the client only with a status between 400 and 499.\<close>

lemma framework_error_hides:
  "hd_status (framework_error status msg) = 500 \<longrightarrow> hd_body (framework_error status msg) = error_body ''Internal server error'' ''INTERNAL_ERROR''"
  by (simp add: framework_error_def split: option.split)

lemma chat_error_reply:
  "error_reply (ThrownApp e) = Reply (hd_status h) (hd_headers h) (hd_body h)" if "h = gateway_error_handler (OwnError e)"
  using that by (simp add: error_reply_def gateway_error_handler_def error_body_def)

section \<open>requireApiKey.ts and whoamiRoute.ts of apps/api\<close>

definition api_extractToken :: "string option \<Rightarrow> string option" where
  "api_extractToken header =
     (if \<not> (case header of None \<Rightarrow> False | Some h \<Rightarrow> starts_with h ''Bearer '') then None
      else (let token = trim (drop (length ''Bearer '') (the header)) in if length token > 0 then Some token else None))"

definition api_requireApiKey ::
    "('s, 'm) redis_scheme \<Rightarrow> (string \<Rightarrow> string) \<Rightarrow> string option \<Rightarrow> ms \<Rightarrow> 's \<times> db \<Rightarrow> (AppError, ApiKeyContext) result \<times> 's \<times> db" where
  "api_requireApiKey R sha header t st =
     (case api_extractToken header of
        None \<Rightarrow> (Inl (UnauthorizedError ''Missing or malformed Authorization header''), st)
      | Some rawKey \<Rightarrow>
          (case resolveApiKey R sha rawKey t st of
             (None, st') \<Rightarrow> (Inl (UnauthorizedError ''Invalid API key''), st')
           | (Some ctx, st') \<Rightarrow> (Inr ctx, st')))"

definition whoamiRoute ::
    "('s, 'm) redis_scheme \<Rightarrow> (string \<Rightarrow> string) \<Rightarrow> string option \<Rightarrow> ms \<Rightarrow> 's \<times> db \<Rightarrow> (AppError, json) result \<times> 's \<times> db" where
  "whoamiRoute R sha header t st = (case api_requireApiKey R sha header t st of (r, st') \<Rightarrow> (map_sum id ctx_json r, st'))"

text \<open>The two services guard their keys alike.\<close>

lemma api_requireApiKey_same: "api_requireApiKey R sha header t st = requireApiKey R sha header t st"
proof -
  have "api_extractToken header = extractToken header"
    by (cases header) (simp_all add: api_extractToken_def extractToken_def numeral_eq_Suc)
  then show ?thesis by (simp add: api_requireApiKey_def requireApiKey_def)
qed

section \<open>server.ts\<close>

text \<open>Where the outbox drains to: NATS when its address is set, else the log, which takes every event.\<close>

definition choose_publisher :: "string option \<Rightarrow> 'p \<Rightarrow> 'p \<Rightarrow> 'p" where
  "choose_publisher NATS_URL nats logger = (if NATS_URL = None \<or> NATS_URL = Some [] then logger else nats)"

definition LogEventPublisher_publish :: "(string \<times> json \<times> string) list \<Rightarrow> string \<Rightarrow> json \<Rightarrow> string \<Rightarrow> bool \<times> (string \<times> json \<times> string) list" where
  "LogEventPublisher_publish logged eventType payload eventId = (True, logged @ [(eventType, payload, eventId)])"

text \<open>Without an event bus every event a poll sees is logged and marked published: none waits for a bus to come.\<close>

lemma publish_all_logged: "fst (publish_all LogEventPublisher_publish now es w d) = length es"
  by (induction es arbitrary: w d) (simp_all add: LogEventPublisher_publish_def split_beta Let_def)

lemma log_publisher_marks_published:
  "published (fst (pollOutbox LogEventPublisher_publish n now w d)) = length (pending_events n d)"
  using publish_all_logged [of now "pending_events n d" w d] by (simp add: pollOutbox_def split_beta Let_def)

definition circuit_metrics_poll :: "('s, 'm) redis_scheme \<Rightarrow> string list \<Rightarrow> ms \<Rightarrow> 's \<Rightarrow> (string \<times> CircuitState) list" where
  "circuit_metrics_poll R providers now s = map (\<lambda>p. (p, getCircuitState R p now s)) providers"

definition stats_json :: "LiveStats \<Rightarrow> json" where
  "stats_json st = JObj [(''rps'', JNum (rps st)), (''p99'', JNum (of_int (live_p99 st))), (''errors'', JNum (of_nat (live_errors st)))]"

text \<open>One tick of the timer: channels with the messages published on them.\<close>

fun publish_stats :: "('s, 'm) redis_scheme \<Rightarrow> ms \<Rightarrow> string list \<Rightarrow> 's \<Rightarrow> (string \<times> json) list \<times> 's" where
  "publish_stats R now [] s = ([], s)"
| "publish_stats R now (orgId # orgs) s =
     (let (st, s1) = getOrgLiveStats R orgId now s; (rest, s2) = publish_stats R now orgs s1
      in ((liveStatsChannel orgId, stats_json st) # rest, s2))"

definition live_stats_poll :: "('s, 'm) redis_scheme \<Rightarrow> ms \<Rightarrow> 's \<Rightarrow> (string \<times> json) list \<times> 's" where
  "live_stats_poll R now s = publish_stats R now (getActiveOrgIds R now s) s"

section \<open>Live statistics reach their own organisation\<close>

lemma liveStatsChannel_inject [simp]: "liveStatsChannel a = liveStatsChannel b \<longleftrightarrow> a = b"
  by (simp add: liveStatsChannel_def)

lemma live_statsKey_inject [simp]: "live_statsKey a = live_statsKey b \<longleftrightarrow> a = b"
  by (simp add: live_statsKey_def)

definition stats_ok :: "('s, 'm) redis_scheme \<Rightarrow> string \<Rightarrow> ms \<Rightarrow> 's \<Rightarrow> bool" where
  "stats_ok R orgId now s \<longleftrightarrow> (\<exists>z. r_read R (live_statsKey orgId) now s = None \<or> r_read R (live_statsKey orgId) now s = Some (RZset z))"

context framed_redis
begin

lemma stats_same_reads:
  assumes "r_read R (live_statsKey orgId) now s' = r_read R (live_statsKey orgId) now s" and "stats_ok R orgId now s"
  shows "fst (getOrgLiveStats R orgId now s') = fst (getOrgLiveStats R orgId now s)"
proof -
  have "r_read R (live_statsKey orgId) now (r_zremrangebyscore R (live_statsKey orgId) None (now - LIVE_WINDOW_MS) now s') =
      r_read R (live_statsKey orgId) now (r_zremrangebyscore R (live_statsKey orgId) None (now - LIVE_WINDOW_MS) now s)"
    using assms read_zremrangebyscore [of now now "live_statsKey orgId"] unfolding stats_ok_def by auto
  then have "r_zrange R (live_statsKey orgId) now (r_zremrangebyscore R (live_statsKey orgId) None (now - LIVE_WINDOW_MS) now s') =
      r_zrange R (live_statsKey orgId) now (r_zremrangebyscore R (live_statsKey orgId) None (now - LIVE_WINDOW_MS) now s)"
    by (simp add: r_zrange_def)
  then show ?thesis by (simp add: getOrgLiveStats_def Let_def)
qed

lemma stats_frame:
  "orgId' \<noteq> orgId \<Longrightarrow> r_read R (live_statsKey orgId') now (snd (getOrgLiveStats R orgId now s)) = r_read R (live_statsKey orgId') now s"
  by (simp add: getOrgLiveStats_def Let_def frame_zremrangebyscore)

lemma published_stats:
  assumes "distinct orgs" and "\<forall>o' \<in> set orgs. stats_ok R o' now s"
  shows "fst (publish_stats R now orgs s) = map (\<lambda>orgId. (liveStatsChannel orgId, stats_json (fst (getOrgLiveStats R orgId now s)))) orgs"
  using assms
proof (induction orgs arbitrary: s)
  case (Cons orgId orgs)
  let ?s1 = "snd (getOrgLiveStats R orgId now s)"
  have same: "r_read R (live_statsKey o') now ?s1 = r_read R (live_statsKey o') now s" if "o' \<in> set orgs" for o'
    using that Cons.prems(1) by (intro stats_frame) auto
  then have "\<forall>o' \<in> set orgs. stats_ok R o' now ?s1" using Cons.prems(2) by (simp add: stats_ok_def)
  then have "fst (publish_stats R now orgs ?s1) = map (\<lambda>o'. (liveStatsChannel o', stats_json (fst (getOrgLiveStats R o' now ?s1)))) orgs"
    using Cons.IH Cons.prems(1) by simp
  also have "\<dots> = map (\<lambda>o'. (liveStatsChannel o', stats_json (fst (getOrgLiveStats R o' now s)))) orgs"
    using same Cons.prems(2) by (intro map_cong refl arg_cong2 [where f = Pair] arg_cong [where f = stats_json] stats_same_reads) auto
  finally show ?case by (simp add: split_beta Let_def)
qed simp

end

text \<open>The messages a socket is sent: those of the channel it subscribed to.\<close>

definition socket_messages :: "ws_end \<Rightarrow> (string \<times> json) list \<Rightarrow> json list" where
  "socket_messages sub sent = (case sub of WsSubscribe c \<Rightarrow> map snd (filter (\<lambda>p. fst p = c) sent) | WsClose _ _ \<Rightarrow> [])"

lemma filter_channel:
  "distinct orgs \<Longrightarrow> map snd (filter (\<lambda>p. fst p = liveStatsChannel o') (map (\<lambda>orgId. (liveStatsChannel orgId, f orgId)) orgs)) =
    (if o' \<in> set orgs then [f o'] else [])"
  by (induction orgs) auto

text \<open>
  C29. Live statistics reach their own organisation and no other: a socket that was opened with an access token
  of an organisation is sent, at every tick of the gateway's timer, exactly one message when the organisation
  has been active, with the statistics of that organisation's own requests, and none otherwise; a socket
  with an expired token is closed and sent nothing.\<close>

theorem live_stats_reach_their_org:
  assumes "framed_redis R" and "credential_libs J B" and "distinct (getActiveOrgIds R now s)"
    and "\<forall>o' \<in> set (getActiveOrgIds R now s). stats_ok R o' now s"
  shows "socket_messages (liveStatsWsRoutes J env (Some (''Bearer '' @ signAccessToken J env sub orgId ro issued)) query t) (fst (live_stats_poll R now s)) =
    (if t div 1000 < issued div 1000 + ACCESS_TOKEN_TTL \<and> orgId \<in> set (getActiveOrgIds R now s)
     then [stats_json (fst (getOrgLiveStats R orgId now s))] else [])"
proof -
  let ?token = "signAccessToken J env sub orgId ro issued"
  have shape: "trim ?token = ?token \<and> ?token \<noteq> []"
    unfolding signAccessToken_def by (rule credential_libs.token_shape [OF assms(2)])
  then have ws: "ws_token (Some (''Bearer '' @ ?token)) query = Some ?token" by (simp add: ws_token_def truthy_def)
  show ?thesis
  proof (cases "t div 1000 < issued div 1000 + ACCESS_TOKEN_TTL")
    case True
    have sub: "liveStatsWsRoutes J env (Some (''Bearer '' @ ?token)) query t = WsSubscribe (liveStatsChannel orgId)"
      unfolding liveStatsWsRoutes_def ws using credential_libs.access_token_verifies [OF assms(2) True] by (simp add: claim_text_def)
    have "socket_messages (WsSubscribe (liveStatsChannel orgId)) (fst (live_stats_poll R now s)) =
        (if orgId \<in> set (getActiveOrgIds R now s) then [stats_json (fst (getOrgLiveStats R orgId now s))] else [])"
      unfolding socket_messages_def live_stats_poll_def framed_redis.published_stats [OF assms(1,3,4)] ws_end.case filter_channel [OF assms(3)] ..
    then show ?thesis unfolding sub using True by simp
  next
    case False
    have "requireJwt J env (Some (''Bearer '' @ ?token)) t = Inl (UnauthorizedError ''Invalid or expired token'')"
      by (rule credential_libs.requireJwt_expires [OF assms(2)]) (use False in simp)
    then obtain e where "verifyAccessToken J env ?token t = Inl e"
      using shape by (auto simp: requireJwt_def extractToken_def split: sum.splits)
    then show ?thesis unfolding liveStatsWsRoutes_def ws using False by (simp add: socket_messages_def)
  qed
qed

definition demo_live :: mem_state where
  "demo_live = [ACTIVE_ORGS_KEY \<mapsto> (RSet [''o1''], None), live_statsKey ''o1'' \<mapsto> (RZset [(''900:12:0:u'', 900)], Some 60900)]"

lemma demo_live_reads:
  "getActiveOrgIds mem_redis 1000 demo_live = [''o1'']"
  "r_read mem_redis (live_statsKey ''o1'') 1000 demo_live = Some (RZset [(''900:12:0:u'', 900)])"
  by (simp_all add: getActiveOrgIds_def r_smembers_def mem_sel mem_read_def demo_live_def ACTIVE_ORGS_KEY_def live_statsKey_def)

theorem live_stats_reach_their_org_witness:
  "socket_messages (liveStatsWsRoutes mem_jwt \<lparr>JWT_SECRET = ''k'', JWT_SECRET_PREVIOUS = None\<rparr>
      (Some (''Bearer '' @ signAccessToken mem_jwt \<lparr>JWT_SECRET = ''k'', JWT_SECRET_PREVIOUS = None\<rparr> ''u1'' ''o1'' ''OWNER'' 0)) None 500)
     (fst (live_stats_poll mem_redis 1000 demo_live)) = [stats_json (fst (getOrgLiveStats mem_redis ''o1'' 1000 demo_live))]"
  using live_stats_reach_their_org [OF mem_framed.framed_redis_axioms mem_creds.credential_libs_axioms, of 1000 demo_live
      "\<lparr>JWT_SECRET = ''k'', JWT_SECRET_PREVIOUS = None\<rparr>" "''u1''" "''o1''" "''OWNER''" 0 None 500]
  by (simp add: demo_live_reads stats_ok_def ACCESS_TOKEN_TTL_def)

section \<open>resend.ts\<close>

record ResendAdapterConfig =
  rs_apiKey :: "string option"
  rs_baseUrl :: string
  rs_fromEmail :: string

record mail_request =
  mr_url :: string
  mr_headers :: "(string \<times> string) list"
  mr_body :: json

text \<open>The network takes a request and answers with a status and a text, or fails.\<close>

type_synonym 'w mail_net = "mail_request \<Rightarrow> 'w \<Rightarrow> (string, nat \<times> string) result \<times> 'w"

definition ResendAdapter_sendEmail :: "ResendAdapterConfig \<Rightarrow> 'w mail_net \<Rightarrow> email \<Rightarrow> 'w \<Rightarrow> (thrown, unit) result \<times> 'w" where
  "ResendAdapter_sendEmail cfg net input w =
     (if rs_apiKey cfg = None \<or> rs_apiKey cfg = Some []
      then (Inl (ThrownJs ''Resend is not configured (missing RESEND_API_KEY)''), w)
      else
        (case net \<lparr>mr_url = rs_baseUrl cfg @ ''/emails'',
                 mr_headers = [(''Authorization'', ''Bearer '' @ the (rs_apiKey cfg)), (''Content-Type'', ''application/json'')],
                 mr_body = JObj [(''from'', JStr (rs_fromEmail cfg)), (''to'', JArr [JStr (em_to input)]), (''subject'', JStr (em_subject input)),
                                 (''html'', JStr (em_html input))]\<rparr> w of
           (Inl e, w') \<Rightarrow> (Inl (ThrownJs e), w')
         | (Inr (status, text), w') \<Rightarrow>
             (if 200 \<le> status \<and> status \<le> 299 then Inr ()
              else Inl (ThrownJs (''Resend send failed: '' @ show_nat status @ '' '' @ text)), w')))"

section \<open>consumers.ts\<close>

text \<open>The sender the e-mail subscriber is given: whatever goes wrong is logged.\<close>

definition consumers_sendEmail :: "ResendAdapterConfig \<Rightarrow> 'w mail_net \<Rightarrow> email \<Rightarrow> 'w \<Rightarrow> (thrown, unit) result \<times> 'w" where
  "consumers_sendEmail cfg net input w = (Inr (), snd (ResendAdapter_sendEmail cfg net input w))"

text \<open>What the five handlers act on.\<close>

record ('s, 'w) consumers_world =
  cw_redis :: 's
  cw_db :: db
  cw_queue :: "WebhookJobData list"
  cw_mail :: 'w

text \<open>What \<^verbatim>\<open>subscribe\<close> is told: a durable name, a filter and a handler.\<close>

record ('s, 'w) subscription =
  sub_durable :: string
  sub_filter :: string
  sub_handler :: "ms \<Rightarrow> json option \<Rightarrow> EventEnvelope \<Rightarrow> ('s, 'w) consumers_world \<Rightarrow> (thrown, unit) result \<times> ('s, 'w) consumers_world"

definition subscriptions ::
    "('s, 'm) counter_redis_scheme \<Rightarrow> (string \<Rightarrow> bool) \<Rightarrow> (nat \<Rightarrow> string) \<Rightarrow> (json option \<Rightarrow> string) \<Rightarrow> ResendAdapterConfig \<Rightarrow> 'w mail_net
      \<Rightarrow> ('s, 'w) subscription list" where
  "subscriptions R zuuid newId pretty cfg net =
     [\<lparr>sub_durable = ''analytics_service'', sub_filter = subjectFor ''usage.recorded'',
       sub_handler = (\<lambda>t payload envelope w. case analytics_handler R zuuid t payload envelope (cw_redis w) of (r, s) \<Rightarrow> (r, w\<lparr>cw_redis := s\<rparr>))\<rparr>,
      \<lparr>sub_durable = ''audit_service'', sub_filter = ''cloudmesh.>'',
       sub_handler = (\<lambda>t payload envelope w. case audit_handler payload envelope (cw_db w) of (r, d) \<Rightarrow> (r, w\<lparr>cw_db := d\<rparr>))\<rparr>,
      \<lparr>sub_durable = ''billing_service'', sub_filter = subjectFor ''usage.recorded'',
       sub_handler = (\<lambda>t payload envelope w. billing_handler None zuuid payload envelope w)\<rparr>,
      \<lparr>sub_durable = ''webhook_dispatch_service'', sub_filter = ''cloudmesh.>'',
       sub_handler = (\<lambda>t payload envelope w. case webhook_dispatch_handler newId t payload envelope (cw_queue w, cw_db w) of
           (r, q, d) \<Rightarrow> (r, w\<lparr>cw_queue := q, cw_db := d\<rparr>))\<rparr>,
      \<lparr>sub_durable = ''email_service'', sub_filter = ''cloudmesh.>'',
       sub_handler = (\<lambda>t payload envelope w. case email_handler pretty (consumers_sendEmail cfg net) (cw_db w) payload envelope (cw_mail w) of
           (r, m) \<Rightarrow> (r, w\<lparr>cw_mail := m\<rparr>))\<rparr>]"

section \<open>Redelivery\<close>

definition DEFAULT_MAX_DELIVER :: nat where
  "DEFAULT_MAX_DELIVER = 5"

text \<open>
  JetStream delivers a message to a durable consumer, at the times listed, until it is acknowledged or
  terminated, and at most \<open>max_deliver\<close> times.
\<close>

fun deliver_until :: "(string \<Rightarrow> bool) \<Rightarrow> ('s, 'w) subscription \<Rightarrow> ms list \<Rightarrow> message \<Rightarrow> ('s, 'w) consumers_world \<Rightarrow> ack list \<times> ('s, 'w) consumers_world" where
  "deliver_until zuuid sub [] msg w = ([], w)"
| "deliver_until zuuid sub (t # ts) msg w =
     (case consume zuuid (sub_handler sub t) msg w of
        (Nak, w') \<Rightarrow> (case deliver_until zuuid sub ts msg w' of (acks, w'') \<Rightarrow> (Nak # acks, w''))
      | (a, w') \<Rightarrow> ([a], w'))"

definition durable_deliveries ::
    "(string \<Rightarrow> bool) \<Rightarrow> ('s, 'w) subscription \<Rightarrow> ms list \<Rightarrow> message \<Rightarrow> ('s, 'w) consumers_world \<Rightarrow> ack list \<times> ('s, 'w) consumers_world" where
  "durable_deliveries zuuid sub ts msg w =
     (if subject_matches (sub_filter sub) (msg_subject msg) then deliver_until zuuid sub (take DEFAULT_MAX_DELIVER ts) msg w else ([], w))"

lemma deliver_until_shape:
  "length (fst (deliver_until zuuid sub ts msg w)) \<le> length ts
    \<and> (\<forall>a \<in> set (butlast (fst (deliver_until zuuid sub ts msg w))). a = Nak)
    \<and> (length (fst (deliver_until zuuid sub ts msg w)) < length ts \<longrightarrow> fst (deliver_until zuuid sub ts msg w) \<noteq> [] \<and> last (fst (deliver_until zuuid sub ts msg w)) \<noteq> Nak)"
proof (induction ts arbitrary: w)
  case (Cons t ts)
  obtain a w' where c: "consume zuuid (sub_handler sub t) msg w = (a, w')" by force
  show ?case
  proof (cases a)
    case Nak
    obtain acks w'' where d: "deliver_until zuuid sub ts msg w' = (acks, w'')" by force
    show ?thesis using Cons.IH [of w'] c d Nak by (cases "acks = []") auto
  qed (use c in auto)
qed simp

definition poison :: "(string \<Rightarrow> bool) \<Rightarrow> message \<Rightarrow> bool" where
  "poison zuuid msg \<longleftrightarrow>
     (case msg_data msg of
        None \<Rightarrow> True
      | Some raw \<Rightarrow> (case parseEvent zuuid raw of Inl (HandlerError _) \<Rightarrow> False | Inl _ \<Rightarrow> True | Inr _ \<Rightarrow> False))"

lemma consume_poison: "poison zuuid msg \<Longrightarrow> consume zuuid handler msg w = (Term, w)"
  by (auto simp: poison_def consume_def split: option.splits sum.splits event_error.splits)

text \<open>
  A consumer is done with every message: each of the five durables is handed a message at most five times,
  every time but the last because its handler failed, and it stops early only after an acknowledgement or
  because the message is beyond repair; such a message is terminated at its first delivery and changes
  nothing; and a message outside the consumer's filter is never handed to it.\<close>

theorem consumer_delivery_verdict:
  assumes "sub \<in> set (subscriptions R zuuid newId pretty cfg net)"
  shows "case durable_deliveries zuuid sub ts msg w of (acks, w') \<Rightarrow>
    length acks \<le> 5 \<and> (\<forall>a \<in> set (butlast acks). a = Nak)
    \<and> (subject_matches (sub_filter sub) (msg_subject msg) \<and> length acks < min 5 (length ts) \<longrightarrow> acks \<noteq> [] \<and> last acks \<noteq> Nak)
    \<and> (subject_matches (sub_filter sub) (msg_subject msg) \<and> ts \<noteq> [] \<and> poison zuuid msg \<longrightarrow> acks = [Term] \<and> w' = w)
    \<and> (\<not> subject_matches (sub_filter sub) (msg_subject msg) \<longrightarrow> acks = [] \<and> w' = w)
    \<and> sub_durable sub \<in> {''analytics_service'', ''audit_service'', ''billing_service'', ''webhook_dispatch_service'', ''email_service''}"
proof -
  obtain acks w' where d: "durable_deliveries zuuid sub ts msg w = (acks, w')" by force
  have names: "sub_durable sub \<in> {''analytics_service'', ''audit_service'', ''billing_service'', ''webhook_dispatch_service'', ''email_service''}"
    using assms by (auto simp: subscriptions_def)
  show ?thesis
  proof (cases "subject_matches (sub_filter sub) (msg_subject msg)")
    case True
    then have run: "deliver_until zuuid sub (take 5 ts) msg w = (acks, w')" using d by (simp add: durable_deliveries_def DEFAULT_MAX_DELIVER_def)
    have shape: "length acks \<le> min 5 (length ts)" "\<forall>a \<in> set (butlast acks). a = Nak"
      "length acks < min 5 (length ts) \<longrightarrow> acks \<noteq> [] \<and> last acks \<noteq> Nak"
      using deliver_until_shape [of zuuid sub "take 5 ts" msg w] by (simp_all add: run min.commute)
    have "acks = [Term] \<and> w' = w" if "ts \<noteq> []" "poison zuuid msg"
      using that run by (cases ts) (simp_all add: consume_poison)
    with shape True names show ?thesis unfolding d prod.case by (intro conjI) simp_all
  next
    case False
    then have "acks = []" "w' = w" using d by (simp_all add: durable_deliveries_def)
    with False names show ?thesis unfolding d prod.case by simp
  qed
qed

theorem consumer_delivery_verdict_witness:
  "durable_deliveries (\<lambda>_. True)
      \<lparr>sub_durable = ''billing_service'', sub_filter = subjectFor ''usage.recorded'',
       sub_handler = (\<lambda>t payload envelope w. billing_handler None (\<lambda>_. True) payload envelope w)\<rparr>
      [10, 20] \<lparr>msg_subject = ''cloudmesh.usage.recorded'', msg_id = ''m1'', msg_data = None\<rparr>
      \<lparr>cw_redis = (), cw_db = empty_db, cw_queue = [], cw_mail = ()\<rparr>
    = ([Term], \<lparr>cw_redis = (), cw_db = empty_db, cw_queue = [], cw_mail = ()\<rparr>)"
proof -
  let ?sub = "\<lparr>sub_durable = ''billing_service'', sub_filter = subjectFor ''usage.recorded'',
      sub_handler = (\<lambda>t payload envelope w. billing_handler None (\<lambda>_. True) payload envelope w)\<rparr> :: (unit, unit) subscription"
  let ?msg = "\<lparr>msg_subject = ''cloudmesh.usage.recorded'', msg_id = ''m1'', msg_data = None\<rparr>"
  let ?w = "\<lparr>cw_redis = (), cw_db = empty_db, cw_queue = [], cw_mail = ()\<rparr>"
  obtain R :: "unit counter_redis" and newId pretty cfg and net :: "unit mail_net" where
    sub: "?sub \<in> set (subscriptions R (\<lambda>_. True) newId pretty cfg net)" by (simp add: subscriptions_def)
  have bad: "poison (\<lambda>_. True) ?msg" by (simp add: poison_def)
  have fits: "subject_matches (sub_filter ?sub) (msg_subject ?msg)" by (simp add: subject_matches_def subjectFor_def)
  obtain acks w' where d: "durable_deliveries (\<lambda>_. True) ?sub [10, 20] ?msg ?w = (acks, w')" by force
  show ?thesis
    using consumer_delivery_verdict [OF sub, where ts = "[10, 20]" and msg = ?msg and w = ?w] bad fits unfolding d prod.case by blast
qed

text \<open>A mail that Resend did not take is acknowledged like one that was sent.\<close>

lemma failed_mail_acknowledged:
  assumes "msg_data msg = Some raw" and "parseEvent zuuid raw = Inr (envelope, Some (JObj kvs))"
    and "fst (withTenant d orgId (\<lambda>tx. (Inr (find (\<lambda>u. usr_orgId u = orgId \<and> usr_role u = OWNER) (users tx)), tx))) = Inr found"
    and "payload_org (Some (JObj kvs)) = Inr (Some orgId)"
  shows "fst (consume zuuid (email_handler pretty (consumers_sendEmail cfg net) d) msg w) = Ack"
  using assms
  by (auto simp: consume_def email_handler_def consumers_sendEmail_def split_beta split: option.split)

end
