(* ===== verification/Pages.thy ===== *)
theory Pages
  imports Sdk Dashboard
begin

text \<open>
  The event handlers of the dashboard's pages: the playground's \<^verbatim>\<open>onRun\<close> with its reader of event streams,
  the forms of the settings, API-key and login pages, and the requests the pages render from. A page's state is
  the record of its \<^verbatim>\<open>useState\<close> variables and a handler maps it to the state it leaves; what is drawn from it is
  in \<open>Views\<close>. Texts of JavaScript's own errors are their class names. The lemmas show what the
  playground displays of a stream the gateway sent, and how a form is left by an answer and by a failure.
\<close>

section \<open>PlaygroundClient.tsx\<close>

record RunMeta =
  rm_model :: "string option"
  rm_prov :: "string option"
  rm_promptTokens :: "rat option"
  rm_completionTokens :: "rat option"
  rm_latencyMs :: int

record playground =
  pg_apiKey :: string
  pg_requestBody :: string
  pg_output :: string
  pg_running :: bool
  pg_error :: "string option"
  pg_meta :: "RunMeta option"
  pg_stored :: "string option"

text \<open>
  What the browser's \<^verbatim>\<open>fetch\<close> gives: an exception, with whether it is an \<^verbatim>\<open>AbortError\<close>, or a status, a
  content type and, unless there is none, the body in chunks with the exception that cuts it short, if any.
\<close>

type_synonym js_exception = "string \<times> bool"

datatype run_fetch =
    FetchThrown js_exception
  | Fetched nat "string option" "(string list \<times> js_exception option) option"

record run_request =
  rq_key :: string
  rq_body :: string

definition run_body_json :: "(string list \<times> js_exception option) option \<Rightarrow> (js_exception, json) result" where
  "run_body_json body =
     (case body of
        None \<Rightarrow> Inl (''SyntaxError'', False)
      | Some (chunks, Some e) \<Rightarrow> Inl e
      | Some (chunks, None) \<Rightarrow> (case json_parse (concat chunks) of None \<Rightarrow> Inl (''SyntaxError'', False) | Some v \<Rightarrow> Inr v))"

definition run_meta :: "int \<Rightarrow> json \<Rightarrow> json option \<Rightarrow> RunMeta" where
  "run_meta latency chunk usage =
     \<lparr>rm_model = as_string (jget chunk ''model''), rm_prov = as_string (jget chunk ''provider''),
      rm_promptTokens = as_number (opt_get usage ''promptTokens''), rm_completionTokens = as_number (opt_get usage ''completionTokens''),
      rm_latencyMs = latency\<rparr>"

text \<open>The text so far and the figures shown under it. Flags are booleans; adding \<^verbatim>\<open>undefined\<close> to a text spells it out.\<close>

type_synonym run_view = "string \<times> RunMeta option"

definition run_frame :: "int \<Rightarrow> string \<Rightarrow> run_view \<Rightarrow> (js_exception, run_view) result" where
  "run_frame latency line = (\<lambda>(fullText, meta).
     if \<not> starts_with line ''data: '' then Inr (fullText, meta)
     else
       (let raw = drop 6 line in
        if raw = ''[DONE]'' then Inr (fullText, meta)
        else
          (case json_parse raw of
             None \<Rightarrow> Inl (''SyntaxError'', False)
           | Some JNull \<Rightarrow> Inl (''TypeError'', False)
           | Some chunk \<Rightarrow>
               Inr (fullText @ claim_text (as_string (jget chunk ''delta'')),
                    if jget chunk ''done'' = Some (JBool True) \<and> (case jget chunk ''usage'' of None \<Rightarrow> False | Some u \<Rightarrow> \<not> falsy u)
                    then Some (run_meta latency chunk (jget chunk ''usage'')) else meta))))"

fun run_frames :: "int \<Rightarrow> string list \<Rightarrow> run_view \<Rightarrow> run_view \<times> js_exception option" where
  "run_frames latency [] view = (view, None)"
| "run_frames latency (f # fs) view =
     (case run_frame latency f view of Inl e \<Rightarrow> (view, Some e) | Inr view' \<Rightarrow> run_frames latency fs view')"

fun run_stream :: "int \<Rightarrow> string \<Rightarrow> string list \<Rightarrow> js_exception option \<Rightarrow> run_view \<Rightarrow> run_view \<times> js_exception option" where
  "run_stream latency buffer [] failure view = (view, failure)"
| "run_stream latency buffer (v # vs) failure view =
     (let frames = split_blank (buffer @ v) in
      case run_frames latency (butlast frames) view of
        (view', Some e) \<Rightarrow> (view', Some e)
      | (view', None) \<Rightarrow> run_stream latency (last frames) vs failure view')"

definition catch_run :: "js_exception \<Rightarrow> playground \<Rightarrow> playground" where
  "catch_run e pg = (if snd e then pg else pg\<lparr>pg_error := Some (fst e)\<rparr>)"

definition error_or :: "json \<Rightarrow> string \<Rightarrow> string" where
  "error_or body alt = (case jget body ''error'' of Some (JStr m) \<Rightarrow> m | _ \<Rightarrow> alt)"

text \<open>The states of the page while an answer is read are those of its prefixes; this is the state at the end.\<close>

definition show_run :: "int \<Rightarrow> run_fetch \<Rightarrow> playground \<Rightarrow> playground" where
  "show_run latency answer pg =
     (case answer of
        FetchThrown e \<Rightarrow> catch_run e pg
      | Fetched status contentType body \<Rightarrow>
          if \<not> (200 \<le> status \<and> status \<le> 299) \<or> body = None then
            (case (case run_body_json body of Inl e \<Rightarrow> JObj [] | Inr v \<Rightarrow> v) of
               JNull \<Rightarrow> catch_run (''TypeError'', False) pg
             | v \<Rightarrow> pg\<lparr>pg_error := Some (error_or v (''Request failed ('' @ show_nat status @ '')''))\<rparr>)
          else if \<not> sublist ''text/event-stream'' (case contentType of None \<Rightarrow> [] | Some c \<Rightarrow> c) then
            (case run_body_json body of
               Inl e \<Rightarrow> catch_run e pg
             | Inr v \<Rightarrow>
                 (case (jget v ''message'', jget v ''usage'') of
                    (Some m, Some u) \<Rightarrow>
                      if m = JNull \<or> u = JNull then catch_run (''TypeError'', False) pg
                      else pg\<lparr>pg_output := claim_text (as_string (jget m ''content'')), pg_meta := Some (run_meta latency v (Some u))\<rparr>
                  | _ \<Rightarrow> catch_run (''TypeError'', False) pg))
          else
            (case run_stream latency [] (fst (the body)) (snd (the body)) (pg_output pg, pg_meta pg) of
               ((fullText, meta), failure) \<Rightarrow>
                 (let pg' = pg\<lparr>pg_output := fullText, pg_meta := meta\<rparr> in case failure of None \<Rightarrow> pg' | Some e \<Rightarrow> catch_run e pg')))"

text \<open>With the three bytes of the dash.\<close>

definition NO_KEY_MESSAGE :: string where
  "NO_KEY_MESSAGE = ''Paste an API key first '' @ [CHR 0xE2, CHR 0x80, CHR 0x94] @ '' the raw key is only ever shown once at creation.''"

definition onRun :: "(run_request \<Rightarrow> run_fetch) \<Rightarrow> int \<Rightarrow> playground \<Rightarrow> playground" where
  "onRun fetch latency pg =
     (let pg1 = pg\<lparr>pg_error := None, pg_output := [], pg_meta := None\<rparr> in
      if trim (pg_apiKey pg) = [] then pg1\<lparr>pg_error := Some NO_KEY_MESSAGE\<rparr>
      else
        (case json_parse (pg_requestBody pg) of
           None \<Rightarrow> pg1\<lparr>pg_error := Some ''Request body is not valid JSON.''\<rparr>
         | Some parsed \<Rightarrow>
             (show_run latency (fetch \<lparr>rq_key = pg_apiKey pg, rq_body = json_stringify parsed\<rparr>)
                (pg1\<lparr>pg_stored := Some (pg_apiKey pg), pg_running := True\<rparr>))\<lparr>pg_running := False\<rparr>))"

lemma run_frames_append:
  "run_frames lat (xs @ ys) view =
     (case run_frames lat xs view of (view', Some e) \<Rightarrow> (view', Some e) | (view', None) \<Rightarrow> run_frames lat ys view')"
  by (induction xs arbitrary: view) (auto split: sum.splits)

lemma run_stream_text:
  "split_blank b = [b] \<Longrightarrow> run_stream lat b chunks None view = run_frames lat (butlast (split_blank (b @ concat chunks))) view"
proof (induction chunks arbitrary: b view)
  case (Cons v vs)
  let ?l = "last (split_blank (b @ v))"
  have IH: "run_stream lat ?l vs None view' = run_frames lat (butlast (split_blank (?l @ concat vs))) view'" for view'
    by (rule Cons.IH [OF split_blank_last])
  have "butlast (split_blank (b @ concat (v # vs))) =
      butlast (split_blank (b @ v)) @ butlast (split_blank (?l @ concat vs))"
    using split_blank_append [of "b @ v" "concat vs"] by (simp add: butlast_append)
  then show ?case
    using IH by (simp add: Let_def run_frames_append split: prod.split option.split)
qed simp

text \<open>What the page shows after the chunks of a stream.\<close>

definition chunk_meta :: "int \<Rightarrow> UnifiedChatChunk \<Rightarrow> RunMeta option" where
  "chunk_meta latency c =
     (if chk_done c
      then map_option (\<lambda>u. \<lparr>rm_model = Some (chk_model c), rm_prov = Some (chk_provider c), rm_promptTokens = Some (promptTokens u),
             rm_completionTokens = Some (completionTokens u), rm_latencyMs = latency\<rparr>) (chk_usage c)
      else None)"

fun shown_meta :: "int \<Rightarrow> UnifiedChatChunk list \<Rightarrow> RunMeta option \<Rightarrow> RunMeta option" where
  "shown_meta latency [] meta = meta"
| "shown_meta latency (c # cs) meta =
     shown_meta latency cs (case chunk_meta latency c of None \<Rightarrow> meta | Some m \<Rightarrow> Some m)"

lemma run_frame_object:
  assumes "json_printable (JObj kvs)"
  shows "run_frame lat (''data: '' @ json_stringify (JObj kvs)) (full, meta) =
    Inr (full @ claim_text (as_string (map_of kvs ''delta'')),
         if map_of kvs ''done'' = Some (JBool True) \<and> (case map_of kvs ''usage'' of None \<Rightarrow> False | Some u \<Rightarrow> \<not> falsy u)
         then Some (run_meta lat (JObj kvs) (map_of kvs ''usage'')) else meta)"
proof -
  let ?t = "json_stringify (JObj kvs)"
  have "?t \<noteq> ''[DONE]''" by simp
  moreover have "json_parse ?t = Some (JObj kvs)" by (rule json_text_round_trip [OF assms])
  moreover have "starts_with (''data: '' @ ?t) ''data: ''" by simp
  moreover have "drop 6 (''data: '' @ ?t) = ?t" by simp
  ultimately show ?thesis unfolding run_frame_def prod.case by (simp del: json_stringify.simps)
qed

lemma run_frame_chunk:
  assumes "json_printable (chunk_json c)"
  shows "run_frame lat (''data: '' @ json_stringify (chunk_json c)) (full, meta) =
    Inr (full @ delta c, case chunk_meta lat c of None \<Rightarrow> meta | Some m \<Rightarrow> Some m)"
proof -
  obtain kvs where kvs: "chunk_json c = JObj kvs" by (simp add: chunk_json_def)
  have get: "map_of kvs k = jget (chunk_json c) k" for k by (simp add: kvs)
  show ?thesis
    using run_frame_object [of kvs lat full meta] assms unfolding kvs
    by (auto simp: get run_meta_def kvs [symmetric] chunk_meta_def)
      (auto simp: chunk_json_def claim_text_def usage_json_def falsy_def opt_get_def split: option.splits)
qed

lemma run_frames_events:
  assumes "\<And>c. c \<in> set cs \<Longrightarrow> json_printable (chunk_json c)"
  shows "run_frames lat (map (\<lambda>p. ''data: '' @ json_stringify p) (map chunk_json cs) @ fs) (full, meta) =
    run_frames lat fs (full @ concat (map delta cs), shown_meta lat cs meta)"
  using assms
proof (induction cs arbitrary: full meta)
  case (Cons c cs)
  then have "run_frame lat (''data: '' @ json_stringify (chunk_json c)) (full, meta) =
      Inr (full @ delta c, case chunk_meta lat c of None \<Rightarrow> meta | Some m \<Rightarrow> Some m)"
    by (intro run_frame_chunk) simp
  with Cons show ?case by simp
qed simp

lemma run_frame_done: "run_frame lat ''data: [DONE]'' view = Inr view"
  by (cases view) (simp add: run_frame_def)

lemma run_frame_error:
  "run_frame lat (''data: '' @ json_stringify (JObj [(''error'', JStr m)])) (full, meta) = Inr (full @ ''undefined'', meta)"
  using run_frame_object [of "[(''error'', JStr m)]" lat full meta] by (simp add: claim_text_def del: json_stringify.simps)

text \<open>
  What the playground shows is what the gateway streamed: however the network cuts the event stream, the
  output is the concatenation of its increments, the figures underneath are those of the last chunk that
  ended the answer with its usage, no error is shown, the button is free again and the key is kept for the
  tab. When the stream broke off in the middle, the event that says so is not understood: the page shows no
  error and appends the word \<^verbatim>\<open>undefined\<close> to the text.\<close>

theorem playground_shows_stream:
  assumes "trim (pg_apiKey pg) \<noteq> []" and "json_parse (pg_requestBody pg) = Some parsed"
    and "fetch \<lparr>rq_key = pg_apiKey pg, rq_body = json_stringify parsed\<rparr> = Fetched 200 (Some contentType) (Some (chunks, None))"
    and "sublist ''text/event-stream'' contentType"
    and "\<forall>c \<in> set cs. json_printable (chunk_json c)" and "errors \<in> {[], [JObj [(''error'', JStr msg)]]}"
    and "concat chunks = wire_text (EventStream (map chunk_json cs @ errors) ended)"
  shows "onRun fetch latency pg =
    pg\<lparr>pg_output := concat (map delta cs) @ (if errors = [] then [] else ''undefined''), pg_running := False, pg_error := None,
       pg_meta := shown_meta latency cs None, pg_stored := Some (pg_apiKey pg)\<rparr>"
proof -
  let ?f = "\<lambda>p. ''data: '' @ json_stringify p"
  let ?tail = "if ended then [''data: [DONE]'', []] else [[]]"
  have "split_blank (if ended then ''data: [DONE]'' @ [nl, nl] else []) = ?tail"
    using split_blank_frame [of "''data: [DONE]''" "[]"] by (simp add: nl_def)
  then have "split_blank (concat chunks) = map ?f (map chunk_json cs) @ map ?f errors @ ?tail"
    unfolding assms(7) wire_text.simps split_blank_events by simp
  moreover define fs where "fs = map ?f errors @ butlast ?tail"
  ultimately have frames: "butlast (split_blank (concat chunks)) = map ?f (map chunk_json cs) @ fs"
    by (simp add: butlast_append)
  have rest: "run_frames latency fs (full, meta) = ((full @ (if errors = [] then [] else ''undefined''), meta), None)" for full meta
    using assms(6) run_frame_error [of latency msg full meta] run_frame_done unfolding fs_def by auto
  have "run_stream latency [] chunks None ([], None) =
      ((concat (map delta cs) @ (if errors = [] then [] else ''undefined''), shown_meta latency cs None), None)"
    using run_stream_text [of "[]" latency chunks] run_frames_events [of cs latency fs "[]" None] assms(5) rest frames by simp
  then show ?thesis
    using assms(1-4) by (simp add: onRun_def show_run_def Let_def)
qed

definition demo_page :: playground where
  "demo_page = \<lparr>pg_apiKey = ''cm_live_x'', pg_requestBody = ''{}'', pg_output = ''old'', pg_running = False, pg_error = None, pg_meta = None,
     pg_stored = None\<rparr>"

theorem playground_shows_stream_witness:
  "pg_output (onRun (\<lambda>q. Fetched 200 (Some ''text/event-stream'') (Some ([take 9 demo_wire, take 30 (drop 9 demo_wire), drop 30 (drop 9 demo_wire)], None)))
     12 demo_page) = ''Hi''"
proof -
  let ?chunks = "[take 9 demo_wire, take 30 (drop 9 demo_wire), drop 30 (drop 9 demo_wire)]"
  have cut: "concat ?chunks = wire_text (EventStream (map chunk_json [demo_chunk ''Hi'' False, demo_chunk [] True] @ []) True)"
    by (rule trans [OF cut_text demo_wire_def])
  have printable: "\<forall>c \<in> set [demo_chunk ''Hi'' False, demo_chunk [] True]. json_printable (chunk_json c)"
    using demo_chunk_printable by (simp del: json_printable.simps)
  have key: "trim (pg_apiKey demo_page) \<noteq> []" by (simp add: demo_page_def trim_def is_space_def)
  have body: "json_parse (pg_requestBody demo_page) = Some (JObj [])"
    using json_text_round_trip [of "JObj []"] by (simp add: demo_page_def)
  from playground_shows_stream [OF key body _ _ printable _ cut, where fetch = "\<lambda>q. Fetched 200 (Some ''text/event-stream'') (Some (?chunks, None))"
      and contentType = "''text/event-stream''" and msg = "[]" and latency = 12]
  show ?thesis by (simp add: demo_chunk_def)
qed

section \<open>SettingsManager.tsx, ApiKeysManager.tsx, login/page.tsx and LogoutButton.tsx\<close>

text \<open>
  A form's request to the dashboard's own server and what comes of it: an exception, or a status and a text.
  A handler gives the state it leaves and the exception it ends with, if any; \<open>_refreshes\<close> counts the calls
  of \<^verbatim>\<open>router.refresh()\<close>.
\<close>

record form_request =
  fq_method :: string
  fq_path :: string
  fq_body :: "json option"

type_synonym form_fetch = "form_request \<Rightarrow> (string, nat \<times> string) result"

definition ok_status :: "nat \<Rightarrow> bool" where
  "ok_status status \<longleftrightarrow> 200 \<le> status \<and> status \<le> 299"

text \<open>\<^verbatim>\<open>body.error ?? alt\<close> of a body that is read with \<^verbatim>\<open>.catch(() => ({}))\<close>; a body of \<^verbatim>\<open>null\<close> throws.\<close>

definition failure_text :: "string \<Rightarrow> string \<Rightarrow> (string, string) result" where
  "failure_text body alt =
     (case json_parse body of None \<Rightarrow> Inr alt | Some JNull \<Rightarrow> Inl ''TypeError'' | Some v \<Rightarrow> Inr (error_or v alt))"

text \<open>A member of a body that must be there; \<^verbatim>\<open>undefined\<close> is \<open>None\<close>.\<close>

definition read_member :: "string \<Rightarrow> string \<Rightarrow> (string, string option) result" where
  "read_member body k =
     (case json_parse body of None \<Rightarrow> Inl ''SyntaxError'' | Some JNull \<Rightarrow> Inl ''TypeError'' | Some v \<Rightarrow> Inr (as_string (jget v k)))"

record settings_page =
  st_budgetInput :: string
  st_budgetError :: "string option"
  st_savingBudget :: bool
  st_url :: string
  st_selectedEvents :: "string list"
  st_webhookError :: "string option"
  st_registering :: bool
  st_newSecret :: "string option"
  st_refreshes :: nat

text \<open>\<^verbatim>\<open>JSON.stringify\<close> prints the numbers that are none as \<^verbatim>\<open>null\<close>.\<close>

definition number_json :: "jsnum \<Rightarrow> json" where
  "number_json n = (case n of Fin x \<Rightarrow> JNum x | _ \<Rightarrow> JNull)"

definition onSaveBudget :: "form_fetch \<Rightarrow> settings_page \<Rightarrow> settings_page \<times> string option" where
  "onSaveBudget fetch pg =
     (let pg1 = pg\<lparr>st_savingBudget := True, st_budgetError := None\<rparr> in
      case fetch \<lparr>fq_method = ''PATCH'', fq_path = ''/api/proxy/billing/budget'',
               fq_body = Some (JObj [(''monthlyBudgetOverrideUsd'',
                  if trim (st_budgetInput pg) = [] then JNull else number_json (js_number (st_budgetInput pg)))])\<rparr> of
        Inl e \<Rightarrow> (pg1, Some e)
      | Inr (status, body) \<Rightarrow>
          (let pg2 = pg1\<lparr>st_savingBudget := False\<rparr> in
           if \<not> ok_status status then
             (case failure_text body ''Failed to update budget'' of
                Inl e \<Rightarrow> (pg2, Some e) | Inr m \<Rightarrow> (pg2\<lparr>st_budgetError := Some m\<rparr>, None))
           else (pg2\<lparr>st_refreshes := Suc (st_refreshes pg2)\<rparr>, None)))"

definition toggleEvent :: "string \<Rightarrow> settings_page \<Rightarrow> settings_page" where
  "toggleEvent ty pg =
     pg\<lparr>st_selectedEvents :=
       (if ty \<in> set (st_selectedEvents pg) then filter (\<lambda>x. x \<noteq> ty) (st_selectedEvents pg) else st_selectedEvents pg @ [ty])\<rparr>"

definition onRegisterWebhook :: "form_fetch \<Rightarrow> settings_page \<Rightarrow> settings_page \<times> string option" where
  "onRegisterWebhook fetch pg =
     (let pg1 = pg\<lparr>st_registering := True, st_webhookError := None, st_newSecret := None\<rparr> in
      case fetch \<lparr>fq_method = ''POST'', fq_path = ''/api/proxy/webhooks'',
               fq_body = Some (JObj [(''url'', JStr (st_url pg)), (''eventTypes'', JArr (map JStr (st_selectedEvents pg)))])\<rparr> of
        Inl e \<Rightarrow> (pg1, Some e)
      | Inr (status, body) \<Rightarrow>
          (let pg2 = pg1\<lparr>st_registering := False\<rparr> in
           if \<not> ok_status status then
             (case failure_text body ''Failed to register webhook'' of
                Inl e \<Rightarrow> (pg2, Some e) | Inr m \<Rightarrow> (pg2\<lparr>st_webhookError := Some m\<rparr>, None))
           else
             (case read_member body ''secret'' of
                Inl e \<Rightarrow> (pg2, Some e)
              | Inr secret \<Rightarrow>
                  (pg2\<lparr>st_newSecret := secret, st_url := [], st_selectedEvents := [], st_refreshes := Suc (st_refreshes pg2)\<rparr>, None))))"

definition onDeleteWebhook :: "form_fetch \<Rightarrow> string \<Rightarrow> settings_page \<Rightarrow> settings_page \<times> string option" where
  "onDeleteWebhook fetch ident pg =
     (case fetch \<lparr>fq_method = ''DELETE'', fq_path = ''/api/proxy/webhooks/'' @ ident, fq_body = None\<rparr> of
        Inl e \<Rightarrow> (pg, Some e)
      | Inr _ \<Rightarrow> (pg\<lparr>st_refreshes := Suc (st_refreshes pg)\<rparr>, None))"

record keys_page =
  kp_scopes :: string
  kp_rateLimitRpm :: string
  kp_creating :: bool
  kp_error :: "string option"
  kp_rawKey :: "string option"
  kp_revokingId :: "string option"
  kp_refreshes :: nat

text \<open>\<^verbatim>\<open>Number(s) || undefined\<close>; an infinite number is printed as \<^verbatim>\<open>null\<close>.\<close>

definition rpm_member :: "string \<Rightarrow> json option" where
  "rpm_member s = (case js_number s of NaN \<Rightarrow> None | Fin x \<Rightarrow> (if x = 0 then None else Some (JNum x)) | Infinite \<Rightarrow> Some JNull)"

definition split_scopes :: "string \<Rightarrow> string list" where
  "split_scopes s = filter (\<lambda>x. x \<noteq> []) (map trim (split_on (CHR '','') s))"

definition onCreate :: "form_fetch \<Rightarrow> keys_page \<Rightarrow> keys_page \<times> string option" where
  "onCreate fetch pg =
     (let pg1 = pg\<lparr>kp_creating := True, kp_error := None, kp_rawKey := None\<rparr> in
      case fetch \<lparr>fq_method = ''POST'', fq_path = ''/api/proxy/api-keys'',
               fq_body = Some (JObj ((''scopes'', JArr (map JStr (split_scopes (kp_scopes pg)))) # jopt ''rateLimitRpm'' (rpm_member (kp_rateLimitRpm pg))))\<rparr> of
        Inl e \<Rightarrow> (pg1, Some e)
      | Inr (status, body) \<Rightarrow>
          (let pg2 = pg1\<lparr>kp_creating := False\<rparr> in
           if \<not> ok_status status then
             (case failure_text body ''Failed to create key'' of
                Inl e \<Rightarrow> (pg2, Some e) | Inr m \<Rightarrow> (pg2\<lparr>kp_error := Some m\<rparr>, None))
           else
             (case read_member body ''rawKey'' of
                Inl e \<Rightarrow> (pg2, Some e)
              | Inr rawKey \<Rightarrow> (pg2\<lparr>kp_rawKey := rawKey, kp_refreshes := Suc (kp_refreshes pg2)\<rparr>, None))))"

definition onRevoke :: "form_fetch \<Rightarrow> string \<Rightarrow> keys_page \<Rightarrow> keys_page \<times> string option" where
  "onRevoke fetch ident pg =
     (case fetch \<lparr>fq_method = ''DELETE'', fq_path = ''/api/proxy/api-keys/'' @ ident, fq_body = None\<rparr> of
        Inl e \<Rightarrow> (pg\<lparr>kp_revokingId := Some ident\<rparr>, Some e)
      | Inr _ \<Rightarrow> (pg\<lparr>kp_revokingId := None, kp_refreshes := Suc (kp_refreshes pg)\<rparr>, None))"

record login_page =
  lg_email :: string
  lg_password :: string
  lg_error :: "string option"
  lg_loading :: bool
  lg_pushed :: "string option"

definition onSubmit :: "form_fetch \<Rightarrow> login_page \<Rightarrow> login_page \<times> string option" where
  "onSubmit fetch pg =
     (let pg1 = pg\<lparr>lg_loading := True, lg_error := None\<rparr> in
      case fetch \<lparr>fq_method = ''POST'', fq_path = ''/api/auth/login'',
               fq_body = Some (JObj [(''email'', JStr (lg_email pg)), (''password'', JStr (lg_password pg))])\<rparr> of
        Inl e \<Rightarrow> (pg1, Some e)
      | Inr (status, body) \<Rightarrow>
          (let pg2 = pg1\<lparr>lg_loading := False\<rparr> in
           if \<not> ok_status status then
             (case failure_text body ''Invalid email or password'' of
                Inl e \<Rightarrow> (pg2, Some e) | Inr m \<Rightarrow> (pg2\<lparr>lg_error := Some m\<rparr>, None))
           else (pg2\<lparr>lg_pushed := Some ''/dashboard''\<rparr>, None)))"

text \<open>
  A form is free again after any answer. A request that fails leaves it busy: nothing in the handlers catches
  the exception, so the button stays disabled until the page is loaded again.
\<close>

lemma form_free_after_answer:
  assumes "fetch = (\<lambda>_. Inr answer)"
  shows "\<not> st_savingBudget (fst (onSaveBudget fetch st))" "\<not> st_registering (fst (onRegisterWebhook fetch st))"
    "\<not> kp_creating (fst (onCreate fetch kp))" "\<not> lg_loading (fst (onSubmit fetch lg))"
  by (cases answer; simp add: assms onSaveBudget_def onRegisterWebhook_def onCreate_def onSubmit_def Let_def split: sum.split)+

lemma form_stuck_after_failure:
  assumes "fetch = (\<lambda>_. Inl e)"
  shows "st_savingBudget (fst (onSaveBudget fetch st))" "st_registering (fst (onRegisterWebhook fetch st))"
    "kp_creating (fst (onCreate fetch kp))" "lg_loading (fst (onSubmit fetch lg))" "kp_revokingId (fst (onRevoke fetch i kp)) = Some i"
  by (simp_all add: assms onSaveBudget_def onRegisterWebhook_def onCreate_def onSubmit_def onRevoke_def Let_def)

lemma toggle_twice:
  assumes "ty \<notin> set (st_selectedEvents pg)"
  shows "toggleEvent ty (toggleEvent ty pg) = pg"
proof -
  have "filter (\<lambda>x. x \<noteq> ty) (st_selectedEvents pg) = st_selectedEvents pg" using assms by (intro filter_True) auto
  then show ?thesis using assms by (simp add: toggleEvent_def)
qed

section \<open>What the pages ask for\<close>

record logout_button =
  lo_loading :: bool
  lo_pushed :: "string option"

definition onClick :: "form_fetch \<Rightarrow> logout_button \<Rightarrow> logout_button \<times> string option" where
  "onClick fetch lo =
     (case fetch \<lparr>fq_method = ''POST'', fq_path = ''/api/auth/logout'', fq_body = None\<rparr> of
        Inl e \<Rightarrow> (lo\<lparr>lo_loading := True\<rparr>, Some e)
      | Inr _ \<Rightarrow> (lo\<lparr>lo_loading := True, lo_pushed := Some ''/login''\<rparr>, None))"

text \<open>
  The server components: each page needs a session (the layout redirects without one) and reads the API with
  \<^verbatim>\<open>fetchOrRedirect\<close>. Requests that a page makes together are made one after the other here; the first that
  redirects or fails decides.
\<close>

definition layout :: "dash_env \<Rightarrow> jar \<Rightarrow> page_outcome" where
  "layout E jar =
     (case getSession E jar of
        None \<Rightarrow> Redirected ''/login''
      | Some session \<Rightarrow> PageData (case ses_user session of None \<Rightarrow> JNull | Some u \<Rightarrow> u))"

definition usage_period :: "string option \<Rightarrow> string" where
  "usage_period p = (if (case p of None \<Rightarrow> [] | Some x \<Rightarrow> x) \<in> {''24h'', ''7d'', ''30d''} then the p else ''7d'')"

definition UsagePage :: "dash_env \<Rightarrow> 'w api_net \<Rightarrow> Session \<Rightarrow> string option \<Rightarrow> ms \<Rightarrow> 'w \<Rightarrow> page_outcome \<times> ms \<times> 'w" where
  "UsagePage E net session period = fetchOrRedirect E net session (''/analytics?period='' @ usage_period period)"

definition LogsPage :: "dash_env \<Rightarrow> 'w api_net \<Rightarrow> Session \<Rightarrow> string option \<Rightarrow> ms \<Rightarrow> 'w \<Rightarrow> page_outcome \<times> ms \<times> 'w" where
  "LogsPage E net session model =
     fetchOrRedirect E net session
       (''/analytics/logs'' @ (case model of None \<Rightarrow> [] | Some m \<Rightarrow> if m = [] then [] else ''?model='' @ encodeURIComponent m))"

definition money :: "rat \<Rightarrow> string" where
  "money n = CHR ''$'' # toFixed2 n"

definition avgPerRequest :: "rat \<Rightarrow> rat \<Rightarrow> rat" where
  "avgPerRequest cost n = (if n > 0 then cost / n else 0)"

text \<open>The figures on the overview: average cost, month's spend and what is left of the budget.\<close>

definition overview_cards :: "json \<Rightarrow> json \<Rightarrow> string \<times> string \<times> string" where
  "overview_cards budget analytics =
     (let totals = jget analytics ''totals''; spent = jnum (jget budget ''spentUsd'')
      in (money (avgPerRequest (jnum (opt_get totals ''costUsd'')) (jnum (opt_get totals ''requests''))), money spent,
          case jget budget ''budgetUsd'' of
            Some (JNum b) \<Rightarrow> money (max (jnum (jget budget ''remainingUsd'')) 0) @ '' of '' @ money b
          | _ \<Rightarrow> ''Unlimited''))"

lemma layout_needs_session: "getSession E jar = None \<longleftrightarrow> layout E jar = Redirected ''/login''"
  by (simp add: layout_def split: option.split)

lemma usage_period_known: "usage_period p \<in> {''24h'', ''7d'', ''30d''}"
  by (auto simp: usage_period_def split: option.splits)

end
