(* ===== verification/Tenancy.thy ===== *)
theory Tenancy
  imports ApiRoutes
begin

text \<open>
  Isolation of tenants, across \<^verbatim>\<open>packages/db/src/tenant.ts\<close>, the services and the routes that read and write in
  its transactions. An organisation's view of the database is what row-level security leaves of it. The
  lemmas show that every read sees the view only, that every call for one organisation leaves the
  views of the others alone, and hence that no sequence of calls for others changes an answer.
\<close>

section \<open>What an organisation can see\<close>

definition tenant_view :: "string \<Rightarrow> db \<Rightarrow> db" where
  "tenant_view orgId d =
     \<lparr>organizations = filter (\<lambda>r. org_id r = orgId) (organizations d), billing_plans = billing_plans d,
      invoices = tenant_rows inv_orgId orgId (invoices d), stripe_events = [], outbox_events = [],
      users = tenant_rows usr_orgId orgId (users d), api_keys = tenant_rows ak_orgId orgId (api_keys d),
      usage_records = tenant_rows ur_orgId orgId (usage_records d), jobs = tenant_rows job_orgId orgId (jobs d),
      audit_log = tenant_rows al_orgId orgId (audit_log d),
      webhook_endpoints = tenant_rows we_orgId orgId (webhook_endpoints d),
      webhook_events = tenant_rows wev_orgId orgId (webhook_events d),
      webhook_deliveries = tenant_rows wd_orgId orgId (webhook_deliveries d),
      semantic_cache = tenant_rows sce_orgId orgId (semantic_cache d)\<rparr>"

lemma tenant_rows_idem [simp]: "tenant_rows f orgId (tenant_rows f orgId rows) = tenant_rows f orgId rows"
  by (simp add: tenant_rows_def)

lemma tenant_rows_Nil [simp]: "tenant_rows f orgId [] = []"
  by (simp add: tenant_rows_def)

lemma tenant_rows_append [simp]: "tenant_rows f orgId (xs @ ys) = tenant_rows f orgId xs @ tenant_rows f orgId ys"
  by (simp add: tenant_rows_def)

lemma tenant_rows_other [simp]: "f r \<noteq> orgId \<Longrightarrow> tenant_rows f orgId [r] = []"
  by (simp add: tenant_rows_def)

lemma withTenant_read:
  assumes "fst (fn d) = fst (fn d')"
  shows "fst (withTenant d orgId fn) = fst (withTenant d' orgId fn)"
  using assms by (auto simp: withTenant_def split: prod.splits sum.splits)

lemma map_filter_filter: "(\<And>x. \<not> P x \<Longrightarrow> g x = None) \<Longrightarrow> List.map_filter g (filter P xs) = List.map_filter g xs"
  by (induction xs) (auto simp: List.map_filter_simps split: option.splits)

text \<open>Every read is a function of the view.\<close>

lemma listApiKeys_view: "listApiKeys (tenant_view orgId d) orgId = listApiKeys d orgId"
  unfolding listApiKeys_def by (rule withTenant_read) (simp add: tenant_view_def)

lemma listWebhookEndpoints_view: "listWebhookEndpoints (tenant_view orgId d) orgId = listWebhookEndpoints d orgId"
  unfolding listWebhookEndpoints_def by (rule withTenant_read) (simp add: tenant_view_def)

lemma listWebhookDeliveries_view:
  "listWebhookDeliveries take_rows (tenant_view orgId d) orgId endpointId limit
    = listWebhookDeliveries take_rows d orgId endpointId limit"
  unfolding listWebhookDeliveries_def by (rule withTenant_read) (simp add: tenant_view_def)

lemma listInvoices_view: "listInvoices (tenant_view orgId d) orgId = listInvoices d orgId"
  unfolding listInvoices_def by (rule withTenant_read) (simp add: tenant_view_def)

lemma getJob_view: "getJob (tenant_view orgId d) orgId jobId = getJob d orgId jobId"
  unfolding getJob_def by (rule withTenant_read) (simp add: tenant_view_def find_job_def)

lemma listJobs_view: "listJobs (tenant_view orgId d) orgId status limit = listJobs d orgId status limit"
  unfolding listJobs_def by (rule withTenant_read) (simp add: tenant_view_def)

lemma usage_since_view: "usage_since orgId since (tenant_view orgId d) = usage_since orgId since d"
  by (simp add: usage_since_def tenant_view_def)

lemma getAnalytics_view: "getAnalytics (tenant_view orgId d) orgId period now = getAnalytics d orgId period now"
proof -
  have "fst (withTenant (tenant_view orgId d) orgId (\<lambda>tx. (result_bind (bucket_query orgId since tx) (\<lambda>buckets.
           result_bind (model_query orgId since tx) (\<lambda>models. Inr (buckets, models))), tx)))
      = fst (withTenant d orgId (\<lambda>tx. (result_bind (bucket_query orgId since tx) (\<lambda>buckets.
           result_bind (model_query orgId since tx) (\<lambda>models. Inr (buckets, models))), tx)))" for since
    by (rule withTenant_read) (simp add: bucket_query_def model_query_def usage_since_view)
  then show ?thesis by (simp add: getAnalytics_def Let_def)
qed

lemma listRequestLogs_view: "listRequestLogs (tenant_view orgId d) orgId model limit = listRequestLogs d orgId model limit"
  unfolding listRequestLogs_def
  by (rule arg_cong [where f = "\<lambda>r. result_bind r _"], rule withTenant_read) (simp add: tenant_view_def)

lemma getOrgBudgetStatus_view: "getOrgBudgetStatus (tenant_view orgId d) orgId now = getOrgBudgetStatus d orgId now"
proof -
  have org: "find_org orgId (tenant_view orgId d) = find_org orgId d"
    by (simp add: find_org_def tenant_view_def find_filter)
  have spent: "fst (withTenant (tenant_view orgId d) orgId (\<lambda>tx. (Inr (spent_since orgId start tx), tx)))
      = fst (withTenant d orgId (\<lambda>tx. (Inr (spent_since orgId start tx), tx)))" for start
    by (rule withTenant_read) (simp add: spent_since_def tenant_view_def)
  have plans: "billing_plans (tenant_view orgId d) = billing_plans d" by (simp add: tenant_view_def)
  show ?thesis by (simp only: getOrgBudgetStatus_def getBudgetStatus_def org spent plans)
qed

lemma lookupCache_view:
  "lookupCache vdist (tenant_view orgId d) orgId model h embedding opts now = lookupCache vdist d orgId model h embedding opts now"
proof -
  have "exact_hits orgId model h days now (tenant_view orgId d) = exact_hits orgId model h days now d" for days
    unfolding exact_hits_def by (rule arg_cong [where f = "sort_key _"])
      (auto simp: tenant_view_def tenant_rows_def cache_live_def intro!: filter_cong)
  moreover have "semantic_hits vdist orgId model v days now (tenant_view orgId d) = semantic_hits vdist orgId model v days now d" for v days
    unfolding semantic_hits_def
  proof (rule arg_cong [where f = "sort_key fst"])
    show "List.map_filter (\<lambda>e. if cache_live orgId model days now e then map_option (\<lambda>w. (vdist w v, e)) (sce_embedding e) else None)
          (semantic_cache (tenant_view orgId d))
        = List.map_filter (\<lambda>e. if cache_live orgId model days now e then map_option (\<lambda>w. (vdist w v, e)) (sce_embedding e) else None)
          (semantic_cache d)"
      unfolding tenant_view_def tenant_rows_def db.select_convs by (rule map_filter_filter) (simp add: cache_live_def)
  qed
  ultimately show ?thesis
    unfolding lookupCache_def by (intro withTenant_read) (simp split: list.split sum.split)
qed

lemmas read_views = listApiKeys_view listWebhookEndpoints_view listWebhookDeliveries_view listInvoices_view getJob_view
  listJobs_view getAnalytics_view listRequestLogs_view getOrgBudgetStatus_view lookupCache_view

section \<open>What others do\<close>

text \<open>
  The calls that write for one organisation: the routes of the API, what the gateway writes for a request, and
  what the workers write for a job or a delivery. Fresh ids are arguments, as everywhere.
\<close>

datatype tenant_call =
  CreateKey string string string json
| RevokeKey string string
| RegisterWebhook string string json
| DeleteWebhook string
| PatchBudget json
| CreateJob string string "string option" string json "json option"
| ReplayJob string string
| JobRunning string int
| JobProgress string "rat option"
| JobCompleted string json
| JobFailed string string bool
| RecordUsage string string string UnifiedUsage string
| StoreCache string string "rat list" string
| FlushCache "string option"
| DispatchEvent string json
| DeliveryAttempt string int DeliveryAttemptResult bool

record 's platform =
  pf_redis :: 's
  pf_jobs :: jobs_world
  pf_webhooks :: "WebhookJobData list"

abbreviation pf_db :: "'s platform \<Rightarrow> db" where
  "pf_db w \<equiv> jw_db (pf_jobs w)"

definition put_db :: "'s platform \<Rightarrow> db \<Rightarrow> 's platform" where
  "put_db w d = w\<lparr>pf_jobs := (pf_jobs w)\<lparr>jw_db := d\<rparr>\<rparr>"

record call_env =
  ce_issue :: "json \<Rightarrow> string"
  ce_sha :: "string \<Rightarrow> string"
  ce_checkTarget :: "string \<Rightarrow> SsrfCheckResult"

text \<open>The state a call leaves; its answer goes to the caller. \<open>newId\<close> gives the ids the database draws.\<close>

fun serve :: "('s, 'm) redis_scheme \<Rightarrow> call_env \<Rightarrow> (nat \<Rightarrow> string) \<Rightarrow> AccessTokenPayload \<Rightarrow> ms \<Rightarrow> tenant_call \<Rightarrow> 's platform \<Rightarrow> 's platform" where
  "serve R env newId user t (CreateKey random rowId eventId body) w =
     put_db w (snd (create_key_route (ce_issue env) (ce_sha env) random rowId eventId user body t (pf_db w)))"
| "serve R env newId user t (RevokeKey eventId keyId) w =
     (let (s', d') = snd (revoke_key_route R eventId user keyId t (pf_redis w, pf_db w)) in put_db w d'\<lparr>pf_redis := s'\<rparr>)"
| "serve R env newId user t (RegisterWebhook rowId random body) w =
     put_db w (snd (register_webhook_route (ce_issue env) (ce_checkTarget env) rowId random user body t (pf_db w)))"
| "serve R env newId user t (DeleteWebhook endpointId) w = put_db w (snd (delete_webhook_route user endpointId (pf_db w)))"
| "serve R env newId user t (PatchBudget body) w = put_db w (snd (patch_budget_route (ce_issue env) user body (pf_db w)))"
| "serve R env newId user t (CreateJob rowId bullId apiKeyId ty payload priority) w =
     w\<lparr>pf_jobs := snd (createJob rowId bullId (claim_text (at_orgId user)) apiKeyId ty payload priority t (pf_jobs w))\<rparr>"
| "serve R env newId user t (ReplayJob bullId jobId) w =
     w\<lparr>pf_jobs := snd (replay_job_route bullId (claim_text (at_orgId user)) jobId (pf_jobs w))\<rparr>"
| "serve R env newId user t (JobRunning jobId attempt) w =
     w\<lparr>pf_jobs := snd (markJobRunning jobId (claim_text (at_orgId user)) attempt t (pf_jobs w))\<rparr>"
| "serve R env newId user t (JobProgress jobId percent) w =
     w\<lparr>pf_jobs := snd (updateJobProgress jobId (claim_text (at_orgId user)) percent (pf_jobs w))\<rparr>"
| "serve R env newId user t (JobCompleted jobId res) w =
     w\<lparr>pf_jobs := snd (markJobCompleted newId jobId (claim_text (at_orgId user)) res t (pf_jobs w))\<rparr>"
| "serve R env newId user t (JobFailed jobId msg final) w =
     w\<lparr>pf_jobs := snd (markJobFailed newId jobId (claim_text (at_orgId user)) msg final t (pf_jobs w))\<rparr>"
| "serve R env newId user t (RecordUsage rowId apiKeyId model usage requestId) w =
     put_db w (snd (recordUsageAndOutbox rowId \<lparr>rup_orgId = claim_text (at_orgId user), rup_apiKeyId = apiKeyId, rup_model = model,
       rup_usage = usage, rup_requestId = requestId\<rparr> t (pf_db w)))"
| "serve R env newId user t (StoreCache model h embedding response) w =
     put_db w (snd (storeCache (claim_text (at_orgId user)) model h embedding response t (pf_db w)))"
| "serve R env newId user t (FlushCache keepModel) w = put_db w (snd (flushCache (claim_text (at_orgId user)) keepModel (pf_db w)))"
| "serve R env newId user t (DispatchEvent eventType payload) w =
     (let (q', d') = snd (dispatchWebhookEvent newId t (claim_text (at_orgId user)) eventType payload (pf_webhooks w) (pf_db w))
      in put_db w d'\<lparr>pf_webhooks := q'\<rparr>)"
| "serve R env newId user t (DeliveryAttempt deliveryId attempt res final) w =
     put_db w (snd (recordDeliveryAttempt (claim_text (at_orgId user)) deliveryId attempt res final t (pf_db w)))"

text \<open>
  Endpoint ids are a primary key, and a delivery belongs to the organisation of its endpoint: deleting an
  endpoint deletes its deliveries whoever they belong to, so isolation rests on this invariant.
\<close>

definition deliveries_owned :: "db \<Rightarrow> bool" where
  "deliveries_owned d \<longleftrightarrow> (\<forall>e \<in> set (webhook_endpoints d). \<forall>w \<in> set (webhook_deliveries d).
     wd_endpointId w = we_id e \<longrightarrow> wd_orgId w = we_orgId e) \<and> distinct (map we_id (webhook_endpoints d))"

fun fresh_call :: "tenant_call \<Rightarrow> db \<Rightarrow> bool" where
  "fresh_call (RegisterWebhook rowId random body) d \<longleftrightarrow>
     rowId \<notin> we_id ` set (webhook_endpoints d) \<and> rowId \<notin> wd_endpointId ` set (webhook_deliveries d)"
| "fresh_call _ d \<longleftrightarrow> True"

inductive other_step :: "('s, 'm) redis_scheme \<Rightarrow> call_env \<Rightarrow> string \<Rightarrow> 's platform \<Rightarrow> 's platform \<Rightarrow> bool" for R env orgId where
  call: "claim_text (at_orgId user) \<noteq> orgId \<Longrightarrow> fresh_call c (pf_db w) \<Longrightarrow> other_step R env orgId w (serve R env newId user t c w)"

inductive_cases other_stepE: "other_step R env orgId w w'"

section \<open>A call for one organisation leaves the others alone\<close>

definition isolated :: "string \<Rightarrow> db \<Rightarrow> db \<Rightarrow> bool" where
  "isolated orgId d d' \<longleftrightarrow> (deliveries_owned d \<longrightarrow> tenant_view orgId d' = tenant_view orgId d \<and> deliveries_owned d')"

lemma isolated_refl [simp, intro]: "isolated orgId d d"
  by (simp add: isolated_def)

lemma isolated_trans: "isolated orgId d d1 \<Longrightarrow> isolated orgId d1 d2 \<Longrightarrow> isolated orgId d d2"
  by (simp add: isolated_def)

text \<open>Outside the webhook tables only the views count.\<close>

lemma isolatedI:
  assumes "tenant_view orgId d' = tenant_view orgId d" "webhook_endpoints d' = webhook_endpoints d"
    "webhook_deliveries d' = webhook_deliveries d"
  shows "isolated orgId d d'"
  using assms by (simp add: isolated_def deliveries_owned_def)

lemma isolated_withTenant:
  assumes "isolated orgId d (snd (fn d))"
  shows "isolated orgId d (snd (withTenant d me fn))"
  using assms by (auto simp: withTenant_def split: prod.splits sum.splits)

lemma isolated_outbox [simp]: "isolated orgId d (writeOutboxEvent rowId now ty payload d') \<longleftrightarrow> isolated orgId d d'"
  by (simp add: isolated_def deliveries_owned_def writeOutboxEvent_def tenant_view_def)

lemma snd_case_sum: "snd (case r of Inl e \<Rightarrow> (F e, d) | Inr a \<Rightarrow> (G a, d)) = d"
  by (simp split: sum.split)

lemma isolated_createApiKey:
  assumes "me \<noteq> orgId"
  shows "isolated orgId d (snd (createApiKey sha random rowId eventId now me scopes rpm d))"
proof -
  have "isolated orgId d (d\<lparr>api_keys := api_keys d @ [k]\<rparr>)" if "ak_orgId k = me" for k
    using assms that by (intro isolatedI) (simp_all add: tenant_view_def)
  then show ?thesis
    unfolding createApiKey_def Let_def case_prod_beta
    by (simp only: snd_case_sum) (intro isolated_withTenant, simp)
qed

lemma isolated_revokeApiKey:
  assumes "me \<noteq> orgId"
  shows "isolated orgId d (snd (snd (revokeApiKey R eventId me keyId t (s, d))))"
proof -
  have upd: "isolated orgId d (d\<lparr>api_keys := tenant_update ak_orgId me P (\<lambda>r. r\<lparr>ak_isActive := False\<rparr>) (api_keys d)\<rparr>)" for P
    using assms by (intro isolatedI) (simp_all add: tenant_view_def tenant_update_other)
  let ?X = "withTenant d me (\<lambda>tx.
            case find (\<lambda>r. ak_id r = keyId) (tenant_rows ak_orgId me (api_keys tx)) of
              None \<Rightarrow> (Inl (ThrownJs ''P2025''), tx)
            | Some key \<Rightarrow>
                (Inr key, writeOutboxEvent eventId t ''api_key.revoked'' (key_event_payload me key)
                   (tx\<lparr>api_keys := tenant_update ak_orgId me (\<lambda>r. ak_id r = keyId) (\<lambda>r. r\<lparr>ak_isActive := False\<rparr>) (api_keys tx)\<rparr>)))"
  have iso: "isolated orgId d (snd ?X)"
    using upd by (intro isolated_withTenant) (simp split: option.split)
  obtain r d' where X: "?X = (r, d')" by (cases ?X)
  show ?thesis
    using iso unfolding revokeApiKey_def X prod.case by (simp split: sum.split thrown.split)
qed

lemma isolated_registerWebhookEndpoint:
  assumes "me \<noteq> orgId" and "rowId \<notin> we_id ` set (webhook_endpoints d)" and "rowId \<notin> wd_endpointId ` set (webhook_deliveries d)"
  shows "isolated orgId d (snd (registerWebhookEndpoint checkTarget rowId now random me target types d))"
proof -
  have "isolated orgId d (d\<lparr>webhook_endpoints := webhook_endpoints d @ [e]\<rparr>)" if "we_orgId e = me" "we_id e = rowId" for e
    using assms that by (auto simp: isolated_def deliveries_owned_def tenant_view_def) (metis image_eqI)
  then show ?thesis
    unfolding registerWebhookEndpoint_def Let_def case_prod_beta
    by (simp only: snd_case_sum if_distrib [of snd] snd_conv) (auto intro!: isolated_withTenant)
qed

lemma isolated_deleteWebhookEndpoint:
  assumes "me \<noteq> orgId"
  shows "isolated orgId d (snd (deleteWebhookEndpoint me endpointId d))"
proof -
  let ?gone = "\<lambda>e. we_orgId e = me \<and> we_id e = endpointId"
  let ?d = "d\<lparr>webhook_endpoints := filter (\<lambda>e. \<not> ?gone e) (webhook_endpoints d),
      webhook_deliveries := filter (\<lambda>w. wd_endpointId w \<noteq> endpointId) (webhook_deliveries d)\<rparr>"
  have "isolated orgId d ?d" if e: "e \<in> set (webhook_endpoints d)" "?gone e" for e
  proof (unfold isolated_def, intro impI conjI)
    assume owned: "deliveries_owned d"
    have "wd_endpointId w \<noteq> endpointId" if "w \<in> set (webhook_deliveries d)" "wd_orgId w = orgId" for w
      using owned [unfolded deliveries_owned_def, THEN conjunct1, rule_format, OF e(1) that(1)] e(2) that(2) assms by auto
    then have "filter (\<lambda>w. wd_orgId w = orgId) (filter (\<lambda>w. wd_endpointId w \<noteq> endpointId) (webhook_deliveries d))
        = filter (\<lambda>w. wd_orgId w = orgId) (webhook_deliveries d)"
      unfolding filter_filter by (intro filter_cong) auto
    moreover have "filter (\<lambda>e. we_orgId e = orgId) (filter (\<lambda>e. \<not> ?gone e) (webhook_endpoints d))
        = filter (\<lambda>e. we_orgId e = orgId) (webhook_endpoints d)"
      unfolding filter_filter using assms by (intro filter_cong) auto
    ultimately show "tenant_view orgId ?d = tenant_view orgId d"
      by (simp add: tenant_view_def tenant_rows_def del: filter_filter)
    show "deliveries_owned ?d"
      using owned by (auto simp: deliveries_owned_def distinct_map_filter)
  qed
  then show ?thesis
    unfolding deleteWebhookEndpoint_def Let_def
    by (intro isolated_withTenant) (auto simp: filter_empty_conv)
qed

lemma isolated_patch_budget:
  assumes "me \<noteq> orgId"
  shows "isolated orgId d (snd (updateBudgetOverride me override d))"
proof -
  have "filter (\<lambda>r. org_id r = orgId) (map (\<lambda>r. if org_id r = me then r\<lparr>org_budgetOverrideUsd := c\<rparr> else r) rows)
      = filter (\<lambda>r. org_id r = orgId) rows" for c rows
    using assms by (induction rows) auto
  then have "isolated orgId d (d\<lparr>organizations := map (\<lambda>r. if org_id r = me then r\<lparr>org_budgetOverrideUsd := c\<rparr> else r) (organizations d)\<rparr>)" for c
    by (intro isolatedI) (simp_all add: tenant_view_def)
  then show ?thesis
    unfolding updateBudgetOverride_def by (auto split: option.splits prod.splits)
qed

lemma isolated_update_job:
  assumes "me \<noteq> orgId" and "\<And>j. job_orgId (f j) = job_orgId j"
  shows "isolated orgId d (update_job me jobId f d)"
  using assms by (intro isolatedI) (simp_all add: tenant_view_def update_job_def tenant_update_other)

lemma isolated_update_or_throw:
  assumes "me \<noteq> orgId" and "\<And>j. job_orgId (f j) = job_orgId j"
  shows "isolated orgId d (snd (update_or_throw me jobId f d))"
  using isolated_update_job [OF assms] by (simp add: update_or_throw_def split: option.split)

lemma isolated_then_publish:
  "isolated orgId d (snd rd) \<Longrightarrow> isolated orgId d (jw_db (snd (then_publish rd event w)))"
  by (auto simp: then_publish_def publishJobProgress_def split: prod.splits sum.splits)

lemma isolated_job_marks:
  assumes "me \<noteq> orgId"
  shows "isolated orgId (jw_db w) (jw_db (snd (markJobRunning jobId me attempt now w)))"
    and "isolated orgId (jw_db w) (jw_db (snd (updateJobProgress jobId me percent w)))"
    and "isolated orgId (jw_db w) (jw_db (snd (markJobCompleted newId jobId me res now w)))"
    and "isolated orgId (jw_db w) (jw_db (snd (markJobFailed newId jobId me msg final now w)))"
proof -
  show "isolated orgId (jw_db w) (jw_db (snd (markJobRunning jobId me attempt now w)))"
    unfolding markJobRunning_def by (intro isolated_then_publish isolated_withTenant) (simp add: isolated_update_job assms)
  show "isolated orgId (jw_db w) (jw_db (snd (updateJobProgress jobId me percent w)))"
    unfolding updateJobProgress_def Let_def by (intro isolated_then_publish isolated_withTenant) (simp add: isolated_update_job assms)
  show "isolated orgId (jw_db w) (jw_db (snd (markJobCompleted newId jobId me res now w)))"
    unfolding markJobCompleted_def
    by (intro isolated_then_publish isolated_withTenant)
      (simp add: update_or_throw_def isolated_update_job assms split: option.split)
  show "isolated orgId (jw_db w) (jw_db (snd (markJobFailed newId jobId me msg final now w)))"
    unfolding markJobFailed_def Let_def
    by (intro isolated_then_publish isolated_withTenant) (simp add: isolated_update_job assms split: option.split)
qed

lemma isolated_createJob:
  assumes "me \<noteq> orgId"
  shows "isolated orgId (jw_db w) (jw_db (snd (createJob rowId bullId me apiKeyId ty payload priority now w)))"
proof (cases "toPriorityValue priority")
  case (Some p)
  define row where "row = \<lparr>job_id = rowId, job_orgId = me, job_apiKeyId = apiKeyId, job_bullJobId = None, job_type = ty,
                 job_status = QUEUED, job_priority = p, job_payload = payload, job_progress = 0, job_result = None,
                 job_error = None, job_attempts = 0, job_createdAt = now, job_startedAt = None, job_finishedAt = None\<rparr>"
  let ?X = "withTenant (jw_db w) me (\<lambda>tx. (Inr (), tx\<lparr>jobs := jobs tx @ [row]\<rparr>))"
  have one: "isolated orgId (jw_db w) (snd ?X)"
    using assms by (intro isolated_withTenant isolatedI) (simp_all add: tenant_view_def row_def)
  let ?Y = "withTenant (snd ?X) me (update_or_throw me rowId (\<lambda>j. j\<lparr>job_bullJobId := Some bullId\<rparr>))"
  have two: "isolated orgId (jw_db w) (snd ?Y)"
    by (rule isolated_trans [OF one]) (intro isolated_withTenant isolated_update_or_throw, use assms in simp_all)
  have "jw_db (snd (createJob rowId bullId me apiKeyId ty payload priority now w)) \<in> {snd ?X, snd ?Y}"
    unfolding createJob_def Some option.case Let_def row_def [symmetric] case_prod_beta by (simp split: sum.split)
  then show ?thesis using one two by auto
qed (simp add: createJob_def)

lemma isolated_replayJob:
  assumes "me \<noteq> orgId"
  shows "isolated orgId (jw_db w) (jw_db (snd (replayJob bullId me jobId w)))"
proof -
  let ?X = "\<lambda>job. withTenant (jw_db w) me (update_or_throw me (job_id job)
      (\<lambda>j. j\<lparr>job_status := QUEUED, job_error := None, job_progress := 0, job_attempts := 0, job_startedAt := None, job_finishedAt := None\<rparr>))"
  let ?Y = "\<lambda>job. withTenant (snd (?X job)) me (update_or_throw me (job_id job) (\<lambda>j. j\<lparr>job_bullJobId := Some bullId\<rparr>))"
  have one: "isolated orgId (jw_db w) (snd (?X job))" for job :: Job
    using assms by (intro isolated_withTenant isolated_update_or_throw) simp_all
  have two: "isolated orgId (jw_db w) (snd (?Y job))" for job :: Job
    by (rule isolated_trans [OF one [of job]]) (intro isolated_withTenant isolated_update_or_throw, use assms in simp_all)
  show ?thesis
    unfolding replayJob_def Let_def case_prod_beta by (simp add: one two split: sum.split option.split)
qed

lemma isolated_recordUsage:
  assumes "rup_orgId params \<noteq> orgId"
  shows "isolated orgId d (snd (recordUsageAndOutbox rowId params now d))"
proof -
  have "isolated orgId d (snd (insert_usage params cost now d))" for cost
    using assms by (simp add: insert_usage_def) (intro impI isolatedI; simp add: tenant_view_def)
  then show ?thesis
    unfolding recordUsageAndOutbox_def case_prod_beta Let_def
    by (auto simp: snd_case_sum split: option.split intro!: isolated_withTenant)
qed

lemma isolated_cache:
  assumes "me \<noteq> orgId"
  shows "isolated orgId d (snd (storeCache me model h embedding response now d))"
    and "isolated orgId d (snd (flushCache me keepModel d))"
proof -
  show "isolated orgId d (snd (storeCache me model h embedding response now d))"
    unfolding storeCache_def using assms by (intro isolated_withTenant isolatedI) (simp_all add: tenant_view_def)
  have "filter (\<lambda>e. sce_orgId e = orgId) (filter (\<lambda>e. \<not> (sce_orgId e = me \<and> P e)) rows) = filter (\<lambda>e. sce_orgId e = orgId) rows"
    for P rows unfolding filter_filter using assms by (intro filter_cong) auto
  then show "isolated orgId d (snd (flushCache me keepModel d))"
    unfolding flushCache_def Let_def
    by (intro isolated_withTenant isolatedI) (simp_all add: tenant_view_def tenant_rows_def del: filter_filter)
qed

lemma isolated_recordDeliveryAttempt:
  assumes "me \<noteq> orgId"
  shows "isolated orgId d (snd (recordDeliveryAttempt me deliveryId attempt res final now d))"
proof -
  have "isolated orgId d (d\<lparr>webhook_deliveries := tenant_update wd_orgId me P f (webhook_deliveries d)\<rparr>)"
    if "\<And>w. wd_orgId (f w) = wd_orgId w" "\<And>w. wd_endpointId (f w) = wd_endpointId w" for P f
  proof -
    have "deliveries_owned d \<Longrightarrow> deliveries_owned (d\<lparr>webhook_deliveries := tenant_update wd_orgId me P f (webhook_deliveries d)\<rparr>)"
      using that by (auto simp: deliveries_owned_def tenant_update_def)
    then show ?thesis using assms that by (simp add: isolated_def tenant_view_def tenant_update_other)
  qed
  then show ?thesis
    unfolding recordDeliveryAttempt_def by (intro isolated_withTenant) simp
qed

lemma isolated_dispatch_loop:
  assumes "me \<noteq> orgId" and "set es \<subseteq> set (webhook_endpoints d)" and "\<And>e. e \<in> set es \<Longrightarrow> we_orgId e = me"
  shows "isolated orgId d (snd (dispatch_loop newId n now me eventId eventType payload es (q, d)))"
  using assms(2,3)
proof (induction es arbitrary: n q d)
  case (Cons e es)
  let ?d = "d\<lparr>webhook_deliveries := webhook_deliveries d @ [new_delivery (newId n) me (we_id e) eventId now]\<rparr>"
  have "isolated orgId d ?d"
    using Cons.prems assms(1)
    by (auto simp: isolated_def tenant_view_def deliveries_owned_def new_delivery_def distinct_map dest: inj_onD)
  moreover have "isolated orgId ?d (snd (dispatch_loop newId (Suc n) now me eventId eventType payload es
      (q @ [webhook_job (newId n) me eventId eventType payload e], ?d)))"
    using Cons.prems by (intro Cons.IH) simp_all
  ultimately show ?case by (auto intro: isolated_trans)
qed simp

lemma isolated_dispatch:
  assumes "me \<noteq> orgId"
  shows "isolated orgId d (snd (snd (dispatchWebhookEvent newId now me eventType payload q d)))"
proof -
  let ?X = "withTenant d me (\<lambda>tx. (Inr (), tx\<lparr>webhook_events := webhook_events tx @
      [\<lparr>wev_id = newId 0, wev_orgId = me, wev_eventType = eventType, wev_payload = payload, wev_createdAt = now\<rparr>]\<rparr>))"
  have one: "isolated orgId d (snd ?X)"
    using assms by (intro isolated_withTenant isolatedI) (simp_all add: tenant_view_def)
  have "isolated orgId (snd ?X) (snd (dispatch_loop newId 1 now me (newId 0) eventType payload (subscribed me eventType (snd ?X)) (q, snd ?X)))"
    by (rule isolated_dispatch_loop [OF assms]) (auto simp: subscribed_def)
  from isolated_trans [OF one this] one show ?thesis
    unfolding dispatchWebhookEvent_def case_prod_beta Let_def by (simp split: sum.split)
qed

section \<open>No sequence of calls for others changes an answer\<close>

lemma pf_db_simps [simp]:
  "pf_db (put_db w d) = d" "pf_db (w\<lparr>pf_redis := s\<rparr>) = pf_db w" "pf_db (w\<lparr>pf_webhooks := q\<rparr>) = pf_db w"
  "pf_db (w\<lparr>pf_jobs := j\<rparr>) = jw_db j"
  by (simp_all add: put_db_def)

lemma serve_isolated:
  assumes "claim_text (at_orgId user) \<noteq> orgId" and "fresh_call c (pf_db w)"
  shows "isolated orgId (pf_db w) (pf_db (serve R env newId user t c w))"
proof (cases c)
  case (CreateKey random rowId eventId body)
  then show ?thesis
    using isolated_createApiKey [OF assms(1)]
    by (simp add: create_key_route_def case_prod_beta snd_case_sum split: option.split)
next
  case (RevokeKey eventId keyId)
  then show ?thesis
    using isolated_revokeApiKey [OF assms(1), of "pf_db w" R eventId keyId t "pf_redis w"]
    by (simp add: revoke_key_route_def case_prod_beta split: sum.split)
next
  case (RegisterWebhook rowId random body)
  then show ?thesis
    using isolated_registerWebhookEndpoint [OF assms(1), of rowId "pf_db w"] assms(2)
    by (simp add: register_webhook_route_def case_prod_beta snd_case_sum split: option.split)
next
  case (DeleteWebhook endpointId)
  then show ?thesis
    using isolated_deleteWebhookEndpoint [OF assms(1)]
    by (simp add: delete_webhook_route_def case_prod_beta snd_case_sum split: sum.split)
next
  case (PatchBudget body)
  then show ?thesis
    using isolated_patch_budget [OF assms(1)]
    by (simp add: patch_budget_route_def case_prod_beta snd_case_sum split: option.split)
next
  case (ReplayJob bullId jobId)
  then show ?thesis
    using isolated_replayJob [OF assms(1), of "pf_jobs w" bullId jobId]
    by (simp add: replay_job_route_def case_prod_beta snd_case_sum split: sum.split)
next
  case (DispatchEvent eventType payload)
  then show ?thesis
    using isolated_dispatch [OF assms(1)] by (simp add: case_prod_beta)
qed (simp_all add: isolated_createJob isolated_job_marks isolated_recordUsage isolated_cache isolated_recordDeliveryAttempt assms(1))

lemma other_steps_isolated:
  "(other_step R env orgId)\<^sup>*\<^sup>* w w' \<Longrightarrow> isolated orgId (pf_db w) (pf_db w')"
proof (induction rule: rtranclp_induct)
  case (step w1 w2)
  from step(2) have "isolated orgId (pf_db w1) (pf_db w2)"
    by (elim other_stepE) (simp add: serve_isolated)
  with step(3) show ?case by (rule isolated_trans)
qed simp

lemma reads_of_view:
  assumes "tenant_view orgId d' = tenant_view orgId d"
  shows "listApiKeys d' orgId = listApiKeys d orgId"
    and "listWebhookEndpoints d' orgId = listWebhookEndpoints d orgId"
    and "listWebhookDeliveries take_rows d' orgId endpointId n = listWebhookDeliveries take_rows d orgId endpointId n"
    and "listInvoices d' orgId = listInvoices d orgId"
    and "getOrgBudgetStatus d' orgId now = getOrgBudgetStatus d orgId now"
    and "getAnalytics d' orgId period now = getAnalytics d orgId period now"
    and "listRequestLogs d' orgId model l = listRequestLogs d orgId model l"
    and "listJobs d' orgId status l = listJobs d orgId status l"
    and "getJob d' orgId jobId = getJob d orgId jobId"
    and "lookupCache vdist d' orgId model' h embedding opts now = lookupCache vdist d orgId model' h embedding opts now"
  using assms by (metis read_views)+

text \<open>
  C3. Tenants cannot see each other: whatever sequence of calls is made for other organisations (keys
  created and revoked, webhooks, budgets, jobs and their workers, usage, cache entries, dispatched events and
  their deliveries), every read of an organisation answers as if none of them had happened.
\<close>

theorem tenants_isolated:
  assumes "(other_step R env (claim_text (at_orgId user)))\<^sup>*\<^sup>* w w'" and "deliveries_owned (pf_db w)"
    and "ctx_orgId ctx = claim_text (at_orgId user)"
  shows "list_keys_route user (pf_db w') = list_keys_route user (pf_db w)
    \<and> list_webhooks_route user (pf_db w') = list_webhooks_route user (pf_db w)
    \<and> list_deliveries_route take_rows user endpointId limit (pf_db w') = list_deliveries_route take_rows user endpointId limit (pf_db w)
    \<and> billing_status_route user now (pf_db w') = billing_status_route user now (pf_db w)
    \<and> list_invoices_route user (pf_db w') = list_invoices_route user (pf_db w)
    \<and> analytics_route issue user period now (pf_db w') = analytics_route issue user period now (pf_db w)
    \<and> analytics_logs_route issue user model limit (pf_db w') = analytics_logs_route issue user model limit (pf_db w)
    \<and> list_jobs_route issue ctx status limit (pf_db w') = list_jobs_route issue ctx status limit (pf_db w)
    \<and> get_job_route (ctx_orgId ctx) jobId (pf_jobs w') = get_job_route (ctx_orgId ctx) jobId (pf_jobs w)
    \<and> lookupCache vdist (pf_db w') (ctx_orgId ctx) model' h embedding opts now
        = lookupCache vdist (pf_db w) (ctx_orgId ctx) model' h embedding opts now"
proof -
  have "tenant_view (claim_text (at_orgId user)) (pf_db w') = tenant_view (claim_text (at_orgId user)) (pf_db w)"
    using other_steps_isolated [OF assms(1)] assms(2) by (simp add: isolated_def)
  note reads = reads_of_view [OF this]
  show ?thesis
    unfolding list_keys_route_def list_webhooks_route_def list_deliveries_route_def billing_status_route_def
      list_invoices_route_def analytics_route_def analytics_logs_route_def list_jobs_route_def get_job_route_def assms(3) reads
    by simp
qed

definition demo_platform :: "mem_state platform" where
  "demo_platform = \<lparr>pf_redis = mem_empty, pf_jobs = \<lparr>jw_queue = [], jw_published = [], jw_db = empty_db\<rparr>, pf_webhooks = []\<rparr>"

definition demo_caller :: "string \<Rightarrow> AccessTokenPayload" where
  "demo_caller orgId = \<lparr>at_sub = Some ''u'', at_orgId = Some orgId, at_role = Some ''OWNER''\<rparr>"

definition demo_call_env :: call_env where
  "demo_call_env = \<lparr>ce_issue = \<lambda>_. [], ce_sha = id, ce_checkTarget = \<lambda>_. \<lparr>safe = True, ssrf_reason = None\<rparr>\<rparr>"

theorem tenants_isolated_witness:
  "\<exists>w. w = serve mem_redis demo_call_env (\<lambda>_. ''id'') (demo_caller demo_org) 5 (StoreCache ''gpt-4o'' ''h'' [1] ''hello'') demo_platform
    \<and> length (semantic_cache (pf_db w)) = 1
    \<and> lookupCache (\<lambda>_ _. 0) (pf_db w) ''mine'' ''gpt-4o'' ''h'' (Inr [1]) \<lparr>similarityThreshold = 9/10, ttlDays = 1\<rparr> 20
      = lookupCache (\<lambda>_ _. 0) empty_db ''mine'' ''gpt-4o'' ''h'' (Inr [1]) \<lparr>similarityThreshold = 9/10, ttlDays = 1\<rparr> 20"
proof (intro exI conjI)
  let ?w = "serve mem_redis demo_call_env (\<lambda>_. ''id'') (demo_caller demo_org) 5 (StoreCache ''gpt-4o'' ''h'' [1] ''hello'') demo_platform"
  let ?ctx = "\<lparr>ctx_apiKeyId = ''k'', ctx_orgId = ''mine'', ctx_scopes = [], ctx_rateLimitRpm = 60\<rparr>"
  have db: "pf_db demo_platform = empty_db" by (simp add: demo_platform_def)
  have "other_step mem_redis demo_call_env (claim_text (at_orgId (demo_caller ''mine''))) demo_platform ?w"
    by (rule other_step.call) (simp_all add: demo_caller_def claim_text_def demo_org_def)
  then have run: "(other_step mem_redis demo_call_env (claim_text (at_orgId (demo_caller ''mine''))))\<^sup>*\<^sup>* demo_platform ?w" ..
  have owned: "deliveries_owned (pf_db demo_platform)" by (simp add: db deliveries_owned_def empty_db_def)
  have ctx: "ctx_orgId ?ctx = claim_text (at_orgId (demo_caller ''mine''))" by (simp add: demo_caller_def claim_text_def)
  show "?w = ?w" ..
  show "length (semantic_cache (pf_db ?w)) = 1"
    by (simp add: storeCache_def withTenant_def demo_caller_def claim_text_def db empty_db_def)
  note isolation = tenants_isolated [OF run owned ctx, unfolded db ApiKeyContext.select_convs]
  show "lookupCache (\<lambda>_ _. 0) (pf_db ?w) ''mine'' ''gpt-4o'' ''h'' (Inr [1]) \<lparr>similarityThreshold = 9/10, ttlDays = 1\<rparr> 20
      = lookupCache (\<lambda>_ _. 0) empty_db ''mine'' ''gpt-4o'' ''h'' (Inr [1]) \<lparr>similarityThreshold = 9/10, ttlDays = 1\<rparr> 20"
    by (rule isolation [THEN conjunct2, THEN conjunct2, THEN conjunct2, THEN conjunct2, THEN conjunct2, THEN conjunct2,
          THEN conjunct2, THEN conjunct2, THEN conjunct2])
qed

end
