(* ===== verification/Observability.thy ===== *)
theory Observability
  imports Processes
begin

text \<open>
  What the gateway reports about itself: the counters of \<^verbatim>\<open>packages/metrics/src/metrics.ts\<close>, the spans of
  \<^verbatim>\<open>packages/telemetry\<close>, and where \<^verbatim>\<open>modules/chat/routes.ts\<close>, the two guards and \<^verbatim>\<open>server.ts\<close> record them. The
  metrics library keeps what it is told: a counter's value is the sum of its increments, so a run is the list of its
  recordings. The lemmas show that tracing changes no outcome, that every answered chat
  request is counted once, and that the cost counter agrees with the usage table.
\<close>

section \<open>metrics.ts\<close>

record metric_config =
  mc_name :: string
  mc_help :: string
  mc_labelNames :: "string list"

record histogram_config = metric_config +
  mc_buckets :: "rat list"

definition requestsTotal :: metric_config where
  "requestsTotal = \<lparr>mc_name = ''cloudmesh_requests_total'',
     mc_help = ''Total chat requests, by org, model, and outcome status'',
     mc_labelNames = [''org'', ''model'', ''status'']\<rparr>"

definition requestDurationMs :: histogram_config where
  "requestDurationMs = \<lparr>mc_name = ''cloudmesh_request_duration_ms'',
     mc_help = ''Chat request duration in milliseconds, by org and model'',
     mc_labelNames = [''org'', ''model''],
     mc_buckets = [10, 25, 50, 100, 250, 500, 1000, 2500, 5000, 10000, 30000]\<rparr>"

definition tokensTotal :: metric_config where
  "tokensTotal = \<lparr>mc_name = ''cloudmesh_tokens_total'',
     mc_help = ''Total tokens processed, by org, model, and type (prompt|completion)'',
     mc_labelNames = [''org'', ''model'', ''type'']\<rparr>"

definition costUsdTotal :: metric_config where
  "costUsdTotal = \<lparr>mc_name = ''cloudmesh_cost_usd_total'',
     mc_help = ''Total cost in USD, by org and model'',
     mc_labelNames = [''org'', ''model'']\<rparr>"

definition rateLimitRejectedTotal :: metric_config where
  "rateLimitRejectedTotal = \<lparr>mc_name = ''cloudmesh_rate_limit_rejected_total'',
     mc_help = ''Total requests rejected by the rate limiter, by org'',
     mc_labelNames = [''org'']\<rparr>"

definition usageWriteFailuresTotal :: metric_config where
  "usageWriteFailuresTotal = \<lparr>mc_name = ''cloudmesh_usage_write_failures_total'',
     mc_help = ''Total usage_records write failures '' @ em_dash @ '' a revenue-impacting event, pages immediately on any occurrence'',
     mc_labelNames = [''org'']\<rparr>"

definition cacheOutcomesTotal :: metric_config where
  "cacheOutcomesTotal = \<lparr>mc_name = ''cloudmesh_cache_outcomes_total'',
     mc_help = ''Semantic cache lookup outcomes (hit|miss) '' @ em_dash @ '' see docs for how the hit ratio panel derives from this'',
     mc_labelNames = [''outcome'']\<rparr>"

definition circuitBreakerState :: metric_config where
  "circuitBreakerState = \<lparr>mc_name = ''cloudmesh_circuit_breaker_state'',
     mc_help = ''Circuit breaker state by provider: 0=closed, 1=half_open, 2=open'',
     mc_labelNames = [''provider'']\<rparr>"

lemmas metric_defs = requestsTotal_def requestDurationMs_def tokensTotal_def costUsdTotal_def rateLimitRejectedTotal_def
  usageWriteFailuresTotal_def cacheOutcomesTotal_def circuitBreakerState_def

text \<open>A recording names its metric, its labels in the order of the call, and a number; a log line is a recording too.\<close>

type_synonym labels = "(string \<times> string) list"

datatype recording =
  Inc string labels rat
| Observe string labels rat
| SetGauge string labels rat
| LogInfo json string

definition metric_inc :: "metric_config \<Rightarrow> labels \<Rightarrow> rat \<Rightarrow> recording" where
  "metric_inc m ls x = Inc (mc_name m) ls x"

definition CIRCUIT_STATE_VALUE :: "(string \<times> rat) list" where
  "CIRCUIT_STATE_VALUE = [(''closed'', 0), (''half_open'', 1), (''open'', 2)]"

definition setCircuitBreakerState :: "string \<Rightarrow> string \<Rightarrow> recording option" where
  "setCircuitBreakerState provider state =
     map_option (SetGauge (mc_name circuitBreakerState) [(''provider'', provider)]) (map_of CIRCUIT_STATE_VALUE state)"

text \<open>What a counter shows of the label sets that satisfy \<open>P\<close>, and the last value of a gauge.\<close>

definition counter_sum :: "metric_config \<Rightarrow> (labels \<Rightarrow> bool) \<Rightarrow> recording list \<Rightarrow> rat" where
  "counter_sum m P rs = (\<Sum>r\<leftarrow>rs. case r of Inc n ls x \<Rightarrow> if n = mc_name m \<and> P ls then x else 0 | _ \<Rightarrow> 0)"

definition gauge_value :: "metric_config \<Rightarrow> labels \<Rightarrow> recording list \<Rightarrow> rat option" where
  "gauge_value m ls rs = fold (\<lambda>r v. case r of SetGauge n ls' x \<Rightarrow> if n = mc_name m \<and> ls' = ls then Some x else v | _ \<Rightarrow> v) rs None"

definition of_org :: "string \<Rightarrow> labels \<Rightarrow> bool" where
  "of_org orgId ls \<longleftrightarrow> map_of ls ''org'' = Some orgId"

lemma counter_sum_simps [simp]:
  "counter_sum m P [] = 0"
  "counter_sum m P (Inc n ls x # rs) = (if n = mc_name m \<and> P ls then x else 0) + counter_sum m P rs"
  "counter_sum m P (Observe n ls x # rs) = counter_sum m P rs"
  "counter_sum m P (SetGauge n ls x # rs) = counter_sum m P rs"
  "counter_sum m P (LogInfo fs msg # rs) = counter_sum m P rs"
  by (simp_all add: counter_sum_def)

lemma counter_sum_append [simp]: "counter_sum m P (rs @ rs') = counter_sum m P rs + counter_sum m P rs'"
  by (simp add: counter_sum_def)

section \<open>spans.ts and context.ts\<close>

datatype span_status = SpanOk | SpanError string

record span =
  sp_name :: string
  sp_attributes :: "(string \<times> json) list"
  sp_status :: span_status
  sp_exceptions :: "string list"

text \<open>
  The function given to \<^verbatim>\<open>withSpan\<close> returns the attributes it set besides its outcome; the last argument of the
  state is the list of spans that have ended.
\<close>

definition withSpan ::
    "string \<Rightarrow> (string \<times> json) list \<Rightarrow> ('e \<Rightarrow> string) \<Rightarrow> ('s \<Rightarrow> ('e, 'a) result \<times> (string \<times> json) list \<times> 's)
      \<Rightarrow> 's \<times> span list \<Rightarrow> ('e, 'a) result \<times> 's \<times> span list" where
  "withSpan name attributes text_of fn st =
     (let (s, spans) = st; (r, set_attributes, s') = fn s;
          ended = (case r of
             Inr _ \<Rightarrow> \<lparr>sp_name = name, sp_attributes = attributes @ set_attributes, sp_status = SpanOk, sp_exceptions = []\<rparr>
           | Inl e \<Rightarrow> \<lparr>sp_name = name, sp_attributes = attributes @ set_attributes, sp_status = SpanError (text_of e),
                       sp_exceptions = [text_of e]\<rparr>)
      in (r, s', spans @ [ended]))"

record TraceContext =
  trace_id :: string
  span_id :: string

text \<open>The argument is the context of the active span, if there is one.\<close>

definition getTraceContext :: "(string \<times> string) option \<Rightarrow> TraceContext option" where
  "getTraceContext active =
     (case active of
        None \<Rightarrow> None
      | Some (traceId, spanId) \<Rightarrow> if traceId = [] \<or> spanId = [] then None else Some \<lparr>trace_id = traceId, span_id = spanId\<rparr>)"

section \<open>The guards\<close>

definition traced_requireApiKey ::
    "('s, 'm) redis_scheme \<Rightarrow> (string \<Rightarrow> string) \<Rightarrow> string option \<Rightarrow> ms \<Rightarrow> ('s \<times> db) \<times> span list
      \<Rightarrow> (AppError, ApiKeyContext) result \<times> ('s \<times> db) \<times> span list" where
  "traced_requireApiKey R sha header t =
     withSpan ''auth'' [] message (\<lambda>st.
       case extractToken header of
         None \<Rightarrow> (Inl (UnauthorizedError ''Missing or malformed Authorization header''), [(''result'', JStr ''missing_token'')], st)
       | Some rawKey \<Rightarrow>
           (case resolveApiKey R sha rawKey t st of
              (None, st') \<Rightarrow> (Inl (UnauthorizedError ''Invalid API key''), [(''result'', JStr ''invalid_key'')], st')
            | (Some ctx, st') \<Rightarrow> (Inr ctx, [(''result'', JStr ''ok''), (''orgId'', JStr (ctx_orgId ctx))], st')))"

definition traced_requireRateLimit ::
    "('s, 'm) redis_scheme \<Rightarrow> string \<Rightarrow> ApiKeyContext \<Rightarrow> ms \<Rightarrow> ms \<Rightarrow> ('s \<times> db \<times> recording list) \<times> span list
      \<Rightarrow> (AppError, unit) result \<times> ('s \<times> db \<times> recording list) \<times> span list" where
  "traced_requireRateLimit R rowId ctx t t2 =
     withSpan ''rate_limiter'' [] message (\<lambda>(s, d, recs).
       let (result, s1) = tokenBucket R (ctx_apiKeyId ctx) (rate_config ctx) t s;
           attributes = [(''allowed'', JBool (allowed result)), (''remaining'', JNum (of_int (remaining result)))]
       in if allowed result then (Inr (), attributes, s1, d, recs)
          else
            (let retryAfterSeconds = (resetAt result - of_int t2) / 1000;
                 (s2, d2) = emitRateLimitedEvent R rowId (ctx_orgId ctx) (ctx_apiKeyId ctx) retryAfterSeconds t2 (s1, d)
             in (Inl (RateLimitError retryAfterSeconds), attributes, s2, d2,
                 recs @ [metric_inc rateLimitRejectedTotal [(''org'', ctx_orgId ctx)] 1])))"

text \<open>The guards without their spans are those of \<open>ApiKeys\<close>.\<close>

lemma withSpan_transparent:
  "fst (withSpan name attributes text_of fn (s, spans)) = fst (fn s)"
  "fst (snd (withSpan name attributes text_of fn (s, spans))) = snd (snd (fn s))"
  by (simp_all add: withSpan_def split_beta Let_def)

lemma withSpan_ends_once:
  "\<exists>sp. snd (snd (withSpan name attributes text_of fn (s, spans))) = spans @ [sp] \<and> sp_name sp = name
     \<and> (sp_status sp = SpanOk \<longleftrightarrow> (\<exists>a. fst (fn s) = Inr a)) \<and> (\<forall>e. fst (fn s) = Inl e \<longrightarrow> sp_exceptions sp = [text_of e])"
  by (auto simp: withSpan_def split_beta Let_def split: sum.split)

lemma traced_requireApiKey_outcome:
  "fst (traced_requireApiKey R sha header t (st, spans)) = fst (requireApiKey R sha header t st)"
  "fst (snd (traced_requireApiKey R sha header t (st, spans))) = snd (requireApiKey R sha header t st)"
  by (auto simp: traced_requireApiKey_def withSpan_transparent requireApiKey_def split: option.split prod.split)

lemma traced_requireRateLimit_outcome:
  assumes "requireRateLimit R rowId ctx t t2 (s, d) = (r, s', d')"
  shows "fst (traced_requireRateLimit R rowId ctx t t2 ((s, d, recs), spans)) = r"
    and "fst (snd (traced_requireRateLimit R rowId ctx t t2 ((s, d, recs), spans)))
      = (s', d', if r = Inr () then recs else recs @ [metric_inc rateLimitRejectedTotal [(''org'', ctx_orgId ctx)] 1])"
  using assms
  by (auto simp: traced_requireRateLimit_def withSpan_transparent requireRateLimit_def Let_def split: prod.splits if_splits)

section \<open>routes.ts: what a chat request records\<close>

text \<open>
  \<^verbatim>\<open>recordRequestMetrics\<close> with the sample for the live statistics, and the write of a usage row that counts its
  failure.
\<close>

definition request_recordings :: "string \<Rightarrow> string \<Rightarrow> string \<Rightarrow> ms \<Rightarrow> recording list" where
  "request_recordings orgId model status latency =
     [metric_inc requestsTotal [(''org'', orgId), (''model'', model), (''status'', status)] 1,
      Observe (mc_name requestDurationMs) [(''org'', orgId), (''model'', model)] (of_int latency)]"

definition recordRequestMetrics ::
    "('s, 'm) redis_scheme \<Rightarrow> 's chat_io \<Rightarrow> string \<Rightarrow> string \<Rightarrow> string \<Rightarrow> ms \<Rightarrow> ms \<Rightarrow> 's \<Rightarrow> recording list \<times> 's" where
  "recordRequestMetrics R io orgId model status started t s =
     (request_recordings orgId model status (t - started),
      live_outcome R io orgId (status \<noteq> ''200'' \<and> status \<noteq> ''replay'') started t s)"

definition recordUsageOrCountFailure ::
    "string \<Rightarrow> RecordUsageParams \<Rightarrow> ms \<Rightarrow> db \<Rightarrow> recording list \<times> (thrown, RecordUsageResult) result \<times> db" where
  "recordUsageOrCountFailure rowId params now d =
     (case recordUsageAndOutbox rowId params now d of
        (Inl e, d') \<Rightarrow> ([metric_inc usageWriteFailuresTotal [(''org'', rup_orgId params)] 1], Inl e, d')
      | (Inr u, d') \<Rightarrow> ([], Inr u, d'))"

definition logChatCompletion :: "string \<Rightarrow> string \<Rightarrow> string \<Rightarrow> ms \<Rightarrow> rat \<Rightarrow> usd \<Rightarrow> bool \<Rightarrow> recording" where
  "logChatCompletion orgId model provider latencyMs tokens cost cacheHit =
     LogInfo (JObj [(''org_id'', JStr orgId), (''model'', JStr model), (''provider'', JStr provider),
        (''latency_ms'', JNum (of_int latencyMs)), (''tokens'', JNum tokens), (''cost'', JNum cost), (''cache_hit'', JBool cacheHit)])
       ''chat request completed''"

text \<open>Only a row that was really added is counted.\<close>

definition billed_recordings :: "string \<Rightarrow> string \<Rightarrow> UnifiedUsage \<Rightarrow> RecordUsageResult \<Rightarrow> recording list" where
  "billed_recordings orgId model usage u =
     (if recorded u then
        [metric_inc tokensTotal [(''org'', orgId), (''model'', model), (''type'', ''prompt'')] (promptTokens usage),
         metric_inc tokensTotal [(''org'', orgId), (''model'', model), (''type'', ''completion'')] (completionTokens usage),
         metric_inc costUsdTotal [(''org'', orgId), (''model'', model)] (costUsd u)]
      else [])"

definition cache_recordings ::
    "chat_env \<Rightarrow> 's chat_io \<Rightarrow> OrgFeatureFlags \<Rightarrow> string \<Rightarrow> ResolvedModel \<Rightarrow> UnifiedChatRequest \<Rightarrow> ms \<Rightarrow> db \<Rightarrow> recording list" where
  "cache_recordings env io flags orgId resolved req t d =
     (if \<not> ff_semantic_cache flags then []
      else
        (case lookupCache (io_vdist io) d orgId (providerModel resolved)
                (computePromptHash (io_sha io) (providerModel resolved) (req_messages req)) (io_embed io (promptText (req_messages req)))
                (cache_options env flags) t of
           Inl _ \<Rightarrow> []
         | Inr (Some _) \<Rightarrow> [metric_inc cacheOutcomesTotal [(''outcome'', ''hit'')] 1]
         | Inr None \<Rightarrow> [metric_inc cacheOutcomesTotal [(''outcome'', ''miss'')] 1]))"

text \<open>
  The recordings of each handler of \<open>Chat\<close>, from the same steps: what it records before it returns, or before it throws.
\<close>

definition json_chat_recordings ::
    "('s, 'm) redis_scheme \<Rightarrow> chat_env \<Rightarrow> 's chat_io \<Rightarrow> OrgFeatureFlags \<Rightarrow> ApiKeyContext \<Rightarrow> ms \<Rightarrow> ResolvedModel \<Rightarrow> UnifiedChatRequest
      \<Rightarrow> ms \<Rightarrow> 's chat_state \<Rightarrow> recording list" where
  "json_chat_recordings R env io flags ctx started resolved req t st =
     (let orgId = ctx_orgId ctx; model = providerModel resolved; name = lp_name (rm_provider resolved) in
      cache_recordings env io flags orgId resolved req t (snd st) @
      (case cached_chat R env io flags orgId resolved req t st of
         (Inl e, t', _) \<Rightarrow>
           (case e of
              ThrownApp err \<Rightarrow>
                if is_provider_error err \<or> is_service_unavailable err
                then request_recordings orgId model (show_nat (statusCode err)) (t' - started) else []
            | _ \<Rightarrow> [])
       | (Inr (response, fromCache), t', _, d) \<Rightarrow>
           (let usage = usage_of_json (jget response ''usage'');
                done = (\<lambda>cost. request_recordings orgId model ''200'' (t' - started)
                  @ [logChatCompletion orgId model name (t' - started) (promptTokens usage + completionTokens usage) cost fromCache])
            in if fromCache then done 0
               else
                 (case recordUsageOrCountFailure (new_row (io_newId io) d) (chat_usage ctx model response) t' d of
                    (failed, Inl _, _) \<Rightarrow> failed
                  | (_, Inr u, _) \<Rightarrow> billed_recordings orgId model usage u @ done (costUsd u)))))"

definition stream_chat_recordings ::
    "('s, 'm) redis_scheme \<Rightarrow> chat_env \<Rightarrow> 's chat_io \<Rightarrow> ApiKeyContext \<Rightarrow> ms \<Rightarrow> ResolvedModel \<Rightarrow> UnifiedChatRequest
      \<Rightarrow> ms \<Rightarrow> 's chat_state \<Rightarrow> recording list" where
  "stream_chat_recordings R env io ctx started resolved req t st =
     (let ((s, ch), d) = st; orgId = ctx_orgId ctx; model = providerModel resolved; name = lp_name (rm_provider resolved) in
      case callProviderResilientWithStats R (ce_resilience env) (io_jitter io) (io_uuid io) name (open_stream resolved req) t s of
        (Inl e, t', _) \<Rightarrow>
          (case e of
             ThrownApp err \<Rightarrow>
               if is_provider_error err \<or> is_service_unavailable err
               then request_recordings orgId model (show_nat (statusCode err)) (t' - started) else []
           | _ \<Rightarrow> [])
      | (Inr (chunks, failure), t', _) \<Rightarrow>
          (if chunks = [] then request_recordings orgId model ''502'' (t' - started)
           else
             (case failure of
                Some _ \<Rightarrow> request_recordings orgId model ''stream_failed'' (t' - started)
              | None \<Rightarrow>
                  (let body = response_json (assembled resolved (fold stream_chunk chunks stream_start));
                       usage = usage_of_json (jget body ''usage'')
                   in case recordUsageOrCountFailure (new_row (io_newId io) d) (chat_usage ctx model body) t' d of
                        (failed, Inl _, _) \<Rightarrow> failed
                      | (_, Inr u, _) \<Rightarrow> billed_recordings orgId model usage u
                          @ request_recordings orgId model ''200'' (t' - started)
                          @ [logChatCompletion orgId model name (t' - started) (promptTokens usage + completionTokens usage) (costUsd u) False]))))"

definition answer_chat_recordings ::
    "('s, 'm) redis_scheme \<Rightarrow> chat_env \<Rightarrow> 's chat_io \<Rightarrow> ApiKeyContext \<Rightarrow> ms \<Rightarrow> OrgFeatureFlags \<Rightarrow> BudgetStatus option
      \<Rightarrow> ChatRequestInput \<Rightarrow> ms \<Rightarrow> 's chat_state \<Rightarrow> recording list" where
  "answer_chat_recordings R env io ctx started flags budget input t st =
     (let ((s, ch), d) = st; orgId = ctx_orgId ctx in
      case resolveModelWithFallback R (ce_defaultModel env) (ce_autoFallback env) (io_registry io)
             (effective_model env flags budget (ci_model input))
             \<lparr>preset = ff_routing_preset flags, opt_abConfig = ff_ab_config flags\<rparr> (io_random io) t s of
        (Inl e, s1) \<Rightarrow> []
      | (Inr decision, s1) \<Rightarrow>
          (let resolved = rd_resolved decision; req = provider_request resolved input;
               s2 = (case (reason decision, abVariant decision) of
                       (Route_ab_variant, Some (m, _)) \<Rightarrow> recordAbSelection R orgId m t s1 | _ \<Rightarrow> s1)
           in case (case budget of
                      Some b \<Rightarrow> if ff_billing_enforcement flags then maybePublishBudgetWarning (new_row (io_newId io) d) orgId b t d else (Inr (), d)
                    | None \<Rightarrow> (Inr (), d)) of
                (Inl e, d1) \<Rightarrow> []
              | (Inr _, d1) \<Rightarrow>
                  (if ci_stream input = Some True
                   then stream_chat_recordings R env io ctx started resolved req t ((s2, ch), d1)
                   else json_chat_recordings R env io flags ctx started resolved req t ((s2, ch), d1))))"

text \<open>A replay is counted under the model of the stored answer.\<close>

definition replayed_model :: "json \<Rightarrow> string" where
  "replayed_model body = (case jget body ''model'' of None \<Rightarrow> ''unknown'' | Some JNull \<Rightarrow> ''unknown'' | Some v \<Rightarrow> jstr (Some v))"

definition chat_recordings ::
    "('s, 'm) redis_scheme \<Rightarrow> chat_env \<Rightarrow> 's chat_io \<Rightarrow> ApiKeyContext \<Rightarrow> string list \<Rightarrow> json \<Rightarrow> ms \<Rightarrow> 's chat_state \<Rightarrow> recording list" where
  "chat_recordings R env io ctx keyHeader body t st =
     (case chatRequestSchema body of
        None \<Rightarrow> []
      | Some input \<Rightarrow>
          (let ((s, ch), d) = st; orgId = ctx_orgId ctx; key = getIdempotencyKey keyHeader in
           case (case key of None \<Rightarrow> None | Some k \<Rightarrow> if k = [] then None else getIdempotentReplay R orgId k t s) of
             Some replay \<Rightarrow> request_recordings orgId (replayed_model (ir_body replay)) ''replay'' 0
           | None \<Rightarrow>
               (let (flags, s1) = getOrgFeatureFlags R orgId t (s, d) in
                if ff_billing_enforcement flags then
                  (case enforceBudget R (io_token io) (new_row (io_newId io) d) orgId (ce_lock env) t (s1, d) of
                     (Inl e, _) \<Rightarrow> []
                   | (Inr b, t', s2, d') \<Rightarrow> answer_chat_recordings R env io ctx t flags (Some b) input t' ((s2, ch), d'))
                else answer_chat_recordings R env io ctx t flags None input t ((s1, ch), d))))"

section \<open>routes.ts: resuming a stream\<close>

text \<open>
  A generator is the list of what it yields and the error that ends it, if any. The first pull takes one value off it (or
  throws); \<^verbatim>\<open>resumeIterator\<close> gives the value back.
\<close>

definition first_pull :: "'a list \<times> thrown option \<Rightarrow> (thrown, 'a option) result \<times> 'a list \<times> thrown option" where
  "first_pull g =
     (case g of
        (x # xs, e) \<Rightarrow> (Inr (Some x), xs, e)
      | ([], Some e) \<Rightarrow> (Inl e, [], None)
      | ([], None) \<Rightarrow> (Inr None, [], None))"

definition resumeIterator :: "'a option \<Rightarrow> 'a list \<times> thrown option \<Rightarrow> 'a list \<times> thrown option" where
  "resumeIterator first rest = (case first of None \<Rightarrow> ([], None) | Some x \<Rightarrow> (x # fst rest, snd rest))"

text \<open>The pull inside the resilient call of \<open>open_stream\<close> loses nothing: the write loop sees the whole stream.\<close>

lemma resume_after_pull: "first_pull g = (Inr first, rest) \<Longrightarrow> resumeIterator first rest = g"
  by (auto simp: first_pull_def resumeIterator_def split: list.splits option.splits prod.splits)

lemma open_stream_pulls:
  "fst (open_stream resolved req t s) =
     (case first_pull (fst (lp_chatStream (rm_provider resolved) req t)) of
        (Inl e, _) \<Rightarrow> Inl e | (Inr first, rest) \<Rightarrow> Inr (resumeIterator first rest))"
  by (auto simp: open_stream_def first_pull_def resumeIterator_def split: list.splits option.splits prod.splits)

section \<open>server.ts: the breaker gauge\<close>

definition circuit_poll_recordings :: "('s, 'm) redis_scheme \<Rightarrow> string list \<Rightarrow> ms \<Rightarrow> 's \<Rightarrow> recording list" where
  "circuit_poll_recordings R providers now s =
     List.map_filter (\<lambda>(p, state). setCircuitBreakerState p state) (circuit_metrics_poll R providers now s)"

lemma gauge_fold:
  "fold (\<lambda>r v. case r of SetGauge n ls' x \<Rightarrow> if n = m \<and> ls' = ls then Some x else v | _ \<Rightarrow> v) rs v0 =
     (case fold (\<lambda>r v. case r of SetGauge n ls' x \<Rightarrow> if n = m \<and> ls' = ls then Some x else v | _ \<Rightarrow> v) rs None of
        None \<Rightarrow> v0 | Some x \<Rightarrow> Some x)"
proof (induction rs arbitrary: v0)
  case (Cons r rs)
  let ?f = "\<lambda>r v. case r of SetGauge n ls' x \<Rightarrow> if n = m \<and> ls' = ls then Some x else v | _ \<Rightarrow> v"
  show ?case using Cons [of "?f r v0"] Cons [of "?f r None"] by (auto split: option.splits recording.splits)
qed simp

text \<open>After a tick the gauge of every provider shows the state of its circuit.\<close>

lemma circuit_gauge:
  assumes "p \<in> set providers" and "map_of CIRCUIT_STATE_VALUE (getCircuitState R p now s) = Some v"
  shows "gauge_value circuitBreakerState [(''provider'', p)] (circuit_poll_recordings R providers now s) = Some v"
  using assms(1)
proof (induction providers)
  case (Cons q providers)
  show ?case
  proof (cases "p \<in> set providers")
    case True
    with Cons.IH show ?thesis
      unfolding gauge_value_def circuit_poll_recordings_def circuit_metrics_poll_def
      by (auto simp: List.map_filter_simps setCircuitBreakerState_def split: option.splits) (subst gauge_fold, simp)
  next
    case False
    with Cons.prems have [simp]: "q = p" by simp
    have "fold (\<lambda>r v. case r of SetGauge n ls' x \<Rightarrow> if n = mc_name circuitBreakerState \<and> ls' = [(''provider'', p)] then Some x else v | _ \<Rightarrow> v)
        (circuit_poll_recordings R providers now s) v0 = v0" for v0
      using False unfolding circuit_poll_recordings_def circuit_metrics_poll_def
      by (induction providers arbitrary: v0) (auto simp: List.map_filter_simps setCircuitBreakerState_def split: option.splits)
    then show ?thesis
      using assms(2) by (simp add: gauge_value_def circuit_poll_recordings_def circuit_metrics_poll_def List.map_filter_simps
          setCircuitBreakerState_def)
  qed
qed simp

section \<open>The counters and the usage table\<close>

text \<open>
  What a row contributes to the cost and token counters under a set of labels, and the recordings of a run that
  account for exactly the rows it added.
\<close>

definition row_cost :: "(labels \<Rightarrow> bool) \<Rightarrow> UsageRecord \<Rightarrow> rat" where
  "row_cost P r = (if P [(''org'', ur_orgId r), (''model'', ur_model r)] then ur_costUsd r else 0)"

definition row_tokens :: "(labels \<Rightarrow> bool) \<Rightarrow> UsageRecord \<Rightarrow> rat" where
  "row_tokens P r =
     (if P [(''org'', ur_orgId r), (''model'', ur_model r), (''type'', ''prompt'')] then ur_promptTokens r else 0)
     + (if P [(''org'', ur_orgId r), (''model'', ur_model r), (''type'', ''completion'')] then ur_completionTokens r else 0)"

definition accounts_for :: "recording list \<Rightarrow> UsageRecord list \<Rightarrow> bool" where
  "accounts_for recs rows \<longleftrightarrow>
     (\<forall>P. counter_sum costUsdTotal P recs = sum_list (map (row_cost P) rows)
        \<and> counter_sum tokensTotal P recs = sum_list (map (row_tokens P) rows))"

definition measured :: "db \<Rightarrow> db \<Rightarrow> recording list \<Rightarrow> bool" where
  "measured d d' recs \<longleftrightarrow> (\<exists>new. usage_records d' = usage_records d @ new \<and> accounts_for recs new)"

text \<open>The answers \<^verbatim>\<open>cloudmesh_requests_total\<close> counts: all but a stream that broke off while its usage was written.\<close>

definition answered :: "(thrown, chat_out) result \<Rightarrow> bool" where
  "answered out \<longleftrightarrow> (case out of Inl _ \<Rightarrow> False | Inr (Reply _ _ _) \<Rightarrow> True | Inr (EventStream _ ended) \<Rightarrow> ended)"

definition counted :: "(thrown, chat_out) result \<Rightarrow> recording list \<Rightarrow> bool" where
  "counted out recs \<longleftrightarrow> counter_sum requestsTotal (\<lambda>_. True) recs = (if answered out then 1 else 0)"

lemma metric_names [simp]:
  "mc_name requestsTotal = ''cloudmesh_requests_total''" "mc_name requestDurationMs = ''cloudmesh_request_duration_ms''"
  "mc_name tokensTotal = ''cloudmesh_tokens_total''" "mc_name costUsdTotal = ''cloudmesh_cost_usd_total''"
  "mc_name usageWriteFailuresTotal = ''cloudmesh_usage_write_failures_total''"
  "mc_name cacheOutcomesTotal = ''cloudmesh_cache_outcomes_total''"
  "mc_name rateLimitRejectedTotal = ''cloudmesh_rate_limit_rejected_total''"
  by (simp_all add: metric_defs)

lemma accounts_for_Nil [simp]: "accounts_for [] []"
  by (simp add: accounts_for_def)

lemma accounts_for_append: "accounts_for recs rows \<Longrightarrow> accounts_for recs' rows' \<Longrightarrow> accounts_for (recs @ recs') (rows @ rows')"
  by (simp add: accounts_for_def)

lemma accounts_for_other:
  "accounts_for (request_recordings orgId model status l) []"
  "accounts_for (request_recordings orgId model status l @ [logChatCompletion orgId model p l n c h]) []"
  "accounts_for (cache_recordings env io flags orgId resolved req t d) []"
  by (auto simp: accounts_for_def request_recordings_def metric_inc_def logChatCompletion_def cache_recordings_def
      split: sum.split option.split)

lemma measured_same: "usage_records d' = usage_records d \<Longrightarrow> accounts_for recs [] \<Longrightarrow> measured d d' recs"
  by (simp add: measured_def)

lemma measured_trans: "measured d d1 recs \<Longrightarrow> measured d1 d2 recs' \<Longrightarrow> measured d d2 (recs @ recs')"
  unfolding measured_def using accounts_for_append by fastforce

lemma measured_keeps: "keeps_bills d d1 \<Longrightarrow> measured d1 d2 recs \<Longrightarrow> measured d d2 recs"
  by (simp add: measured_def keeps_bills_def)

lemma recorded_usage:
  assumes "recordUsageAndOutbox rowId p now d = (Inr u, d')"
  shows "measured d d' (billed_recordings (rup_orgId p) (rup_model p) (rup_usage p) u)"
  using assms
  by (auto simp: recordUsageAndOutbox_def withTenant_def insert_usage_def Let_def measured_def billed_recordings_def
      accounts_for_def row_cost_def row_tokens_def metric_inc_def writeOutboxEvent_def
      split: option.splits if_splits prod.splits sum.splits)

lemma failed_usage:
  assumes "recordUsageAndOutbox rowId p now d = (Inl e, d')"
  shows "measured d d' [metric_inc usageWriteFailuresTotal [(''org'', rup_orgId p)] 1]"
  using record_usage_bills [OF assms]
  by (auto simp: keeps_bills_def accounts_for_def metric_inc_def intro: measured_same)

lemma counter_requests [simp]:
  "counter_sum requestsTotal (\<lambda>_. True) (request_recordings orgId model status l) = 1"
  "counter_sum requestsTotal P [logChatCompletion orgId model q l n c h] = 0"
  "counter_sum requestsTotal P (billed_recordings orgId model usage u) = 0"
  "counter_sum requestsTotal P (cache_recordings env io flags orgId resolved req t d) = 0"
  by (auto simp: request_recordings_def logChatCompletion_def billed_recordings_def cache_recordings_def metric_inc_def
      split: sum.split option.split)

text \<open>Each handler, under the state it starts from.\<close>

definition reported :: "(thrown, chat_out) result \<Rightarrow> db \<Rightarrow> db \<Rightarrow> recording list \<Rightarrow> bool" where
  "reported out d d' recs \<longleftrightarrow> measured d d' recs \<and> counted out recs"

lemma reported_nothing: "keeps_bills d d' \<Longrightarrow> \<not> answered out \<Longrightarrow> reported out d d' []"
  by (simp add: reported_def counted_def measured_same keeps_bills_def)

lemma reported_failure:
  "keeps_bills d d' \<Longrightarrow> answered out \<Longrightarrow> reported out d d' (request_recordings orgId model status l)"
  by (simp add: reported_def counted_def measured_same keeps_bills_def accounts_for_other)

lemma reported_cache:
  "reported out d d' recs \<Longrightarrow> reported out d d' (cache_recordings env io flags orgId resolved req t d1 @ recs)"
  using accounts_for_append [OF accounts_for_other(3)] unfolding reported_def measured_def counted_def by fastforce

lemma reported_first: "keeps_bills d d1 \<Longrightarrow> reported out d1 d2 recs \<Longrightarrow> reported out d d2 recs"
  by (simp add: reported_def measured_keeps)

lemma reported_usage:
  assumes "recordUsageAndOutbox rowId p now d = (r, d')"
  shows "case r of
      Inl _ \<Rightarrow> \<not> answered out \<longrightarrow> reported out d d' [metric_inc usageWriteFailuresTotal [(''org'', rup_orgId p)] 1]
    | Inr u \<Rightarrow> answered out \<longrightarrow> reported out d d' (billed_recordings (rup_orgId p) (rup_model p) (rup_usage p) u
        @ request_recordings orgId model status l @ [logChatCompletion orgId' model' q l' n c h])"
proof (cases r)
  case (Inl e)
  then show ?thesis using failed_usage assms by (auto simp: reported_def counted_def metric_inc_def)
next
  case (Inr u)
  have "accounts_for (request_recordings orgId model status l @ [logChatCompletion orgId' model' q l' n c h]) []"
    using accounts_for_other(2) by (simp add: accounts_for_def request_recordings_def metric_inc_def logChatCompletion_def)
  then have "measured d' d' (request_recordings orgId model status l @ [logChatCompletion orgId' model' q l' n c h])"
    by (rule measured_same [OF refl])
  from measured_trans [OF recorded_usage [OF assms [unfolded Inr]] this] show ?thesis
    using Inr by (simp add: reported_def counted_def)
qed

lemma json_chat_reported:
  assumes "json_chat R env io flags ctx key started resolved req t (rc, d) = (out, t', rc', d')"
  shows "reported out d d' (json_chat_recordings R env io flags ctx started resolved req t (rc, d))"
proof -
  obtain r t1 s1 ch1 d1 where call: "cached_chat R env io flags (ctx_orgId ctx) resolved req t (rc, d) = (r, t1, (s1, ch1), d1)"
    by (metis prod_cases4 surj_pair)
  note keep = cached_chat_keeps(1) [OF call]
  show ?thesis
  proof (cases r)
    case (Inl e)
    have "reported out d1 d' (case e of
        ThrownApp err \<Rightarrow> if is_provider_error err \<or> is_service_unavailable err
          then request_recordings (ctx_orgId ctx) (providerModel resolved) (show_nat (statusCode err)) (t1 - started) else []
      | _ \<Rightarrow> [])"
      using assms call Inl degraded_keeps
      by (auto simp: json_chat_def Let_def split_beta answered_def split: thrown.splits if_splits
          intro!: reported_failure reported_nothing)
    then show ?thesis
      unfolding json_chat_recordings_def Let_def snd_conv call prod.case Inl sum.case
      by (intro reported_cache reported_first [OF keep])
  next
    case (Inr x)
    obtain j cached where x: "x = (j, cached)" by force
    let ?p = "chat_usage ctx (providerModel resolved) j"
    obtain u d2 where rec: "recordUsageAndOutbox (new_row (io_newId io) d1) ?p t1 d1 = (u, d2)" by force
    have p: "rup_orgId ?p = ctx_orgId ctx" "rup_model ?p = providerModel resolved" "rup_usage ?p = usage_of_json (jget j ''usage'')"
      by (simp_all add: chat_usage_def)
    note usage = reported_usage [OF rec, of out, unfolded p]
    let ?usage = "usage_of_json (jget j ''usage'')"
    let ?done = "\<lambda>cost. request_recordings (ctx_orgId ctx) (providerModel resolved) ''200'' (t1 - started)
      @ [logChatCompletion (ctx_orgId ctx) (providerModel resolved) (lp_name (rm_provider resolved)) (t1 - started)
           (promptTokens ?usage + completionTokens ?usage) cost cached]"
    have "reported out d1 d' (if cached then ?done 0
        else (case recordUsageOrCountFailure (new_row (io_newId io) d1) ?p t1 d1 of
                (failed, Inl _, _) \<Rightarrow> failed
              | (_, Inr u, _) \<Rightarrow> billed_recordings (ctx_orgId ctx) (providerModel resolved) ?usage u @ ?done (costUsd u)))"
    proof (cases cached)
      case True
      with assms call Inr x show ?thesis
        by (auto simp: json_chat_def Let_def reported_def counted_def answered_def measured_same accounts_for_other)
    next
      case False
      with assms call Inr x rec usage show ?thesis
        by (auto simp: json_chat_def Let_def answered_def recordUsageOrCountFailure_def p split: sum.splits)
    qed
    then show ?thesis
      unfolding json_chat_recordings_def Let_def snd_conv call prod.case Inr x sum.case
      by (intro reported_cache reported_first [OF keep])
  qed
qed

lemma stream_chat_reported:
  assumes "stream_chat R env io ctx key started resolved req t (rc, d) = (out, t', rc', d')"
  shows "reported out d d' (stream_chat_recordings R env io ctx started resolved req t (rc, d))"
proof -
  obtain s ch where rc: "rc = (s, ch)" by force
  let ?call = "callProviderResilientWithStats R (ce_resilience env) (io_jitter io) (io_uuid io) (lp_name (rm_provider resolved)) (open_stream resolved req) t s"
  obtain r t1 s1 where call: "?call = (r, t1, s1)" by (metis surj_pair)
  show ?thesis
  proof (cases r)
    case (Inl e)
    with assms rc call show ?thesis
      by (auto simp: stream_chat_def stream_chat_recordings_def Let_def answered_def split: thrown.splits if_splits
          intro!: reported_failure reported_nothing)
  next
    case (Inr x)
    obtain chunks failure where x: "x = (chunks, failure)" by force
    let ?p = "chat_usage ctx (providerModel resolved) (response_json (assembled resolved (fold stream_chunk chunks stream_start)))"
    obtain u d2 where rec: "recordUsageAndOutbox (new_row (io_newId io) d) ?p t1 d = (u, d2)" by force
    have p: "rup_orgId ?p = ctx_orgId ctx" "rup_model ?p = providerModel resolved"
      "rup_usage ?p = usage_of_json (jget (response_json (assembled resolved (fold stream_chunk chunks stream_start))) ''usage'')"
      by (simp_all add: chat_usage_def)
    show ?thesis
      using assms rc call Inr x rec reported_usage [OF rec, of out, unfolded p]
      by (auto simp: stream_chat_def stream_chat_recordings_def Let_def answered_def recordUsageOrCountFailure_def p
          split: sum.splits if_splits option.splits intro!: reported_failure)
  qed
qed

lemma answer_chat_reported:
  assumes "answer_chat R env io ctx key started flags budget input t (rc, d) = (out, t', rc', d')"
  shows "reported out d d' (answer_chat_recordings R env io ctx started flags budget input t (rc, d))"
proof -
  obtain s ch where rc: "rc = (s, ch)" by force
  obtain dec s1 where route: "resolveModelWithFallback R (ce_defaultModel env) (ce_autoFallback env) (io_registry io)
      (effective_model env flags budget (ci_model input)) \<lparr>preset = ff_routing_preset flags, opt_abConfig = ff_ab_config flags\<rparr>
      (io_random io) t s = (dec, s1)" by force
  obtain w d1 where warn: "(case budget of
      Some b \<Rightarrow> if ff_billing_enforcement flags then maybePublishBudgetWarning (new_row (io_newId io) d) (ctx_orgId ctx) b t d else (Inr (), d)
    | None \<Rightarrow> (Inr (), d)) = (w, d1)" by force
  then have keep: "keeps_bills d d1"
    using warning_keeps [of d "new_row (io_newId io) d" "ctx_orgId ctx" _ t] by (auto split: option.splits if_splits) (metis snd_conv)
  show ?thesis
  proof (cases dec)
    case (Inl e)
    with assms rc route show ?thesis
      by (auto simp: answer_chat_def answer_chat_recordings_def answered_def intro!: reported_nothing)
  next
    case (Inr dd)
    show ?thesis
    proof (cases w)
      case (Inl e)
      with assms rc route Inr warn keep show ?thesis
        by (auto simp: answer_chat_def answer_chat_recordings_def Let_def answered_def \<open>dec = Inr dd\<close> intro!: reported_nothing)
    next
      case w: (Inr y)
      let ?rs = "rd_resolved dd"
      let ?req = "provider_request ?rs input"
      obtain s2 where run: "(if ci_stream input = Some True then stream_chat R env io ctx key started ?rs ?req t ((s2, ch), d1)
          else json_chat R env io flags ctx key started ?rs ?req t ((s2, ch), d1)) = (out, t', rc', d')"
        and "answer_chat_recordings R env io ctx started flags budget input t (rc, d) =
          (if ci_stream input = Some True then stream_chat_recordings R env io ctx started ?rs ?req t ((s2, ch), d1)
           else json_chat_recordings R env io flags ctx started ?rs ?req t ((s2, ch), d1))"
        using assms rc route Inr warn w by (simp add: answer_chat_def answer_chat_recordings_def Let_def)
      moreover have "reported out d1 d' (if ci_stream input = Some True then stream_chat_recordings R env io ctx started ?rs ?req t ((s2, ch), d1)
           else json_chat_recordings R env io flags ctx started ?rs ?req t ((s2, ch), d1))"
        using run by (cases "ci_stream input = Some True") (simp_all add: stream_chat_reported json_chat_reported)
      ultimately show ?thesis using reported_first [OF keep] by simp
    qed
  qed
qed

lemma chat_route_reported:
  assumes "chat_route R env io ctx keyHeader body t ((s, ch), d) = (out, t', rc', d')"
  shows "reported out d d' (chat_recordings R env io ctx keyHeader body t ((s, ch), d))"
proof (cases "chatRequestSchema body")
  case None
  with assms show ?thesis by (auto simp: chat_route_def chat_recordings_def answered_def intro!: reported_nothing)
next
  case (Some input)
  let ?key = "getIdempotencyKey keyHeader"
  let ?replay = "case ?key of None \<Rightarrow> None | Some k \<Rightarrow> if k = [] then None else getIdempotentReplay R (ctx_orgId ctx) k t s"
  obtain flags s1 where flags: "getOrgFeatureFlags R (ctx_orgId ctx) t (s, d) = (flags, s1)" by force
  obtain r t2 s2 d2 where budget: "enforceBudget R (io_token io) (new_row (io_newId io) d) (ctx_orgId ctx) (ce_lock env) t (s1, d) = (r, t2, s2, d2)"
    by (metis surj_pair)
  then have keep: "keeps_bills d d2"
    using enforceBudget_keeps [of d R "io_token io" "new_row (io_newId io) d" "ctx_orgId ctx" "ce_lock env" t s1] by simp
  show ?thesis
  proof (cases ?replay)
    case (Some replay)
    with assms \<open>chatRequestSchema body = Some input\<close> show ?thesis
      by (auto simp: chat_route_def chat_recordings_def Let_def answered_def intro!: reported_failure)
  next
    case None
    show ?thesis
    proof (cases "ff_billing_enforcement flags")
      case False
      with assms Some None flags
      have run: "answer_chat R env io ctx ?key t flags None input t ((s1, ch), d) = (out, t', rc', d')"
        and recs: "chat_recordings R env io ctx keyHeader body t ((s, ch), d) = answer_chat_recordings R env io ctx t flags None input t ((s1, ch), d)"
        by (simp_all add: chat_route_def chat_recordings_def Let_def)
      show ?thesis unfolding recs by (rule answer_chat_reported [OF run])
    next
      case True
      show ?thesis
      proof (cases r)
        case (Inl e)
        with assms Some None flags budget keep True show ?thesis
          by (auto simp: chat_route_def chat_recordings_def Let_def answered_def intro!: reported_nothing)
      next
        case (Inr b)
        with assms Some None flags budget True
        have run: "answer_chat R env io ctx ?key t flags (Some b) input t2 ((s2, ch), d2) = (out, t', rc', d')"
          and recs: "chat_recordings R env io ctx keyHeader body t ((s, ch), d)
            = answer_chat_recordings R env io ctx t flags (Some b) input t2 ((s2, ch), d2)"
          by (simp_all add: chat_route_def chat_recordings_def Let_def)
        show ?thesis unfolding recs by (rule reported_first [OF keep answer_chat_reported [OF run]])
      qed
    qed
  qed
qed

text \<open>
  A history of chat requests, one after the other, by any organisations and with any configuration; what Redis and
  the coalesced requests hold when a request starts is part of it.
\<close>

type_synonym 's chat_call = "chat_env \<times> 's chat_io \<times> ApiKeyContext \<times> string list \<times> json \<times> ms \<times> 's dedup_state"

fun chat_history :: "('s, 'm) redis_scheme \<Rightarrow> 's chat_call list \<Rightarrow> db \<Rightarrow> recording list \<times> (thrown, chat_out) result list \<times> db" where
  "chat_history R [] d = ([], [], d)"
| "chat_history R ((env, io, ctx, keyHeader, body, t, rc) # calls) d =
     (let (out, _, _, d1) = chat_route R env io ctx keyHeader body t (rc, d); (recs, outs, d2) = chat_history R calls d1
      in (chat_recordings R env io ctx keyHeader body t (rc, d) @ recs, out # outs, d2))"

lemma chat_history_measured:
  "case chat_history R calls d of (recs, outs, d') \<Rightarrow>
     measured d d' recs \<and> counter_sum requestsTotal (\<lambda>_. True) recs = of_nat (length (filter answered outs))"
proof (induction R calls d rule: chat_history.induct)
  case (1 R d)
  show ?case by (simp add: measured_same)
next
  case (2 R env io ctx keyHeader body t rc calls d)
  obtain s ch where rc: "rc = (s, ch)" by force
  obtain out t' rc' d1 where run: "chat_route R env io ctx keyHeader body t (rc, d) = (out, t', rc', d1)" by (metis prod_cases4)
  obtain recs outs d2 where rest: "chat_history R calls d1 = (recs, outs, d2)" by (metis prod_cases3)
  have "reported out d d1 (chat_recordings R env io ctx keyHeader body t (rc, d))"
    unfolding rc by (rule chat_route_reported [OF run [unfolded rc]])
  then show ?case
    using 2 [OF run [symmetric] refl refl refl] run rest measured_trans [of d d1 _ d2 recs] by (auto simp: reported_def counted_def)
qed

lemma org_row_cost: "sum_list (map (row_cost (of_org orgId)) rows) = sum_list (map ur_costUsd (filter (\<lambda>r. ur_orgId r = orgId) rows))"
  by (induction rows) (simp_all add: row_cost_def of_org_def)

lemma org_row_tokens:
  "sum_list (map (row_tokens (of_org orgId)) rows)
    = sum_list (map (\<lambda>r. ur_promptTokens r + ur_completionTokens r) (filter (\<lambda>r. ur_orgId r = orgId) rows))"
  by (induction rows) (simp_all add: row_tokens_def of_org_def)

text \<open>
  C10. The counters tell the truth about the bills: over any history of chat requests, with any failures, replays,
  cache hits and repeated request ids, each organisation's cost and token counters grow by exactly what the rows
  added to the usage table say, and \<^verbatim>\<open>cloudmesh_requests_total\<close> by the number of requests that were answered.
\<close>

theorem counters_match_usage:
  "case chat_history R calls d of (recs, outs, d') \<Rightarrow>
     (\<exists>new. usage_records d' = usage_records d @ new
        \<and> counter_sum costUsdTotal (of_org orgId) recs = sum_list (map ur_costUsd (filter (\<lambda>r. ur_orgId r = orgId) new))
        \<and> counter_sum tokensTotal (of_org orgId) recs
            = sum_list (map (\<lambda>r. ur_promptTokens r + ur_completionTokens r) (filter (\<lambda>r. ur_orgId r = orgId) new)))
     \<and> counter_sum requestsTotal (\<lambda>_. True) recs = of_nat (length (filter answered outs))"
proof -
  obtain recs outs d' where run: "chat_history R calls d = (recs, outs, d')" by (metis prod_cases3)
  then have "measured d d' recs" "counter_sum requestsTotal (\<lambda>_. True) recs = of_nat (length (filter answered outs))"
    using chat_history_measured [where R = R and calls = calls and d = d] by simp_all
  then show ?thesis
    by (auto simp: run measured_def accounts_for_def org_row_cost [symmetric] org_row_tokens [symmetric])
qed

end
