(* ===== verification/Scripts.thy ===== *)
theory Scripts
  imports ApiKeys
begin

text \<open>
  The operator's side of \<^verbatim>\<open>packages/db\<close>: the two connections (\<^verbatim>\<open>src/client.ts\<close>), the seed
  (\<^verbatim>\<open>prisma/seed.ts\<close>) and the rotation of the application role's password (\<^verbatim>\<open>scripts/rotateAppPassword.ts\<close>). The
  process environment is a function; \<^verbatim>\<open>ALTER ROLE\<close> is an update of the passwords of the roles. The
  lemmas show that the two connections are never confused, that the key the seed prints admits, and what a second
  seed leaves behind.
\<close>

section \<open>client.ts\<close>

text \<open>A client is the URL it was made with; the module keeps the one of each kind it has made.\<close>

record db_clients =
  adminClient :: "string option"
  appClient :: "string option"

definition missing_env :: "string \<Rightarrow> string" where
  "missing_env name =
     name @ '' is not set. Refusing to silently fall back to another connection '' @ em_dash
       @ '' the admin and app connections have different RLS guarantees and must not be confused.''"

definition requireEnv :: "(string \<Rightarrow> string option) \<Rightarrow> string \<Rightarrow> (thrown, string) result" where
  "requireEnv vars name =
     (case vars name of
        Some v \<Rightarrow> if v = [] then Inl (ThrownJs (missing_env name)) else Inr v
      | None \<Rightarrow> Inl (ThrownJs (missing_env name)))"

definition getAdminPrisma :: "(string \<Rightarrow> string option) \<Rightarrow> db_clients \<Rightarrow> (thrown, string) result \<times> db_clients" where
  "getAdminPrisma vars st =
     (case adminClient st of
        Some c \<Rightarrow> (Inr c, st)
      | None \<Rightarrow> (case requireEnv vars ''DATABASE_URL'' of Inl e \<Rightarrow> (Inl e, st) | Inr u \<Rightarrow> (Inr u, st\<lparr>adminClient := Some u\<rparr>)))"

definition getAppPrisma :: "(string \<Rightarrow> string option) \<Rightarrow> db_clients \<Rightarrow> (thrown, string) result \<times> db_clients" where
  "getAppPrisma vars st =
     (case appClient st of
        Some c \<Rightarrow> (Inr c, st)
      | None \<Rightarrow> (case requireEnv vars ''APP_DATABASE_URL'' of Inl e \<Rightarrow> (Inl e, st) | Inr u \<Rightarrow> (Inr u, st\<lparr>appClient := Some u\<rparr>)))"

text \<open>Both, and what they return, in any order of calls: each kind has its own variable or no client.\<close>

definition clients_separate :: "(string \<Rightarrow> string option) \<Rightarrow> db_clients \<Rightarrow> bool" where
  "clients_separate vars st \<longleftrightarrow>
     (\<forall>c. adminClient st = Some c \<longrightarrow> vars ''DATABASE_URL'' = Some c) \<and> (\<forall>c. appClient st = Some c \<longrightarrow> vars ''APP_DATABASE_URL'' = Some c)"

lemma clients_stay_separate:
  assumes "clients_separate vars st"
  shows "clients_separate vars (snd (getAdminPrisma vars st))" and "clients_separate vars (snd (getAppPrisma vars st))"
    and "fst (getAppPrisma vars st) = Inr c \<Longrightarrow> vars ''APP_DATABASE_URL'' = Some c"
    and "fst (getAdminPrisma vars st) = Inr c \<Longrightarrow> vars ''DATABASE_URL'' = Some c"
  using assms
  by (auto simp: clients_separate_def getAdminPrisma_def getAppPrisma_def requireEnv_def split: option.splits if_splits)

section \<open>seed.ts\<close>

text \<open>The database is written as the superuser: no tenant policy applies, and each statement is a transaction of its own.\<close>

definition seed_plans :: "BillingPlan list" where
  "seed_plans =
     [\<lparr>bp_planTier = FREE_PLAN, bp_monthlyBudgetUsd = 5, bp_priceUsd = 0, bp_stripePriceId = None\<rparr>,
      \<lparr>bp_planTier = PRO, bp_monthlyBudgetUsd = 100, bp_priceUsd = 49, bp_stripePriceId = None\<rparr>,
      \<lparr>bp_planTier = ENTERPRISE, bp_monthlyBudgetUsd = 2000, bp_priceUsd = 999, bp_stripePriceId = None\<rparr>]"

definition createMany_plans :: "BillingPlan list \<Rightarrow> db \<Rightarrow> db" where
  "createMany_plans rows d =
     d\<lparr>billing_plans := billing_plans d @ filter (\<lambda>p. bp_planTier p \<notin> bp_planTier ` set (billing_plans d)) rows\<rparr>"

definition seed_flags :: json where
  "seed_flags =
     JObj [(''semantic_cache'', JBool True), (''streaming'', JBool True), (''rate_limit_rpm'', JNum 1000),
           (''allowed_models'', JArr [JStr ''gpt-4o'', JStr ''claude-3-5-sonnet'']), (''request_dedup'', JBool False)]"

definition seed_raw_key :: "string \<Rightarrow> string" where
  "seed_raw_key uuid = ''cm_live_'' @ filter (\<lambda>c. c \<noteq> CHR ''-'') uuid"

text \<open>The ids the database draws, the UUID of the key and the time are arguments; the result is what the script prints.\<close>

definition seed ::
    "(string \<Rightarrow> string) \<Rightarrow> string \<Rightarrow> string \<Rightarrow> string \<Rightarrow> string \<Rightarrow> ms \<Rightarrow> db \<Rightarrow> (thrown, string \<times> string) result \<times> db" where
  "seed sha orgId userId keyId uuid now d =
     (let d1 = createMany_plans seed_plans d;
          org = \<lparr>org_id = orgId, org_name = ''Acme Inc'', org_plan = PRO, org_stripeCustomerId = None,
                 org_budgetOverrideUsd = None, org_featureFlags = seed_flags\<rparr>;
          d2 = d1\<lparr>organizations := organizations d1 @ [org]\<rparr>;
          user = \<lparr>usr_id = userId, usr_email = ''owner@acme.test'', usr_passwordHash = sha ''dev-password-not-for-prod'',
                  usr_role = OWNER, usr_orgId = orgId\<rparr>
      in if ''owner@acme.test'' \<in> usr_email ` set (users d2) then (Inl (ThrownJs ''P2002''), d2)
         else
           (let d3 = d2\<lparr>users := users d2 @ [user]\<rparr>; rawKey = seed_raw_key uuid;
                key = \<lparr>ak_id = keyId, ak_orgId = orgId, ak_keyHash = sha rawKey, ak_keyPrefix = take 12 rawKey,
                       ak_scopes = [''chat:read'', ''chat:write''], ak_isActive = True, ak_rateLimitRpm = 1000,
                       ak_lastUsedAt = None, ak_createdAt = now\<rparr>
            in if sha rawKey \<in> ak_keyHash ` set (api_keys d3) then (Inl (ThrownJs ''P2002''), d3)
               else (Inr (orgId, rawKey), d3\<lparr>api_keys := api_keys d3 @ [key]\<rparr>)))"

section \<open>rotateAppPassword.ts\<close>

definition MIN_LENGTH :: nat where
  "MIN_LENGTH = 16"

definition BOOTSTRAP_PASSWORD :: string where
  "BOOTSTRAP_PASSWORD = ''cloudmesh_app''"

text \<open>
  The error or nothing, and the passwords then. \<^verbatim>\<open>password.length\<close> counts UTF-16 units, which is at most the number
  of bytes; the argument \<open>units\<close> is that count.
\<close>

definition password_missing :: string where
  "password_missing =
     ''APP_DB_PASSWORD is not set. Generate one with `openssl rand -base64 32` ''
       @ ''and make sure it matches the password in APP_DATABASE_URL.''"

definition password_default :: string where
  "password_default =
     ''APP_DB_PASSWORD is still the bootstrap default. Set a real secret '' @ em_dash
       @ '' leaving it unchanged is the exact gap this script exists to close.''"

definition rotateAppPassword ::
    "(string \<Rightarrow> nat) \<Rightarrow> (string \<Rightarrow> string option) \<Rightarrow> (string \<Rightarrow> string option) \<Rightarrow> (string, unit) result \<times> (string \<Rightarrow> string option)" where
  "rotateAppPassword units vars roles =
     (case vars ''APP_DB_PASSWORD'' of
        None \<Rightarrow> (Inl password_missing, roles)
      | Some p \<Rightarrow>
          if p = [] then (Inl password_missing, roles)
          else if units p < MIN_LENGTH then (Inl (''APP_DB_PASSWORD must be at least '' @ show_nat MIN_LENGTH @ '' characters.''), roles)
          else if p = BOOTSTRAP_PASSWORD then (Inl password_default, roles)
          else if roles ''cloudmesh_app'' = None then (Inl ''role does not exist'', roles)
          else (Inr (), roles(''cloudmesh_app'' \<mapsto> p)))"

definition rotate_exit_code :: "(string, unit) result \<Rightarrow> nat" where
  "rotate_exit_code r = (case r of Inl _ \<Rightarrow> 1 | Inr _ \<Rightarrow> 0)"

lemma rotation_verdict:
  assumes "roles ''cloudmesh_app'' \<noteq> None" and "rotateAppPassword units vars roles = (r, roles')"
  shows "rotate_exit_code r = 0 \<longleftrightarrow> (\<exists>p. vars ''APP_DB_PASSWORD'' = Some p \<and> p \<noteq> [] \<and> 16 \<le> units p \<and> p \<noteq> BOOTSTRAP_PASSWORD)"
    and "rotate_exit_code r = 0 \<Longrightarrow> roles' ''cloudmesh_app'' = vars ''APP_DB_PASSWORD''"
    and "rotate_exit_code r \<noteq> 0 \<Longrightarrow> roles' = roles"
    and "other \<noteq> ''cloudmesh_app'' \<Longrightarrow> roles' other = roles other"
  using assms by (auto simp: rotateAppPassword_def rotate_exit_code_def MIN_LENGTH_def split: option.splits if_splits)

section \<open>What a seed does\<close>

text \<open>The printed key admits at once, as the seeded organisation and at its rate.\<close>

lemma seeded_key_admits:
  assumes "seed sha orgId userId keyId uuid now d = (Inr (org, rawKey), d')"
    and "stored_json (r_get R (apiKeyCacheKey (hashApiKey sha rawKey)) t s) = None"
  shows "fst (resolveApiKey R sha rawKey t (s, d')) =
    Some \<lparr>ctx_apiKeyId = keyId, ctx_orgId = org, ctx_scopes = [''chat:read'', ''chat:write''], ctx_rateLimitRpm = 1000\<rparr>"
proof -
  have "filter (\<lambda>r. ak_keyHash r = sha rawKey) (api_keys d) = []"
    using assms(1) by (auto simp: seed_def createMany_plans_def Let_def filter_empty_conv image_iff split: if_splits)
  then show ?thesis
    using assms by (auto simp: seed_def createMany_plans_def Let_def resolveApiKey_def lookup_api_key_by_hash_def
        hashApiKey_def ctx_of_row_def split: if_splits)
qed

text \<open>Plans are seeded once; the rest is not: a second seed fails, after it has added another organisation nobody can use.\<close>

lemma second_seed:
  assumes "seed sha orgId userId keyId uuid now d = (Inr printed, d')"
    and "seed sha orgId2 userId2 keyId2 uuid2 now2 d' = (r, d'')"
  shows "r = Inl (ThrownJs ''P2002'')" and "billing_plans d'' = billing_plans d'"
    and "length (organizations d'') = length (organizations d) + 2" and "users d'' = users d'" and "api_keys d'' = api_keys d'"
proof -
  have plans: "set (map bp_planTier seed_plans) \<subseteq> bp_planTier ` set (billing_plans (createMany_plans seed_plans d))" for d
    by (auto simp: createMany_plans_def)
  have again: "createMany_plans seed_plans d' = d'"
  proof -
    have "bp_planTier p \<in> bp_planTier ` set (billing_plans d')" if "p \<in> set seed_plans" for p
      using plans [of d] that assms(1) by (auto simp: seed_def Let_def split: if_splits)
    then show ?thesis by (simp add: createMany_plans_def filter_empty_conv)
  qed
  have "''owner@acme.test'' \<in> usr_email ` set (users d')"
    using assms(1) by (auto simp: seed_def Let_def createMany_plans_def split: if_splits)
  with assms(2) have "r = Inl (ThrownJs ''P2002'')" and d'': "\<exists>org. d'' = d'\<lparr>organizations := organizations d' @ [org]\<rparr>"
    by (auto simp: seed_def Let_def again)
  moreover have "length (organizations d') = length (organizations d) + 1"
    using assms(1) by (auto simp: seed_def Let_def createMany_plans_def split: if_splits)
  ultimately show "r = Inl (ThrownJs ''P2002'')" "billing_plans d'' = billing_plans d'"
    "length (organizations d'') = length (organizations d) + 2" "users d'' = users d'" "api_keys d'' = api_keys d'"
    by auto
qed

end
