(* ===== verification/ApiDocs.thy ===== *)
theory ApiDocs
  imports Config ApiRoutes JsonText
begin

text \<open>
  The API reference the gateway serves: the OpenAPI document of \<^verbatim>\<open>packages/openapi\<close>, the page that shows it, and
  \<^verbatim>\<open>modules/docs/routes.ts\<close>. The schemas that zod generates from the request validators are parameters. The
  lemmas compare the document with the gateway: the operations, the statuses and limits of the job listing, and
  the answers of a job submission.
\<close>

section \<open>packages/openapi: the parts of the document\<close>

text \<open>What \<^verbatim>\<open>z.toJSONSchema\<close> makes of the validators that are passed in.\<close>

record api_schemas =
  zod_chatRequest :: json
  zod_createJob :: json
  zod_listJobsQuery :: json

abbreviation dq :: string where "dq \<equiv> [CHR 0x22]"
abbreviation newline :: string where "newline \<equiv> [CHR 0x0A]"

definition jsonSchema :: "json \<Rightarrow> json" where
  "jsonSchema out = (case out of JObj kvs \<Rightarrow> JObj (filter (\<lambda>kv. fst kv \<noteq> ''$schema'') kvs) | v \<Rightarrow> v)"

abbreviation chatRequest :: "api_schemas \<Rightarrow> json" where "chatRequest \<equiv> zod_chatRequest"
abbreviation createJobBody :: "api_schemas \<Rightarrow> json" where "createJobBody \<equiv> zod_createJob"

definition errorResponse :: json where
  "errorResponse =
     JObj [(''type'', JStr ''object''),
       (''properties'', JObj [
         (''error'', JObj [(''type'', JStr ''string''),
           (''description'', JStr ''Human-readable message.'')]),
         (''code'', JObj [(''type'', JStr ''string''),
           (''description'', JStr (''Stable machine-readable code '' @ em_dash @
             '' switch on this, not the message.''))])]),
       (''required'', JArr [JStr ''error'', JStr ''code''])]"

text \<open>The fields of the returned object, which every caller spreads into another.\<close>

definition jsonBody :: "json \<Rightarrow> (string \<times> json) list" where
  "jsonBody schema = [(''content'', JObj [(''application/json'', JObj [(''schema'', schema)])])]"

definition error_descriptions :: "(string \<times> string) list" where
  "error_descriptions =
     [(''400'', ''Invalid request body or query parameters.''),
      (''401'', ''Missing, malformed, or revoked API key.''),
      (''402'', ''Organization budget exhausted (billing enforcement enabled).''),
      (''404'', ''No such resource, or it belongs to another organization.''),
      (''429'', ''Rate limit exceeded. Honour the Retry-After header.''),
      (''500'', ''Unexpected server error.''),
      (''502'', ''Upstream provider returned an error.''),
      (''503'', ''All candidate providers are unavailable (circuit breakers open).'')]"

definition errorsFor :: "string list \<Rightarrow> (string \<times> json) list" where
  "errorsFor codes =
     map (\<lambda>c. (c, JObj ((''description'',
       JStr (case map_of error_descriptions c of None \<Rightarrow> ''Error'' | Some t \<Rightarrow> t))
       # jsonBody errorResponse))) codes"

definition doc_info :: "string \<Rightarrow> json" where
  "doc_info version =
     JObj [(''title'', JStr ''CloudMesh API''),
      (''version'', JStr version),
      (''description'', JStr (''Unified AI gateway: one API across OpenAI, Anthropic, Gemini and Ollama, with per-key rate '' @
        ''limiting, semantic caching, cost-aware routing, circuit breaking, usage-based billing and async '' @
        ''jobs.'' @ newline @ newline @
        ''Authenticate with an API key created in the dashboard: `Authorization: Bearer cm_live_...`. The raw '' @
        ''key is shown exactly once, at creation '' @ em_dash @
        '' CloudMesh stores only a SHA-256 hash of it and cannot recover it.'')),
      (''license'', JObj [(''name'', JStr ''MIT'')])]"

definition doc_tags :: "json" where
  "doc_tags =
     JArr [JObj [(''name'', JStr ''Chat''), (''description'',
       JStr ''Completions across every configured provider.'')],
       JObj [(''name'', JStr ''Models''), (''description'', JStr ''Live model discovery.'')],
       JObj [(''name'', JStr ''Jobs''), (''description'', JStr ''Asynchronous batch work.'')],
       JObj [(''name'', JStr ''Cache''), (''description'',
         JStr ''Semantic cache statistics and invalidation.'')],
       JObj [(''name'', JStr ''Routing''), (''description'',
         JStr ''Provider scoring and A/B routing telemetry.'')]]"

definition doc_components :: "api_schemas \<Rightarrow> json" where
  "doc_components schemas =
     JObj [(''securitySchemes'', JObj [(''ApiKeyAuth'', JObj [(''type'', JStr ''http''),
          (''scheme'', JStr ''bearer''),
          (''description'', JStr (''An API key, sent as `Authorization: Bearer cm_live_...`. Revoking a key takes effect immediately, '' @
            ''not after a cache TTL.''))])]),
      (''schemas'', JObj [(''ChatRequest'', jsonSchema (chatRequest schemas)),
        (''CreateJobRequest'', jsonSchema (createJobBody schemas)),
        (''Error'', errorResponse)])]"

definition path_chat :: "json" where
  "path_chat =
     JObj [(''post'', JObj [(''tags'', JArr [JStr ''Chat'']),
        (''summary'', JStr ''Create a chat completion''),
        (''description'', JStr (''Set `model: '' @ dq @ ''auto'' @ dq @
          ''` to let the routing engine score every candidate on cost, latency and reliability. An explicit '' @
          ''model is never silently substituted '' @ em_dash @
          '' if its circuit is open you get a 503 rather than a different model's answer.'' @ newline @ newline @
          ''With `stream: true` the response is `text/event-stream`: `data:` frames each carrying a `delta` '' @
          ''string (the increment, not the running total) alongside `id`/`model`/`provider`/`done`, terminated '' @
          ''by a literal `data: [DONE]` frame.'' @ newline @ newline @
          ''Send an `Idempotency-Key` header to make retries safe; a replay returns the original result as '' @
          ''plain JSON even if the first call was streamed.'')),
        (''operationId'', JStr ''createChatCompletion''),
        (''parameters'', JArr [JObj [(''name'', JStr ''Idempotency-Key''),
          (''in'', JStr ''header''),
          (''required'', JBool False),
          (''schema'', JObj [(''type'', JStr ''string''), (''maxLength'', JNum 255)]),
          (''description'', JStr ''Replay-safe key. Identical keys return the first result.'')]]),
        (''requestBody'', JObj ([(''required'', JBool True)]
          @ jsonBody (JObj [(''$ref'', JStr ''#/components/schemas/ChatRequest'')]))),
        (''responses'', JObj ([(''200'', JObj [
          (''description'', JStr ''A completion. `text/event-stream` instead of JSON when `stream` is true.''),
            (''content'', JObj [(''application/json'', JObj [(''schema'', JObj [(''type'', JStr ''object''),
                  (''properties'', JObj [(''id'', JObj [(''type'', JStr ''string'')]),
                    (''model'', JObj [(''type'', JStr ''string''),
                      (''description'', JStr ''The model that actually served it.'')]),
                    (''provider'', JObj [(''type'', JStr ''string''),
                      (''description'', JStr (''Which upstream served it, e.g. '' @ dq @ ''openai'' @ dq @
                        '', '' @ dq @ ''anthropic'' @ dq @ ''.''))]),
                    (''message'', JObj [(''type'', JStr ''object''),
                      (''properties'', JObj [(''role'', JObj [(''type'', JStr ''string''),
                        (''enum'', JArr [JStr ''assistant''])]),
                        (''content'', JObj [(''type'', JStr ''string'')])])]),
                    (''finishReason'', JObj [(''type'', JStr ''string''),
                      (''description'', JStr (''Why generation stopped, e.g. '' @ dq @ ''stop'' @ dq @
                        '' or '' @ dq @ ''length'' @ dq @ ''.''))]),
                    (''usage'', JObj [(''type'', JStr ''object''),
                      (''description'', JStr (''Only the two components are sent; there is no `totalTokens` field. Both official SDKs expose a '' @
                        ''computed total as a convenience.'')),
                      (''properties'', JObj [(''promptTokens'', JObj [(''type'', JStr ''integer'')]),
                        (''completionTokens'', JObj [(''type'', JStr ''integer'')])])]),
                    (''cached'', JObj [(''type'', JStr ''boolean''),
                      (''description'', JStr ''True when served from the semantic cache (never billed).'')])])])]),
              (''text/event-stream'', JObj [(''schema'', JObj [(''type'', JStr ''string'')])])])])]
          @ errorsFor [''400'', ''401'', ''402'', ''429'', ''502'', ''503'']))])]"

definition path_models :: "json" where
  "path_models =
     JObj [(''get'', JObj [(''tags'', JArr [JStr ''Models'']),
        (''summary'', JStr ''List available models''),
        (''description'', JStr (''Queried live from each configured provider's own catalog and cached ~1h. A provider that is '' @
          ''unconfigured or unreachable degrades gracefully '' @ em_dash @
          '' it contributes nothing rather than failing the whole call.'')),
        (''operationId'', JStr ''listModels''),
        (''responses'', JObj ([(''200'', JObj ([
          (''description'', JStr ''Every model reachable through the configured providers.'')]
            @ jsonBody (JObj [(''type'', JStr ''object''),
              (''properties'', JObj [(''models'', JObj [(''type'', JStr ''array''),
                  (''items'', JObj [(''type'', JStr ''object''),
                    (''properties'', JObj [(''id'', JObj [(''type'', JStr ''string'')]),
                      (''provider'', JObj [(''type'', JStr ''string'')])])])])])])))]
          @ errorsFor [''401'']))])]"

definition path_jobs :: "json" where
  "path_jobs =
     JObj [(''post'', JObj [(''tags'', JArr [JStr ''Jobs'']),
        (''summary'', JStr ''Submit an async job''),
        (''description'', JStr (''Both the job type and its payload are validated before enqueue, so a job that could never succeed '' @
          ''fails fast with 400 instead of consuming retries and landing in the dead-letter queue.'')),
        (''operationId'', JStr ''createJob''),
        (''requestBody'', JObj ([(''required'', JBool True)]
          @ jsonBody (JObj [(''$ref'', JStr ''#/components/schemas/CreateJobRequest'')]))),
        (''responses'', JObj ([(''202'', JObj ([(''description'', JStr ''Accepted and queued.'')]
            @ jsonBody (JObj [(''type'', JStr ''object''),
              (''properties'', JObj [(''id'', JObj [(''type'', JStr ''string''),
                (''format'', JStr ''uuid'')]),
                (''status'', JObj [(''type'', JStr ''string''), (''enum'', JArr [JStr ''QUEUED''])])])])))]
          @ errorsFor [''400'', ''401'', ''429'']))]),
      (''get'', JObj [(''tags'', JArr [JStr ''Jobs'']),
        (''summary'', JStr ''List your organization's jobs''),
        (''operationId'', JStr ''listJobs''),
        (''parameters'', JArr [JObj [(''name'', JStr ''status''),
          (''in'', JStr ''query''),
          (''required'', JBool False),
          (''schema'', JObj [(''type'', JStr ''string''),
            (''enum'', JArr [JStr ''QUEUED'', JStr ''RUNNING'', JStr ''COMPLETED'', JStr ''FAILED'',
              JStr ''DEAD_LETTER''])])], JObj [(''name'', JStr ''limit''),
          (''in'', JStr ''query''),
          (''required'', JBool False),
          (''schema'', JObj [(''type'', JStr ''integer''), (''minimum'', JNum 1),
            (''maximum'', JNum 200)])]]),
        (''responses'', JObj ([(''200'', JObj [
          (''description'', JStr ''Jobs belonging to your organization only.'')])]
          @ errorsFor [''400'', ''401'']))])]"

definition path_job :: "json" where
  "path_job =
     JObj [(''get'', JObj [(''tags'', JArr [JStr ''Jobs'']),
        (''summary'', JStr ''Fetch one job''),
        (''description'', JStr (''Another organization's job id returns 404, never 403 '' @ em_dash @
          '' the response must not reveal whether the id exists.'')),
        (''operationId'', JStr ''getJob''),
        (''parameters'', JArr [JObj [(''name'', JStr ''id''),
          (''in'', JStr ''path''),
          (''required'', JBool True),
          (''schema'', JObj [(''type'', JStr ''string''), (''format'', JStr ''uuid'')])]]),
        (''responses'', JObj ([(''200'', JObj [
          (''description'', JStr ''The job, including progress and result.'')])]
          @ errorsFor [''401'', ''404'']))])]"

definition path_replay :: "json" where
  "path_replay =
     JObj [(''post'', JObj [(''tags'', JArr [JStr ''Jobs'']),
        (''summary'', JStr ''Replay a dead-lettered job''),
        (''description'', JStr (''Re-enqueues onto the original row so a job's history stays in one place. Restricted to DEAD_LETTER '' @
          ''jobs '' @ em_dash @
          '' replaying a running job would put two executions on one row racing each other's status writes.'')),
        (''operationId'', JStr ''replayJob''),
        (''parameters'', JArr [JObj [(''name'', JStr ''id''),
          (''in'', JStr ''path''),
          (''required'', JBool True),
          (''schema'', JObj [(''type'', JStr ''string''), (''format'', JStr ''uuid'')])]]),
        (''responses'', JObj ([(''202'', JObj [(''description'', JStr ''Re-queued.'')])]
          @ errorsFor [''400'', ''401'', ''404'']))])]"

definition path_cache_stats :: "json" where
  "path_cache_stats =
     JObj [(''get'', JObj [(''tags'', JArr [JStr ''Cache'']),
        (''summary'', JStr ''Semantic cache hit/miss counters''),
        (''operationId'', JStr ''getCacheStats''),
        (''responses'', JObj ([(''200'', JObj [
          (''description'', JStr ''Hit and miss counts for your organization.'')])]
          @ errorsFor [''401'']))])]"

definition path_cache :: "json" where
  "path_cache =
     JObj [(''delete'', JObj [(''tags'', JArr [JStr ''Cache'']),
        (''summary'', JStr ''Invalidate cached responses''),
        (''operationId'', JStr ''flushCache''),
        (''parameters'', JArr [JObj [(''name'', JStr ''keepModel''),
          (''in'', JStr ''query''),
          (''required'', JBool False),
          (''schema'', JObj [(''type'', JStr ''string'')]),
          (''description'', JStr ''Invalidate everything except this model's entries.'')]]),
        (''responses'', JObj ([(''200'', JObj [(''description'', JStr ''Number of entries removed.'')])]
          @ errorsFor [''401'']))])]"

definition path_routing_stats :: "json" where
  "path_routing_stats =
     JObj [(''get'', JObj [(''tags'', JArr [JStr ''Routing'']),
        (''summary'', JStr ''Provider latency and reliability''),
        (''description'', JStr (''Aggregate performance of shared upstream providers across all traffic this gateway sends them '' @ em_dash @
          '' deliberately global, not per-tenant. No tenant-specific data crosses organizations through this '' @
          ''endpoint.'')),
        (''operationId'', JStr ''getRoutingStats''),
        (''responses'', JObj ([(''200'', JObj [
          (''description'', JStr ''Rolling-window stats per provider.'')])]
          @ errorsFor [''401'']))])]"

definition path_ab_stats :: "json" where
  "path_ab_stats =
     JObj [(''get'', JObj [(''tags'', JArr [JStr ''Routing'']),
        (''summary'', JStr ''Per-variant A/B request counts''),
        (''description'', JStr ''Scoped to your own organization's configured split.''),
        (''operationId'', JStr ''getAbStats''),
        (''responses'', JObj ([(''200'', JObj [(''description'', JStr ''Request counts per variant.'')])]
          @ errorsFor [''401'']))])]"

definition path_health :: "json" where
  "path_health =
     JObj [(''get'', JObj [(''tags'', JArr [JStr ''Models'']),
        (''summary'', JStr ''Liveness probe''),
        (''description'', JStr ''Unauthenticated. Used as both readiness and liveness probe.''),
        (''operationId'', JStr ''health''),
        (''security'', JArr []),
        (''responses'', JObj [(''200'', JObj [(''description'', JStr ''Service is up.'')])])])]"

section \<open>packages/openapi: the document and the page\<close>

definition doc_paths :: "(string \<times> json) list" where
  "doc_paths =
     [(''/v1/chat'', path_chat),
      (''/v1/models'', path_models),
      (''/v1/jobs'', path_jobs),
      (''/v1/jobs/{id}'', path_job),
      (''/v1/jobs/{id}/replay'', path_replay),
      (''/v1/cache/stats'', path_cache_stats),
      (''/v1/cache'', path_cache),
      (''/v1/routing/stats'', path_routing_stats),
      (''/v1/routing/ab-stats'', path_ab_stats),
      (''/health'', path_health)]"

definition buildOpenApiDocument :: "api_schemas \<Rightarrow> string option \<Rightarrow> string option \<Rightarrow> json" where
  "buildOpenApiDocument schemas serverUrl version =
     JObj [(''openapi'', JStr ''3.1.0''),
       (''info'', doc_info (case version of None \<Rightarrow> ''1.0.0'' | Some v \<Rightarrow> v)),
       (''servers'', JArr [JObj [
         (''url'', JStr (case serverUrl of None \<Rightarrow> ''http://localhost:3001'' | Some u \<Rightarrow> u))]]),
       (''tags'', doc_tags),
       (''components'', doc_components schemas),
       (''security'', JArr [JObj [(''ApiKeyAuth'', JArr [])]]),
       (''paths'', JObj doc_paths)]"

definition swaggerUiHtml :: "string \<Rightarrow> string" where
  "swaggerUiHtml specUrl = join_with newline
     [''<!doctype html>'',
        ''<html lang='' @ dq @ ''en'' @ dq @ ''>'',
        ''  <head>'',
        ''    <meta charset='' @ dq @ ''utf-8'' @ dq @ '' />'',
        ''    <meta name='' @ dq @ ''viewport'' @ dq @ '' content='' @ dq @
          ''width=device-width, initial-scale=1'' @ dq @ '' />'',
        ''    <title>CloudMesh API Reference</title>'',
        ''    <link rel='' @ dq @ ''stylesheet'' @ dq @ '' href='' @ dq @
          ''https://unpkg.com/swagger-ui-dist@5.17.14/swagger-ui.css'' @ dq @ '' />'',
        ''    <style>'',
        ''      body { margin: 0; background: #fafafa; }'',
        ''      .topbar { display: none; }'',
        ''    </style>'',
        ''  </head>'',
        ''  <body>'',
        ''    <div id='' @ dq @ ''swagger-ui'' @ dq @ ''></div>'',
        ''    <script src='' @ dq @ ''https://unpkg.com/swagger-ui-dist@5.17.14/swagger-ui-bundle.js'' @
          dq @ '' crossorigin></script>'',
        ''    <script>'',
        ''      window.onload = () => {'',
        ''        window.SwaggerUIBundle({'',
        ''          url: '' @ json_stringify (JStr specUrl) @ '','',
        ''          dom_id: '' @ dq @ ''#swagger-ui'' @ dq @ '','',
        ''          deepLinking: true,'',
        ''          persistAuthorization: true,'',
        ''        });'',
        ''      };'',
        ''    </script>'',
        ''  </body>'',
        ''</html>'']"

section \<open>modules/docs/routes.ts\<close>

definition openapi_route :: "api_schemas \<Rightarrow> string option \<Rightarrow> json" where
  "openapi_route schemas PUBLIC_BASE_URL = buildOpenApiDocument schemas PUBLIC_BASE_URL None"

definition docs_route :: "string \<times> string" where
  "docs_route = (''text/html; charset=utf-8'', swaggerUiHtml ''/openapi.json'')"

section \<open>The routes the gateway registers\<close>

text \<open>\<^verbatim>\<open>buildApp\<close>: the HTTP routes of the plugins it registers, in their order, and its own.\<close>

definition chatRoutes_table :: "(string \<times> string) list" where
  "chatRoutes_table =
     [(''post'', ''/v1/chat''), (''get'', ''/v1/models''), (''get'', ''/v1/cache/stats''),
       (''delete'', ''/v1/cache''),
      (''get'', ''/v1/routing/stats''), (''get'', ''/v1/routing/ab-stats'')]"

definition jobRoutes_table :: "(string \<times> string) list" where
  "jobRoutes_table =
     [(''post'', ''/v1/jobs''), (''get'', ''/v1/jobs''), (''get'', ''/v1/jobs/:id''),
       (''post'', ''/v1/jobs/:id/replay'')]"

definition docsRoutes_table :: "(string \<times> string) list" where
  "docsRoutes_table = [(''get'', ''/openapi.json''), (''get'', ''/docs'')]"

definition gateway_routes :: "(string \<times> string) list" where
  "gateway_routes =
     (''get'', ''/metrics'') # docsRoutes_table @ chatRoutes_table @ jobRoutes_table @ [(''get'', ''/health'')]"

text \<open>The routes about the gateway itself that the document leaves out.\<close>

definition internal_routes :: "(string \<times> string) list" where
  "internal_routes = (''get'', ''/metrics'') # docsRoutes_table"

section \<open>The document and the gateway\<close>

fun json_refs :: "json \<Rightarrow> string list" where
  "json_refs (JObj kvs) = concat (map (\<lambda>(k, v). if k =
    ''$ref'' then [jstr (Some v)] else json_refs v) kvs)"
| "json_refs (JArr vs) = concat (map json_refs vs)"
| "json_refs v = []"

text \<open>A reference into the document, of the form the document uses.\<close>

definition ref_resolves :: "json \<Rightarrow> string \<Rightarrow> bool" where
  "ref_resolves doc r =
     (case split_on (CHR ''/'') r of
        [h, a, b, c] \<Rightarrow> h = ''#'' \<and> opt_get (opt_get (jget doc a) b) c \<noteq> None
      | _ \<Rightarrow> False)"

text \<open>\<^verbatim>\<open>{id}\<close> in the document is \<^verbatim>\<open>:id\<close> in a route.\<close>

fun openapi_path :: "string \<Rightarrow> string" where
  "openapi_path [] = []"
| "openapi_path (c # cs) =
     (if c = CHR '':'' then CHR ''{'' # takeWhile (\<lambda>x. x \<noteq> CHR ''/'') cs @ CHR ''}'' # dropWhile (\<lambda>x. x \<noteq> CHR ''/'') cs
      else c # openapi_path cs)"

definition fields_of :: "json \<Rightarrow> (string \<times> json) list" where
  "fields_of v = (case v of JObj kvs \<Rightarrow> kvs | _ \<Rightarrow> [])"

definition doc_operations :: "json \<Rightarrow> ((string \<times> string) \<times> json) list" where
  "doc_operations doc =
     concat (map (\<lambda>(path, item). map (\<lambda>(method, op). ((method, path), op)) (fields_of item)) (fields_of (the (jget doc ''paths''))))"

definition doc_statuses :: "json \<Rightarrow> string list" where
  "doc_statuses op = map fst (fields_of (the (jget op ''responses'')))"

lemmas path_defs = path_chat_def path_models_def path_jobs_def path_job_def path_replay_def path_cache_stats_def path_cache_def
  path_routing_stats_def path_ab_stats_def path_health_def

lemma paths_of_document [simp]: "jget (buildOpenApiDocument schemas u v) ''paths'' = Some (JObj doc_paths)"
  by (simp add: buildOpenApiDocument_def)

lemma document_operations:
  "map fst (doc_operations (buildOpenApiDocument schemas u v)) =
     [(''post'', ''/v1/chat''), (''get'', ''/v1/models''), (''post'', ''/v1/jobs''),
       (''get'', ''/v1/jobs''),
      (''get'', ''/v1/jobs/{id}''), (''post'', ''/v1/jobs/{id}/replay''), (''get'', ''/v1/cache/stats''),
        (''delete'', ''/v1/cache''),
      (''get'', ''/v1/routing/stats''), (''get'', ''/v1/routing/ab-stats''), (''get'', ''/health'')]"
  by (simp add: doc_operations_def doc_paths_def fields_of_def path_defs)

lemma documented_routes:
  "set (map fst (doc_operations (buildOpenApiDocument schemas u v)))
     = (\<lambda>(m, p). (m, openapi_path p)) ` (set gateway_routes - set internal_routes)"
proof -
  have "set gateway_routes - set internal_routes =
    set (filter (\<lambda>r. r \<notin> set internal_routes) gateway_routes)" by auto
  also have "\<dots> = set (chatRoutes_table @ jobRoutes_table @ [(''get'', ''/health'')])"
    by (simp add: gateway_routes_def internal_routes_def docsRoutes_table_def chatRoutes_table_def jobRoutes_table_def)
  finally show ?thesis
    unfolding document_operations by (simp add: chatRoutes_table_def jobRoutes_table_def insert_commute)
qed

lemma document_refs: "set (json_refs (JObj doc_paths)) =
  {''#/components/schemas/ChatRequest'', ''#/components/schemas/CreateJobRequest''}"
  by (simp add: doc_paths_def path_defs errorsFor_def jsonBody_def errorResponse_def)

lemma document_refs_resolve:
  "r \<in> set (json_refs (JObj doc_paths)) \<Longrightarrow> ref_resolves (buildOpenApiDocument schemas u v) r"
  unfolding document_refs by (auto simp: ref_resolves_def buildOpenApiDocument_def doc_components_def opt_get_def)

text \<open>
  Operations have names of their own, and all of them but the health probe need a key and say that it may be refused.
\<close>

lemma map_fst_errorsFor [simp]: "map fst (errorsFor cs) = cs"
  by (simp add: errorsFor_def comp_def)

definition operation_id :: "json \<Rightarrow> string" where
  "operation_id op = jstr (jget op ''operationId'')"

definition needs_key :: "json \<Rightarrow> bool" where
  "needs_key op \<longleftrightarrow> jget op ''security'' \<noteq> Some (JArr [])"

lemma operation_ids_distinct: "distinct (map (operation_id \<circ> snd)
  (doc_operations (buildOpenApiDocument schemas u v)))"
  by (simp add: doc_operations_def doc_paths_def fields_of_def path_defs operation_id_def)

lemma keys_documented:
  "list_all (\<lambda>(r, op). (needs_key op \<longleftrightarrow> r \<noteq> (''get'', ''/health''))
    \<and> (needs_key op \<longleftrightarrow> ''401'' \<in> set (doc_statuses op)))
     (doc_operations (buildOpenApiDocument schemas u v))"
  by (simp add: doc_operations_def doc_paths_def fields_of_def path_defs needs_key_def doc_statuses_def
      flip: set_map)

text \<open>The parameters of an operation, by name: their schemas.\<close>

definition doc_parameter :: "json \<Rightarrow> string \<Rightarrow> json" where
  "doc_parameter op name =
     (case find (\<lambda>p. jget p ''name'' =
       Some (JStr name)) (case jget op ''parameters'' of Some (JArr ps) \<Rightarrow> ps | _ \<Rightarrow> []) of
        Some p \<Rightarrow> the (jget p ''schema'') | None \<Rightarrow> JNull)"

definition in_bounds :: "json \<Rightarrow> nat \<Rightarrow> bool" where
  "in_bounds schema n \<longleftrightarrow> jnum (jget schema ''minimum'') \<le> of_nat n \<and> of_nat n \<le> jnum (jget schema ''maximum'')"

definition enum_of :: "json \<Rightarrow> string list" where
  "enum_of schema = (case jget schema ''enum'' of Some (JArr vs) \<Rightarrow> map (\<lambda>v. jstr (Some v)) vs | _ \<Rightarrow> [])"

abbreviation list_jobs_operation :: json where
  "list_jobs_operation \<equiv> the (jget path_jobs ''get'')"

lemma list_jobs_parameters:
  "doc_parameter list_jobs_operation ''limit'' = JObj [(''type'', JStr ''integer''), (''minimum'', JNum 1),
    (''maximum'', JNum 200)]"
  "enum_of (doc_parameter list_jobs_operation ''status'') =
    [''QUEUED'', ''RUNNING'', ''COMPLETED'', ''FAILED'', ''DEAD_LETTER'']"
  by (simp_all add: path_jobs_def doc_parameter_def enum_of_def)

text \<open>What the document says of the listing's parameters is what \<^verbatim>\<open>listJobsQuerySchema\<close> accepts.\<close>

lemma documented_limit: "z_limit (Some (show_nat n)) = Some (Some n)
  \<longleftrightarrow> in_bounds (doc_parameter list_jobs_operation ''limit'') n"
  unfolding list_jobs_parameters
  by (auto simp: z_limit_def js_number_show_nat in_bounds_def math_floor_def of_nat_le_iff [of _ 200, symmetric] simp del: of_nat_le_iff)

lemma documented_status:
  "(\<exists>st. listJobsQuerySchema (Some status) None = Some (st, None))
    \<longleftrightarrow> status \<in> set (enum_of (doc_parameter list_jobs_operation ''status''))"
proof -
  have "map_of JOB_STATUS_NAMES status \<noteq> None \<longleftrightarrow> status \<in> fst ` set JOB_STATUS_NAMES" by (simp add: map_of_eq_None_iff)
  also have "fst ` set JOB_STATUS_NAMES = set (enum_of (doc_parameter list_jobs_operation ''status''))"
    unfolding list_jobs_parameters by (simp add: JOB_STATUS_NAMES_def)
  finally show ?thesis by (auto simp: listJobsQuerySchema_def z_limit_def)
qed

text \<open>
  The answer to a submission is not the documented one: its id is called \<^verbatim>\<open>job_id\<close>, and an exhausted budget's 402 is
  missing; so is the 429 of the guard in front of a replay.
\<close>

definition answer_schema :: "json \<Rightarrow> string \<Rightarrow> json option" where
  "answer_schema op st =
     opt_get (opt_get (opt_get (opt_get (jget op ''responses'') st) ''content'') ''application/json'') ''schema''"

lemma submission_documented_otherwise:
  "jget (created_json job) ''id'' = None"
  "map fst (fields_of (the (opt_get (answer_schema (the (jget path_jobs ''post'')) ''202'') ''properties''))) =
    [''id'', ''status'']"
  "''402'' \<notin> set (doc_statuses (the (jget path_jobs ''post'')))"
  "''429'' \<notin> set (doc_statuses (the (jget path_replay ''post'')))"
  by (simp_all add: created_json_def path_jobs_def path_replay_def doc_statuses_def fields_of_def jsonBody_def
    answer_schema_def opt_get_def)


end
