(* ===== verification/Lifecycle.thy ===== *)
theory Lifecycle
  imports Processes Jobs Webhooks Scripts Observability Stripe
begin

text \<open>
  How the processes start and stop: the outbox poller with its handle, the options of queues, workers, stream and
  consumers, and the entry points \<^verbatim>\<open>server.ts\<close>, \<^verbatim>\<open>worker.ts\<close>, \<^verbatim>\<open>webhookWorker.ts\<close>,
  \<^verbatim>\<open>consumers.ts\<close> of the gateway and \<^verbatim>\<open>server.ts\<close> of the account service with the plugins they register. A process is what it
  has open, what it printed, and its exit code. The lemmas show that the poller neither overlaps nor dies nor
  survives \<^verbatim>\<open>stop\<close>, that no process ever uses what it has closed, and which exit code it ends with.
\<close>

section \<open>outbox.ts: the poller and its handle\<close>

text \<open>Whether \<^verbatim>\<open>stop\<close> was called, whether a timeout is pending, the calls of \<^verbatim>\<open>tick\<close> that have not returned, the polls begun.\<close>

record poller =
  pl_stopped :: bool
  pl_timer :: bool
  pl_running :: nat
  pl_polls :: nat

definition poller_start :: poller where
  "poller_start = \<lparr>pl_stopped = False, pl_timer = True, pl_running = 0, pl_polls = 0\<rparr>"

text \<open>
  \<^verbatim>\<open>tick\<close> up to its \<^verbatim>\<open>await\<close>, and after it: an error of the poll is caught, so both outcomes go on the
  same way.
\<close>

definition tick_begin :: "poller \<Rightarrow> poller" where
  "tick_begin p =
     (let q = p\<lparr>pl_timer := False\<rparr> in
      if pl_stopped q then q else q\<lparr>pl_running := pl_running q + 1, pl_polls := pl_polls q + 1\<rparr>)"

definition tick_end :: "poller \<Rightarrow> poller" where
  "tick_end p =
     (let q = p\<lparr>pl_running := pl_running p - 1\<rparr> in if pl_stopped q then q else q\<lparr>pl_timer := True\<rparr>)"

definition poller_stop :: "poller \<Rightarrow> poller" where
  "poller_stop p = p\<lparr>pl_stopped := True, pl_timer := False\<rparr>"

inductive poller_step :: "poller \<Rightarrow> poller \<Rightarrow> bool" where
  fire: "pl_timer p \<Longrightarrow> poller_step p (tick_begin p)"
| finished: "0 < pl_running p \<Longrightarrow> poller_step p (tick_end p)"
| stop: "poller_step p (poller_stop p)"

inductive_cases poller_stepE: "poller_step p q"

lemmas poller_defs = poller_start_def tick_begin_def tick_end_def poller_stop_def Let_def

text \<open>Until it is stopped exactly one of a pending timeout and a running poll exists; afterwards nothing is pending.\<close>

definition poller_ok :: "poller \<Rightarrow> bool" where
  "poller_ok p \<longleftrightarrow>
     pl_running p \<le> 1 \<and> (if pl_stopped p then \<not> pl_timer p else pl_timer p = (pl_running p = 0))"

lemma poller_step_ok: "poller_step p q \<Longrightarrow> poller_ok p \<Longrightarrow> poller_ok q"
  by (erule poller_stepE) (auto simp: poller_ok_def poller_defs split: if_splits)

lemma poller_reachable_ok:
  assumes "poller_step\<^sup>*\<^sup>* poller_start p" shows "poller_ok p"
  using assms
proof (induction rule: rtranclp_induct)
  case base
  show ?case by (simp add: poller_ok_def poller_start_def)
qed (rule poller_step_ok)

lemma stopped_polls:
  assumes "poller_step\<^sup>*\<^sup>* p q" and "poller_ok p" and "pl_stopped p"
  shows "pl_stopped q \<and> pl_polls q = pl_polls p \<and> pl_running q \<le> pl_running p"
  using assms
proof (induction rule: rtranclp_induct)
  case (step q r)
  have "poller_ok q" using step.hyps(1) step.prems(1) by (induction rule: rtranclp_induct) (auto intro: poller_step_ok)
  with step show ?case by (auto elim!: poller_stepE simp: poller_ok_def poller_defs split: if_splits)
qed simp

lemma poller_alive:
  assumes "poller_step\<^sup>*\<^sup>* poller_start p" and "\<not> pl_stopped p"
  shows "\<exists>q r. poller_step\<^sup>*\<^sup>* p q \<and> poller_step q r \<and> pl_polls r = pl_polls p + 1"
proof (cases "pl_timer p")
  case True
  then have "poller_step p (tick_begin p)" by (rule poller_step.fire)
  moreover have "pl_polls (tick_begin p) = pl_polls p + 1" using assms(2) by (simp add: poller_defs)
  ultimately show ?thesis by blast
next
  case False
  with poller_reachable_ok [OF assms(1)] assms(2) have "pl_running p = 1" by (auto simp: poller_ok_def)
  then have "poller_step p (tick_end p)" by (auto intro: poller_step.finished)
  moreover have "poller_step (tick_end p) (tick_begin (tick_end p))"
    using assms(2) by (intro poller_step.fire) (simp add: poller_defs)
  moreover have "pl_polls (tick_begin (tick_end p)) = pl_polls p + 1" using assms(2) by (simp add: poller_defs)
  ultimately show ?thesis by blast
qed

section \<open>Queues, workers, stream, consumers\<close>

text \<open>
  What BullMQ is told: queue and worker find each other by prefix and name. A connection is the Redis client it
  duplicates and its limit of retries, \<open>None\<close> for \<^verbatim>\<open>null\<close>.
\<close>

record bull_connection =
  bc_maxRetriesPerRequest :: "nat option"

record queue_options =
  qo_name :: string
  qo_prefix :: string
  qo_connection :: bull_connection

record worker_options = queue_options +
  wo_concurrency :: int
  wo_lockDuration :: "ms option"
  wo_backoff :: "(nat \<Rightarrow> ms) option"

definition duplicate_connection :: bull_connection where
  "duplicate_connection = \<lparr>bc_maxRetriesPerRequest = None\<rparr>"

definition createJobQueue :: queue_options where
  "createJobQueue = \<lparr>qo_name = ''jobs'', qo_prefix = ''cloudmesh'', qo_connection = duplicate_connection\<rparr>"

definition createWebhookQueue :: queue_options where
  "createWebhookQueue = \<lparr>qo_name = ''webhooks'', qo_prefix = ''cloudmesh'', qo_connection = duplicate_connection\<rparr>"

definition DEFAULT_WORKER_CONCURRENCY :: int where
  "DEFAULT_WORKER_CONCURRENCY = 10"

definition DEFAULT_LOCK_DURATION_MS :: ms where
  "DEFAULT_LOCK_DURATION_MS = 5 * 60000"

definition createJobWorker :: "int option \<Rightarrow> ms option \<Rightarrow> worker_options" where
  "createJobWorker concurrency lockDurationMs =
     \<lparr>qo_name = ''jobs'', qo_prefix = ''cloudmesh'', qo_connection = duplicate_connection,
      wo_concurrency = (case concurrency of None \<Rightarrow> DEFAULT_WORKER_CONCURRENCY | Some c \<Rightarrow> c),
      wo_lockDuration = Some (case lockDurationMs of None \<Rightarrow> DEFAULT_LOCK_DURATION_MS | Some l \<Rightarrow> l), wo_backoff = None\<rparr>"

definition createWebhookWorker :: "int option \<Rightarrow> ms list option \<Rightarrow> worker_options" where
  "createWebhookWorker concurrency retryScheduleMs =
     \<lparr>qo_name = ''webhooks'', qo_prefix = ''cloudmesh'', qo_connection = duplicate_connection,
      wo_concurrency = (case concurrency of None \<Rightarrow> 10 | Some c \<Rightarrow> c), wo_lockDuration = None,
      wo_backoff = Some (makeBackoffStrategy (case retryScheduleMs of None \<Rightarrow> WEBHOOK_RETRY_SCHEDULE_MS | Some s \<Rightarrow> s))\<rparr>"

text \<open>A job that is enqueued in one process is taken by the worker of another, and only by the worker for it.\<close>

definition drains :: "worker_options \<Rightarrow> queue_options \<Rightarrow> bool" where
  "drains w q \<longleftrightarrow> qo_prefix w = qo_prefix q \<and> qo_name w = qo_name q"

lemma workers_drain_their_queues:
  "drains (createJobWorker c l) createJobQueue" "drains (createWebhookWorker c s) createWebhookQueue"
  "\<not> drains (createJobWorker c l) createWebhookQueue" "\<not> drains (createWebhookWorker c s) createJobQueue"
  by (simp_all add: drains_def createJobWorker_def createWebhookWorker_def createJobQueue_def createWebhookQueue_def)

text \<open>The connection to NATS, the stream it creates, and what a durable consumer is told.\<close>

record connect_options =
  co_servers :: string
  co_name :: "string option"
  co_maxReconnectAttempts :: int

record stream_config =
  sc_name :: string
  sc_subjects :: "string list"
  sc_retention :: string
  sc_max_age :: int

record consumer_config =
  cc_durable_name :: string
  cc_ack_policy :: string
  cc_deliver_policy :: string
  cc_filter_subject :: string
  cc_max_deliver :: nat

definition EVENT_STREAM_NAME :: string where
  "EVENT_STREAM_NAME = ''CLOUDMESH_EVENTS''"

definition EVENT_SUBJECT_WILDCARD :: string where
  "EVENT_SUBJECT_WILDCARD = ''cloudmesh.>''"

definition connectEventBus :: "string \<Rightarrow> string option \<Rightarrow> int option \<Rightarrow> connect_options \<times> stream_config" where
  "connectEventBus servers name maxReconnectAttempts =
     (\<lparr>co_servers = servers, co_name = name,
       co_maxReconnectAttempts = (case maxReconnectAttempts of None \<Rightarrow> - 1 | Some m \<Rightarrow> m)\<rparr>,
      \<lparr>sc_name = EVENT_STREAM_NAME, sc_subjects = [EVENT_SUBJECT_WILDCARD], sc_retention = ''limits'',
       sc_max_age = 7 * 24 * 60 * 60 * 1000000000\<rparr>)"

definition consumer_of :: "('s, 'w) subscription \<Rightarrow> nat option \<Rightarrow> consumer_config" where
  "consumer_of sub maxDeliver =
     \<lparr>cc_durable_name = sub_durable sub, cc_ack_policy = ''explicit'', cc_deliver_policy = ''all'',
      cc_filter_subject = sub_filter sub, cc_max_deliver = (case maxDeliver of None \<Rightarrow> DEFAULT_MAX_DELIVER | Some m \<Rightarrow> m)\<rparr>"

text \<open>Whatever is published under a named type is kept by the stream, and the five consumers are five durables.\<close>

lemma published_on_stream:
  "ty \<noteq> [] \<Longrightarrow> list_ex (\<lambda>f. subject_matches f (subjectFor ty)) (sc_subjects (snd (connectEventBus servers name m)))"
  by (simp add: connectEventBus_def EVENT_SUBJECT_WILDCARD_def subject_matches_def subjectFor_def)

lemma consumers_distinct:
  "distinct (map (\<lambda>s. cc_durable_name (consumer_of s None)) (subscriptions R zuuid newId pretty cfg net))"
  by (simp add: subscriptions_def consumer_of_def)

text \<open>
  The loop of \<^verbatim>\<open>subscribe\<close>: \<open>stopped i\<close> says whether \<^verbatim>\<open>stop\<close> was called before the message \<open>i\<close> was
  looked at. What it has not looked at is neither acknowledged nor terminated, so JetStream delivers it again.
\<close>

fun pump ::
    "(string \<Rightarrow> bool) \<Rightarrow> ('s, 'w) subscription \<Rightarrow> (nat \<Rightarrow> bool) \<Rightarrow> nat \<Rightarrow> (ms \<times> message) list \<Rightarrow> ('s, 'w) consumers_world
      \<Rightarrow> ack list \<times> ('s, 'w) consumers_world" where
  "pump zuuid sub stopped i [] w = ([], w)"
| "pump zuuid sub stopped i ((t, msg) # msgs) w =
     (if stopped i then ([], w)
      else (case consume zuuid (sub_handler sub t) msg w of
              (a, w1) \<Rightarrow> (case pump zuuid sub stopped (i + 1) msgs w1 of (as, w2) \<Rightarrow> (a # as, w2))))"

lemma pump_stops:
  "\<exists>k. pump zuuid sub stopped i msgs w = pump zuuid sub (\<lambda>_. False) i (take k msgs) w
     \<and> length (fst (pump zuuid sub stopped i msgs w)) = k \<and> (stopped (i + k) \<or> k = length msgs)"
proof (induction zuuid sub stopped i msgs w rule: pump.induct)
  case (2 zuuid sub stopped i t msg msgs w)
  show ?case
  proof (cases "stopped i")
    case False
    obtain a w1 where c: "consume zuuid (sub_handler sub t) msg w = (a, w1)" by force
    obtain as w2 where rest: "pump zuuid sub stopped (i + 1) msgs w1 = (as, w2)" by force
    from 2 [OF False c [symmetric]] obtain k where
      "pump zuuid sub (\<lambda>_. False) (i + 1) (take k msgs) w1 = (as, w2)" "length as = k" "stopped (i + 1 + k) \<or> k = length msgs"
      unfolding rest by (metis fst_conv)
    then show ?thesis using False c rest by (intro exI [of _ "Suc k"]) simp
  qed simp
qed simp

text \<open>
  The logger of both applications: off under test, and otherwise every line carries the ids of the active span, or nothing.
\<close>

definition app_logger :: "string \<Rightarrow> ((string \<times> string) option \<Rightarrow> (string \<times> json) list) option" where
  "app_logger NODE_ENV =
     (if NODE_ENV = ''test'' then None
      else Some (\<lambda>active. case getTraceContext active of
             None \<Rightarrow> []
           | Some c \<Rightarrow> [(''trace_id'', JStr (trace_id c)), (''span_id'', JStr (span_id c))]))"

section \<open>Processes: starting, running, stopping\<close>

text \<open>
  What a process can have open. The HTTP server and the poller carry what they use: the gateway's server has the job
  queue besides the database and Redis, and the poller publishes on the bus or on the log.
\<close>

datatype resource =
  Db_client
| Redis_client
| Nats_connection
| Job_queue
| Webhook_queue
| Http_server "resource list"
| Job_worker
| Webhook_worker
| Durable string
| Outbox_poller bool
| Circuit_timer
| Live_stats_timer

fun uses :: "resource \<Rightarrow> resource list" where
  "uses (Http_server rs) = rs"
| "uses Job_worker = [Db_client, Redis_client]"
| "uses Webhook_worker = [Db_client]"
| "uses (Durable d) = [Nats_connection, Db_client, Redis_client, Webhook_queue]"
| "uses (Outbox_poller on_bus) = Db_client # (if on_bus then [Nats_connection] else [])"
| "uses Circuit_timer = [Redis_client]"
| "uses Live_stats_timer = [Redis_client]"
| "uses _ = []"

record process =
  ps_open :: "resource list"
  ps_output :: "string list"
  ps_exit :: "nat option"

definition fresh_process :: process where
  "fresh_process = \<lparr>ps_open = [], ps_output = [], ps_exit = None\<rparr>"

text \<open>
  An entry point is a list of actions. \<^verbatim>\<open>Open\<close> and \<^verbatim>\<open>Close\<close> may fail (they are awaited, or throw);
  \<^verbatim>\<open>Begin\<close> and \<^verbatim>\<open>Stop\<close> are synchronous calls that cannot.
\<close>

datatype action = Open resource | Close resource | Begin resource | Stop resource | Say string

fun perform :: "action \<Rightarrow> process \<Rightarrow> process" where
  "perform (Open r) p = p\<lparr>ps_open := ps_open p @ [r]\<rparr>"
| "perform (Begin r) p = p\<lparr>ps_open := ps_open p @ [r]\<rparr>"
| "perform (Close r) p = p\<lparr>ps_open := removeAll r (ps_open p)\<rparr>"
| "perform (Stop r) p = p\<lparr>ps_open := removeAll r (ps_open p)\<rparr>"
| "perform (Say msg) p = p\<lparr>ps_output := ps_output p @ [msg]\<rparr>"

fun failure_of :: "(action \<Rightarrow> string option) \<Rightarrow> action \<Rightarrow> string option" where
  "failure_of fails (Open r) = fails (Open r)"
| "failure_of fails (Close r) = fails (Close r)"
| "failure_of fails _ = None"

text \<open>The states a run goes through, the last one first in the result, and the error that ended it early.\<close>

fun run_actions :: "(action \<Rightarrow> string option) \<Rightarrow> action list \<Rightarrow> process \<Rightarrow> string option \<times> process \<times> process list" where
  "run_actions fails [] p = (None, p, [p])"
| "run_actions fails (a # as) p =
     (case failure_of fails a of
        Some e \<Rightarrow> (Some e, p, [p])
      | None \<Rightarrow> (case run_actions fails as (perform a p) of (r, q, ps) \<Rightarrow> (r, q, p # ps)))"

definition exit_process :: "nat \<Rightarrow> string list \<Rightarrow> process \<Rightarrow> process" where
  "exit_process code output p = p\<lparr>ps_exit := Some code, ps_output := ps_output p @ output\<rparr>"

text \<open>An error while starting ends the process with 1, caught around \<^verbatim>\<open>listen\<close> or thrown by a top-level \<^verbatim>\<open>await\<close>.\<close>

definition boot :: "(action \<Rightarrow> string option) \<Rightarrow> action list \<Rightarrow> process \<times> process list" where
  "boot fails as =
     (case run_actions fails as fresh_process of
        (None, p, ps) \<Rightarrow> (p, ps)
      | (Some e, p, ps) \<Rightarrow> (exit_process 1 [e] p, ps))"

text \<open>The handler of a signal: the chain of promises ends in \<^verbatim>\<open>process.exit(0)\<close> or in the message and \<^verbatim>\<open>process.exit(1)\<close>.\<close>

definition on_signal :: "(action \<Rightarrow> string option) \<Rightarrow> action list \<Rightarrow> string \<Rightarrow> process \<Rightarrow> process \<times> process list" where
  "on_signal fails as complaint p =
     (case run_actions fails as p of
        (None, q, ps) \<Rightarrow> (exit_process 0 [] q, ps)
      | (Some e, q, ps) \<Rightarrow> (exit_process 1 [complaint, e] q, ps))"

subsection \<open>The entry points\<close>

text \<open>
  \<^verbatim>\<open>app.close()\<close> stops the server, which finishes its requests, and then runs the \<^verbatim>\<open>onClose\<close> hooks of the
  plugins, in an order that is Fastify's. What a failed close leaves open does not matter: the process exits.
\<close>

definition close_app :: "(resource list \<Rightarrow> resource list) \<Rightarrow> resource list \<Rightarrow> resource list \<Rightarrow> action list" where
  "close_app order used hooks = Close (Http_server used) # map Close (order hooks)"

text \<open>\<^verbatim>\<open>apps/api\<close>: \<^verbatim>\<open>plugins/db.ts\<close> closes nothing, \<^verbatim>\<open>plugins/redis.ts\<close> its client.\<close>

definition api_plugins :: "action list" where
  "api_plugins = [Open Db_client, Open Redis_client]"

definition api_start :: "action list" where
  "api_start = api_plugins @ [Open (Http_server [Db_client, Redis_client])]"

definition api_stop :: "(resource list \<Rightarrow> resource list) \<Rightarrow> action list" where
  "api_stop order = Say ''shutting down'' # close_app order [Db_client, Redis_client] [Redis_client] @ [Close Db_client]"

definition gateway_uses :: "resource list" where
  "gateway_uses = [Db_client, Redis_client, Job_queue]"

definition gateway_plugins :: "action list" where
  "gateway_plugins = [Open Db_client, Open Redis_client, Begin Job_queue]"

definition gateway_start :: "string option \<Rightarrow> action list" where
  "gateway_start NATS_URL =
     gateway_plugins @ [Open (Http_server gateway_uses)]
     @ (if truthy NATS_URL then [Open Nats_connection, Say ''event bus connected'']
        else [Say (''NATS_URL not set '' @ em_dash @ '' outbox events will be logged, not published'')])
     @ [Begin (Outbox_poller (truthy NATS_URL)), Begin Circuit_timer, Begin Live_stats_timer]"

definition gateway_stop :: "(resource list \<Rightarrow> resource list) \<Rightarrow> string option \<Rightarrow> action list" where
  "gateway_stop order NATS_URL =
     [Say ''shutting down'', Stop (Outbox_poller (truthy NATS_URL)), Stop Circuit_timer]
     @ close_app order gateway_uses [Redis_client, Job_queue]
     @ (if truthy NATS_URL then [Close Nats_connection] else [])
     @ [Close Db_client]"

definition worker_start :: "int \<Rightarrow> action list" where
  "worker_start concurrency =
     [Begin Redis_client, Open Db_client, Begin Job_worker,
      Say (''[worker] listening on queue, concurrency='' @ show_int concurrency)]"

definition worker_stop :: "action list" where
  "worker_stop = [Close Job_worker, Close Redis_client, Close Db_client]"

definition webhookWorker_start :: "int \<Rightarrow> action list" where
  "webhookWorker_start concurrency =
     [Begin Redis_client, Open Db_client, Begin Webhook_worker,
      Say (''[webhookWorker] listening on webhook queue, concurrency='' @ show_int concurrency)]"

definition webhookWorker_stop :: "action list" where
  "webhookWorker_stop = [Close Webhook_worker, Close Redis_client, Close Db_client]"

definition durables :: "string list" where
  "durables = [''analytics_service'', ''audit_service'', ''billing_service'', ''webhook_dispatch_service'', ''email_service'']"

definition consumers_start :: "string \<Rightarrow> action list" where
  "consumers_start natsUrl =
     [Begin Redis_client, Open Db_client, Open Nats_connection, Begin Webhook_queue]
     @ map (\<lambda>d. Open (Durable d)) durables
     @ [Say (''[consumers] '' @ show_nat (length durables) @ '' subscribers running against '' @ natsUrl)]"

definition consumers_stop :: "action list" where
  "consumers_stop =
     map (\<lambda>d. Close (Durable d)) durables @ [Close Nats_connection, Close Webhook_queue, Close Redis_client, Close Db_client]"

datatype entry_point = Api | Gateway | Worker | WebhookWorker | Consumers

text \<open>The modules, with the configuration they read.\<close>

definition start_process :: "entry_point \<Rightarrow> string option \<Rightarrow> int \<Rightarrow> (action \<Rightarrow> string option) \<Rightarrow> process \<times> process list" where
  "start_process entry NATS_URL concurrency fails =
     (case entry of
        Api \<Rightarrow> boot fails api_start
      | Gateway \<Rightarrow> boot fails (gateway_start NATS_URL)
      | Worker \<Rightarrow> boot fails (worker_start concurrency)
      | WebhookWorker \<Rightarrow> boot fails (webhookWorker_start concurrency)
      | Consumers \<Rightarrow>
          (if truthy NATS_URL then boot fails (consumers_start (the NATS_URL))
           else (exit_process 1 [''[consumers] NATS_URL is required to run event consumers''] fresh_process, [fresh_process])))"

definition stop_actions :: "(resource list \<Rightarrow> resource list) \<Rightarrow> entry_point \<Rightarrow> string option \<Rightarrow> action list" where
  "stop_actions order entry NATS_URL =
     (case entry of
        Api \<Rightarrow> api_stop order
      | Gateway \<Rightarrow> gateway_stop order NATS_URL
      | Worker \<Rightarrow> worker_stop
      | WebhookWorker \<Rightarrow> webhookWorker_stop
      | Consumers \<Rightarrow> consumers_stop)"

definition complaint_of :: "entry_point \<Rightarrow> string" where
  "complaint_of entry =
     (case entry of
        Worker \<Rightarrow> ''[worker] error during shutdown''
      | WebhookWorker \<Rightarrow> ''[webhookWorker] error during shutdown''
      | Consumers \<Rightarrow> ''[consumers] error during shutdown''
      | _ \<Rightarrow> ''error during shutdown'')"

definition stop_process ::
    "(resource list \<Rightarrow> resource list) \<Rightarrow> entry_point \<Rightarrow> string option \<Rightarrow> (action \<Rightarrow> string option) \<Rightarrow> process \<Rightarrow> process \<times> process list" where
  "stop_process order entry NATS_URL fails p = on_signal fails (stop_actions order entry NATS_URL) (complaint_of entry) p"

text \<open>
  \<^verbatim>\<open>instrument.ts\<close>: the service name telemetry starts under and the module that is imported after it; the
  gateway's takes the module from the command line.
\<close>

definition gateway_instrument :: "string option \<Rightarrow> string option \<Rightarrow> string \<times> string" where
  "gateway_instrument OTEL_SERVICE_NAME arg =
     (case OTEL_SERVICE_NAME of None \<Rightarrow> ''cloudmesh-gateway'' | Some n \<Rightarrow> n,
      ''./'' @ (case arg of None \<Rightarrow> ''server'' | Some entry \<Rightarrow> entry) @ ''.js'')"

definition api_instrument :: "string option \<Rightarrow> string \<times> string" where
  "api_instrument OTEL_SERVICE_NAME =
     (case OTEL_SERVICE_NAME of None \<Rightarrow> ''cloudmesh-api'' | Some n \<Rightarrow> n, ''./server.js'')"

section \<open>Nothing is used after it is closed\<close>

text \<open>The effect of an action on what is open, and a run each of whose states has open what it uses.\<close>

fun effect :: "action \<Rightarrow> resource list \<Rightarrow> resource list" where
  "effect (Open r) rs = rs @ [r]"
| "effect (Begin r) rs = rs @ [r]"
| "effect (Close r) rs = removeAll r rs"
| "effect (Stop r) rs = removeAll r rs"
| "effect (Say msg) rs = rs"

text \<open>The live statistics' timer is left out: see below.\<close>

definition deps_open :: "resource list \<Rightarrow> bool" where
  "deps_open rs \<longleftrightarrow> list_all (\<lambda>r. r = Live_stats_timer \<or> list_all (\<lambda>u. u \<in> set rs) (uses r)) rs"

fun in_order :: "action list \<Rightarrow> resource list \<Rightarrow> bool" where
  "in_order [] rs \<longleftrightarrow> deps_open rs"
| "in_order (a # as) rs \<longleftrightarrow> deps_open rs \<and> in_order as (effect a rs)"

lemma perform_effect [simp]: "ps_open (perform a p) = effect a (ps_open p)" "ps_exit (perform a p) = ps_exit p"
  by (cases a; simp)+

lemma run_actions_states:
  assumes "run_actions fails as p = (r, q, ps)"
  shows "in_order as (ps_open p) \<Longrightarrow> list_all (\<lambda>x. deps_open (ps_open x)) ps"
    and "r = None \<longleftrightarrow> list_all (\<lambda>a. failure_of fails a = None) as"
    and "r = None \<Longrightarrow> ps_open q = fold effect as (ps_open p)"
    and "ps_exit q = ps_exit p"
  using assms by (induction fails as p arbitrary: r ps rule: run_actions.induct) (auto split: option.splits prod.splits)

lemma boot_states:
  assumes "boot fails as = (p, ps)" and "in_order as []"
  shows "list_all (\<lambda>x. deps_open (ps_open x)) ps" and "ps_exit p = None \<or> ps_exit p = Some 1"
    and "ps_exit p = None \<longleftrightarrow> list_all (\<lambda>a. failure_of fails a = None) as"
    and "ps_exit p = None \<Longrightarrow> ps_open p = fold effect as []"
proof -
  obtain r q qs where run: "run_actions fails as fresh_process = (r, q, qs)" by (metis prod_cases3)
  note states = run_actions_states [OF run]
  have [simp]: "ps_open fresh_process = []" "ps_exit fresh_process = None" by (simp_all add: fresh_process_def)
  from assms(1) have p: "p = (case r of None \<Rightarrow> q | Some e \<Rightarrow> exit_process 1 [e] q)" "ps = qs"
    by (auto simp: boot_def run split: option.splits)
  show "list_all (\<lambda>x. deps_open (ps_open x)) ps" using states(1) assms(2) p(2) by simp
  show "ps_exit p = None \<or> ps_exit p = Some 1" using states(4) p(1) by (cases r) (simp_all add: exit_process_def)
  show exit: "ps_exit p = None \<longleftrightarrow> list_all (\<lambda>a. failure_of fails a = None) as"
    unfolding states(2) [symmetric] using states(4) p(1) by (cases r) (simp_all add: exit_process_def)
  show "ps_open p = fold effect as []" if "ps_exit p = None"
    using that exit states(2,3) p(1) by (cases r) simp_all
qed

lemma on_signal_states:
  assumes "on_signal fails as complaint p = (q, qs)" and "in_order as (ps_open p)"
  shows "list_all (\<lambda>x. deps_open (ps_open x)) qs"
    and "ps_exit q = Some (if list_all (\<lambda>a. failure_of fails a = None) as then 0 else 1)"
    and "list_all (\<lambda>a. failure_of fails a = None) as \<Longrightarrow> ps_open q = fold effect as (ps_open p)"
proof -
  obtain r x xs where run: "run_actions fails as p = (r, x, xs)" by (metis prod_cases3)
  note states = run_actions_states [OF run]
  from assms(1) have q: "q = (case r of None \<Rightarrow> exit_process 0 [] x | Some e \<Rightarrow> exit_process 1 [complaint, e] x)" "qs = xs"
    by (auto simp: on_signal_def run split: option.splits)
  show "list_all (\<lambda>x. deps_open (ps_open x)) qs" using states(1) assms(2) q(2) by simp
  show "ps_exit q = Some (if list_all (\<lambda>a. failure_of fails a = None) as then 0 else 1)"
    using states(2) q(1) by (cases r) (auto simp: exit_process_def)
  show "ps_open q = fold effect as (ps_open p)" if "list_all (\<lambda>a. failure_of fails a = None) as"
    using that states(2,3) q(1) by (cases r) (auto simp: exit_process_def)
qed

text \<open>What an entry point does before it listens to signals; the consumers without NATS do nothing.\<close>

definition start_actions :: "entry_point \<Rightarrow> string option \<Rightarrow> int \<Rightarrow> action list" where
  "start_actions entry NATS_URL concurrency =
     (case entry of
        Api \<Rightarrow> api_start
      | Gateway \<Rightarrow> gateway_start NATS_URL
      | Worker \<Rightarrow> worker_start concurrency
      | WebhookWorker \<Rightarrow> webhookWorker_start concurrency
      | Consumers \<Rightarrow> consumers_start (the NATS_URL))"

lemmas entry_defs = start_actions_def stop_actions_def api_plugins_def api_start_def api_stop_def gateway_plugins_def gateway_start_def gateway_stop_def gateway_uses_def
  worker_start_def worker_stop_def webhookWorker_start_def webhookWorker_stop_def consumers_start_def consumers_stop_def
  durables_def close_app_def

lemma order_one: "mset xs = mset [x] \<Longrightarrow> xs = [x]"
  by simp

lemma order_two: "mset xs = mset [x, y] \<Longrightarrow> xs = [x, y] \<or> xs = [y, x]"
proof -
  assume xs: "mset xs = mset [x, y]"
  then have "length xs = 2" by (metis length_Cons list.size(3) numeral_2_eq_2 size_mset)
  then obtain a b where "xs = [a, b]" by (auto simp: length_Suc_conv numeral_2_eq_2)
  with xs show ?thesis by (auto simp: add_eq_conv_ex)
qed

lemma start_in_order: "in_order (start_actions entry NATS_URL concurrency) []"
  by (cases entry) (simp_all add: entry_defs deps_open_def)

lemma stop_in_order:
  assumes "\<And>rs. mset (order rs) = mset rs" and "rs = fold effect (start_actions entry NATS_URL concurrency) []"
  shows "in_order (stop_actions order entry NATS_URL) rs"
    and "fold effect (stop_actions order entry NATS_URL) rs = (if entry = Gateway then [Live_stats_timer] else [])"
proof -
  note orders = order_one [OF assms(1) [of "[Redis_client]"]] order_two [OF assms(1) [of "[Redis_client, Job_queue]"]]
  show "in_order (stop_actions order entry NATS_URL) rs"
    using orders by (cases entry) (auto simp: assms(2) entry_defs deps_open_def)
  show "fold effect (stop_actions order entry NATS_URL) rs = (if entry = Gateway then [Live_stats_timer] else [])"
    using orders by (cases entry) (auto simp: assms(2) entry_defs)
qed

lemma start_process_actions:
  assumes "ps_exit p = None" and "start_process entry NATS_URL concurrency fails = (p, ps)"
  shows "boot fails (start_actions entry NATS_URL concurrency) = (p, ps)"
  using assms by (cases entry) (auto simp: start_process_def start_actions_def exit_process_def split: if_splits)

lemma failed_start_exits:
  assumes "start_process entry NATS_URL concurrency fails = (p, ps)"
  shows "ps_exit p \<in> {None, Some 1}" and "ps_exit p = None
    \<longleftrightarrow> list_all (\<lambda>a. failure_of fails a = None) (start_actions entry NATS_URL concurrency) \<and> (entry = Consumers \<longrightarrow> truthy NATS_URL)"
proof -
  have "ps_exit p = Some 1 \<or> boot fails (start_actions entry NATS_URL concurrency) = (p, ps)"
    "entry = Consumers \<and> \<not> truthy NATS_URL \<Longrightarrow> ps_exit p = Some 1"
    "boot fails (start_actions entry NATS_URL concurrency) = (p, ps) \<or> entry = Consumers \<and> \<not> truthy NATS_URL"
    using assms by (simp_all add: start_process_def start_actions_def exit_process_def split: entry_point.splits if_splits) auto
  then show "ps_exit p \<in> {None, Some 1}" and "ps_exit p = None
    \<longleftrightarrow> list_all (\<lambda>a. failure_of fails a = None) (start_actions entry NATS_URL concurrency) \<and> (entry = Consumers \<longrightarrow> truthy NATS_URL)"
    using boot_states(2,3) [OF _ start_in_order] by fastforce+
qed

lemma start_process_states:
  assumes "start_process entry NATS_URL concurrency fails = (p, ps)"
  shows "list_all (\<lambda>x. deps_open (ps_open x)) ps"
proof (cases "boot fails (start_actions entry NATS_URL concurrency) = (p, ps)")
  case True
  then show ?thesis by (rule boot_states(1) [OF _ start_in_order])
next
  case False
  with assms have "ps = [fresh_process]"
    by (cases entry) (auto simp: start_process_def start_actions_def split: if_splits)
  then show ?thesis by (simp add: fresh_process_def deps_open_def)
qed



text \<open>The gateway stops the timer of the breaker gauge, but not that of the live statistics: it ticks on a closed Redis client.\<close>

lemma live_stats_timer_outlives_redis:
  assumes "\<And>rs. mset (order rs) = mset rs"
    and "start_process Gateway NATS_URL concurrency fails = (p, ps)" and "ps_exit p = None"
    and "stop_process order Gateway NATS_URL (\<lambda>_. None) p = (q, qs)"
  shows "Live_stats_timer \<in> set (ps_open q) \<and> Redis_client \<notin> set (ps_open q)"
proof -
  note booted = boot_states [OF start_process_actions [OF assms(3,2)] start_in_order]
  note order = stop_in_order [OF assms(1) booted(4) [OF assms(3)]]
  have "failure_of (\<lambda>_. None) a = None" for a by (cases a) simp_all
  with on_signal_states(3) [OF assms(4) [unfolded stop_process_def] order(1)] order(2) show ?thesis
    by (simp add: list_all_iff)
qed

end
