(* ===== verification/Views.thy ===== *)
theory Views
  imports Pages ApiRoutes
begin

text \<open>
  The markup of the dashboard's pages and what a user can do with it. A page is a list of elements with texts,
  properties and event handlers; a handler maps the text an event carries to an action of the page. Only what
  is enabled can act, requests are answered later and in any order, and the server may send other data with each
  answer. The locale \<open>guarded_form\<close> states what keeps a form from being submitted twice; it is interpreted on
  the forms of the settings, key, login and playground pages. How dates and large numbers are printed is the
  browser's: parameters.
\<close>

section \<open>Elements\<close>

datatype prop_value =
  PText string
| PNum rat
| PFlag bool
| PStyle "(string \<times> prop_value) list"
| PData "(string \<times> prop_value) list list"

datatype 'a jsx =
  Txt string
| Elem string "(string \<times> prop_value) list" "(string \<times> (string \<Rightarrow> 'a)) list" "'a jsx list"

abbreviation el :: "string \<Rightarrow> 'a jsx list \<Rightarrow> 'a jsx" where
  "el tag kids \<equiv> Elem tag [] [] kids"

abbreviation cls :: "string \<Rightarrow> string \<Rightarrow> 'a jsx list \<Rightarrow> 'a jsx" where
  "cls tag c kids \<equiv> Elem tag [(''className'', PText c)] [] kids"

abbreviation th :: "string \<Rightarrow> 'a jsx" where
  "th label \<equiv> Elem ''th'' [] [] [Txt label]"

text \<open>\<^verbatim>\<open>{text && <...>}\<close>: neither \<^verbatim>\<open>null\<close> nor an empty text shows anything.\<close>

definition when_text :: "string option \<Rightarrow> (string \<Rightarrow> 'a jsx) \<Rightarrow> 'a jsx list" where
  "when_text v shown = (case v of None \<Rightarrow> [] | Some s \<Rightarrow> if s = [] then [] else [shown s])"

abbreviation error_line :: "string \<Rightarrow> 'a jsx" where
  "error_line msg \<equiv> cls ''p'' ''error'' [Txt msg]"

text \<open>The texts of a page, in their order.\<close>

fun texts :: "'a jsx \<Rightarrow> string list" where
  "texts (Txt s) = [s]"
| "texts (Elem tag props on kids) = concat (map texts kids)"

section \<open>What a user can do\<close>

text \<open>
  A disabled element has no events, and a form is submitted by an enabled submit button of its own (the keyboard needs
  one too).
\<close>

definition disabled :: "(string \<times> prop_value) list \<Rightarrow> bool" where
  "disabled props \<longleftrightarrow> map_of props ''disabled'' = Some (PFlag True)"

fun submittable :: "'a jsx \<Rightarrow> bool" where
  "submittable (Txt s) = False"
| "submittable (Elem tag props on kids) =
     (tag = ''button'' \<and> map_of props ''type'' = Some (PText ''submit'') \<and> \<not> disabled props \<or> list_ex submittable kids)"

fun controls :: "'a jsx \<Rightarrow> (string \<Rightarrow> 'a) list" where
  "controls (Txt s) = []"
| "controls (Elem tag props on kids) =
     (if disabled props then []
      else map snd (if tag =
        ''form'' \<and> \<not> list_ex submittable kids then filter (\<lambda>h. fst h \<noteq> ''onSubmit'') on else on))
     @ concat (map controls kids)"

definition all_controls :: "'a jsx list \<Rightarrow> (string \<Rightarrow> 'a) list" where
  "all_controls page = concat (map controls page)"

definition all_texts :: "'a jsx list \<Rightarrow> string list" where
  "all_texts page = concat (map texts page)"

lemma all_controls_simps [simp]:
  "all_controls [] = []" "all_controls (n # ns) = controls n @ all_controls ns"
  "all_controls (xs @ ys) = all_controls xs @ all_controls ys"
  by (simp_all add: all_controls_def)

lemma all_texts_simps [simp]:
  "all_texts [] = []" "all_texts (n # ns) = texts n @ all_texts ns" "all_texts (xs @ ys) = all_texts xs @ all_texts ys"
  by (simp_all add: all_texts_def)

text \<open>
  A page: its view, what an action does to its state and which requests it sends, and what an answer does. The state of
  a run is the page's, the requests in flight, and all that were sent.
\<close>

inductive page_step ::
    "('s \<Rightarrow> 'a jsx list) \<Rightarrow> ('a \<Rightarrow> 's \<Rightarrow> 's \<times> 'r list) \<Rightarrow> ('r \<Rightarrow> 'ans \<Rightarrow> 's \<Rightarrow> 's)
      \<Rightarrow> 's \<times> 'r list \<times> 'r list \<Rightarrow> 's \<times> 'r list \<times> 'r list \<Rightarrow> bool"
  for view act settle where
  event: "h \<in> set (all_controls (view s)) \<Longrightarrow> act (h x) s = (s', rs)
    \<Longrightarrow> page_step view act settle (s, flying, sent) (s', flying @ rs, sent @ rs)"
| answer: "page_step view act settle (s, flying @ r # flying', sent) (settle r ans s, flying @ flying', sent)"

inductive_cases page_stepE: "page_step view act settle (s, flying, sent) st"

abbreviation page_run ::
    "('s \<Rightarrow> 'a jsx list) \<Rightarrow> ('a \<Rightarrow> 's \<Rightarrow> 's \<times> 'r list) \<Rightarrow> ('r \<Rightarrow> 'ans \<Rightarrow> 's \<Rightarrow> 's)
      \<Rightarrow> 's \<times> 'r list \<times> 'r list \<Rightarrow> 's \<times> 'r list \<times> 'r list \<Rightarrow> bool" where
  "page_run view act settle \<equiv> (page_step view act settle)\<^sup>*\<^sup>*"

text \<open>
  A guarded form: what sends one of its requests is enabled only while the form is not busy, and makes it busy; nothing
  but an answer to it ends that.
\<close>

locale guarded_form =
  fixes view :: "'s \<Rightarrow> 'a jsx list" and act :: "'a \<Rightarrow> 's \<Rightarrow> 's \<times> 'r list" and settle :: "'r \<Rightarrow> 'ans \<Rightarrow> 's \<Rightarrow> 's"
    and mine :: "'r \<Rightarrow> bool" and busy :: "'s \<Rightarrow> bool"
  assumes sends_when_free:
      "h \<in> set (all_controls (view s)) \<Longrightarrow> act (h x) s = (s', rs) \<Longrightarrow> filter mine rs \<noteq> []
        \<Longrightarrow> \<not> busy s \<and> busy s' \<and> length (filter mine rs) = 1"
    and stays_busy: "h \<in> set (all_controls (view s)) \<Longrightarrow> act (h x) s =
      (s', rs) \<Longrightarrow> busy s \<Longrightarrow> busy s'"
    and others_leave: "\<not> mine r \<Longrightarrow> busy (settle r ans s) = busy s"
begin

text \<open>At most one request of the form is in flight, and then it is busy.\<close>

definition one_flying :: "'s \<times> 'r list \<times> 'r list \<Rightarrow> bool" where
  "one_flying st = (case st of (s, flying, _) \<Rightarrow>
     length (filter mine flying) \<le> 1 \<and> (filter mine flying \<noteq> [] \<longrightarrow> busy s))"

lemma step_one_flying: "page_step view act settle st st' \<Longrightarrow> one_flying st \<Longrightarrow> one_flying st'"
proof (induction rule: page_step.induct)
  case (event h s x s' rs flying sent)
  show ?case
  proof (cases "filter mine rs = []")
    case True
    with event stays_busy show ?thesis by (auto simp: one_flying_def)
  next
    case False
    with event sends_when_free [OF event(1,2)] show ?thesis by (auto simp: one_flying_def)
  qed
next
  case (answer s flying r flying' sent ans)
  then show ?case using others_leave [of r ans s] by (cases "mine r") (auto simp: one_flying_def)
qed

lemma run_one_flying: "page_run view act settle st st' \<Longrightarrow> one_flying st \<Longrightarrow> one_flying st'"
  by (induction rule: rtranclp_induct) (auto intro: step_one_flying)

lemma never_twice:
  assumes "page_run view act settle (s0, [], []) (s, flying, sent)"
  shows "length (filter mine flying) \<le> 1 \<and> (filter mine flying \<noteq> [] \<longrightarrow> busy s)"
  using run_one_flying [OF assms] by (simp add: one_flying_def)

end

section \<open>SettingsManager.tsx\<close>

definition EVENT_TYPES :: "string list" where
  "EVENT_TYPES =
     [''job.completed'', ''job.failed'', ''budget.warning'', ''budget.exceeded'', ''api_key.created'', ''api_key.revoked'',
      ''request.rate_limited'', ''provider.degraded'']"

lemma event_types_in_sync: "EVENT_TYPES = WEBHOOK_EVENT_TYPES"
  by (simp add: EVENT_TYPES_def WEBHOOK_EVENT_TYPES_def)

datatype settings_action =
  Typed_budget string
| Submitted_budget
| Typed_url string
| Toggled string
| Submitted_webhook
| Clicked_delete string

definition row_pill :: "bool \<Rightarrow> string \<Rightarrow> string \<Rightarrow> 'a jsx" where
  "row_pill isActive yes no =
     cls ''span'' (''pill '' @ (if isActive then ''ok'' else ''bad'')) [Txt (if isActive then yes else no)]"

definition empty_row :: "rat \<Rightarrow> string \<Rightarrow> 'a jsx" where
  "empty_row colSpan note =
     el ''tr'' [Elem ''td'' [(''colSpan'', PNum colSpan), (''style'', PStyle [(''color'', PText ''var(--muted)'')])] [] [Txt note]]"

definition secret_box :: "string \<Rightarrow> string \<Rightarrow> 'a jsx" where
  "secret_box label secret = cls ''div'' ''raw-key-box'' [el ''strong'' [Txt label], el ''br'' [], Txt secret]"

definition event_checkbox :: "string list \<Rightarrow> string \<Rightarrow> settings_action jsx" where
  "event_checkbox selected ty =
     Elem ''label'' [(''key'', PText ty), (''className'', PText ''pill''),
         (''style'', PStyle ((''cursor'', PText ''pointer'') # (if ty \<in> set selected then [(''background'',
           PText ''var(--accent)'')] else [])))] []
       [Elem ''input'' [(''type'', PText ''checkbox''), (''checked'', PFlag (ty \<in> set selected)),
            (''style'', PStyle [(''marginRight'', PText ''0.3rem'')])] [(''onChange'', \<lambda>_. Toggled ty)] [],
        Txt ty]"

definition webhook_row :: "endpoint_listing \<Rightarrow> settings_action jsx" where
  "webhook_row wh =
     Elem ''tr'' [(''key'', PText (el_id wh))] []
       [Elem ''td'' [(''style'', PStyle [(''maxWidth'', PNum 260), (''overflowWrap'', PText ''break-word'')])] [] [Txt (el_url wh)],
        Elem ''td'' [(''style'', PStyle [(''fontSize'', PText ''0.75rem'')])] [] [Txt (join_with '', '' (el_eventTypes wh))],
        el ''td'' [row_pill (el_isActive wh) ''active'' ''inactive''],
        el ''td'' [Elem ''button'' [(''type'', PText ''button''), (''className'', PText ''danger'')]
          [(''onClick'', \<lambda>_. Clicked_delete (el_id wh))] [Txt ''Delete'']]]"

definition SettingsManager_view :: "endpoint_listing list \<Rightarrow> settings_page \<Rightarrow> settings_action jsx list" where
  "SettingsManager_view webhooks pg =
     [el ''h2'' [Txt ''Budget''],
      Elem ''form'' [(''className'', PText ''toolbar''), (''style'', PStyle [(''alignItems'',
        PText ''flex-end'')])] [(''onSubmit'', \<lambda>_. Submitted_budget)]
        [cls ''div'' ''field''
           [Txt ''Monthly budget override (USD, blank = plan default)'',
            Elem ''input'' [(''type'', PText ''number''), (''step'', PText ''0.01''), (''min'', PText ''0.01''),
                (''value'', PText (st_budgetInput pg)), (''placeholder'', PText ''unlimited'')] [(''onChange'', Typed_budget)] []],
         Elem ''button'' [(''type'', PText ''submit''), (''disabled'', PFlag (st_savingBudget pg))] []
           [Txt (if st_savingBudget pg then ''Saving...'' else ''Save'')]]]
     @ when_text (st_budgetError pg) error_line
     @ [el ''h2'' [Txt ''Webhooks''],
        Elem ''form'' [] [(''onSubmit'', \<lambda>_. Submitted_webhook)]
          [cls ''div'' ''field''
             [Txt ''Endpoint URL'',
              Elem ''input'' [(''type'', PText ''url''), (''value'', PText (st_url pg)),
                  (''placeholder'', PText ''https://example.com/webhooks/cloudmesh''),
                    (''required'', PFlag True)] [(''onChange'', Typed_url)] []],
           cls ''div'' ''field''
             [Txt ''Event types'',
              Elem ''div'' [(''style'', PStyle [(''display'', PText ''flex''), (''flexWrap'', PText ''wrap''), (''gap'',
                PText ''0.4rem'')])] []
                (map (event_checkbox (st_selectedEvents pg)) EVENT_TYPES)],
           Elem ''button'' [(''type'', PText ''submit''), (''disabled'', PFlag (st_registering pg \<or> st_selectedEvents pg = []))] []
             [Txt (if st_registering pg then ''Registering...'' else ''Register webhook'')]]]
     @ when_text (st_webhookError pg) error_line
     @ when_text (st_newSecret pg) (secret_box ''Signing secret (shown once):'')
     @ [el ''table''
          [el ''thead'' [el ''tr'' [th ''URL'', th ''Events'', th ''Status'', el ''th'' []]],
           el ''tbody'' (map webhook_row webhooks
             @ (if webhooks = [] then [empty_row 4 ''No webhook endpoints registered.''] else []))]]"

text \<open>
  The handlers up to their \<^verbatim>\<open>await\<close>, with the request they send, and from there on; together they are the handlers of
  \<open>Pages\<close>.
\<close>

datatype settings_request = Save_budget Pages.form_request | Register_webhook Pages.form_request | Delete_webhook Pages.form_request

fun settings_act :: "settings_action \<Rightarrow> settings_page \<times> endpoint_listing list \<Rightarrow> (settings_page \<times> endpoint_listing list) \<times> settings_request list" where
  "settings_act (Typed_budget x) (pg, whs) = ((pg\<lparr>st_budgetInput := x\<rparr>, whs), [])"
| "settings_act Submitted_budget (pg, whs) =
     ((pg\<lparr>st_savingBudget := True, st_budgetError := None\<rparr>, whs),
      [Save_budget \<lparr>fq_method = ''PATCH'', fq_path = ''/api/proxy/billing/budget'',
         fq_body = Some (JObj [(''monthlyBudgetOverrideUsd'',
           if trim (st_budgetInput pg) = [] then JNull else number_json (js_number (st_budgetInput pg)))])\<rparr>])"
| "settings_act (Typed_url x) (pg, whs) = ((pg\<lparr>st_url := x\<rparr>, whs), [])"
| "settings_act (Toggled ty) (pg, whs) = ((toggleEvent ty pg, whs), [])"
| "settings_act Submitted_webhook (pg, whs) =
     ((pg\<lparr>st_registering := True, st_webhookError := None, st_newSecret := None\<rparr>, whs),
      [Register_webhook \<lparr>fq_method = ''POST'', fq_path = ''/api/proxy/webhooks'',
         fq_body = Some (JObj [(''url'', JStr (st_url pg)), (''eventTypes'', JArr (map JStr (st_selectedEvents pg)))])\<rparr>])"
| "settings_act (Clicked_delete ident) (pg, whs) =
     ((pg, whs), [Delete_webhook \<lparr>fq_method = ''DELETE'', fq_path = ''/api/proxy/webhooks/'' @ ident, fq_body = None\<rparr>])"

text \<open>An answer is what \<^verbatim>\<open>fetch\<close> gave and the endpoints the page is rendered with after it.\<close>

type_synonym 'p page_answer = "(string, nat \<times> string) result \<times> 'p"

fun settings_settle :: "settings_request \<Rightarrow> endpoint_listing list page_answer \<Rightarrow> settings_page \<times> endpoint_listing list \<Rightarrow> settings_page \<times> endpoint_listing list" where
  "settings_settle (Save_budget q) (Inl e, new) (pg, whs) = (pg, whs)"
| "settings_settle (Save_budget q) (Inr (status, body), new) (pg, whs) =
     (let pg2 = pg\<lparr>st_savingBudget := False\<rparr> in
      if \<not> ok_status status then
        (case failure_text body ''Failed to update budget'' of
           Inl e \<Rightarrow> (pg2, whs) | Inr m \<Rightarrow> (pg2\<lparr>st_budgetError := Some m\<rparr>, whs))
      else (pg2\<lparr>st_refreshes := Suc (st_refreshes pg2)\<rparr>, new))"
| "settings_settle (Register_webhook q) (Inl e, new) (pg, whs) = (pg, whs)"
| "settings_settle (Register_webhook q) (Inr (status, body), new) (pg, whs) =
     (let pg2 = pg\<lparr>st_registering := False\<rparr> in
      if \<not> ok_status status then
        (case failure_text body ''Failed to register webhook'' of
           Inl e \<Rightarrow> (pg2, whs) | Inr m \<Rightarrow> (pg2\<lparr>st_webhookError := Some m\<rparr>, whs))
      else
        (case read_member body ''secret'' of
           Inl e \<Rightarrow> (pg2, whs)
         | Inr secret \<Rightarrow>
             (pg2\<lparr>st_newSecret := secret, st_url := [], st_selectedEvents := [], st_refreshes :=
               Suc (st_refreshes pg2)\<rparr>, new)))"
| "settings_settle (Delete_webhook q) (Inl e, new) (pg, whs) = (pg, whs)"
| "settings_settle (Delete_webhook q) (Inr answer, new) (pg, whs) = (pg\<lparr>st_refreshes := Suc (st_refreshes pg)\<rparr>, new)"

lemma settings_handlers:
  "fst (onSaveBudget fetch pg) = (case settings_act Submitted_budget (pg, whs) of
     (s, [Save_budget q]) \<Rightarrow> fst (settings_settle (Save_budget q) (fetch q, whs) s))"
  "fst (onRegisterWebhook fetch pg) = (case settings_act Submitted_webhook (pg, whs) of
     (s, [Register_webhook q]) \<Rightarrow> fst (settings_settle (Register_webhook q) (fetch q, whs) s))"
  "fst (onDeleteWebhook fetch ident pg) = (case settings_act (Clicked_delete ident) (pg, whs) of
     (s, [Delete_webhook q]) \<Rightarrow> fst (settings_settle (Delete_webhook q) (fetch q, whs) s))"
  by (auto simp: onSaveBudget_def onRegisterWebhook_def onDeleteWebhook_def Let_def split: sum.split prod.split)

abbreviation settings_view :: "settings_page \<times> endpoint_listing list \<Rightarrow> settings_action jsx list" where
  "settings_view st \<equiv> SettingsManager_view (snd st) (fst st)"

text \<open>What can act on the page: both forms only while they are free, and a registration only with an event type.\<close>

lemma row_pill_controls [simp]: "controls (row_pill b y n) = []"
  by (simp add: row_pill_def disabled_def)

lemma empty_row_controls [simp]: "controls (empty_row n t) = []"
  by (simp add: empty_row_def disabled_def)

lemma secret_box_controls [simp]: "controls (secret_box l t) = []"
  by (simp add: secret_box_def disabled_def)

lemma when_text_controls [simp]: "(\<And>t. controls (shown t) = []) \<Longrightarrow> all_controls (when_text v shown) = []"
  by (simp add: when_text_def split: option.split)

lemma event_checkbox_controls [simp]:
  "controls (event_checkbox selected ty) = [\<lambda>_. Toggled ty]" "\<not> submittable (event_checkbox selected ty)"
  by (simp_all add: event_checkbox_def disabled_def)

lemma webhook_row_controls [simp]: "controls (webhook_row wh) = [\<lambda>_. Clicked_delete (el_id wh)]"
  by (simp add: webhook_row_def disabled_def)

lemma settings_controls:
  "set (all_controls (SettingsManager_view webhooks pg)) =
     (if st_savingBudget pg then {} else {\<lambda>_. Submitted_budget})
     \<union> (if st_registering pg \<or> st_selectedEvents pg = [] then {} else {\<lambda>_. Submitted_webhook})
     \<union> {Typed_budget, Typed_url} \<union> (\<lambda>ty _. Toggled ty) ` set EVENT_TYPES \<union> (\<lambda>wh _. Clicked_delete (el_id wh)) ` set webhooks"
  by (auto simp: SettingsManager_view_def disabled_def list_ex_iff image_iff)

fun is_budget :: "settings_request \<Rightarrow> bool" where
  "is_budget (Save_budget q) = True" | "is_budget _ = False"

fun is_registration :: "settings_request \<Rightarrow> bool" where
  "is_registration (Register_webhook q) = True" | "is_registration _ = False"

interpretation budget_form: guarded_form settings_view settings_act settings_settle is_budget "\<lambda>st. st_savingBudget (fst st)"
proof unfold_locales
  fix h st x st' rs
  assume "h \<in> set (all_controls (settings_view st))" "settings_act (h x) st = (st', rs)"
  then show "filter is_budget rs \<noteq> [] \<Longrightarrow> \<not> st_savingBudget (fst st) \<and> st_savingBudget (fst st')
    \<and> length (filter is_budget rs) = 1"
    and "st_savingBudget (fst st) \<Longrightarrow> st_savingBudget (fst st')"
    by (cases st; auto simp: settings_controls toggleEvent_def split: if_splits)+
next
  fix r ans st
  show "\<not> is_budget r \<Longrightarrow> st_savingBudget (fst (settings_settle r ans st)) = st_savingBudget (fst st)"
    by (cases "(r, ans, st)" rule: settings_settle.cases) (auto simp: Let_def split: sum.splits)
qed

interpretation webhook_form: guarded_form settings_view settings_act settings_settle is_registration "\<lambda>st. st_registering (fst st)"
proof unfold_locales
  fix h st x st' rs
  assume "h \<in> set (all_controls (settings_view st))" "settings_act (h x) st = (st', rs)"
  then show "filter is_registration rs \<noteq> [] \<Longrightarrow>
      \<not> st_registering (fst st) \<and> st_registering (fst st') \<and> length (filter is_registration rs) = 1"
    and "st_registering (fst st) \<Longrightarrow> st_registering (fst st')"
    by (cases st; auto simp: settings_controls toggleEvent_def split: if_splits)+
next
  fix r ans st
  show "\<not> is_registration r \<Longrightarrow> st_registering (fst (settings_settle r ans st)) = st_registering (fst st)"
    by (cases "(r, ans, st)" rule: settings_settle.cases) (auto simp: Let_def split: sum.splits)
qed

text \<open>The event types of a registration come from the check boxes: the API accepts them.\<close>

definition registers_known :: "settings_request \<Rightarrow> bool" where
  "registers_known r \<longleftrightarrow>
     (case r of
        Register_webhook q \<Rightarrow>
          (case fq_body q of None \<Rightarrow> False | Some body \<Rightarrow> z_eventTypes (jget body ''eventTypes'') \<noteq> None)
      | _ \<Rightarrow> True)"

definition settings_ok :: "(settings_page \<times> endpoint_listing list) \<times> settings_request list \<times> settings_request list \<Rightarrow> bool" where
  "settings_ok st = (case st of ((pg, whs), flying, sent) \<Rightarrow>
     distinct (st_selectedEvents pg) \<and> set (st_selectedEvents pg) \<subseteq> set EVENT_TYPES \<and> list_all registers_known sent)"

lemma selected_types_accepted:
  assumes "ts \<noteq> []" and "distinct ts" and "set ts \<subseteq> set EVENT_TYPES"
  shows "z_eventTypes (Some (JArr (map JStr ts))) = Some ts"
proof -
  have "length ts \<le> length EVENT_TYPES"
    using assms(2,3) by (metis card_length card_mono distinct_card finite_set le_trans)
  moreover have "length EVENT_TYPES = length WEBHOOK_EVENT_TYPES" by (simp add: event_types_in_sync)
  moreover have "list_all (\<lambda>x. isWebhookEventType (Some x)) (map JStr ts)"
    using assms(3) by (auto simp: list_all_iff isWebhookEventType_def event_types_in_sync)
  ultimately show ?thesis using assms(1) by (cases ts) (auto simp: z_eventTypes_def comp_def)
qed

lemma settings_event:
  assumes "h \<in> set (all_controls (settings_view st))"
  shows "h x = Submitted_webhook \<Longrightarrow> st_selectedEvents (fst st) \<noteq> []" and "h x =
    Toggled ty \<Longrightarrow> ty \<in> set EVENT_TYPES"
  using assms by (auto simp: settings_controls split: if_splits)

lemma settings_step_ok:
  assumes "page_step settings_view settings_act settings_settle st st'" and "settings_ok st"
  shows "settings_ok st'"
  using assms
proof (induction rule: page_step.induct)
  case (event h s x s' rs flying sent)
  obtain pg whs where s: "s = (pg, whs)" by force
  show ?case
    using event settings_event [OF event(1), of x] unfolding s
    by (cases "h x") (auto simp: settings_ok_def registers_known_def toggleEvent_def selected_types_accepted split: if_splits)
next
  case (answer s flying r flying' sent ans)
  have "st_selectedEvents (fst (settings_settle r ans s)) = st_selectedEvents (fst s)
    \<or> st_selectedEvents (fst (settings_settle r ans s)) = []"
    by (cases "(r, ans, s)" rule: settings_settle.cases) (auto simp: Let_def split: sum.splits)
  with answer show ?case by (auto simp: settings_ok_def split: prod.splits)
qed

lemma settings_run_ok:
  "page_run settings_view settings_act settings_settle st st' \<Longrightarrow> settings_ok st \<Longrightarrow> settings_ok st'"
  by (induction rule: rtranclp_induct) (auto intro: settings_step_ok)

text \<open>
  C39. Whatever a user does on the settings page, in whatever order and with whatever outcome the requests come back,
  no form is submitted twice while its request is under way, and every registration that leaves the page
  names event types the API's validator accepts.
\<close>

theorem settings_page_requests:
  assumes "page_run settings_view settings_act settings_settle ((pg, whs), [], []) ((pg', whs'), flying, sent)"
    and "st_selectedEvents pg = []"
  shows "length (filter is_budget flying) \<le> 1 \<and> length (filter is_registration flying) \<le> 1
    \<and> (\<forall>q. Register_webhook q \<in> set sent \<longrightarrow>
         (\<exists>body types. fq_body q = Some body \<and> z_eventTypes (jget body ''eventTypes'') = Some types))"
proof -
  have "settings_ok ((pg, whs), [], [])" using assms(2) by (simp add: settings_ok_def)
  from settings_run_ok [OF assms(1) this] have "list_all registers_known sent" by (simp add: settings_ok_def)
  then show ?thesis
    using budget_form.never_twice [OF assms(1)] webhook_form.never_twice [OF assms(1)]
    by (force simp: list_all_iff registers_known_def split: option.splits)
qed

definition demo_settings :: settings_page where
  "demo_settings = \<lparr>st_budgetInput = [], st_budgetError = None, st_savingBudget = False, st_url =
    ''https://h.test'', st_selectedEvents = [],
     st_webhookError = None, st_registering = False, st_newSecret = None, st_refreshes = 0\<rparr>"

lemma demo_settings_run:
  "page_run settings_view settings_act settings_settle ((demo_settings, []), [], [])
     ((demo_settings\<lparr>st_selectedEvents := [''job.failed''], st_registering := True\<rparr>, []),
      snd (settings_act Submitted_webhook (demo_settings\<lparr>st_selectedEvents := [''job.failed'']\<rparr>, [])),
      snd (settings_act Submitted_webhook (demo_settings\<lparr>st_selectedEvents := [''job.failed'']\<rparr>, [])))"
proof -
  let ?pg = "demo_settings\<lparr>st_selectedEvents := [''job.failed'']\<rparr>"
  have "page_step settings_view settings_act settings_settle ((demo_settings, []), [], []) ((?pg, []), [] @ [], [] @ [])"
    by (rule page_step.event [where h = "\<lambda>_. Toggled ''job.failed''" and x = "[]"])
      (simp_all add: settings_controls EVENT_TYPES_def toggleEvent_def demo_settings_def)
  moreover have "page_step settings_view settings_act settings_settle ((?pg, []), [], [])
      ((?pg\<lparr>st_registering :=
        True\<rparr>, []), [] @ snd (settings_act Submitted_webhook (?pg, [])), [] @ snd (settings_act Submitted_webhook (?pg, [])))"
    by (rule page_step.event [where h = "\<lambda>_. Submitted_webhook" and x = "[]"])
      (simp_all add: settings_controls demo_settings_def)
  ultimately show ?thesis unfolding append_Nil by (rule rtranclp_trans [OF r_into_rtranclp r_into_rtranclp])
qed

theorem settings_page_requests_witness:
  "length (filter is_registration (snd (settings_act Submitted_webhook (demo_settings\<lparr>st_selectedEvents :=
    [''job.failed'']\<rparr>, [])))) \<le> 1"
  using settings_page_requests [OF demo_settings_run] by (simp add: demo_settings_def)

section \<open>ApiKeysManager.tsx\<close>

datatype keys_action = Typed_scopes string | Typed_rpm string | Submitted_key | Clicked_revoke string

text \<open>The browser's way of printing a time is the argument \<open>local_time\<close>.\<close>

definition key_row :: "(ms \<Rightarrow> string) \<Rightarrow> string option \<Rightarrow> ApiKeySummary \<Rightarrow> keys_action jsx" where
  "key_row local_time revokingId k =
     Elem ''tr'' [(''key'', PText (aks_id k))] []
       [el ''td'' [Txt (aks_keyPrefix k), Txt ''...''],
        el ''td'' [Txt (join_with '', '' (aks_scopes k))],
        el ''td'' [Txt (show_int (aks_rateLimitRpm k)), Txt ''/min''],
        el ''td'' [row_pill (aks_isActive k) ''active'' ''revoked''],
        el ''td'' [Txt (case aks_lastUsedAt k of None \<Rightarrow> ''never'' | Some t \<Rightarrow> local_time t)],
        el ''td''
          (if aks_isActive k then
             [Elem ''button'' [(''type'', PText ''button''), (''className'', PText ''danger''),
                  (''disabled'', PFlag (revokingId = Some (aks_id k)))] [(''onClick'', \<lambda>_. Clicked_revoke (aks_id k))]
                [Txt (if revokingId = Some (aks_id k) then ''Revoking...'' else ''Revoke'')]]
           else [])]"

definition ApiKeysManager_view :: "(ms \<Rightarrow> string) \<Rightarrow> ApiKeySummary list \<Rightarrow> keys_page \<Rightarrow> keys_action jsx list" where
  "ApiKeysManager_view local_time initialKeys pg =
     [Elem ''form'' [(''className'', PText ''toolbar''), (''style'', PStyle [(''alignItems'',
       PText ''flex-end'')])] [(''onSubmit'', \<lambda>_. Submitted_key)]
        [cls ''div'' ''field''
           [Txt ''Scopes (comma-separated)'', Elem ''input'' [(''value'', PText (kp_scopes pg))] [(''onChange'', Typed_scopes)] []],
         cls ''div'' ''field''
           [Txt ''Rate limit (rpm)'',
            Elem ''input'' [(''type'', PText ''number''), (''min'', PNum 1), (''value'',
              PText (kp_rateLimitRpm pg))] [(''onChange'', Typed_rpm)] []],
         Elem ''button'' [(''type'', PText ''submit''), (''disabled'', PFlag (kp_creating pg))] []
           [Txt (if kp_creating pg then ''Creating...'' else ''Create key'')]]]
     @ when_text (kp_error pg) error_line
     @ when_text (kp_rawKey pg) (secret_box ''Your new API key (shown once):'')
     @ [el ''table''
          [el ''thead'' [el ''tr'' [th ''Prefix'', th ''Scopes'', th ''Rate limit'', th ''Status'', th ''Last used'', el ''th'' []]],
           el ''tbody'' (map (key_row local_time (kp_revokingId pg)) initialKeys
             @ (if initialKeys = [] then [empty_row 6 ''No API keys yet.''] else []))]]"

datatype keys_request = Create_key Pages.form_request | Revoke_key Pages.form_request

fun keys_act :: "keys_action \<Rightarrow> keys_page \<times> ApiKeySummary list \<Rightarrow> (keys_page \<times> ApiKeySummary list) \<times> keys_request list" where
  "keys_act (Typed_scopes x) (pg, ks) = ((pg\<lparr>kp_scopes := x\<rparr>, ks), [])"
| "keys_act (Typed_rpm x) (pg, ks) = ((pg\<lparr>kp_rateLimitRpm := x\<rparr>, ks), [])"
| "keys_act Submitted_key (pg, ks) =
     ((pg\<lparr>kp_creating := True, kp_error := None, kp_rawKey := None\<rparr>, ks),
      [Create_key \<lparr>fq_method = ''POST'', fq_path = ''/api/proxy/api-keys'',
         fq_body = Some (JObj ((''scopes'', JArr (map JStr (split_scopes (kp_scopes pg))))
           # jopt ''rateLimitRpm'' (rpm_member (kp_rateLimitRpm pg))))\<rparr>])"
| "keys_act (Clicked_revoke ident) (pg, ks) =
     ((pg\<lparr>kp_revokingId := Some ident\<rparr>, ks),
      [Revoke_key \<lparr>fq_method = ''DELETE'', fq_path = ''/api/proxy/api-keys/'' @ ident, fq_body = None\<rparr>])"

fun keys_settle :: "keys_request \<Rightarrow> ApiKeySummary list page_answer \<Rightarrow> keys_page \<times> ApiKeySummary list \<Rightarrow> keys_page \<times> ApiKeySummary list" where
  "keys_settle (Create_key q) (Inl e, new) (pg, ks) = (pg, ks)"
| "keys_settle (Create_key q) (Inr (status, body), new) (pg, ks) =
     (let pg2 = pg\<lparr>kp_creating := False\<rparr> in
      if \<not> ok_status status then
        (case failure_text body ''Failed to create key'' of
           Inl e \<Rightarrow> (pg2, ks) | Inr m \<Rightarrow> (pg2\<lparr>kp_error := Some m\<rparr>, ks))
      else
        (case read_member body ''rawKey'' of
           Inl e \<Rightarrow> (pg2, ks)
         | Inr rawKey \<Rightarrow> (pg2\<lparr>kp_rawKey := rawKey, kp_refreshes := Suc (kp_refreshes pg2)\<rparr>, new)))"
| "keys_settle (Revoke_key q) (Inl e, new) (pg, ks) = (pg, ks)"
| "keys_settle (Revoke_key q) (Inr answer, new) (pg, ks) = (pg\<lparr>kp_revokingId := None, kp_refreshes :=
  Suc (kp_refreshes pg)\<rparr>, new)"

lemma keys_handlers:
  "fst (onCreate fetch pg) = (case keys_act Submitted_key (pg, ks) of
     (s, [Create_key q]) \<Rightarrow> fst (keys_settle (Create_key q) (fetch q, ks) s))"
  "fst (onRevoke fetch ident pg) = (case keys_act (Clicked_revoke ident) (pg, ks) of
     (s, [Revoke_key q]) \<Rightarrow> fst (keys_settle (Revoke_key q) (fetch q, ks) s))"
  by (auto simp: onCreate_def onRevoke_def Let_def split: sum.split prod.split)

abbreviation keys_view :: "(ms \<Rightarrow> string) \<Rightarrow> keys_page \<times> ApiKeySummary list \<Rightarrow> keys_action jsx list" where
  "keys_view local_time st \<equiv> ApiKeysManager_view local_time (snd st) (fst st)"

lemma key_row_controls [simp]:
  "set (controls (key_row local_time revoking k)) =
    (if aks_isActive k \<and> revoking \<noteq> Some (aks_id k) then {\<lambda>_. Clicked_revoke (aks_id k)} else {})"
  by (simp add: key_row_def disabled_def)

lemma keys_controls:
  "set (all_controls (ApiKeysManager_view local_time ks pg)) =
     (if kp_creating pg then {} else {\<lambda>_. Submitted_key}) \<union> {Typed_scopes, Typed_rpm}
     \<union> (\<lambda>k _. Clicked_revoke (aks_id k)) ` {k \<in> set ks. aks_isActive k \<and> kp_revokingId pg \<noteq> Some (aks_id k)}"
  by (auto simp: ApiKeysManager_view_def disabled_def)

lemma revoke_enabled:
  assumes "k \<in> set ks" and "aks_isActive k" and "kp_revokingId pg \<noteq> Some (aks_id k)"
  shows "(\<lambda>_. Clicked_revoke (aks_id k)) \<in> set (all_controls (ApiKeysManager_view local_time ks pg))"
  using assms unfolding keys_controls by blast

fun is_creation :: "keys_request \<Rightarrow> bool" where
  "is_creation (Create_key q) = True" | "is_creation _ = False"

interpretation key_form: guarded_form "keys_view local_time" keys_act keys_settle is_creation "\<lambda>st. kp_creating (fst st)" for local_time
proof unfold_locales
  fix h st x st' rs
  assume "h \<in> set (all_controls (keys_view local_time st))" "keys_act (h x) st = (st', rs)"
  then show "filter is_creation rs \<noteq> [] \<Longrightarrow> \<not> kp_creating (fst st) \<and> kp_creating (fst st')
    \<and> length (filter is_creation rs) = 1"
    and "kp_creating (fst st) \<Longrightarrow> kp_creating (fst st')"
    by (cases st; auto simp: keys_controls split: if_splits)+
next
  fix r ans st
  show "\<not> is_creation r \<Longrightarrow> kp_creating (fst (keys_settle r ans st)) = kp_creating (fst st)"
    by (cases "(r, ans, st)" rule: keys_settle.cases) (auto simp: Let_def split: sum.splits)
qed

text \<open>
  Revoking is not guarded: the page remembers one key only. While two revocations are under way the first key's button
  is enabled again, so its request can be sent a second time.
\<close>

definition demo_keys :: "ApiKeySummary list" where
  "demo_keys = map (\<lambda>i. \<lparr>aks_id = i, aks_keyPrefix = i, aks_scopes = [], aks_isActive = True, aks_rateLimitRpm =
    60, aks_lastUsedAt = None,
     aks_createdAt = 0\<rparr>) [''a'', ''b'']"

lemma revoke_sent_twice:
  assumes "kp_revokingId pg = None"
  defines "q \<equiv> \<lambda>i. Revoke_key \<lparr>fq_method = ''DELETE'', fq_path = ''/api/proxy/api-keys/'' @ i, fq_body = None\<rparr>"
  shows "page_run (keys_view local_time) keys_act keys_settle ((pg, demo_keys), [], [])
    ((pg\<lparr>kp_revokingId := Some ''a''\<rparr>, demo_keys), [q ''a'', q ''b'', q ''a''], [q ''a'', q ''b'', q ''a''])"
proof -
  have click: "page_step (keys_view local_time) keys_act keys_settle ((p, demo_keys), qs, qs)
      ((p\<lparr>kp_revokingId := Some i\<rparr>, demo_keys), qs @ [q i], qs @ [q i])"
    if "i \<in> {''a'', ''b''}" "kp_revokingId p \<noteq> Some i" for p i qs
  proof (rule page_step.event [where h = "\<lambda>_. Clicked_revoke i" and x = "[]"])
    have "\<exists>k \<in> set demo_keys. aks_id k = i \<and> aks_isActive k" using that(1) by (auto simp: demo_keys_def)
    then obtain k where "k \<in> set demo_keys" "aks_id k = i" "aks_isActive k" by blast
    then show "(\<lambda>_. Clicked_revoke i) \<in> set (all_controls (keys_view local_time (p, demo_keys)))"
      using revoke_enabled [of k demo_keys p local_time] that(2) by simp
  qed (simp add: q_def)
  have "page_run (keys_view local_time) keys_act keys_settle ((pg, demo_keys), [], [])
      ((pg\<lparr>kp_revokingId := Some ''a''\<rparr>, demo_keys), [q ''a''], [q ''a''])"
    using click [of "''a''" pg "[]"] assms(1) by auto
  also have "page_step (keys_view local_time) keys_act keys_settle \<dots>
      ((pg\<lparr>kp_revokingId := Some ''b''\<rparr>, demo_keys), [q ''a'', q ''b''], [q ''a'', q ''b''])"
    using click [of "''b''" "pg\<lparr>kp_revokingId := Some ''a''\<rparr>" "[q ''a'']"] by simp
  also have "page_step (keys_view local_time) keys_act keys_settle \<dots>
      ((pg\<lparr>kp_revokingId := Some ''a''\<rparr>, demo_keys), [q ''a'', q ''b'', q ''a''], [q ''a'', q ''b'', q ''a''])"
    using click [of "''a''" "pg\<lparr>kp_revokingId := Some ''b''\<rparr>" "[q ''a'', q ''b'']"] by simp
  finally show ?thesis .
qed

section \<open>login/page.tsx and LogoutButton.tsx\<close>

datatype login_action = Typed_email string | Typed_password string | Submitted_login

definition LoginPage_view :: "login_page \<Rightarrow> login_action jsx list" where
  "LoginPage_view pg =
     [cls ''main'' ''auth-page''
        [Elem ''form'' [(''className'', PText ''auth-form'')] [(''onSubmit'', \<lambda>_. Submitted_login)]
           ([el ''h1'' [Txt ''CloudMesh''],
             el ''label''
               [Txt ''Email'',
                Elem ''input'' [(''type'', PText ''email''), (''value'', PText (lg_email pg)), (''autoComplete'', PText ''email''),
                  (''required'', PFlag True)]
                  [(''onChange'', Typed_email)] []],
             el ''label''
               [Txt ''Password'',
                Elem ''input'' [(''type'', PText ''password''), (''value'', PText (lg_password pg)),
                    (''autoComplete'', PText ''current-password''), (''required'', PFlag True)] [(''onChange'', Typed_password)] []]]
            @ when_text (lg_error pg) error_line
            @ [Elem ''button'' [(''type'', PText ''submit''), (''disabled'', PFlag (lg_loading pg))] []
                 [Txt (if lg_loading pg then ''Signing in...'' else ''Sign in'')]])]]"

fun login_act :: "login_action \<Rightarrow> login_page \<Rightarrow> login_page \<times> Pages.form_request list" where
  "login_act (Typed_email x) pg = (pg\<lparr>lg_email := x\<rparr>, [])"
| "login_act (Typed_password x) pg = (pg\<lparr>lg_password := x\<rparr>, [])"
| "login_act Submitted_login pg =
     (pg\<lparr>lg_loading := True, lg_error := None\<rparr>,
      [\<lparr>fq_method = ''POST'', fq_path = ''/api/auth/login'',
        fq_body = Some (JObj [(''email'', JStr (lg_email pg)), (''password'', JStr (lg_password pg))])\<rparr>])"

definition login_settle :: "Pages.form_request \<Rightarrow> (string, nat \<times> string) result \<Rightarrow> login_page \<Rightarrow> login_page" where
  "login_settle q answer pg =
     (case answer of
        Inl e \<Rightarrow> pg
      | Inr (status, body) \<Rightarrow>
          (let pg2 = pg\<lparr>lg_loading := False\<rparr> in
           if \<not> ok_status status then
             (case failure_text body ''Invalid email or password'' of
                Inl e \<Rightarrow> pg2 | Inr m \<Rightarrow> pg2\<lparr>lg_error := Some m\<rparr>)
           else pg2\<lparr>lg_pushed := Some ''/dashboard''\<rparr>))"

lemma login_handler:
  "fst (onSubmit fetch pg) = (case login_act Submitted_login pg of (s, [q]) \<Rightarrow> login_settle q (fetch q) s)"
  by (auto simp: onSubmit_def login_settle_def Let_def split: sum.split prod.split)

lemma when_text_submittable [simp]: "(\<And>t. \<not> submittable (shown t)) \<Longrightarrow> \<not> list_ex submittable (when_text v shown)"
  by (simp add: when_text_def split: option.split)

lemma when_text_error_controls [simp]: "concat (map controls (when_text v error_line)) = []"
  by (cases v) (auto simp: when_text_def disabled_def)

lemma login_controls:
  "set (all_controls (LoginPage_view pg)) =
    {Typed_email, Typed_password} \<union> (if lg_loading pg then {} else {\<lambda>_. Submitted_login})"
  by (auto simp: LoginPage_view_def disabled_def)

interpretation login_form: guarded_form LoginPage_view login_act login_settle "\<lambda>_. True" lg_loading
proof unfold_locales
  fix h st x st' and rs :: "Pages.form_request list"
  assume "h \<in> set (all_controls (LoginPage_view st))" "login_act (h x) st = (st', rs)"
  then show "filter (\<lambda>_. True) rs \<noteq> [] \<Longrightarrow> \<not> lg_loading st \<and> lg_loading st' \<and> length (filter (\<lambda>_. True) rs) =
    1"
    and "lg_loading st \<Longrightarrow> lg_loading st'"
    by (auto simp: login_controls split: if_splits)
qed simp

datatype logout_action = Clicked_logout

definition LogoutButton_view :: "logout_button \<Rightarrow> logout_action jsx list" where
  "LogoutButton_view lo =
     [Elem ''button'' [(''type'', PText ''button''), (''className'', PText ''secondary''), (''disabled'', PFlag (lo_loading lo))]
        [(''onClick'', \<lambda>_. Clicked_logout)] [Txt (if lo_loading lo then ''Signing out...'' else ''Sign out'')]]"

definition logout_act :: "logout_action \<Rightarrow> logout_button \<Rightarrow> logout_button \<times> Pages.form_request list" where
  "logout_act a lo = (lo\<lparr>lo_loading := True\<rparr>, [\<lparr>fq_method = ''POST'', fq_path = ''/api/auth/logout'', fq_body =
    None\<rparr>])"

definition logout_settle :: "Pages.form_request \<Rightarrow> (string, nat \<times> string) result \<Rightarrow> logout_button \<Rightarrow> logout_button" where
  "logout_settle q answer lo = (case answer of Inl e \<Rightarrow> lo | Inr _ \<Rightarrow> lo\<lparr>lo_pushed := Some ''/login''\<rparr>)"

lemma logout_handler:
  "fst (onClick fetch lo) = (case logout_act Clicked_logout lo of (s, [q]) \<Rightarrow> logout_settle q (fetch q) s)"
  by (simp add: onClick_def logout_act_def logout_settle_def split: sum.split)

interpretation logout_form: guarded_form LogoutButton_view logout_act logout_settle "\<lambda>_. True" lo_loading
  by unfold_locales (auto simp: LogoutButton_view_def disabled_def logout_act_def split: if_splits)

section \<open>PlaygroundClient.tsx\<close>

definition DEFAULT_BODY :: string where
  "DEFAULT_BODY = join_with [CHR 0x0A]
     [''{'',
      ''  '' @ quote_text ''model'' @ '': '' @ quote_text ''mock-echo'' @ '','',
      ''  '' @ quote_text ''messages'' @ '': ['',
      ''    {'',
      ''      '' @ quote_text ''role'' @ '': '' @ quote_text ''user'' @ '','',
      ''      '' @ quote_text ''content'' @ '': '' @ quote_text ''Say hello in one short sentence.'',
      ''    }'',
      ''  ],'',
      ''  '' @ quote_text ''stream'' @ '': true'',
      ''}'']"

definition playground_start :: "string option \<Rightarrow> playground" where
  "playground_start stored =
     \<lparr>pg_apiKey = [], pg_requestBody = DEFAULT_BODY, pg_output = [], pg_running = False, pg_error = None, pg_meta = None, pg_stored =
       stored\<rparr>"

text \<open>The effect that runs once when the page is shown: a key kept for the tab is filled in.\<close>

definition playground_mounted :: "playground \<Rightarrow> playground" where
  "playground_mounted pg = (case pg_stored pg of None \<Rightarrow> pg | Some k \<Rightarrow> if k = [] then pg else pg\<lparr>pg_apiKey :=
    k\<rparr>)"

datatype playground_action = Typed_key string | Typed_body string | Clicked_run

abbreviation meta_line :: "string list \<Rightarrow> 'a jsx" where
  "meta_line parts \<equiv> el ''span'' (map Txt parts)"

text \<open>React draws nothing for \<^verbatim>\<open>undefined\<close>.\<close>

definition shown_text :: "string option \<Rightarrow> string" where
  "shown_text v = (case v of None \<Rightarrow> [] | Some x \<Rightarrow> x)"

definition shown_number :: "rat option \<Rightarrow> string" where
  "shown_number v = (case v of None \<Rightarrow> [] | Some x \<Rightarrow> number_text x)"

definition meta_box :: "RunMeta \<Rightarrow> 'a jsx" where
  "meta_box m =
     cls ''div'' ''meta''
       [meta_line [''model: '', shown_text (rm_model m)],
        meta_line [''provider: '', shown_text (rm_prov m)],
        meta_line [''tokens: '', shown_number (rm_promptTokens m), ''+'', shown_number (rm_completionTokens m)],
        meta_line [''latency: '', show_int (rm_latencyMs m), ''ms''],
        Elem ''span''
          [(''title'', PText (''Billed cost is computed and recorded server-side '' @ em_dash @ '' see Logs for the exact figure.''))] []
          [Txt ''cost: see Logs'']]"

text \<open>The editor is a component of its own, which reports what is typed.\<close>

definition PlaygroundClient_view :: "playground \<Rightarrow> playground_action jsx list" where
  "PlaygroundClient_view pg =
     [el ''h1'' [Txt ''API Playground''],
      Elem ''div'' [(''className'', PText ''field''), (''style'', PStyle [(''maxWidth'', PNum 480)])] []
        [Txt ''API key'',
         Elem ''input'' [(''type'', PText ''password''), (''value'', PText (pg_apiKey pg)), (''placeholder'', PText ''cm_live_...'')]
           [(''onChange'', Typed_key)] []],
      Elem ''p'' [(''style'', PStyle [(''color'', PText ''var(--muted)''), (''fontSize'', PText ''0.8rem''), (''maxWidth'', PNum 480)])] []
        [Txt (''Pasted keys are kept only in this tab'' @ [CHR 0x27] @ ''s session storage, never sent anywhere except this request.'')],
      cls ''div'' ''playground''
        [cls ''div'' ''panel''
           [cls ''div'' ''panel-header''
              [el ''span'' [Txt ''Request''],
               Elem ''button'' [(''type'', PText ''button''),
                 (''disabled'', PFlag (pg_running pg))] [(''onClick'', \<lambda>_. Clicked_run)]
                 [Txt (if pg_running pg then ''Running...'' else ''Run'')]],
            Elem ''Editor'' [(''height'', PText ''100%''), (''defaultLanguage'', PText ''json''), (''theme'', PText ''vs-dark''),
                (''value'', PText (pg_requestBody pg)),
                (''options'', PStyle [(''minimap'', PStyle [(''enabled'', PFlag False)]), (''fontSize'', PNum 13)])]
              [(''onChange'', Typed_body)] []],
         cls ''div'' ''panel''
           ([cls ''div'' ''panel-header'' [el ''span'' [Txt ''Response'']],
             cls ''div'' ''output''
               [case pg_error pg of
                  None \<Rightarrow> Txt (pg_output pg)
                | Some e \<Rightarrow>
                    if e = [] then Txt (pg_output pg)
                    else Elem ''span'' [(''style'', PStyle [(''color'', PText ''var(--danger)'')])] [] [Txt e]]]
            @ (case pg_meta pg of None \<Rightarrow> [] | Some m \<Rightarrow> [meta_box m]))]]"

fun playground_act :: "playground_action \<Rightarrow> playground \<Rightarrow> playground \<times> run_request list" where
  "playground_act (Typed_key x) pg = (pg\<lparr>pg_apiKey := x\<rparr>, [])"
| "playground_act (Typed_body x) pg = (pg\<lparr>pg_requestBody := x\<rparr>, [])"
| "playground_act Clicked_run pg =
     (let pg1 = pg\<lparr>pg_error := None, pg_output := [], pg_meta := None\<rparr> in
      if trim (pg_apiKey pg) = [] then (pg1\<lparr>pg_error := Some NO_KEY_MESSAGE\<rparr>, [])
      else
        (case json_parse (pg_requestBody pg) of
           None \<Rightarrow> (pg1\<lparr>pg_error := Some ''Request body is not valid JSON.''\<rparr>, [])
         | Some parsed \<Rightarrow>
             (pg1\<lparr>pg_stored := Some (pg_apiKey pg), pg_running := True\<rparr>,
              [\<lparr>rq_key = pg_apiKey pg, rq_body = json_stringify parsed\<rparr>])))"

definition playground_settle :: "run_request \<Rightarrow> int \<times> run_fetch \<Rightarrow> playground \<Rightarrow> playground" where
  "playground_settle q answer pg = (show_run (fst answer) (snd answer) pg)\<lparr>pg_running := False\<rparr>"

lemma playground_handler:
  "onRun fetch latency pg = (case playground_act Clicked_run pg of
     (s, [q]) \<Rightarrow> playground_settle q (latency, fetch q) s | (s, _) \<Rightarrow> s)"
  by (auto simp: onRun_def playground_settle_def Let_def split: option.split)

lemma playground_controls:
  "set (all_controls (PlaygroundClient_view pg)) =
    {Typed_key, Typed_body} \<union> (if pg_running pg then {} else {\<lambda>_. Clicked_run})"
  by (auto simp: PlaygroundClient_view_def meta_box_def disabled_def split: option.split)

interpretation playground_form: guarded_form PlaygroundClient_view playground_act playground_settle "\<lambda>_. True" pg_running
proof unfold_locales
  fix h pg x pg' and rs :: "run_request list"
  assume "h \<in> set (all_controls (PlaygroundClient_view pg))" "playground_act (h x) pg = (pg', rs)"
  then show "filter (\<lambda>_. True) rs \<noteq> [] \<Longrightarrow> \<not> pg_running pg \<and> pg_running pg' \<and> length (filter (\<lambda>_. True) rs) =
    1"
    and "pg_running pg \<Longrightarrow> pg_running pg'"
    by (auto simp: playground_controls Let_def split: if_splits option.splits)
qed simp

text \<open>The request the page offers at first is one the gateway's validator accepts, as a stream.\<close>

lemma default_body_parses:
  "json_parse DEFAULT_BODY = Some (JObj [(''model'', JStr ''mock-echo''),
     (''messages'', JArr [JObj [(''role'', JStr ''user''), (''content'', JStr ''Say hello in one short sentence.'')]]),
     (''stream'', JBool True)])"
  by code_simp

lemma default_request_accepted:
  "\<exists>body input. json_parse DEFAULT_BODY = Some body \<and> chatRequestSchema body = Some input
     \<and> ci_model input = ''mock-echo'' \<and> ci_stream input = Some True"
  unfolding default_body_parses
  by (simp add: chatRequestSchema_def z_text_def z_optional_def z_stream_def messageSchema_def z_role_def)

text \<open>
  The key leaves the page only with a request, which carries the key that was typed, and what the page shows of an
  error is its text.
\<close>

lemma playground_key_sent:
  "playground_act a pg = (pg', rs) \<Longrightarrow> q \<in> set rs \<Longrightarrow> rq_key q = pg_apiKey pg \<and> pg_stored pg' =
    Some (pg_apiKey pg)"
  by (cases a) (auto simp: Let_def split: if_splits option.splits)

end
