(* ===== verification/Screens.thy ===== *)
theory Screens
  imports Views
begin

text \<open>
  The pages the dashboard renders on the server, with what they ask of the API and what they show: overview, usage with
  its charts, logs, the pages around the managers of \<open>Views\<close>, and the frame with its navigation. Local times
  and local numbers are the runtime's: parameters.
\<close>

section \<open>Asking for two things at once\<close>

text \<open>\<^verbatim>\<open>Promise.all\<close> of two reads: both are made; the first that redirects or fails decides.\<close>

definition fetch_both ::
    "dash_env \<Rightarrow> 'w api_net \<Rightarrow> Session \<Rightarrow> string \<Rightarrow> string \<Rightarrow> ms \<Rightarrow> 'w \<Rightarrow> page_outcome \<times> ms \<times> 'w" where
  "fetch_both E net session p q t w =
     (let (a, t1, w1) = fetchOrRedirect E net session p t w; (b, t2, w2) = fetchOrRedirect E net session q t1 w1
      in (case (a, b) of
            (PageData x, PageData y) \<Rightarrow> PageData (JArr [x, y])
          | (PageData x, _) \<Rightarrow> b
          | _ \<Rightarrow> a, t2, w2))"

definition OverviewPage_data :: "dash_env \<Rightarrow> 'w api_net \<Rightarrow> Session \<Rightarrow> ms \<Rightarrow> 'w \<Rightarrow> page_outcome \<times> ms \<times> 'w" where
  "OverviewPage_data E net session = fetch_both E net session ''/billing/status'' ''/analytics?period=7d''"

definition SettingsPage_data :: "dash_env \<Rightarrow> 'w api_net \<Rightarrow> Session \<Rightarrow> ms \<Rightarrow> 'w \<Rightarrow> page_outcome \<times> ms \<times> 'w" where
  "SettingsPage_data E net session = fetch_both E net session ''/billing/status'' ''/webhooks''"

definition ApiKeysPage_data :: "dash_env \<Rightarrow> 'w api_net \<Rightarrow> Session \<Rightarrow> ms \<Rightarrow> 'w \<Rightarrow> page_outcome \<times> ms \<times> 'w" where
  "ApiKeysPage_data E net session = fetchOrRedirect E net session ''/api-keys''"

text \<open>A page shows data only when every read succeeded.\<close>

lemma fetch_both_shows_all:
  assumes "fetch_both E net session p q t w = (PageData v, t', w')"
  shows "\<exists>x y t1 w1. fetchOrRedirect E net session p t w = (PageData x, t1, w1)
    \<and> fetchOrRedirect E net session q t1 w1 = (PageData y, t', w') \<and> v = JArr [x, y]"
  using assms by (auto simp: fetch_both_def Let_def split: prod.splits page_outcome.splits)

section \<open>NavShell.tsx and the layouts\<close>

definition LINKS :: "(string \<times> string) list" where
  "LINKS =
     [(''/dashboard'', ''Overview''), (''/dashboard/api-keys'', ''API Keys''), (''/dashboard/usage'', ''Usage''),
       (''/dashboard/logs'', ''Logs''),
      (''/dashboard/settings'', ''Settings''), (''/playground'', ''Playground'')]"

text \<open>The button of the frame and the page inside it have actions of their own.\<close>

datatype 'a frame_action = Of_frame logout_action | Of_page 'a

definition NavShell_view :: "string \<Rightarrow> string \<Rightarrow> logout_button \<Rightarrow> 'a jsx list \<Rightarrow> 'a frame_action jsx list" where
  "NavShell_view email userRole lo children =
     [cls ''div'' ''app-shell''
        [cls ''aside'' ''sidebar''
           [cls ''div'' ''brand'' [Txt ''CloudMesh''],
            el ''nav'' (map (\<lambda>(href, label). Elem ''Link'' [(''key'', PText href), (''href'', PText href)] [] [Txt label]) LINKS),
            cls ''div'' ''user''
              (el ''div'' [Txt email, el ''br'' [], cls ''span'' ''pill'' [Txt userRole]]
               # map (map_jsx Of_frame) (LogoutButton_view lo))],
         cls ''main'' ''content'' (map (map_jsx Of_page) children)]]"

definition RootLayout_view :: "'a jsx list \<Rightarrow> 'a jsx list" where
  "RootLayout_view children = [Elem ''html'' [(''lang'', PText ''en'')] [] [el ''body'' children]]"

text \<open>\<^verbatim>\<open>app/page.tsx\<close>, and the layouts that need a session.\<close>

definition RootPage :: page_outcome where
  "RootPage = Redirected ''/dashboard''"

definition user_text :: "json \<Rightarrow> string \<Rightarrow> string" where
  "user_text user k = (case as_string (jget user k) of None \<Rightarrow> [] | Some s \<Rightarrow> s)"

definition framed_page ::
    "dash_env \<Rightarrow> jar \<Rightarrow> logout_button \<Rightarrow> 'a jsx list \<Rightarrow> (string, 'a frame_action jsx list) result" where
  "framed_page E jar lo children =
     (case getSession E jar of
        None \<Rightarrow> Inl ''/login''
      | Some session \<Rightarrow>
          (let user = (case ses_user session of None \<Rightarrow> JNull | Some u \<Rightarrow> u)
           in Inr (NavShell_view (user_text user ''email'') (user_text user ''role'') lo children)))"

lemma map_jsx_disabled [simp]: "submittable (map_jsx f n) = submittable n"
  by (induction n) (auto simp: list_ex_iff)

lemma map_jsx_controls: "controls (map_jsx f n) = map (\<lambda>h. f \<circ> h) (controls n)"
proof (induction n)
  case (Elem tag props on kids)
  have "list_ex submittable (map (map_jsx f) kids) = list_ex submittable kids" by (simp add: list_ex_iff)
  moreover have "concat (map controls (map (map_jsx f) kids)) = map (\<lambda>h. f \<circ> h) (concat (map controls kids))"
    using Elem by (simp add: map_concat comp_def cong: map_cong)
  ultimately show ?case by (auto simp: filter_map comp_def case_prod_beta)
qed simp

text \<open>The frame takes no event from the page inside it and adds only the way out.\<close>

lemma frame_controls:
  "all_controls (NavShell_view email userRole lo children) =
     map (\<lambda>h. Of_frame \<circ> h) (all_controls (LogoutButton_view lo))
       @ map (\<lambda>h. Of_page \<circ> h) (all_controls children)"
  by (simp add: NavShell_view_def disabled_def LINKS_def LogoutButton_view_def all_controls_def map_jsx_controls map_concat comp_def)

lemma frame_needs_session: "framed_page E jar lo children = Inl u \<longleftrightarrow> getSession E jar = None \<and> u = ''/login''"
  by (auto simp: framed_page_def Let_def split: option.splits)

section \<open>logs/page.tsx\<close>

definition toFixed4 :: "rat \<Rightarrow> string" where
  "toFixed4 x =
     (let c = math_round (\<bar>x\<bar> * 10000) in (if x < 0 then ''-'' else []) @ show_int (c div 10000) @
       ''.'' @ pad_to 4 (c mod 10000))"

abbreviation muted :: "(string \<times> prop_value) list \<Rightarrow> (string \<times> prop_value) list" where
  "muted more_style \<equiv> [(''style'', PStyle ((''color'', PText ''var(--muted)'') # more_style))]"

text \<open>A row comes with its id, which is only its key.\<close>

definition log_row :: "(string \<Rightarrow> string) \<Rightarrow> string \<times> LogEntry \<Rightarrow> 'a jsx" where
  "log_row local_time = (\<lambda>(ident, l).
     Elem ''tr'' [(''key'', PText ident)] []
       [el ''td'' [Txt (local_time (le_createdAt l))], el ''td'' [Txt (le_model l)], el ''td'' [Txt (number_text (le_promptTokens l))],
        el ''td'' [Txt (number_text (le_completionTokens l))], el ''td'' [Txt ''$'', Txt (toFixed4 (le_costUsd l))],
        Elem ''td'' [(''style'', PStyle [(''fontFamily'', PText ''ui-monospace, monospace''), (''fontSize'', PText ''0.75rem'')])] []
          [Txt (le_requestId l)]])"

definition LogsPage_view :: "(string \<Rightarrow> string) \<Rightarrow> string option \<Rightarrow> (string \<times> LogEntry) list \<Rightarrow> 'a jsx list" where
  "LogsPage_view local_time model logs =
     [el ''h1'' [Txt ''Request Logs''],
      Elem ''p'' (muted [(''fontSize'', PText ''0.85rem''), (''maxWidth'', PNum 640)]) []
        [Txt ''Each row is a billed request (from '', el ''code'' [Txt ''usage_records''],
         Txt ('') '' @ em_dash @ '' the durable, queryable per-request record this codebase persists. Full request/response detail ''
           @ ''(status code, headers, error text) lives in traces and structured logs instead, not here; use Jaeger for ''
           @ ''one specific failing request.'')],
      Elem ''form'' [(''method'', PText ''get''), (''className'', PText ''toolbar'')] []
        ([Elem ''div'' [(''className'', PText ''field''), (''style'', PStyle [(''marginBottom'', PNum 0)])] []
            [Txt ''Filter by model'',
             Elem ''input'' [(''name'', PText ''model''), (''defaultValue'',
               PText (case model of None \<Rightarrow> [] | Some m \<Rightarrow> m)),
               (''placeholder'', PText ''gpt-4o'')] [] []],
          Elem ''button'' [(''type'', PText ''submit'')] [] [Txt ''Filter'']]
         @ (if truthy model then
              [Elem ''a'' [(''href'', PText ''/dashboard/logs'')] []
                 [Elem ''button'' [(''type'', PText ''button''), (''className'', PText ''secondary'')] [] [Txt ''Clear'']]]
            else [])),
      el ''table''
        [el ''thead'' [el ''tr'' [th ''Time'', th ''Model'', th ''Prompt tokens'', th ''Completion tokens'', th ''Cost'', th ''Request ID'']],
         el ''tbody'' (map (log_row local_time) logs @ (if logs = [] then [empty_row 6 ''No requests found.''] else []))]]"

section \<open>usage/page.tsx and UsageCharts.tsx\<close>

text \<open>Month (from 0), day and hour of an ISO time in the browser's zone are the argument \<open>local_fields\<close>.\<close>

definition shortTime :: "(string \<Rightarrow> int \<times> int \<times> int) \<Rightarrow> string \<Rightarrow> string" where
  "shortTime local_fields isoTime =
     (case local_fields isoTime of (month, date, hours) \<Rightarrow> show_int (month + 1) @ ''/'' @ show_int date @
       '' '' @ show_int hours @ '':00'')"

definition tokensSeries :: "(string \<Rightarrow> int \<times> int \<times> int) \<Rightarrow> HourlyBucket list \<Rightarrow> (string \<times> prop_value) list list" where
  "tokensSeries local_fields buckets =
     map (\<lambda>b. [(''time'', PText (shortTime local_fields (hb_bucket b))), (''prompt'', PNum (hb_promptTokens b)),
               (''completion'', PNum (hb_completionTokens b))]) buckets"

definition model_points :: "ModelBreakdown list \<Rightarrow> (string \<times> prop_value) list list" where
  "model_points byModel =
     map (\<lambda>m. [(''model'', PText (mb_model m)), (''requests'', PNum (of_int (mb_requests m))),
       (''costUsd'', PNum (mb_costUsd m))]) byModel"

abbreviation leaf :: "string \<Rightarrow> (string \<times> prop_value) list \<Rightarrow> 'a jsx" where
  "leaf tag props \<equiv> Elem tag props [] []"

definition chart_grid :: "'a jsx" where
  "chart_grid = leaf ''CartesianGrid'' [(''strokeDasharray'', PText ''3 3''), (''stroke'', PText ''#232733'')]"

definition chart_tooltip :: "'a jsx" where
  "chart_tooltip = leaf ''Tooltip'' [(''contentStyle'', PStyle [(''background'', PText ''#12151c''), (''border'',
    PText ''1px solid #232733'')])]"

definition chart_axis :: "string \<Rightarrow> string option \<Rightarrow> 'a jsx" where
  "chart_axis tag dataKey =
     leaf tag ((case dataKey of None \<Rightarrow> [] | Some k \<Rightarrow> [(''dataKey'', PText k)]) @ [(''stroke'', PText ''#8b93a3''),
       (''fontSize'', PNum 12)])"

definition chart_frame :: "'a jsx \<Rightarrow> 'a jsx" where
  "chart_frame chart =
     Elem ''div'' [(''style'', PStyle [(''width'', PText ''100%''), (''height'', PNum 280)])] [] [el ''ResponsiveContainer'' [chart]]"

definition UsageCharts_view :: "(string \<Rightarrow> int \<times> int \<times> int) \<Rightarrow> HourlyBucket list \<Rightarrow> ModelBreakdown list \<Rightarrow> 'a jsx list" where
  "UsageCharts_view local_fields buckets byModel =
     [el ''h2'' [Txt ''Tokens per hour''],
      chart_frame (Elem ''LineChart'' [(''data'', PData (tokensSeries local_fields buckets))] []
        [chart_grid, chart_axis ''XAxis'' (Some ''time''), chart_axis ''YAxis'' None, chart_tooltip, leaf ''Legend'' [],
         leaf ''Line'' [(''type'', PText ''monotone''), (''dataKey'', PText ''prompt''), (''stroke'', PText ''#5b8cff''),
           (''dot'', PFlag False)],
         leaf ''Line'' [(''type'', PText ''monotone''), (''dataKey'', PText ''completion''), (''stroke'', PText ''#4cc38a''),
           (''dot'', PFlag False)]]),
      el ''h2'' [Txt ''Cost by model''],
      chart_frame (Elem ''BarChart'' [(''data'', PData (model_points byModel))] []
        [chart_grid, chart_axis ''XAxis'' (Some ''model''), chart_axis ''YAxis'' None, chart_tooltip,
         leaf ''Bar'' [(''dataKey'', PText ''costUsd''), (''fill'', PText ''#5b8cff'')]])]"

definition UsagePage_view :: "(string \<Rightarrow> int \<times> int \<times> int) \<Rightarrow> string option \<Rightarrow> HourlyBucket list \<Rightarrow> ModelBreakdown list \<Rightarrow> 'a jsx list" where
  "UsagePage_view local_fields period buckets byModel =
     [el ''h1'' [Txt ''Usage''],
      cls ''div'' ''toolbar''
        (map (\<lambda>p. Elem ''a'' [(''key'', PText p), (''href'', PText (''/dashboard/usage?period='' @ p))] []
            [Elem ''button'' [(''type'', PText ''button''), (''className'', PText (if p =
              usage_period period then [] else ''secondary''))] [] [Txt p]])
          [''24h'', ''7d'', ''30d''])]
     @ (if buckets = [] then [Elem ''p'' (muted []) [] [Txt ''No usage in this period yet.'']]
        else UsageCharts_view local_fields buckets byModel)"

text \<open>Every series a chart draws is a member of its points.\<close>

lemma charts_have_their_series:
  "p \<in> set (tokensSeries lf buckets) \<Longrightarrow> {''time'', ''prompt'', ''completion''} \<subseteq> fst ` set p"
  "p \<in> set (model_points byModel) \<Longrightarrow> {''model'', ''costUsd''} \<subseteq> fst ` set p"
  by (auto simp: tokensSeries_def model_points_def)

text \<open>Every period that is offered is one the API accepts, and is shown when it is followed.\<close>

lemma offered_periods:
  assumes "p \<in> {''24h'', ''7d'', ''30d''}"
  shows "usage_period (Some p) = p" and "periodSchema (Some (usage_period v)) = Some (usage_period v)"
  using assms usage_period_known [of v] by (auto simp: usage_period_def periodSchema_def)

section \<open>dashboard/page.tsx\<close>

definition overview_card :: "string \<Rightarrow> string \<Rightarrow> 'a jsx" where
  "overview_card label figure = cls ''div'' ''card'' [cls ''div'' ''label'' [Txt label], cls ''div'' ''value'' [Txt figure]]"

definition budget_left :: "BudgetStatus \<Rightarrow> string" where
  "budget_left b =
     (case budgetUsd b of
        None \<Rightarrow> ''Unlimited''
      | Some limit \<Rightarrow> money (max (case remainingUsd b of None \<Rightarrow> 0 | Some r \<Rightarrow> r) 0) @
        '' of '' @ money limit)"

definition recent_buckets :: "HourlyBucket list \<Rightarrow> HourlyBucket list" where
  "recent_buckets bs = rev (drop (length bs - 10) bs)"

definition OverviewPage_view :: "(rat \<Rightarrow> string) \<Rightarrow> (string \<Rightarrow> string) \<Rightarrow> BudgetStatus \<Rightarrow> AnalyticsSummary \<Rightarrow> 'a jsx list" where
  "OverviewPage_view local_number local_time budget analytics =
     (let totals = as_totals analytics; n = of_int (an_requests totals) in
      [el ''h1'' [Txt ''Overview''],
       cls ''div'' ''card-grid''
         [overview_card ''Requests (7d)'' (local_number n),
          overview_card ''Tokens (7d)'' (local_number (an_tokens totals)),
          overview_card ''Cost (7d)'' (money (an_costUsd totals)),
          overview_card ''Avg cost / request'' (money (avgPerRequest (an_costUsd totals) n)),
          overview_card (''This month'' @ [CHR 0x27] @ ''s spend'') (money (spentUsd budget)),
          overview_card ''Budget remaining'' (budget_left budget)],
       el ''h2'' [Txt ''Recent activity''],
       (if as_buckets analytics = [] then Elem ''p'' (muted []) [] [Txt ''No requests in the last 7 days yet.'']
        else
          el ''table''
            [el ''thead'' [el ''tr'' [th ''Hour'', th ''Requests'']],
             el ''tbody'' (map (\<lambda>b. Elem ''tr'' [(''key'', PText (hb_bucket b))] []
               [el ''td'' [Txt (local_time (hb_bucket b))], el ''td'' [Txt (show_int (hb_requests b))]])
               (recent_buckets (as_buckets analytics)))])])"

text \<open>At most ten buckets, the latest first, when the API lists them in the order of their times.\<close>

lemma recent_buckets_latest:
  fixes time_of :: "HourlyBucket \<Rightarrow> 't::linorder"
  assumes "sorted (map time_of bs)"
  shows "length (recent_buckets bs) = min 10 (length bs)" and "sorted (map time_of (rev (recent_buckets bs)))"
    and "b \<in> set (recent_buckets bs) \<Longrightarrow> c \<in> set (take (length bs - 10) bs) \<Longrightarrow> time_of c \<le> time_of b"
proof -
  show "length (recent_buckets bs) = min 10 (length bs)" by (simp add: recent_buckets_def)
  show "sorted (map time_of (rev (recent_buckets bs)))"
    using assms by (simp add: recent_buckets_def sorted_wrt_drop drop_map [symmetric])
  have "sorted (map time_of (take (length bs - 10) bs) @ map time_of (drop (length bs - 10) bs))"
    using assms by (metis append_take_drop_id map_append)
  then show "b \<in> set (recent_buckets bs) \<Longrightarrow> c \<in> set (take (length bs - 10) bs) \<Longrightarrow> time_of c \<le> time_of b"
    by (auto simp: recent_buckets_def sorted_append)
qed

section \<open>settings/page.tsx, api-keys/page.tsx\<close>

definition SettingsPage_view :: "json \<Rightarrow> settings_page \<times> endpoint_listing list \<Rightarrow> settings_action jsx list" where
  "SettingsPage_view user st =
     [el ''h1'' [Txt ''Settings''],
      Elem ''p'' (muted [(''fontSize'', PText ''0.85rem'')]) []
        [Txt ''Signed in as '', el ''strong'' [Txt (user_text user ''email'')], Txt '' ('', Txt (user_text user ''role''), Txt '')'']]
     @ settings_view st"

definition ApiKeysPage_view :: "(ms \<Rightarrow> string) \<Rightarrow> keys_page \<times> ApiKeySummary list \<Rightarrow> keys_action jsx list" where
  "ApiKeysPage_view local_time st = el ''h1'' [Txt ''API Keys''] # keys_view local_time st"

text \<open>The state a manager starts in: the budget as text, nothing typed, nothing under way.\<close>

definition settings_start :: "BudgetStatus \<Rightarrow> settings_page" where
  "settings_start budget =
     \<lparr>st_budgetInput = (case budgetUsd budget of None \<Rightarrow> [] | Some b \<Rightarrow> number_text b), st_budgetError =
       None, st_savingBudget = False,
      st_url = [], st_selectedEvents = [], st_webhookError = None, st_registering = False, st_newSecret = None, st_refreshes = 0\<rparr>"

definition keys_start :: keys_page where
  "keys_start = \<lparr>kp_scopes = ''chat:write'', kp_rateLimitRpm = ''60'', kp_creating = False, kp_error = None, kp_rawKey = None,
     kp_revokingId = None, kp_refreshes = 0\<rparr>"

lemma number_text_of_nat: "number_text (of_nat n) = show_nat n"
proof -
  have "frac_digits k 0 = []" for k by (cases k) simp_all
  then show ?thesis by (simp add: number_text_def Let_def)
qed

lemma trim_show_nat: "trim (show_nat n) \<noteq> []"
proof -
  have "\<not> is_space c" if "c \<in> set (show_nat n)" for c using show_nat_digits [of c n] that by (auto simp: is_digit_def is_space_def)
  then show ?thesis by (metis trim_id hd_in_set last_in_set show_nat_nonempty)
qed

text \<open>
  The form is filled in with the budget in force, also when that is the plan's default: saving it unchanged turns the
  default into an override, which a later change of plan no longer moves.
\<close>

lemma unchanged_budget_becomes_override:
  assumes "budgetUsd budget = Some (of_nat n)"
  shows "\<exists>q. snd (settings_act Submitted_budget (settings_start budget, whs)) = [Save_budget q]
    \<and> fq_body q = Some (JObj [(''monthlyBudgetOverrideUsd'', JNum (of_nat n))])"
  using assms trim_show_nat [of n]
  by (simp add: settings_start_def number_text_of_nat js_number_show_nat number_json_def)

end
