(* ===== verification/Spec2Isabelle.thy ===== *)
theory Spec2Isabelle
  imports RateLimiter CircuitBreaker Routing Billing Webhooks ApiKeys GatewayState Jobs Events Accounts Stripe Chat ApiRoutes Sdk
    Dashboard Config Processes Pages Tenancy Observability Scripts ApiDocs
    Lifecycle Views Screens
begin

text \<open>
  A verification development for CloudMesh, a multi-tenant gateway in front of language-model providers.

  \<^bold>\<open>The program.\<close> \<^verbatim>\<open>apps/gateway\<close> answers chat requests: it checks an API key and a rate limit, decides
  which model to call, calls it behind a circuit breaker, caches and replays answers, bills the tokens and runs
  background jobs. \<^verbatim>\<open>apps/api\<close> keeps accounts, sessions, API keys, webhooks, budgets and the Stripe
  subscription. Both share PostgreSQL and Redis. What happened is written to an outbox table inside the same
  transaction as its cause; a poller publishes it on NATS JetStream, and consumers turn it into the audit
  log, daily counters, webhook deliveries, mails and metered usage. \<^verbatim>\<open>packages/sdk\<close> is the client library and
  \<^verbatim>\<open>apps/dashboard\<close> the web interface, a client of both servers.

  \<^bold>\<open>Foundations.\<close>
  \<^item> \<open>Prelude\<close>: value types, the JavaScript library functions in use, the collections of rewrite rules
    \<open>key_simps\<close>, \<open>laws\<close> and \<open>js_simps\<close>, lemmas on lists.
  \<^item> \<open>Json\<close>, \<open>JsonText\<close>, \<open>JsNumber\<close>: \<^verbatim>\<open>JSON.parse\<close>, \<^verbatim>\<open>JSON.stringify\<close> and
    \<^verbatim>\<open>Number\<close>, with their round trips.
  \<^item> \<open>Redis\<close>: the record of the commands the sources issue, the locale \<open>redis_service\<close> with their
    documented behaviour, and \<open>mem_redis\<close>, a server that meets it.
  \<^item> \<open>Database\<close>: the tables of \<^verbatim>\<open>schema.prisma\<close> as lists of rows, and \<^verbatim>\<open>withTenant\<close>.
  \<^item> \<open>Errors\<close>: the error classes of the gateway; \<open>thrown\<close> is what a function may throw.

  \<^bold>\<open>The gateway.\<close>
  \<^item> \<open>RateLimiter\<close> (\<^verbatim>\<open>packages/rate-limiter\<close>): four limiters, each its Lua script and the function
    around it. The locale \<open>credit_limiter\<close> is the contract of three of them (\<open>token_bucket_traffic\<close>
    and \<open>window_traffic\<close> are its sublocales); the fourth refines the exact sliding window.
  \<^item> \<open>CircuitBreaker\<close> (\<^verbatim>\<open>packages/circuit-breaker\<close>): both scripts, the wrapper, the retry loop.
  \<^item> \<open>Sse\<close>, \<open>Providers\<close> (\<^verbatim>\<open>lib/sse.ts\<close>, \<^verbatim>\<open>providers\<close>): event-stream framing and the adapters
    for OpenAI, Anthropic, Gemini and Ollama, in JSON and streamed form, and the mock.
  \<^item> \<open>Routing\<close> (\<^verbatim>\<open>lib/pricing.ts\<close>, \<^verbatim>\<open>providerStats.ts\<close>, \<^verbatim>\<open>routingScoring.ts\<close>,
    \<^verbatim>\<open>routing.ts\<close>, \<^verbatim>\<open>resolveModel.ts\<close>, \<^verbatim>\<open>resilience.ts\<close>): which model is called and how.
  \<^item> \<open>Outbox\<close>, \<open>Billing\<close> (\<^verbatim>\<open>packages/outbox\<close>, \<^verbatim>\<open>packages/billing\<close>, \<^verbatim>\<open>lib/billing.ts\<close>,
    \<^verbatim>\<open>lib/billingLock.ts\<close>): the outbox, budgets, usage rows, and the distributed lock as the step relation
    \<open>lock_step\<close> over all interleavings of its callers.
  \<^item> \<open>ApiKeys\<close>, \<open>GatewayState\<close>: keys with their Redis cache and the guards in front of a request;
    feature flags, idempotent replay, coalescing, the semantic cache, live statistics.
  \<^item> \<open>Webhooks\<close>, \<open>Jobs\<close>, \<open>Events\<close>: deliveries behind the address guard, background jobs through
    their attempts, the event bus with its subscribers.
  \<^item> \<open>Chat\<close> (\<^verbatim>\<open>modules/chat\<close>): the chat endpoint, which composes all of these in the order of the
    source.
  \<^item> \<open>Config\<close>, \<open>Processes\<close>: what the two servers accept as configuration, and what the processes add: error
    handlers, timers, publisher, subscriptions with their redelivery, mail.
  \<^item> \<open>Observability\<close> (\<^verbatim>\<open>packages/metrics\<close>, \<^verbatim>\<open>packages/telemetry\<close>): the metrics, the spans, and what the
    guards, the chat endpoint and the breaker timer record. A run is the list of its recordings, and a counter their sum.
  \<^item> \<open>Lifecycle\<close>: the start and the shutdown of the five processes as lists of actions that may fail, the outbox
    poller and the subscription loop with their \<^verbatim>\<open>stop\<close>, and how queues, workers, stream and consumers are set up.
  \<^item> \<open>ApiDocs\<close> (\<^verbatim>\<open>packages/openapi\<close>, \<^verbatim>\<open>modules/docs\<close>): the published API document as a JSON value,
    compared with the routes and validators of the gateway.

  \<^bold>\<open>The account service, the client, the dashboard.\<close>
  \<^item> \<open>Accounts\<close>, \<open>Stripe\<close>, \<open>ApiRoutes\<close> (\<^verbatim>\<open>apps/api\<close>): registration, login, refresh and logout;
    signed webhook events, budgets and invoices; analytics and the remaining routes, with the listing and
    progress routes of the gateway.
  \<^item> \<open>Sdk\<close> (\<^verbatim>\<open>packages/sdk\<close>): the request loop, the calls, the stream reader.
  \<^item> \<open>Dashboard\<close>, \<open>Pages\<close> (\<^verbatim>\<open>apps/dashboard\<close>): the sealed session cookie, the calls with
    refresh, the route handlers, and the event handlers of the pages.
  \<^item> \<open>Views\<close>, \<open>Screens\<close> (\<^verbatim>\<open>apps/dashboard\<close>): the markup as trees of elements. \<open>page_step\<close> is what a
    user can do with a page while its requests are answered in any order, and the locale \<open>guarded_form\<close> what keeps a form
    from being submitted twice; \<open>Screens\<close> has the pages that are rendered on the server.
  \<^item> \<open>Scripts\<close> (\<^verbatim>\<open>packages/db\<close>): the two database connections, the seed, the password rotation.

  \<open>Tenancy\<close> puts the services together from the tenants' side: a step relation of all calls that write for an
  organisation, and the reads of another. This root theory holds the properties that span components and no single one of them owns.

  \<^bold>\<open>How state and code correspond.\<close> A function of the source keeps its name. One that reads or writes a store
  takes the store as its last argument and returns it updated; Redis operations take the record of commands
  first, database operations the record \<open>db\<close> of all tables. An \<^verbatim>\<open>await\<close> that throws is \<open>Inl\<close>, a
  value is \<open>Inr\<close>. Times, fresh identifiers and random bytes are arguments. Where other requests may run
  between two steps of one (the chat endpoint, the circuit breaker, the billing lock) the
  store is handed through a function that may change it, or the steps are a relation.

  \<^bold>\<open>Parameters.\<close> Code outside the repository is an argument: the Redis commands, the HTTP network, DNS,
  JetStream's \<^verbatim>\<open>publish\<close> (locale \<open>event_stream\<close>), BullMQ's decision to run a job again,
  \<^verbatim>\<open>jsonwebtoken\<close> and \<^verbatim>\<open>bcryptjs\<close> (\<open>credential_libs\<close>; \<open>jwt_cookie\<close> adds
  that a token holds no cookie separator), AES-256-GCM (\<open>aead\<close>), SHA-256 and HMAC, zod's tests for UUIDs, mail addresses and
  URLs, what Prisma takes a row limit to mean, the vector distance of the database, the schemas zod
  generates, the order of Fastify's closing hooks, and how the browser prints times and numbers. Each of these locales is interpreted on a concrete
  function, on which the witnesses of the properties run. \<open>framed_redis\<close> adds to
  \<open>redis_service\<close> that writing a set or a sorted set leaves other keys alone; \<open>job_handler\<close> is the contract of the two
  job handlers of the source, \<open>guarded_form\<close> that of the forms of the dashboard.

  \<^bold>\<open>What the lemmas show.\<close> For the limiters, what any traffic gets through; for the breaker, when it trips,
  and that one probe decides; for billing, that a request is billed once and only if served, and that the lock
  excludes; for outbox, bus and consumers, that events are delivered in order, audited exactly once and
  never lost in between; for keys and sessions, that caching is invisible, refresh tokens work once and a
  cookie is what the server sealed; for webhooks, which addresses are refused, byte for byte, and how a delivery
  ends; for tenants, that no call for one organisation changes what another reads; for jobs, the verdict of a series of attempts and that retries bill nothing twice; for framing,
  streams and the client, that results do not depend on how the network cut the text; for routing,
  caches, analytics and configuration, the functional behaviour on every branch; for the metrics, that they agree with the
  usage table; for the API document, that it describes the gateway; for the processes, that none uses what it has closed;
  for the pages, what their forms can send.

  \<^bold>\<open>Bounds and fuel.\<close> \<open>JSON.parse\<close> recurses on a fuel of twice the length of the text and two, which
  is enough for every text: with any larger fuel the result is the same (\<open>json_parse_fuel\<close>). The retry loops (\<open>withRetry_loop\<close>, \<open>request_loop\<close>) terminate on the number of attempts that
  remain, the readers on the text that remains. Job and delivery attempts are lists, bounded by the
  source's own limits.

  \<^bold>\<open>Conventions.\<close> Strings are lists of 8-bit characters: the bytes of the UTF-8 text. Numbers with
  fractions are exact rationals, so rounding of floating point is not modelled; what the source rounds itself
  is. Timestamps and counters are integers, IPv4 addresses 32-bit words. All clocks of one run agree.

  \<^bold>\<open>Not modelled.\<close> The start of the OpenTelemetry SDK and the text of \<^verbatim>\<open>/metrics\<close> (calls into the two
  libraries, without a decision of the program's own); how React and the browser draw a page and check an input; style
  sheets; signals during start-up; timeouts, which are among the failures the network parameter may return; the final
  scaling of the mock embedding by a square root.
\<close>

section \<open>From a transaction to the audit log\<close>

text \<open>
  C8. Nothing the outbox calls published is lost on the way to the audit log: start from a stream that
  agrees with the outbox and run the poller over the NATS publisher for any number of ticks, with any
  failures of the publish calls and with events of any tenants. When the audit consumer then has
  had each message of the stream at least once, in any order and with any repetitions, every event the
  outbox has marked published and that names a tenant has exactly one row in the audit log.
\<close>

theorem published_events_audited_once:
  assumes "event_stream js_publish stored" and "stream_ok (stored w) d"
    and "startOutboxPoller (NatsEventPublisher_publish js_publish clock) ticks w d = (w', d')"
    and "set (stored w') \<subseteq> set deliveries" and "distinct (map al_eventId (audit_log d'))"
    and "e \<in> set (outbox_events d')" and "ob_publishedAt e \<noteq> None" and "audit_row zuuid (event_message t e) = Some r"
  shows "length (filter (\<lambda>a. al_eventId a = ob_id e)
      (audit_log (snd (consume_all zuuid ''cloudmesh.>'' audit_handler deliveries d')))) = 1"
proof -
  have "stream_ok (stored w') d'"
    by (rule event_stream.startOutboxPoller_ok [OF assms(1-3)])
  then obtain ts where "event_message ts e \<in> set deliveries"
    using assms(4,6,7) unfolding stream_ok_def on_stream_def by blast
  moreover have "audit_row zuuid (event_message ts e) = Some r" using assms(8) audit_row_event by metis
  moreover have "al_eventId r = ob_id e" by (rule audit_row_id [OF assms(8)])
  ultimately have mem: "ob_id e \<in> {al_eventId r | r. \<exists>m \<in> set deliveries. audit_row zuuid m = Some r}"
    unfolding mem_Collect_eq by metis
  obtain rows where rows: "snd (consume_all zuuid ''cloudmesh.>'' audit_handler deliveries d') = d'\<lparr>audit_log := audit_log d' @ rows\<rparr>"
    "distinct (map al_eventId (audit_log d' @ rows))"
    "set (map al_eventId (audit_log d' @ rows)) = set (map al_eventId (audit_log d'))
       \<union> {al_eventId r | r. \<exists>m \<in> set deliveries. audit_row zuuid m = Some r}"
    by (rule audit_run [OF assms(5), of zuuid deliveries])
  then have "ob_id e \<in> set (map al_eventId (audit_log d' @ rows))" using mem by simp
  from distinct_key_count [OF rows(2) this] show ?thesis by (simp add: rows(1))
qed

definition demo_event :: OutboxEvent where
  "demo_event = \<lparr>ob_id = ''e1'', ob_eventType = ''job.failed'', ob_payload = JObj [(''orgId'', JStr demo_org)],
     ob_publishedAt = None, ob_createdAt = 1\<rparr>"

lemma audit_row_demo_event: "audit_row zuuid (event_message t demo_event) = Some (demo_row ''e1'')"
proof -
  have "parseEvent zuuid (the (msg_data (event_message t demo_event))) =
      Inr (\<lparr>env_eventId = ''e1'', env_eventType = ''job.failed'', env_timestamp = toISOString t,
            env_payload = Some (JObj [(''orgId'', JStr demo_org)])\<rparr>, Some (JObj [(''orgId'', JStr demo_org)]))"
    by (simp add: event_message_def demo_event_def parseEvent_def eventEnvelope_round_trip id_len_ok_def prop_lookup_def
        PAYLOAD_SCHEMAS_def object_prototype_keys_def)
  moreover have "demo_org \<noteq> []" by (simp add: demo_org_def)
  ultimately show ?thesis
    by (simp add: audit_row_def event_message_def demo_event_def demo_row_def subject_matches_def subjectFor_def payload_org_def)
qed

theorem published_events_audited_once_witness:
  "\<exists>w' d'. startOutboxPoller (NatsEventPublisher_publish (mem_js_publish (\<lambda>_. False)) (\<lambda>_. 7)) [5] []
       (empty_db\<lparr>outbox_events := [demo_event]\<rparr>) = (w', d')
     \<and> length (filter (\<lambda>a. al_eventId a = ''e1'')
         (audit_log (snd (consume_all (\<lambda>_. True) ''cloudmesh.>'' audit_handler (w' @ w') d')))) = 1"
proof -
  let ?d = "empty_db\<lparr>outbox_events := [demo_event]\<rparr>"
  let ?d' = "empty_db\<lparr>outbox_events := [demo_event\<lparr>ob_publishedAt := Some 5\<rparr>]\<rparr>"
  have run: "startOutboxPoller (NatsEventPublisher_publish (mem_js_publish (\<lambda>_. False)) (\<lambda>_. 7)) [5] [] ?d =
      ([event_message 7 demo_event], ?d')"
    by (simp add: pollOutbox_def pending_events_def NatsEventPublisher_publish_def bus_publish_def mem_js_publish_def
        mark_published_def event_message_def) (simp add: demo_event_def)
  have "stream_ok [] ?d" by (simp add: stream_ok_def demo_event_def)
  then have "length (filter (\<lambda>a. al_eventId a = ob_id (demo_event\<lparr>ob_publishedAt := Some 5\<rparr>)) (audit_log (snd (consume_all (\<lambda>_. True)
      ''cloudmesh.>'' audit_handler ([event_message 7 demo_event] @ [event_message 7 demo_event]) ?d')))) = 1"
    by (intro published_events_audited_once [OF mem_stream.event_stream_axioms _ run, where t = 0 and r = "demo_row ''e1''"])
      (simp_all add: empty_db_def audit_row_demo_event)
  with run show ?thesis by (intro exI conjI) (auto simp: demo_event_def)
qed

end
